(* ===== verification/Prelude.thy ===== *)
theory Prelude
  imports Complex_Main "HOL-Library.AList" "HOL-Library.Multiset"
begin

text \<open>
  Shared vocabulary of the development.

  \<^item> Numbers. Every quantity and every rupee of the program is a JavaScript number. They are
    modelled as exact rationals: a finite double is a rational, and the program keeps its figures
    on a decimal grid (three decimals for quantities, two for money), so what the model leaves out
    is the representation error of a double that is never more than a fraction of the grid. The
    rounding the program performs (\<open>Math.round\<close>, PostgreSQL's \<open>round\<close>) is written out.
  \<^item> \<open>Map\<close> and object accumulators are association lists: \<open>AList.update\<close> overwrites in place or
    appends, which is the insertion order a JavaScript \<open>Map\<close> iterates in.
  \<^item> \<open>Array.prototype.sort\<close> is a stable sort by a comparator: \<open>stable_sort\<close>.
\<close>

named_theorems grid_intros "closure facts of the decimal grids"
named_theorems stock_simps "how an operation changes what is read off the ledger"

type_synonym number = rat
type_synonym key = string
type_synonym instant = int  \<comment> \<open>milliseconds since the Unix epoch, as a JavaScript \<open>Date\<close> counts\<close>

section \<open>Rounding\<close>

text \<open>\<open>Math.round\<close>: to the nearest integer, a half towards plus infinity.\<close>

definition js_round :: "number \<Rightarrow> int" where
  "js_round v = \<lfloor>v + 1/2\<rfloor>"

definition round3 :: "number \<Rightarrow> number" where
  "round3 v = of_int (js_round (v * 1000)) / 1000"

definition round2 :: "number \<Rightarrow> number" where
  "round2 v = of_int (js_round (v * 100)) / 100"

text \<open>Closed figures evaluate by the simplifier.\<close>

lemma floor_ratio [simp]:
  "\<lfloor>(numeral a / numeral b :: number)\<rfloor> = numeral a div numeral b"
  "\<lfloor>- (numeral a / numeral b :: number)\<rfloor> = (- numeral a) div numeral b"
  "\<lfloor>(1 / numeral b :: number)\<rfloor> = 1 div numeral b"
  "\<lfloor>- (1 / numeral b :: number)\<rfloor> = (- 1) div numeral b"
  using floor_divide_of_int_eq [of "numeral a" "numeral b", where 'a = number]
    floor_divide_of_int_eq [of "- numeral a" "numeral b", where 'a = number]
    floor_divide_of_int_eq [of 1 "numeral b", where 'a = number]
    floor_divide_of_int_eq [of "- 1" "numeral b", where 'a = number]
  by simp_all

text \<open>PostgreSQL's \<open>round(numeric, 3)\<close>: a half goes away from zero.\<close>

definition pg_round3 :: "number \<Rightarrow> number" where
  "pg_round3 v = (if v < 0 then - (of_int \<lfloor>- v * 1000 + 1/2\<rfloor> / 1000)
                  else of_int \<lfloor>v * 1000 + 1/2\<rfloor> / 1000)"

text \<open>The interface of a rounding to a decimal grid: what its clients rely on.\<close>

locale grid_rounding =
  fixes scale :: number and r :: "number \<Rightarrow> number"
  assumes scale_pos: "0 < scale"
    and r_def: "r v = of_int (js_round (v * scale)) / scale"
begin

lemma round_of_int [simp]: "r (of_int k / scale) = of_int k / scale"
  using scale_pos by (simp add: r_def js_round_def floor_eq_iff)

lemma round_on_grid: "\<exists>k. r v = of_int k / scale"
  by (auto simp: r_def)

lemma round_idem: "r (r v) = r v"
  using round_on_grid [of v] by auto

lemma round_mono: "v \<le> w \<Longrightarrow> r v \<le> r w"
  using scale_pos
  by (auto simp: r_def js_round_def intro!: divide_right_mono floor_mono mult_right_mono)

lemma round_add_grid: "r (of_int k / scale + v) = of_int k / scale + r v"
proof -
  have "(of_int k / scale + v) * scale + 1/2 = (v * scale + 1/2) + of_int k"
    using scale_pos by (simp add: distrib_right)
  then have "js_round ((of_int k / scale + v) * scale) = js_round (v * scale) + k"
    by (simp only: js_round_def floor_add_int [symmetric])
  then show ?thesis by (simp add: r_def add_divide_distrib)
qed

lemma round_error: "\<bar>r v - v\<bar> \<le> 1 / (2 * scale)"
proof -
  let ?k = "js_round (v * scale)"
  have "of_int ?k \<le> v * scale + 1/2" "v * scale + 1/2 < of_int ?k + 1"
    unfolding js_round_def by linarith+
  then have "\<bar>of_int ?k - v * scale\<bar> \<le> 1/2" by linarith
  then have "\<bar>of_int ?k - v * scale\<bar> / scale \<le> 1/2 / scale"
    using scale_pos by (intro divide_right_mono) auto
  moreover have "r v - v = (of_int ?k - v * scale) / scale"
    using scale_pos by (simp add: r_def diff_divide_distrib)
  ultimately show ?thesis using scale_pos by simp
qed

lemma round_zero [simp]: "r 0 = 0"
  using round_of_int [of 0] by simp

lemma round_nonneg: "0 \<le> v \<Longrightarrow> 0 \<le> r v"
  using round_mono [of 0 v] by simp

lemma round_nonpos: "v \<le> 0 \<Longrightarrow> r v \<le> 0"
  using round_mono [of v 0] by simp

lemma round_le_grid: "v \<le> of_int k / scale \<Longrightarrow> r v \<le> of_int k / scale"
  using round_mono [of v "of_int k / scale"] by simp

lemma round_ge_grid: "of_int k / scale \<le> v \<Longrightarrow> of_int k / scale \<le> r v"
  using round_mono [of "of_int k / scale" v] by simp

end

interpretation r3: grid_rounding 1000 round3
  by unfold_locales (simp_all add: round3_def)

interpretation r2: grid_rounding 100 round2
  by unfold_locales (simp_all add: round2_def)

text \<open>A quantity on the three-decimal grid, a sum of money on the two-decimal one.\<close>

definition is3 :: "number \<Rightarrow> bool" where "is3 v \<longleftrightarrow> round3 v = v"
definition is2 :: "number \<Rightarrow> bool" where "is2 v \<longleftrightarrow> round2 v = v"

lemma is3_iff: "is3 v \<longleftrightarrow> (\<exists>k. v = of_int k / 1000)"
  by (metis is3_def r3.round_of_int r3.round_on_grid)

lemma is2_iff: "is2 v \<longleftrightarrow> (\<exists>k. v = of_int k / 100)"
  by (metis is2_def r2.round_of_int r2.round_on_grid)

lemma is3_round3 [simp, grid_intros]: "is3 (round3 v)"
  by (simp add: is3_def r3.round_idem)

lemma is2_round2 [simp, grid_intros]: "is2 (round2 v)"
  by (simp add: is2_def r2.round_idem)

lemma round3_id [simp]: "is3 v \<Longrightarrow> round3 v = v"
  by (simp add: is3_def)

lemma round2_id [simp]: "is2 v \<Longrightarrow> round2 v = v"
  by (simp add: is2_def)

lemma is3_add [grid_intros]: "is3 v \<Longrightarrow> is3 w \<Longrightarrow> is3 (v + w)"
  unfolding is3_iff by (metis add_divide_distrib of_int_add)

lemma is3_diff [grid_intros]: "is3 v \<Longrightarrow> is3 w \<Longrightarrow> is3 (v - w)"
  unfolding is3_iff by (metis diff_divide_distrib of_int_diff)

lemma is3_minus [grid_intros]: "is3 v \<Longrightarrow> is3 (- v)"
  unfolding is3_iff by (metis minus_divide_left of_int_minus)

lemma is2_add [grid_intros]: "is2 v \<Longrightarrow> is2 w \<Longrightarrow> is2 (v + w)"
  unfolding is2_iff by (metis add_divide_distrib of_int_add)

lemma is2_diff [grid_intros]: "is2 v \<Longrightarrow> is2 w \<Longrightarrow> is2 (v - w)"
  unfolding is2_iff by (metis diff_divide_distrib of_int_diff)

lemma is3_of_int [simp, grid_intros]: "is3 (of_int k)"
  unfolding is3_iff by (rule exI [of _ "k * 1000"]) simp

lemma is3_0 [simp, grid_intros]: "is3 0" and is3_1 [simp, grid_intros]: "is3 1"
  using is3_of_int [of 0] is3_of_int [of 1] by simp_all

lemma is2_0 [simp, grid_intros]: "is2 0"
  by (simp add: is2_def)

lemma is3_numeral [simp, grid_intros]: "is3 (numeral n)"
  using is3_of_int [of "numeral n"] by simp

lemma is3_min [grid_intros]: "is3 v \<Longrightarrow> is3 w \<Longrightarrow> is3 (min v w)"
  and is3_max [grid_intros]: "is3 v \<Longrightarrow> is3 w \<Longrightarrow> is3 (max v w)"
  by (simp_all add: min_def max_def)

lemma is2_min [grid_intros]: "is2 v \<Longrightarrow> is2 w \<Longrightarrow> is2 (min v w)"
  and is2_max [grid_intros]: "is2 v \<Longrightarrow> is2 w \<Longrightarrow> is2 (max v w)"
  by (simp_all add: min_def max_def)

lemma is3_sum_list [grid_intros]: "(\<And>x. x \<in> set xs \<Longrightarrow> is3 (f x)) \<Longrightarrow> is3 (\<Sum>x\<leftarrow>xs. f x)"
  by (induction xs) (auto intro: grid_intros)

lemma round3_add_grid [simp]: "is3 v \<Longrightarrow> round3 (v + w) = v + round3 w"
proof -
  assume "is3 v"
  then obtain k where "v = of_int k / 1000" unfolding is3_iff by blast
  then show ?thesis by (simp only: r3.round_add_grid)
qed

lemma round3_add_grid' [simp]: "is3 w \<Longrightarrow> round3 (v + w) = round3 v + w"
  using round3_add_grid [of w v] by (simp add: add.commute)

lemma pg_round3_id [simp]: "is3 v \<Longrightarrow> pg_round3 v = v"
proof -
  assume "is3 v"
  then obtain k where v: "v = of_int k / 1000" by (auto simp: is3_iff)
  have "\<lfloor>(of_int k :: number) + 1/2\<rfloor> = k" "\<lfloor>- (of_int k :: number) + 1/2\<rfloor> = - k"
    by (simp_all add: floor_eq_iff)
  then show ?thesis by (simp add: pg_round3_def v)
qed

lemma pg_round3_minus: "v \<noteq> 0 \<Longrightarrow> pg_round3 (- v) = - pg_round3 v"
  by (simp add: pg_round3_def)

section \<open>Stable sorting\<close>

text \<open>\<open>Array.prototype.sort\<close> with a comparator, read as \<open>le x y\<close> for a result \<open>\<le> 0\<close>. The language
  guarantees stability; for a total preorder every stable sort gives the same answer, so insertion
  sort stands for it.\<close>

fun insert_by :: "('a \<Rightarrow> 'a \<Rightarrow> bool) \<Rightarrow> 'a \<Rightarrow> 'a list \<Rightarrow> 'a list" where
  "insert_by le x [] = [x]"
| "insert_by le x (y # ys) = (if le x y then x # y # ys else y # insert_by le x ys)"

definition stable_sort :: "('a \<Rightarrow> 'a \<Rightarrow> bool) \<Rightarrow> 'a list \<Rightarrow> 'a list" where
  "stable_sort le xs = foldr (insert_by le) xs []"

lemma mset_insert_by [simp]: "mset (insert_by le x ys) = add_mset x (mset ys)"
  by (induction ys) auto

lemma mset_stable_sort [simp]: "mset (stable_sort le xs) = mset xs"
  by (induction xs) (auto simp: stable_sort_def)

lemma set_stable_sort [simp]: "set (stable_sort le xs) = set xs"
  by (metis mset_stable_sort set_mset_mset)

lemma set_insert_by [simp]: "set (insert_by le x ys) = insert x (set ys)"
  by (induction ys) auto

lemma length_stable_sort [simp]: "length (stable_sort le xs) = length xs"
  by (metis mset_stable_sort size_mset)

text \<open>What a comparator must satisfy for the result to be ordered by it.\<close>

definition total_preorder :: "('a \<Rightarrow> 'a \<Rightarrow> bool) \<Rightarrow> bool" where
  "total_preorder le \<longleftrightarrow> (\<forall>x y. le x y \<or> le y x) \<and> (\<forall>x y z. le x y \<longrightarrow> le y z \<longrightarrow> le x z)"

lemma sorted_insert_by:
  assumes "total_preorder le" and "sorted_wrt le ys"
  shows "sorted_wrt le (insert_by le x ys)"
  using assms(2)
proof (induction ys)
  case (Cons y ys)
  then show ?case using assms(1) unfolding total_preorder_def by auto
qed simp

lemma sorted_stable_sort: "total_preorder le \<Longrightarrow> sorted_wrt le (stable_sort le xs)"
  by (induction xs) (auto simp: stable_sort_def intro: sorted_insert_by)

section \<open>Accumulating quantities by key\<close>

text \<open>Reading a number out of an accumulator with \<open>?? 0\<close>.\<close>

definition get0 :: "('k \<times> number) list \<Rightarrow> 'k \<Rightarrow> number" where
  "get0 m k = (case map_of m k of None \<Rightarrow> 0 | Some v \<Rightarrow> v)"

type_synonym line = "key \<times> number"  \<comment> \<open>an \<open>{ it, qty }\<close> line of a document\<close>

text \<open>The fold the services share: \<open>folded.set(l.it, round3((folded.get(l.it) ?? 0) + l.qty))\<close>.\<close>

definition fold_line :: "'k \<times> number \<Rightarrow> ('k \<times> number) list \<Rightarrow> ('k \<times> number) list" where
  "fold_line l m = AList.update (fst l) (round3 (get0 m (fst l) + snd l)) m"

definition foldLines :: "('k \<times> number) list \<Rightarrow> ('k \<times> number) list" where
  "foldLines ls = fold fold_line ls []"

text \<open>What a list of lines carries of one item.\<close>

definition total_of :: "'k \<Rightarrow> ('k \<times> number) list \<Rightarrow> number" where
  "total_of k ls = (\<Sum>l\<leftarrow>ls. if fst l = k then snd l else 0)"

lemma total_of_Nil [simp]: "total_of k [] = 0"
  and total_of_Cons [simp]: "total_of k (l # ls) = (if fst l = k then snd l else 0) + total_of k ls"
  and total_of_append [simp]: "total_of k (ls @ ms) = total_of k ls + total_of k ms"
  by (simp_all add: total_of_def)

lemma get0_update [simp]:
  "get0 (AList.update k v m) k' = (if k = k' then v else get0 m k')"
  by (simp add: get0_def update_conv')

lemma fold_line_fold:
  "is3 (get0 m k) \<Longrightarrow>
   get0 (fold fold_line ls m) k = get0 m k + (\<Sum>l\<leftarrow>ls. if fst l = k then round3 (snd l) else 0)"
proof (induction ls arbitrary: m)
  case (Cons l ls)
  have "is3 (get0 (fold_line l m) k)"
    using Cons.prems by (simp add: fold_line_def is3_add)
  from Cons.IH [OF this] show ?case
    using Cons.prems by (simp add: fold_line_def)
qed simp

lemma get0_Nil [simp]: "get0 [] k = 0"
  by (simp add: get0_def)

lemma get0_foldLines:
  "get0 (foldLines ls) k = (\<Sum>l\<leftarrow>ls. if fst l = k then round3 (snd l) else 0)"
  by (simp add: foldLines_def fold_line_fold)

lemma get0_foldLines_grid:
  assumes "\<And>l. l \<in> set ls \<Longrightarrow> is3 (snd l)"
  shows "get0 (foldLines ls) k = total_of k ls"
  using assms unfolding get0_foldLines total_of_def
  by (induction ls) auto

lemma distinct_fold_line: "distinct (map fst m) \<Longrightarrow> distinct (map fst (fold fold_line ls m))"
  by (induction ls arbitrary: m) (auto simp: fold_line_def distinct_update)

lemma distinct_foldLines [simp]: "distinct (map fst (foldLines ls))"
  by (simp add: foldLines_def distinct_fold_line)

lemma keys_fold_line: "fst ` set (fold fold_line ls m) = fst ` set m \<union> fst ` set ls"
proof (induction ls arbitrary: m)
  case (Cons l ls)
  have "fst ` set (fold_line l m) = insert (fst l) (fst ` set m)"
    by (simp add: fold_line_def dom_update flip: dom_map_of_conv_image_fst)
      (simp add: dom_map_of_conv_image_fst update_conv')
  then show ?case using Cons by auto
qed simp

lemma keys_foldLines [simp]: "fst ` set (foldLines ls) = fst ` set ls"
  by (simp add: foldLines_def keys_fold_line)

lemma get0_mem: "distinct (map fst m) \<Longrightarrow> (k, v) \<in> set m \<Longrightarrow> get0 m k = v"
  by (simp add: get0_def)

lemma foldLines_mem:
  assumes "(k, v) \<in> set (foldLines ls)"
  shows "v = (\<Sum>l\<leftarrow>ls. if fst l = k then round3 (snd l) else 0)"
  using get0_mem [OF distinct_foldLines assms] by (simp add: get0_foldLines)

lemma is3_get0_foldLines: "(k, v) \<in> set (foldLines ls) \<Longrightarrow> is3 v"
  by (auto dest!: foldLines_mem intro!: is3_sum_list)

lemma total_of_distinct:
  "distinct (map fst m) \<Longrightarrow> total_of k m = get0 m k"
  by (induction m) (auto simp: get0_def total_of_def image_iff split: option.splits
      intro!: sum_list_0)

lemma total_of_filter_nonzero [simp]:
  "total_of k (filter (\<lambda>l. snd l \<noteq> 0) m) = total_of k m"
  by (induction m) auto

end
