(* ===== verification/Text.thy ===== *)
theory Text
  imports Prelude "HOL-Library.Sublist"
begin

text \<open>
  Strings and printed numbers: the string operations of the language the program uses
  (\<open>padStart\<close>, \<open>trim\<close>, \<open>toFixed\<close>, \<open>slice\<close>, \<open>split\<close>) and \<open>packages/domain/src/format.ts\<close> with the
  shelf's own \<open>fq\<close> of \<open>availability.ts\<close>. A string is a list of bytes: the rupee sign and the middle
  dot of the source are written as their UTF-8 bytes, everything else it prints is ASCII.
\<close>

named_theorems text_eval "evaluation of printed forms by the simplifier"

section \<open>Digits\<close>

definition digit :: "nat \<Rightarrow> char" where
  "digit d = char_of (48 + d)"

definition is_digit :: "char \<Rightarrow> bool" where
  "is_digit c \<longleftrightarrow> (48::nat) \<le> of_char c \<and> (of_char c :: nat) \<le> 57"

fun nat_str :: "nat \<Rightarrow> string" where
  "nat_str n = (if n < 10 then [digit n] else nat_str (n div 10) @ [digit (n mod 10)])"

declare nat_str.simps [simp del]

text \<open>Closed numbers print by conditional unfolding.\<close>

lemma nat_str_eval [text_eval]:
  "n < 10 \<Longrightarrow> nat_str n = [digit n]"
  "\<not> n < 10 \<Longrightarrow> nat_str n = nat_str (n div 10) @ [digit (n mod 10)]"
  by (simp_all add: nat_str.simps [of n])

lemma digit_eval [text_eval]:
  "digit 0 = CHR ''0''" "digit 1 = CHR ''1''" "digit (Suc 0) = CHR ''1''" "digit 2 = CHR ''2''"
  "digit 3 = CHR ''3''" "digit 4 = CHR ''4''" "digit 5 = CHR ''5''" "digit 6 = CHR ''6''"
  "digit 7 = CHR ''7''" "digit 8 = CHR ''8''" "digit 9 = CHR ''9''"
  by code_simp+

declare Let_def [text_eval]

text \<open>\<open>Number(s)\<close> on a string of digits.\<close>

definition str_nat :: "string \<Rightarrow> nat" where
  "str_nat s = foldl (\<lambda>a c. a * 10 + (of_char c - 48)) 0 s"

lemma str_nat_snoc: "str_nat (s @ [c]) = str_nat s * 10 + (of_char c - 48)"
  by (simp add: str_nat_def)

lemma of_char_digit [simp]: "d < 10 \<Longrightarrow> of_char (digit d) = (48 + d :: nat)"
  by (simp add: digit_def of_char_of)

lemma is_digit_digit [simp]: "d < 10 \<Longrightarrow> is_digit (digit d)"
  by (simp add: is_digit_def)

lemma str_nat_nat_str [simp]: "str_nat (nat_str n) = n"
proof (induction n rule: nat_str.induct)
  case (1 n)
  show ?case
  proof (cases "n < 10")
    case True
    then show ?thesis by (subst nat_str.simps) (simp add: str_nat_def)
  next
    case False
    with 1 show ?thesis
      by (subst nat_str.simps) (simp add: str_nat_snoc div_mult_mod_eq)
  qed
qed

lemma nat_str_inject [simp]: "nat_str m = nat_str n \<longleftrightarrow> m = n"
  by (metis str_nat_nat_str)

lemma nat_str_digits: "\<forall>c \<in> set (nat_str n). is_digit c"
  by (induction n rule: nat_str.induct) (subst nat_str.simps, auto)

lemma nat_str_nonempty [simp]: "nat_str n \<noteq> []"
  by (subst nat_str.simps) simp

text \<open>\<open>String(n).padStart(w, "0")\<close>.\<close>

definition pad :: "nat \<Rightarrow> nat \<Rightarrow> string" where
  "pad n w = replicate (w - length (nat_str n)) CHR ''0'' @ nat_str n"

lemma str_nat_zeros: "str_nat (replicate k CHR ''0'' @ s) = str_nat s"
  by (induction k) (simp_all add: str_nat_def)

lemma str_nat_pad [simp]: "str_nat (pad n w) = n"
  by (simp add: pad_def str_nat_zeros)

lemma pad_inject [simp]: "pad m w = pad n w \<longleftrightarrow> m = n"
  by (metis str_nat_pad)

lemma length_pad: "w \<le> length (pad n w)"
  by (simp add: pad_def)

lemma pad_digits: "\<forall>c \<in> set (pad n w). is_digit c"
  using nat_str_digits [of n] by (auto simp: pad_def is_digit_def)

definition int_str :: "int \<Rightarrow> string" where
  "int_str i = (if i < 0 then CHR ''-'' # nat_str (nat (- i)) else nat_str (nat i))"

section \<open>Printed numbers\<close>

text \<open>\<open>v.toFixed(d)\<close>: the sign first, then the nearest multiple of \<open>10\<^sup>-\<^sup>d\<close> (the larger of two).\<close>

definition fixed_digits :: "nat \<Rightarrow> number \<Rightarrow> string" where
  "fixed_digits d v =
     (let n = nat \<lfloor>v * 10 ^ d + 1/2\<rfloor>; s = pad n (Suc d); k = length s - d
      in if d = 0 then s else take k s @ ''.'' @ drop k s)"

definition toFixed :: "nat \<Rightarrow> number \<Rightarrow> string" where
  "toFixed d v = (if v < 0 then CHR ''-'' # fixed_digits d (- v) else fixed_digits d v)"

definition is_integer :: "number \<Rightarrow> bool" where
  "is_integer v \<longleftrightarrow> of_int \<lfloor>v\<rfloor> = v"

text \<open>The shelf's voice for a quantity: whole units print whole, everything else to three decimals.\<close>

definition fq :: "number \<Rightarrow> string \<Rightarrow> string" where
  "fq v unit =
     (if unit = ''nos'' then (if is_integer v then int_str \<lfloor>v\<rfloor> else toFixed 3 v)
      else toFixed 3 v)"

text \<open>The rupee sign, and the Indian grouping of \<open>toLocaleString("en-IN")\<close>: the last three digits,
  then pairs.\<close>

definition rupee :: string where
  "rupee = [CHR 0xE2, CHR 0x82, CHR 0xB9]"

text \<open>Pairs of digits, read from the right: the argument is the reversed digit string.\<close>

fun group_pairs :: "string \<Rightarrow> string" where
  "group_pairs (a # b # c # rest) = a # b # CHR '','' # group_pairs (c # rest)"
| "group_pairs s = s"

definition group_in :: "string \<Rightarrow> string" where
  "group_in s =
     (let r = rev s in if length s \<le> 3 then s
      else rev (take 3 r @ '','' @ group_pairs (drop 3 r)))"

text \<open>\<open>toLocaleString\<close> rounds a half away from zero; the integer part is grouped.\<close>

definition locale_in :: "nat \<Rightarrow> number \<Rightarrow> string" where
  "locale_in d v =
     (let s = fixed_digits d \<bar>v\<bar>; whole = takeWhile (\<lambda>c. c \<noteq> CHR ''.'') s
      in (if v < 0 then ''-'' else '''') @ group_in whole @ drop (length whole) s)"

definition money :: "number \<Rightarrow> string" where
  "money v = rupee @ locale_in 2 v"

definition money0 :: "number \<Rightarrow> string" where
  "money0 v = rupee @ locale_in 0 (of_int (js_round v))"

definition middle_dot :: string where
  "middle_dot = '' '' @ [CHR 0xC2, CHR 0xB7] @ '' ''"

fun join :: "string \<Rightarrow> string list \<Rightarrow> string" where
  "join sep [] = ''''"
| "join sep [s] = s"
| "join sep (s # t # ss) = s @ sep @ join sep (t # ss)"

text \<open>Quantities in different units cannot be added: group by unit, in the order the units first
  appear. \<open>by_unit\<close> is the \<open>Map\<close> of the source, unrounded.\<close>

definition by_unit :: "line list \<Rightarrow> (key \<Rightarrow> string) \<Rightarrow> (string \<times> number) list" where
  "by_unit ls unitOf =
     fold (\<lambda>l m. AList.update (unitOf (fst l)) (get0 m (unitOf (fst l)) + snd l) m) ls []"

definition unitTotal :: "line list \<Rightarrow> (key \<Rightarrow> string) \<Rightarrow> string" where
  "unitTotal ls unitOf =
     join middle_dot
       (map (\<lambda>(u, v). (if u = ''nos'' then int_str (js_round v) else toFixed 3 v) @ '' '' @ u)
         (by_unit ls unitOf))"

section \<open>White space, case, slices\<close>

definition is_space :: "char \<Rightarrow> bool" where
  "is_space c \<longleftrightarrow> (of_char c :: nat) \<in> {9, 10, 11, 12, 13, 32}"

definition trim :: "string \<Rightarrow> string" where
  "trim s = rev (dropWhile is_space (rev (dropWhile is_space s)))"

definition lower_char :: "char \<Rightarrow> char" where
  "lower_char c = (let n = of_char c :: nat in if 65 \<le> n \<and> n \<le> 90 then char_of (n + 32) else c)"

definition toLower :: "string \<Rightarrow> string" where
  "toLower s = map lower_char s"

fun split_on :: "char \<Rightarrow> string \<Rightarrow> string list" where
  "split_on c [] = [[]]"
| "split_on c (x # xs) =
     (if x = c then [] # split_on c xs
      else (case split_on c xs of [] \<Rightarrow> [[x]] | w # ws \<Rightarrow> (x # w) # ws))"

lemma split_on_nonempty [simp]: "split_on c s \<noteq> []"
  by (induction s) (auto split: list.splits)

lemma split_on_no_sep: "c \<notin> set w \<Longrightarrow> split_on c w = [w]"
  by (induction w) auto

lemma split_on_sep: "c \<notin> set w \<Longrightarrow> split_on c (w @ c # s) = w # split_on c s"
  by (induction w) auto

declare pad_def [text_eval] int_str_def [text_eval] fixed_digits_def [text_eval]
  toFixed_def [text_eval] fq_def [text_eval] is_integer_def [text_eval] group_in_def [text_eval]
  locale_in_def [text_eval] money_def [text_eval] money0_def [text_eval] js_round_def [text_eval]

section \<open>What the printed forms determine\<close>

lemma join_single [simp]: "join sep [s] = s" by simp

lemma group_pairs_digits: "filter (\<lambda>c. c \<noteq> CHR '','') (group_pairs s) = filter (\<lambda>c. c \<noteq> CHR '','') s"
  by (induction s rule: group_pairs.induct) auto

text \<open>Grouping only inserts separators: the digits survive.\<close>

lemma group_in_digits:
  "CHR '','' \<notin> set s \<Longrightarrow> filter (\<lambda>c. c \<noteq> CHR '','') (group_in s) = s"
proof -
  assume "CHR '','' \<notin> set s"
  then have id: "filter (\<lambda>c. c \<noteq> CHR '','') s = s" by (intro filter_True) metis
  have "filter (\<lambda>c. c \<noteq> CHR '','') (rev (take 3 (rev s) @ '','' @ group_pairs (drop 3 (rev s))))
      = rev (filter (\<lambda>c. c \<noteq> CHR '','') (take 3 (rev s) @ drop 3 (rev s)))"
    by (simp add: group_pairs_digits del: append_take_drop_id flip: rev_filter)
  also have "\<dots> = s" using id by (simp flip: rev_filter)
  finally show ?thesis using id by (simp add: group_in_def Let_def)
qed

end
