(* ===== verification/Contract.thy ===== *)
theory Contract
  imports Text
begin

text \<open>
  The shapes that cross the wire: \<open>packages/contract/src/schemas\<close>. Closed word lists are datatypes
  with the printed word of each constructor beside them, object shapes are records. A constructor
  carries a prefix of its list where two lists share a word. Shapes only; every rule about them is
  in a later theory.
\<close>

section \<open>Desks, items, locations (\<open>schemas/common.ts\<close>, \<open>schemas/documents.ts\<close>)\<close>

datatype role = Counter | Manager | StoreDesk | Prod | Buyer
datatype itemType = RAW | PACK | MRP | FG | MTO
datatype source = FromStore | FromKitchen
datatype locType = Store_Type | Kitchen_Type | Outlet_Type
datatype tender = Cash | UPI | Card | StaffCredit | DoctorCredit | Dept | Online
datatype payerKind = PStaff | PDept | PDoctor
datatype billParty = CustomerParty | PartyOf payerKind

definition STORE :: key where "STORE = ''store''"
definition KITCHEN :: key where "KITCHEN = ''kitchen''"
definition QUARANTINE :: key where "QUARANTINE = ''quarantine''"
definition STAFF_CREDIT_LIMIT :: number where "STAFF_CREDIT_LIMIT = 3000"
definition PO_APPROVAL_LIMIT :: number where "PO_APPROVAL_LIMIT = 25000"

lemmas place_defs = STORE_def KITCHEN_def QUARANTINE_def

lemma places_distinct [simp]:
  "STORE \<noteq> KITCHEN" "KITCHEN \<noteq> STORE" "STORE \<noteq> QUARANTINE" "QUARANTINE \<noteq> STORE"
  "KITCHEN \<noteq> QUARANTINE" "QUARANTINE \<noteq> KITCHEN"
  by (simp_all add: place_defs)

text \<open>The shape a location key must have, the rejected-goods shelf excepted:
  \<open>^(?!quarantine$)[a-z][a-z0-9-]{0,23}$\<close>.\<close>

definition is_lower :: "char \<Rightarrow> bool" where
  "is_lower c \<longleftrightarrow> (97::nat) \<le> of_char c \<and> (of_char c :: nat) \<le> 122"

definition key_char :: "char \<Rightarrow> bool" where
  "key_char c \<longleftrightarrow> is_lower c \<or> is_digit c \<or> c = CHR ''-''"

definition stockLocOk :: "string \<Rightarrow> bool" where
  "stockLocOk s = (case s of [] \<Rightarrow> False | c # cs \<Rightarrow> is_lower c \<and> list_all key_char cs \<and> length cs \<le> 23)"

definition locKeyOk :: "string \<Rightarrow> bool" where
  "locKeyOk s \<longleftrightarrow> s \<noteq> QUARANTINE \<and> stockLocOk s"

text \<open>An item of the master. \<open>item_code\<close> is \<open>c\<close>, \<open>item_n\<close> the name, \<open>item_u\<close> the unit, \<open>item_t\<close> the type,
  \<open>item_sl\<close> the shelf life in hours, \<open>item_dn\<close> the display name, \<open>item_src\<close> the supplying desk.\<close>

record item =
  item_code :: string
  item_n :: string
  item_u :: string
  item_t :: itemType
  item_g :: string
  item_hsn :: string
  item_gst :: number
  item_rl :: number
  item_cost :: number
  item_mrp :: "number option"
  item_sl :: "number option"
  item_dn :: "string option"
  item_active :: bool
  item_src :: "source option"

record location =
  loc_n :: string
  loc_type :: locType
  loc_list :: "string option"
  loc_active :: bool
  loc_par :: number

record price =
  p_p :: number
  p_listed :: number
  p_capped :: bool

datatype availMode = ByStock | ByHand

record availability =
  av_ok :: bool
  av_mode :: availMode
  av_why :: "string option"
  av_left :: "string option"

section \<open>Document statuses\<close>

datatype reqStatus = Req_Draft | Req_Sent | Req_ManagerApproved | Req_PartiallyApproved
  | Req_TicketIssued | Req_Collected | Req_Received | Req_Closed | Req_Rejected | Req_Cancelled

datatype tktStatus = Tkt_Issued | Tkt_Collected | Tkt_Received | Tkt_Cancelled

datatype prqStatus = Prq_Sent | Prq_Approved | Prq_PartiallyApproved | Prq_Declined

datatype pordStatus = Pord_New | Pord_Accepted | Pord_InKitchen | Pord_Ready | Pord_Dispatched
  | Pord_Declined

datatype poStatus = Po_Draft | Po_Ordered | Po_PartiallyReceived | Po_Received | Po_Cancelled

datatype shopAskStatus = Ask_Asked | Ask_Sent | Ask_Declined

datatype productReqStatus = Npr_Requested | Npr_Created | Npr_Declined

datatype adjReqStatus = Adj_Sent | Adj_Approved | Adj_Rejected | Adj_Cancelled

datatype ticketStatus = Sup_Open | Sup_WithSupport | Sup_WaitingOnYou | Sup_Resolved | Sup_Closed

datatype qrMode = Pickup | Deliver

datatype qrOrderStatus = Qr_Awaiting | Qr_Expired | Qr_Paid | Qr_Preparing | Qr_Ready
  | Qr_OutForDelivery | Qr_Collected | Qr_Delivered | Qr_Refunded | Qr_Voided

datatype refundStatus = Ref_Pending | Ref_Sent | Ref_Processed | Ref_Failed

datatype adjustReason = Wastage | Breakage | Expired | CountReason | ReturnedToVendor | OtherReason

text \<open>The words the wire and the screens print.\<close>

fun req_word :: "reqStatus \<Rightarrow> string" where
  "req_word Req_Draft = ''Draft''"
| "req_word Req_Sent = ''Request sent''"
| "req_word Req_ManagerApproved = ''Manager approved''"
| "req_word Req_PartiallyApproved = ''Partially approved''"
| "req_word Req_TicketIssued = ''Ticket issued''"
| "req_word Req_Collected = ''Collected''"
| "req_word Req_Received = ''Received''"
| "req_word Req_Closed = ''Closed''"
| "req_word Req_Rejected = ''Rejected''"
| "req_word Req_Cancelled = ''Cancelled''"

fun tkt_word :: "tktStatus \<Rightarrow> string" where
  "tkt_word Tkt_Issued = ''Issued''"
| "tkt_word Tkt_Collected = ''Collected''"
| "tkt_word Tkt_Received = ''Received''"
| "tkt_word Tkt_Cancelled = ''Cancelled''"

fun pord_word :: "pordStatus \<Rightarrow> string" where
  "pord_word Pord_New = ''New''"
| "pord_word Pord_Accepted = ''Accepted''"
| "pord_word Pord_InKitchen = ''In kitchen''"
| "pord_word Pord_Ready = ''Ready''"
| "pord_word Pord_Dispatched = ''Dispatched''"
| "pord_word Pord_Declined = ''Declined''"

fun prq_word :: "prqStatus \<Rightarrow> string" where
  "prq_word Prq_Sent = ''Sent''"
| "prq_word Prq_Approved = ''Approved''"
| "prq_word Prq_PartiallyApproved = ''Partially approved''"
| "prq_word Prq_Declined = ''Declined''"

fun po_word :: "poStatus \<Rightarrow> string" where
  "po_word Po_Draft = ''Draft''"
| "po_word Po_Ordered = ''Ordered''"
| "po_word Po_PartiallyReceived = ''Partially received''"
| "po_word Po_Received = ''Received''"
| "po_word Po_Cancelled = ''Cancelled''"

fun adj_word :: "adjReqStatus \<Rightarrow> string" where
  "adj_word Adj_Sent = ''Request sent''"
| "adj_word Adj_Approved = ''Approved''"
| "adj_word Adj_Rejected = ''Rejected''"
| "adj_word Adj_Cancelled = ''Cancelled''"

fun qr_word :: "qrOrderStatus \<Rightarrow> string" where
  "qr_word Qr_Awaiting = ''Awaiting payment''"
| "qr_word Qr_Expired = ''Expired''"
| "qr_word Qr_Paid = ''Paid''"
| "qr_word Qr_Preparing = ''Preparing''"
| "qr_word Qr_Ready = ''Ready''"
| "qr_word Qr_OutForDelivery = ''Out for delivery''"
| "qr_word Qr_Collected = ''Collected''"
| "qr_word Qr_Delivered = ''Delivered''"
| "qr_word Qr_Refunded = ''Refunded''"
| "qr_word Qr_Voided = ''Voided''"

fun refund_word :: "refundStatus \<Rightarrow> string" where
  "refund_word Ref_Pending = ''Pending''"
| "refund_word Ref_Sent = ''Sent''"
| "refund_word Ref_Processed = ''Processed''"
| "refund_word Ref_Failed = ''Failed''"

fun tender_word :: "tender \<Rightarrow> string" where
  "tender_word Cash = ''Cash''"
| "tender_word UPI = ''UPI''"
| "tender_word Card = ''Card''"
| "tender_word StaffCredit = ''Staff credit''"
| "tender_word DoctorCredit = ''Doctor credit''"
| "tender_word Dept = ''Dept''"
| "tender_word Online = ''Online''"

fun ask_word :: "shopAskStatus \<Rightarrow> string" where
  "ask_word Ask_Asked = ''Asked''"
| "ask_word Ask_Sent = ''Sent''"
| "ask_word Ask_Declined = ''Declined''"

section \<open>Permissions (\<open>schemas/permissions.ts\<close>)\<close>

datatype feature =
    F_billing | F_x_report | F_z_report | F_shift_reports | F_credit | F_settlements | F_qr_orders
  | F_approvals | F_items_stock | F_menu | F_prices | F_availability | F_item_photos
  | F_outlet_stock | F_outlet_requests | F_outlet_tickets
  | F_issue_desk | F_store_requisitions | F_store_stock | F_store_reports | F_adjustments | F_goods_receipt
  | F_kitchen_orders | F_make_distribute | F_kitchen_requests | F_kitchen_tickets | F_kitchen_stock
  | F_requisitions | F_procurement_list | F_purchase_orders | F_rate_contracts | F_vendors
  | F_item_master | F_new_products | F_inventory | F_stock_ledger

datatype level = View | Edit
datatype action = Void_bill | Void_settlement | All_outlets

record permissions =
  perm_f :: "feature \<Rightarrow> level option"
  perm_a :: "action list"

section \<open>Closed lists are finite\<close>

text \<open>The full list of each closed union, so that a question over all of them evaluates.\<close>

instantiation reqStatus :: enum
begin
definition "enum_reqStatus = [Req_Draft, Req_Sent, Req_ManagerApproved, Req_PartiallyApproved,
  Req_TicketIssued, Req_Collected, Req_Received, Req_Closed, Req_Rejected, Req_Cancelled]"
definition "enum_all_reqStatus P = list_all P (enum_class.enum :: reqStatus list)"
definition "enum_ex_reqStatus P = list_ex P (enum_class.enum :: reqStatus list)"
instance
proof
  show U: "(UNIV :: reqStatus set) = set enum_class.enum"
    using reqStatus.exhaust by (auto simp: enum_reqStatus_def)
  show "distinct (enum_class.enum :: reqStatus list)" by (simp add: enum_reqStatus_def)
  show "enum_class.enum_all P = Ball UNIV P" for P :: "reqStatus \<Rightarrow> bool"
    unfolding enum_all_reqStatus_def U by (simp add: list_all_iff)
  show "enum_class.enum_ex P = Bex UNIV P" for P :: "reqStatus \<Rightarrow> bool"
    unfolding enum_ex_reqStatus_def U by (simp add: list_ex_iff)
qed
end

instantiation tktStatus :: enum
begin
definition "enum_tktStatus = [Tkt_Issued, Tkt_Collected, Tkt_Received, Tkt_Cancelled]"
definition "enum_all_tktStatus P = list_all P (enum_class.enum :: tktStatus list)"
definition "enum_ex_tktStatus P = list_ex P (enum_class.enum :: tktStatus list)"
instance
proof
  show U: "(UNIV :: tktStatus set) = set enum_class.enum"
    using tktStatus.exhaust by (auto simp: enum_tktStatus_def)
  show "distinct (enum_class.enum :: tktStatus list)" by (simp add: enum_tktStatus_def)
  show "enum_class.enum_all P = Ball UNIV P" for P :: "tktStatus \<Rightarrow> bool"
    unfolding enum_all_tktStatus_def U by (simp add: list_all_iff)
  show "enum_class.enum_ex P = Bex UNIV P" for P :: "tktStatus \<Rightarrow> bool"
    unfolding enum_ex_tktStatus_def U by (simp add: list_ex_iff)
qed
end

instantiation role :: enum
begin
definition "enum_role = [Counter, Manager, StoreDesk, Prod, Buyer]"
definition "enum_all_role P = list_all P (enum_class.enum :: role list)"
definition "enum_ex_role P = list_ex P (enum_class.enum :: role list)"
instance
proof
  show U: "(UNIV :: role set) = set enum_class.enum"
    using role.exhaust by (auto simp: enum_role_def)
  show "distinct (enum_class.enum :: role list)" by (simp add: enum_role_def)
  show "enum_class.enum_all P = Ball UNIV P" for P :: "role \<Rightarrow> bool"
    unfolding enum_all_role_def U by (simp add: list_all_iff)
  show "enum_class.enum_ex P = Bex UNIV P" for P :: "role \<Rightarrow> bool"
    unfolding enum_ex_role_def U by (simp add: list_ex_iff)
qed
end

text \<open>Edit implies view: the levels are ordered, and \<open>can\<close> compares them.\<close>

instantiation level :: linorder
begin
definition less_eq_level :: "level \<Rightarrow> level \<Rightarrow> bool" where
  "less_eq_level a b \<longleftrightarrow> a = View \<or> b = Edit"
definition less_level :: "level \<Rightarrow> level \<Rightarrow> bool" where
  "less_level a b \<longleftrightarrow> a = View \<and> b = Edit"
instance
  by standard (auto simp: less_eq_level_def less_level_def intro: level.exhaust)
end

end
