(* ===== verification/Billing.thy ===== *)
theory Billing
  imports Stock
begin

text \<open>
  The arithmetic of a bill and of the account it may land on: \<open>packages/domain/src\<close>
  \<open>discount.ts\<close>, \<open>credit.ts\<close>, \<open>party.ts\<close>, \<open>billing.ts\<close>, \<open>settlement.ts\<close>, \<open>apportion.ts\<close>.

  Lemmas: a bill's gross is its total plus its discount, the GST split lies inside what is charged,
  what a bill takes off the shelf; a payment laid over open bills adds up, overpays no bill, and
  part-pays at most the last bill it reaches.
\<close>

section \<open>Discounts (\<open>discount.ts\<close>)\<close>

definition MAX_DISCOUNT_PCT :: number where "MAX_DISCOUNT_PCT = 100"

definition discountPctFor :: "number \<Rightarrow> number option \<Rightarrow> number" where
  "discountPctFor classPct personPct = (case personPct of Some p \<Rightarrow> p | None \<Rightarrow> classPct)"

definition creditLimitFor :: "number option \<Rightarrow> number option \<Rightarrow> number option" where
  "creditLimitFor classLimit personLimit =
     (case personLimit of Some p \<Rightarrow> Some p | None \<Rightarrow> classLimit)"

definition discountOn :: "number \<Rightarrow> number \<Rightarrow> number" where
  "discountOn amount pct = round2 (amount * pct / 100)"

definition validDiscountPct :: "number \<Rightarrow> bool" where
  "validDiscountPct pct \<longleftrightarrow> 0 \<le> pct \<and> pct \<le> MAX_DISCOUNT_PCT"

definition validCreditLimit :: "number option \<Rightarrow> bool" where
  "validCreditLimit limit = (case limit of None \<Rightarrow> True | Some l \<Rightarrow> 0 \<le> l)"

section \<open>Credit (\<open>credit.ts\<close>)\<close>

definition creditRoom :: "number \<Rightarrow> number option \<Rightarrow> number option" where
  "creditRoom outstanding limit =
     (case limit of None \<Rightarrow> None | Some l \<Rightarrow> Some (max 0 (round2 (l - outstanding))))"

definition breachesCredit :: "number \<Rightarrow> number \<Rightarrow> number option \<Rightarrow> bool" where
  "breachesCredit outstanding amount limit =
     (case limit of None \<Rightarrow> False | Some l \<Rightarrow> l < round2 (outstanding + amount))"

definition creditBreachMessage :: "number \<Rightarrow> number \<Rightarrow> string \<Rightarrow> number \<Rightarrow> string" where
  "creditBreachMessage outstanding amount payerName limit =
     money (outstanding + amount) @ '' breaches the '' @ money0 limit @ '' credit limit for ''
     @ payerName @ ''. Settle the account, take another tender, or split the bill.''"

section \<open>Who a bill is taken from (\<open>party.ts\<close>)\<close>

fun PAYER_KIND :: "tender \<Rightarrow> payerKind option" where
  "PAYER_KIND Cash = None"
| "PAYER_KIND UPI = None"
| "PAYER_KIND Card = None"
| "PAYER_KIND StaffCredit = Some PStaff"
| "PAYER_KIND DoctorCredit = Some PDoctor"
| "PAYER_KIND Dept = Some PDept"
| "PAYER_KIND Online = None"

definition payerKindForTender :: "tender \<Rightarrow> payerKind option" where
  "payerKindForTender t = PAYER_KIND t"

definition isAccountTender :: "tender \<Rightarrow> bool" where
  "isAccountTender t \<longleftrightarrow> PAYER_KIND t \<noteq> None"

definition TENDERS :: "tender list" where
  "TENDERS = [Cash, UPI, Card, StaffCredit, DoctorCredit, Dept, Online]"

definition TILL_TENDERS :: "tender list" where
  "TILL_TENDERS = filter (\<lambda>t. t \<noteq> Online) TENDERS"

definition ACCOUNT_TENDERS :: "tender list" where
  "ACCOUNT_TENDERS = filter (\<lambda>t. PAYER_KIND t \<noteq> None) TENDERS"

definition partyOf :: "payerKind option \<Rightarrow> billParty" where
  "partyOf payer = (case payer of None \<Rightarrow> CustomerParty | Some k \<Rightarrow> PartyOf k)"

text \<open>\<open>^(?:\\+?91|0)?([1-9]\\d{9})$\<close> on what is left once spaces, hyphens, dots and brackets are gone.
  The alternatives of the optional prefix are tried in turn, the empty one last, as the regular
  expression's own backtracking does.\<close>

definition ten_digits :: "string \<Rightarrow> bool" where
  "ten_digits s \<longleftrightarrow> length s = 10 \<and> list_all is_digit s \<and> hd s \<noteq> CHR ''0''"

definition phone_noise :: "char \<Rightarrow> bool" where
  "phone_noise c \<longleftrightarrow> is_space c \<or> List.member ''-.()'' c"

fun strip_prefix :: "string \<Rightarrow> string \<Rightarrow> string option" where
  "strip_prefix [] s = Some s"
| "strip_prefix (p # ps) [] = None"
| "strip_prefix (p # ps) (c # cs) = (if p = c then strip_prefix ps cs else None)"

fun first_match :: "string list \<Rightarrow> string \<Rightarrow> string option" where
  "first_match [] s = None"
| "first_match (p # ps) s =
     (case strip_prefix p s of
        Some r \<Rightarrow> if ten_digits r then Some r else first_match ps s
      | None \<Rightarrow> first_match ps s)"

definition normalizePhone :: "string \<Rightarrow> string option" where
  "normalizePhone raw =
     first_match [''+91'', ''91'', ''0'', ''''] (filter (\<lambda>c. \<not> phone_noise c) raw)"

section \<open>The bill (\<open>billing.ts\<close>)\<close>

record billLine =
  bl_it :: key
  bl_qty :: number
  bl_rate :: number

record stockMove =
  sm_loc :: key
  sm_it :: key
  sm_qty :: number

record billPlan =
  pl_lines :: "billLine list"
  pl_tot :: number
  pl_disc :: number
  pl_tax :: number
  pl_moves :: "stockMove list"

definition gstOf :: "master \<Rightarrow> key \<Rightarrow> number" where
  "gstOf m it = (case m_items m it of None \<Rightarrow> 0 | Some i \<Rightarrow> item_gst i)"

definition isMTO :: "master \<Rightarrow> key \<Rightarrow> bool" where
  "isMTO m it \<longleftrightarrow> map_option item_t (m_items m it) = Some MTO"

definition bill_step :: "master \<Rightarrow> prices \<Rightarrow> key \<Rightarrow> number \<Rightarrow> billPlan \<Rightarrow> line \<Rightarrow> billPlan" where
  "bill_step m prices l pct plan c =
     (let it = fst c; n = snd c;
          price = priceOf m prices l it;
          gross = p_p price * n;
          off = discountOn gross pct;
          amt = gross - off
      in \<lparr>pl_lines = pl_lines plan @ [\<lparr>bl_it = it, bl_qty = n, bl_rate = p_p price\<rparr>],
          pl_tot = pl_tot plan + amt,
          pl_disc = pl_disc plan + off,
          pl_tax = pl_tax plan + (amt - amt / (1 + gstOf m it / 100)),
          pl_moves = pl_moves plan @
            (if isMTO m it then [] else [\<lparr>sm_loc = l, sm_it = it, sm_qty = - n\<rparr>])\<rparr>)"

definition planBill :: "master \<Rightarrow> prices \<Rightarrow> key \<Rightarrow> line list \<Rightarrow> number \<Rightarrow> billPlan" where
  "planBill m prices l cart pct =
     foldl (bill_step m prices l pct)
       \<lparr>pl_lines = [], pl_tot = 0, pl_disc = 0, pl_tax = 0, pl_moves = []\<rparr> cart"

section \<open>Turning a payment into the bills it closes (\<open>settlement.ts\<close>)\<close>

record openBill =
  ob_no :: string
  ob_at :: string
  ob_owed :: number

text \<open>The loop, from the bills in date order and what is left of the payment.\<close>

fun allocate_loop :: "openBill list \<Rightarrow> number \<Rightarrow> (string \<times> number) list \<times> number" where
  "allocate_loop [] left = ([], left)"
| "allocate_loop (b # bs) left =
     (if left \<le> 0 then ([], left)
      else let owed = round2 (ob_owed b) in
        if owed \<le> 0 then allocate_loop bs left
        else let put = round2 (min owed left);
                 rest = allocate_loop bs (round2 (left - put))
             in ((ob_no b, put) # fst rest, snd rest))"

text \<open>\<open>coll a b\<close> is \<open>a.localeCompare(b) <= 0\<close>: the host's collation is not modelled.\<close>

definition allocateSettlement ::
    "(string \<Rightarrow> string \<Rightarrow> bool) \<Rightarrow> openBill list \<Rightarrow> number \<Rightarrow> (string \<times> number) list \<times> number" where
  "allocateSettlement coll open' amount =
     allocate_loop (stable_sort (\<lambda>a b. coll (ob_at a) (ob_at b)) open') (round2 amount)"

definition settlementOverpayMessage :: "number \<Rightarrow> number \<Rightarrow> string \<Rightarrow> string" where
  "settlementOverpayMessage amount outstanding payerName =
     ''Refused - '' @ money amount @ '' is more than the '' @ money outstanding @ '' ''
     @ payerName @ '' still owes''"

definition nothingOwedMessage :: "string \<Rightarrow> string" where
  "nothingOwedMessage payerName = ''Refused - '' @ payerName @ '' owes nothing''"

section \<open>A receipt filling its sources in order (\<open>apportion.ts\<close>)\<close>

fun apportion :: "number \<Rightarrow> number list \<Rightarrow> number list" where
  "apportion left [] = []"
| "apportion left (x # xs) =
     (let take' = round3 (min (max left 0) x) in take' # apportion (round3 (left - take')) xs)"

section \<open>Lemmas: the bill\<close>

definition grossOf :: "master \<Rightarrow> prices \<Rightarrow> key \<Rightarrow> line list \<Rightarrow> number" where
  "grossOf m prices l cart = (\<Sum>c\<leftarrow>cart. p_p (priceOf m prices l (fst c)) * snd c)"

lemma bill_step_sel [simp]:
  "pl_tot (bill_step m prices l pct plan c) = pl_tot plan +
     (p_p (priceOf m prices l (fst c)) * snd c - discountOn (p_p (priceOf m prices l (fst c)) * snd c) pct)"
  "pl_disc (bill_step m prices l pct plan c) =
     pl_disc plan + discountOn (p_p (priceOf m prices l (fst c)) * snd c) pct"
  "pl_lines (bill_step m prices l pct plan c) = pl_lines plan @
     [\<lparr>bl_it = fst c, bl_qty = snd c, bl_rate = p_p (priceOf m prices l (fst c))\<rparr>]"
  "pl_moves (bill_step m prices l pct plan c) = pl_moves plan @
     (if isMTO m (fst c) then [] else [\<lparr>sm_loc = l, sm_it = fst c, sm_qty = - snd c\<rparr>])"
  by (simp_all add: bill_step_def Let_def)

lemma foldl_bill_gross:
  "pl_tot (foldl (bill_step m prices l pct) plan cart) + pl_disc (foldl (bill_step m prices l pct) plan cart)
     = pl_tot plan + pl_disc plan + grossOf m prices l cart"
  by (induction cart arbitrary: plan) (simp_all add: grossOf_def)

lemma foldl_bill_disc_grid: "is2 (pl_disc plan) \<Longrightarrow> is2 (pl_disc (foldl (bill_step m prices l pct) plan cart))"
  by (induction cart arbitrary: plan) (simp_all add: discountOn_def is2_add)

lemma foldl_bill_lines:
  "pl_lines (foldl (bill_step m prices l pct) plan cart) = pl_lines plan @
     map (\<lambda>c. \<lparr>bl_it = fst c, bl_qty = snd c, bl_rate = p_p (priceOf m prices l (fst c))\<rparr>) cart"
  by (induction cart arbitrary: plan) simp_all

lemma foldl_bill_moves:
  "pl_moves (foldl (bill_step m prices l pct) plan cart) = pl_moves plan @
     map (\<lambda>c. \<lparr>sm_loc = l, sm_it = fst c, sm_qty = - snd c\<rparr>) (filter (\<lambda>c. \<not> isMTO m (fst c)) cart)"
  by (induction cart arbitrary: plan) simp_all

lemma discountOn_le:
  assumes "is2 gross" "0 \<le> gross" "0 \<le> pct" "pct \<le> MAX_DISCOUNT_PCT"
  shows "0 \<le> discountOn gross pct" and "discountOn gross pct \<le> gross"
proof -
  show "0 \<le> discountOn gross pct"
    using assms by (simp add: discountOn_def r2.round_nonneg)
  have "gross * pct \<le> gross * 100"
    using assms by (intro mult_left_mono) (auto simp: MAX_DISCOUNT_PCT_def)
  then have "round2 (gross * pct / 100) \<le> round2 gross" by (intro r2.round_mono) simp
  then show "discountOn gross pct \<le> gross" using assms(1) by (simp add: discountOn_def)
qed

lemma gst_inside:
  assumes "0 \<le> (a::number)" "0 \<le> g"
  shows "0 \<le> a - a / (1 + g / 100)" and "a - a / (1 + g / 100) \<le> a"
  using assms by (auto simp: divide_le_eq mult_le_cancel_left1 field_simps)

lemma foldl_bill_bounds:
  assumes "\<And>c. c \<in> set cart \<Longrightarrow> is2 (p_p (priceOf m prices l (fst c)) * snd c)"
    and "\<And>c. c \<in> set cart \<Longrightarrow> 0 \<le> p_p (priceOf m prices l (fst c)) * snd c"
    and "\<And>it. 0 \<le> gstOf m it" and pct: "validDiscountPct pct"
    and "0 \<le> pl_tax plan" "pl_tax plan \<le> pl_tot plan"
  shows "0 \<le> pl_tax (foldl (bill_step m prices l pct) plan cart) \<and>
    pl_tax (foldl (bill_step m prices l pct) plan cart) \<le> pl_tot (foldl (bill_step m prices l pct) plan cart)"
  using assms
proof (induction cart arbitrary: plan)
  case (Cons c cart)
  let ?g = "p_p (priceOf m prices l (fst c)) * snd c"
  let ?a = "?g - discountOn ?g pct"
  have "0 \<le> ?a"
    using discountOn_le(2) [of ?g pct] Cons.prems(1,2,4) by (simp add: validDiscountPct_def)
  from gst_inside [OF this Cons.prems(3)]
  have "0 \<le> pl_tax (bill_step m prices l pct plan c)"
    "pl_tax (bill_step m prices l pct plan c) \<le> pl_tot (bill_step m prices l pct plan c)"
    using Cons.prems(5,6) by (simp_all add: bill_step_def Let_def add_mono)
  then show ?case using Cons by simp
qed simp

section \<open>Lemmas: the allocation\<close>

definition owing :: "openBill list \<Rightarrow> number" where
  "owing bs = (\<Sum>b\<leftarrow>bs. max 0 (round2 (ob_owed b)))"

lemma owing_nonneg: "0 \<le> owing bs"
  by (induction bs) (auto simp: owing_def)

lemma owing_perm: "mset xs = mset ys \<Longrightarrow> owing xs = owing ys"
  by (simp add: owing_def flip: sum_mset_sum_list)

lemma allocate_sum:
  "is2 left \<Longrightarrow> (\<Sum>l\<leftarrow>fst (allocate_loop bs left). snd l) + snd (allocate_loop bs left) = left"
proof (induction bs left rule: allocate_loop.induct)
  case (2 b bs left)
  show ?case
  proof (cases "left \<le> 0 \<or> round2 (ob_owed b) \<le> 0")
    case True
    then show ?thesis using 2 by (auto simp: Let_def)
  next
    case False
    let ?put = "min (round2 (ob_owed b)) left"
    have "is2 ?put" using 2 by (simp add: is2_min)
    with False 2 have "(\<Sum>l\<leftarrow>fst (allocate_loop bs (left - ?put)). snd l)
        + snd (allocate_loop bs (left - ?put)) = left - ?put"
      by (simp add: is2_diff)
    with False \<open>is2 ?put\<close> 2(3) show ?thesis by (simp add: Let_def is2_diff)
  qed
qed simp

lemma allocate_left:
  "is2 left \<Longrightarrow> 0 \<le> left \<Longrightarrow> snd (allocate_loop bs left) = max 0 (left - owing bs)"
proof (induction bs left rule: allocate_loop.induct)
  case (2 b bs left)
  show ?case
  proof (cases "left \<le> 0 \<or> round2 (ob_owed b) \<le> 0")
    case True
    then show ?thesis using 2 owing_nonneg [of "b # bs"] by (auto simp: owing_def max_def Let_def)
  next
    case False
    then show ?thesis using 2 owing_nonneg [of bs]
      by (auto simp: owing_def max_def min_def Let_def is2_diff)
  qed
qed (auto simp: owing_def)

lemma allocate_positive: "l \<in> set (fst (allocate_loop bs left)) \<Longrightarrow> is2 left \<Longrightarrow> 0 < snd l"
  by (induction bs left rule: allocate_loop.induct)
    (auto simp: Let_def is2_diff is2_min split: if_splits)

text \<open>Which bills a payment closes: every line but the last pays its bill whole.\<close>

fun covers :: "(string \<times> number) list \<Rightarrow> openBill list \<Rightarrow> bool" where
  "covers [] bs = True"
| "covers (l # ls) [] = False"
| "covers (l # ls) (b # bs) =
     (if round2 (ob_owed b) \<le> 0 then covers (l # ls) bs
      else fst l = ob_no b \<and> snd l \<le> round2 (ob_owed b) \<and>
        (ls \<noteq> [] \<longrightarrow> snd l = round2 (ob_owed b)) \<and> covers ls bs)"

lemma covers_skip: "round2 (ob_owed b) \<le> 0 \<Longrightarrow> covers ls (b # bs) = covers ls bs"
  by (cases ls) auto

lemma allocate_nothing_left: "left \<le> 0 \<Longrightarrow> fst (allocate_loop bs left) = []"
  by (cases bs) auto

lemma allocate_covers: "is2 left \<Longrightarrow> covers (fst (allocate_loop bs left)) bs"
proof (induction bs left rule: allocate_loop.induct)
  case (2 b bs left)
  show ?case
  proof (cases "left \<le> 0 \<or> round2 (ob_owed b) \<le> 0")
    case True
    then show ?thesis using 2 by (auto simp: Let_def covers_skip)
  next
    case False
    then have IH: "covers (fst (allocate_loop bs (round2 (left - min (round2 (ob_owed b)) left)))) bs"
      using 2 by (auto simp: Let_def is2_diff is2_min)
    then show ?thesis using False 2(3) allocate_nothing_left [of 0 bs]
      by (auto simp: Let_def is2_diff is2_min min_def)
  qed
qed simp

section \<open>Lemmas: apportioning a receipt\<close>

lemma apportion_length [simp]: "length (apportion r xs) = length xs"
  by (induction xs arbitrary: r) (auto simp: Let_def)

lemma apportion_bounds:
  "(\<And>x. x \<in> set xs \<Longrightarrow> is3 x \<and> 0 \<le> x) \<Longrightarrow> is3 r \<Longrightarrow>
   list_all2 (\<lambda>t x. 0 \<le> t \<and> t \<le> x) (apportion r xs) xs"
proof (induction xs arbitrary: r)
  case (Cons x xs)
  have "is3 (min (max r 0) x)" using Cons.prems by (auto intro!: grid_intros)
  then show ?case using Cons by (auto simp: Let_def is3_diff)
qed simp

lemma apportion_sum:
  "(\<And>x. x \<in> set xs \<Longrightarrow> is3 x \<and> 0 \<le> x) \<Longrightarrow> is3 r \<Longrightarrow> 0 \<le> r \<Longrightarrow>
   sum_list (apportion r xs) = min r (sum_list xs)"
proof (induction xs arbitrary: r)
  case (Cons x xs)
  have t: "is3 (min (max r 0) x)" using Cons.prems by (auto intro!: grid_intros)
  have "0 \<le> sum_list xs" using Cons.prems by (intro sum_list_nonneg) auto
  moreover have "sum_list (apportion (r - min r x) xs) = min (r - min r x) (sum_list xs)"
    using Cons t by (intro Cons.IH) (auto simp: is3_diff is3_min)
  ultimately show ?case using Cons.prems t by (auto simp: Let_def is3_diff is3_min min_def max_def)
qed simp

section \<open>Lemmas: phones\<close>

lemma first_match_ten: "first_match ps s = Some d \<Longrightarrow> ten_digits d"
  by (induction ps s rule: first_match.induct) (auto split: option.splits if_splits)

lemma filter_phone_clean: "ten_digits d \<Longrightarrow> filter (\<lambda>c. \<not> phone_noise c) d = d"
  by (auto simp: ten_digits_def phone_noise_def is_space_def is_digit_def list_all_iff intro!: filter_True)

end
