(* ===== verification/Dates.thy ===== *)
theory Dates
  imports Text "HOL-Library.List_Lexorder" "HOL-Library.Char_ord"
begin

text \<open>
  The hospital's calendar: the dates and clock times of \<open>packages/domain/src\<close> \<open>format.ts\<close>,
  \<open>ids.ts\<close>, \<open>shelf.ts\<close>, \<open>purchasing.ts\<close> and \<open>qr.ts\<close>. An instant is a number of milliseconds; the zone
  \<open>Asia/Kolkata\<close> is five and a half hours ahead of UTC with no summer time, so its calendar day is a
  division, and the Gregorian date of a day number is the usual era arithmetic. Instants are those of
  the system's life, years of four digits.
\<close>

definition DAY_MS :: int where "DAY_MS = 86400000"
definition IST_OFFSET :: int where "IST_OFFSET = 19800000"

text \<open>The day an instant falls on in the hospital's zone, counted from 1 January 1970.\<close>

definition ist_day :: "instant \<Rightarrow> int" where
  "ist_day t = (t + IST_OFFSET) div DAY_MS"

text \<open>\<open>Date.parse(istDate(t) + "T00:00:00+05:30")\<close>: the instant that day began.\<close>

definition ist_midnight :: "instant \<Rightarrow> instant" where
  "ist_midnight t = ist_day t * DAY_MS - IST_OFFSET"

definition day_of_era :: "int \<Rightarrow> int" where
  "day_of_era z = (z + 719468) mod 146097"

text \<open>Years of an era run from March, so a leap day ends one: centuries, then groups of four years,
  then years, each with what is left over.\<close>

definition era_parts :: "int \<Rightarrow> int \<times> int \<times> int \<times> int" where
  "era_parts doe =
     (let n100 = min 3 (doe div 36524); r100 = doe - 36524 * n100;
          n4 = r100 div 1461; r4 = r100 - 1461 * n4;
          n1 = min 3 (r4 div 365)
      in (n100, n4, n1, r4 - 365 * n1))"

definition year_of_era :: "int \<Rightarrow> int" where
  "year_of_era doe = (case era_parts doe of (n100, n4, n1, doy) \<Rightarrow> 100 * n100 + 4 * n4 + n1)"

definition day_of_year :: "int \<Rightarrow> int" where
  "day_of_year doe = (case era_parts doe of (n100, n4, n1, doy) \<Rightarrow> doy)"

text \<open>The civil date \<open>(year, month, day)\<close> of a day number; the year runs from March inside.\<close>

definition civil :: "int \<Rightarrow> int \<times> int \<times> int" where
  "civil z =
     (let era = (z + 719468) div 146097; doe = day_of_era z; doy = day_of_year doe;
          mp = (5 * doy + 2) div 153; d = doy - (153 * mp + 2) div 5 + 1;
          m = (if mp < 10 then mp + 3 else mp - 9)
      in (year_of_era doe + era * 400 + (if m \<le> 2 then 1 else 0), m, d))"

definition days_of_civil :: "int \<times> int \<times> int \<Rightarrow> int" where
  "days_of_civil ymd = (case ymd of (y, m, d) \<Rightarrow>
     (let y' = (if m \<le> 2 then y - 1 else y); era = y' div 400; yoe = y' mod 400;
          mp = (if 2 < m then m - 3 else m + 9); doy = (153 * mp + 2) div 5 + d - 1
      in era * 146097 + (yoe * 365 + yoe div 4 - yoe div 100 + doy) - 719468))"

definition istDate :: "instant \<Rightarrow> string" where
  "istDate t = (case civil (ist_day t) of (y, m, d) \<Rightarrow>
     pad (nat y) 4 @ ''-'' @ pad (nat m) 2 @ ''-'' @ pad (nat d) 2)"

text \<open>\<open>ymd\<close> and \<open>year\<close> of \<open>ids.ts\<close>.\<close>

definition ymd :: "instant \<Rightarrow> string" where
  "ymd t = (case civil (ist_day t) of (y, m, d) \<Rightarrow> pad (nat y) 4 @ pad (nat m) 2 @ pad (nat d) 2)"

definition year :: "instant \<Rightarrow> string" where
  "year t = take 4 (ymd t)"

definition MONTHS :: "string list" where
  "MONTHS = [''Jan'', ''Feb'', ''Mar'', ''Apr'', ''May'', ''Jun'', ''Jul'', ''Aug'', ''Sep'', ''Oct'', ''Nov'', ''Dec'']"

text \<open>\<open>^(\\d{4})-(\\d{2})-(\\d{2})$\<close>.\<close>

definition is_wire_date :: "string \<Rightarrow> bool" where
  "is_wire_date s \<longleftrightarrow> length s = 10 \<and> list_all is_digit (take 4 s) \<and> s ! 4 = CHR ''-'' \<and>
     list_all is_digit (take 2 (drop 5 s)) \<and> s ! 7 = CHR ''-'' \<and> list_all is_digit (drop 8 s)"

definition month_name :: "nat \<Rightarrow> string" where
  "month_name m = (if 1 \<le> m \<and> m \<le> 12 then MONTHS ! (m - 1) else ''undefined'')"

definition dmy :: "string \<Rightarrow> string" where
  "dmy d = (if is_wire_date d
     then drop 8 d @ ''-'' @ month_name (str_nat (take 2 (drop 5 d))) @ ''-'' @ take 4 d else d)"

definition DEFAULT_SHELF_LIFE_HOURS :: number where "DEFAULT_SHELF_LIFE_HOURS = 8"

text \<open>\<open>new Date(x)\<close> drops the fraction of a millisecond.\<close>

definition bestBeforeAt :: "instant \<Rightarrow> number option \<Rightarrow> instant" where
  "bestBeforeAt made hours =
     (let x = of_int made + (case hours of Some h \<Rightarrow> h | None \<Rightarrow> DEFAULT_SHELF_LIFE_HOURS) * 3600000
      in if 0 \<le> x then \<lfloor>x\<rfloor> else \<lceil>x\<rceil>)"

definition etaFrom :: "instant \<Rightarrow> number \<Rightarrow> string" where
  "etaFrom at' leadDays = istDate (ist_midnight at' + max 0 (js_round leadDays) * DAY_MS)"

section \<open>When an outlet takes QR orders (\<open>qr.ts\<close>)\<close>

record orderHoursDay =
  oh_dow :: int
  oh_opens :: string
  oh_closes :: string

record qrOpen =
  qo_open :: bool
  qo_why :: "string option"
  qo_today :: "(string \<times> string) option"

text \<open>The minute of the hospital's day, and how the 24-hour clock prints it.\<close>

definition ist_minute :: "instant \<Rightarrow> int" where
  "ist_minute t = ((t + IST_OFFSET) mod DAY_MS) div 60000"

definition hhmm :: "int \<Rightarrow> string" where
  "hhmm m = pad (nat (m div 60)) 2 @ '':'' @ pad (nat (m mod 60)) 2"

text \<open>\<open>getUTCDay\<close> of the IST date: 1 January 1970 was a Thursday, day 4 of a week from Sunday.\<close>

definition ist_dow :: "instant \<Rightarrow> int" where
  "ist_dow t = (ist_day t + 4) mod 7"

definition qrOpenAt :: "orderHoursDay list \<Rightarrow> instant \<Rightarrow> qrOpen" where
  "qrOpenAt days now =
     (case find (\<lambda>d. oh_dow d = ist_dow now) days of
        None \<Rightarrow> \<lparr>qo_open = False, qo_why = Some ''QR ordering is closed today.'', qo_today = None\<rparr>
      | Some day \<Rightarrow>
          (let today = Some (oh_opens day, oh_closes day); at' = hhmm (ist_minute now) in
           if at' < oh_opens day
           then \<lparr>qo_open = False, qo_why = Some (''QR ordering opens at '' @ oh_opens day @ '' today.''),
                 qo_today = today\<rparr>
           else if oh_closes day \<le> at'
           then \<lparr>qo_open = False, qo_why = Some (''QR ordering closed at '' @ oh_closes day @ '' today.''),
                 qo_today = today\<rparr>
           else \<lparr>qo_open = True, qo_why = None, qo_today = today\<rparr>))"

definition hoursRefusal :: "string \<Rightarrow> qrOpen \<Rightarrow> string" where
  "hoursRefusal outlet o' = outlet @ '' is not taking QR orders right now - '' @
     (case qo_why o' of Some w \<Rightarrow> w | None \<Rightarrow> ''QR ordering is closed.'')"

definition pausedRefusal :: "string \<Rightarrow> string" where
  "pausedRefusal outlet = outlet @ '' has paused QR orders for now - please order at the counter.''"

definition paise :: "number \<Rightarrow> int" where
  "paise rupees = js_round (rupees * 100)"

section \<open>Lemmas: the calendar\<close>

lemma day_of_era_range: "0 \<le> day_of_era z" "day_of_era z \<le> 146096"
  using pos_mod_bound [of 146097 "z + 719468"] by (simp_all add: day_of_era_def)

lemma div_bounds: "0 < k \<Longrightarrow> k * (x div k) \<le> x \<and> x < k * (x div k) + (k::int)"
  by (metis add.commute add_strict_left_mono minus_mod_eq_mult_div mult_div_mod_eq pos_mod_bound
      pos_mod_sign diff_ge_0_iff_ge add_increasing le_add_same_cancel1)

lemma era_parts_range:
  assumes "0 \<le> doe" "doe \<le> 146096" and "era_parts doe = (n100, n4, n1, doy)"
  shows "0 \<le> n100 \<and> n100 \<le> 3 \<and> 0 \<le> n4 \<and> n4 \<le> 24 \<and> 0 \<le> n1 \<and> n1 \<le> 3 \<and> 0 \<le> doy \<and> doy \<le> 365
    \<and> 36524 * n100 + 1461 * n4 + 365 * n1 + doy = doe"
proof -
  define r100 where "r100 = doe - 36524 * n100"
  define r4 where "r4 = r100 - 1461 * n4"
  have eqs: "n100 = min 3 (doe div 36524)" "n4 = r100 div 1461" "n1 = min 3 (r4 div 365)"
    "doy = r4 - 365 * n1"
    using assms(3) unfolding era_parts_def r100_def r4_def Let_def by auto
  define q where "q = doe div 36524"
  have q: "36524 * q \<le> doe" "doe < 36524 * q + 36524"
    using div_bounds [of 36524 doe] by (simp_all only: q_def)
  have n100_q: "n100 = min 3 q" using eqs(1) unfolding q_def .
  have n100: "0 \<le> n100 \<and> n100 \<le> 3 \<and> 0 \<le> r100 \<and> r100 \<le> 36524"
    using assms(1,2) q n100_q r100_def by linarith
  have "1461 * n4 \<le> r100" "r100 < 1461 * n4 + 1461"
    using div_bounds [of 1461 r100] by (simp_all only: eqs(2))
  then have n4: "0 \<le> n4 \<and> n4 \<le> 24 \<and> 0 \<le> r4 \<and> r4 \<le> 1460"
    using n100 r4_def by linarith
  define p where "p = r4 div 365"
  have p: "365 * p \<le> r4" "r4 < 365 * p + 365"
    using div_bounds [of 365 r4] by (simp_all only: p_def)
  have n1: "n1 = min 3 p" using eqs(3) unfolding p_def .
  have "0 \<le> p \<and> p \<le> 4" using n4 p by linarith
  then have "0 \<le> n1 \<and> n1 \<le> 3 \<and> 0 \<le> doy \<and> doy \<le> 365"
    using n4 p n1 eqs(4) by (elim conjE) linarith
  moreover have "36524 * n100 + 1461 * n4 + 365 * n1 + doy = doe"
    using eqs(4) unfolding r4_def r100_def by linarith
  ultimately show ?thesis using n100 n4 by blast
qed

lemma month_inverse:
  "0 \<le> doy \<Longrightarrow> doy \<le> 365 \<Longrightarrow> 0 \<le> (5 * doy + 2) div 153 \<and> (5 * doy + 2) div 153 \<le> (11::int)"
  using div_bounds [of 153 "5 * doy + 2"] by linarith

text \<open>The date of a day names the day: parsing it back gives the day number.\<close>

lemma days_of_civil_civil: "days_of_civil (civil z) = z"
proof -
  define doe era where "doe = day_of_era z" and "era = (z + 719468) div 146097"
  obtain n100 n4 n1 doy where p: "era_parts doe = (n100, n4, n1, doy)" by (metis prod_cases4)
  note r = era_parts_range [OF day_of_era_range [of z, folded doe_def] p]
  define mp where "mp = (5 * doy + 2) div 153"
  have mp: "0 \<le> mp \<and> mp \<le> 11" using month_inverse r unfolding mp_def by blast
  define y where "y = 100 * n100 + 4 * n4 + n1"
  have y: "0 \<le> y" "y < 400" using r unfolding y_def by linarith+
  have div4: "y div 4 = 25 * n100 + n4" and div100: "y div 100 = n100"
    using r by (auto simp: y_def intro!: int_div_pos_eq)
  have z: "z + 719468 = era * 146097 + doe"
    unfolding doe_def era_def day_of_era_def by simp
  have y_era: "(y + era * 400) div 400 = era" "(y + era * 400) mod 400 = y"
    using y by simp_all
  define m where "m = (if mp < 10 then mp + 3 else mp - 9)"
  define k where "k = (153 * mp + 2) div 5"
  have c1: "civil z = (y + era * 400 + (if m \<le> 2 then 1 else 0), m, doy - k + 1)"
    unfolding civil_def Let_def year_of_era_def day_of_year_def m_def k_def mp_def y_def
      doe_def [symmetric] era_def [symmetric] p prod.case ..
  have c2: "(if m \<le> 2 then y + era * 400 + (if m \<le> 2 then 1 else 0) - 1
      else y + era * 400 + (if m \<le> 2 then 1 else 0)) = y + era * 400" by simp
  have c3: "(if 2 < m then m - 3 else m + 9) = mp" using mp by (auto simp: m_def)
  have "36524 * n100 + 1461 * n4 + 365 * n1 + doy = doe" using r by blast
  then have sum: "365 * y + 25 * n100 + n4 - n100 + doy = doe"
    unfolding y_def by (simp add: algebra_simps)
  have c4: "days_of_civil (civil z) =
      era * 146097 + (y * 365 + y div 4 - y div 100 + (k + (doy - k + 1) - 1)) - 719468"
    unfolding c1 days_of_civil_def prod.case Let_def c2 c3 y_era k_def ..
  show ?thesis unfolding c4 div4 div100 using z sum by linarith
qed

lemma civil_inject: "civil a = civil b \<Longrightarrow> a = b"
  by (metis days_of_civil_civil)

section \<open>Lemmas: the clock\<close>

lemma less_char_code: "(c < d) = ((of_char c :: nat) < of_char d)"
  by (simp add: less_char_def)

lemma digit_less: "d < 10 \<Longrightarrow> e < 10 \<Longrightarrow> (digit d < digit e) = (d < e)"
  by (simp add: less_char_code)

lemma digit_eq: "d < 10 \<Longrightarrow> e < 10 \<Longrightarrow> (digit d = digit e) = (d = e)"
  by (metis of_char_digit add_left_cancel)

lemma pad2: "n < 100 \<Longrightarrow> pad n 2 = [digit (n div 10), digit (n mod 10)]"
  by (cases "n < 10")
    (simp_all add: pad_def nat_str.simps [of n] nat_str.simps [of "n div 10"] less_mult_imp_div_less
      digit_eval)

definition clock :: "int \<Rightarrow> bool" where
  "clock m \<longleftrightarrow> 0 \<le> m \<and> m < 1440"

lemma clock_parts:
  assumes "clock m"
  shows "nat (m div 60) < 24" "nat (m mod 60) < 60"
proof -
  have "0 \<le> m" "m < 1440" using assms by (simp_all add: clock_def)
  then have "m div 60 < 24" using div_bounds [of 60 m] by linarith
  then show "nat (m div 60) < 24" by linarith
  show "nat (m mod 60) < 60" using pos_mod_bound [of 60 m] by linarith
qed

lemma hhmm_chars:
  assumes "clock m"
  shows "hhmm m = [digit (nat (m div 60) div 10), digit (nat (m div 60) mod 10), CHR '':'',
    digit (nat (m mod 60) div 10), digit (nat (m mod 60) mod 10)]"
proof -
  have lt: "nat (m div 60) < 100" "nat (m mod 60) < 100"
    by (rule less_trans [OF clock_parts(1) [OF assms]], simp)
      (rule less_trans [OF clock_parts(2) [OF assms]], simp)
  show ?thesis unfolding hhmm_def pad2 [OF lt(1)] pad2 [OF lt(2)] by simp
qed

lemma two_digit_less:
  "((a::nat) < b) = (a div 10 < b div 10 \<or> a div 10 = b div 10 \<and> a mod 10 < b mod 10)"
proof -
  define qa ra qb rb where d: "qa = a div 10" "ra = a mod 10" "qb = b div 10" "rb = b mod 10"
  have *: "a = 10 * qa + ra" "b = 10 * qb + rb" by (simp_all add: d)
  have "ra < 10" "rb < 10" by (simp_all add: d)
  then have "(a < b) = (qa < qb \<or> qa = qb \<and> ra < rb)" unfolding * by linarith
  then show ?thesis unfolding d .
qed

text \<open>A 24-hour time compares as a string the way it compares as a minute.\<close>

lemma hhmm_less:
  assumes a: "clock a" and b: "clock b"
  shows "(hhmm a < hhmm b) = (a < b)"
proof -
  define ah am bh bm where d: "ah = nat (a div 60)" "am = nat (a mod 60)" "bh = nat (b div 60)" "bm = nat (b mod 60)"
  have ia: "a = 60 * int ah + int am" and ib: "b = 60 * int bh + int bm"
    using a b by (simp_all add: d clock_def pos_imp_zdiv_nonneg_iff)
  have lt: "ah < 24" "bh < 24" "am < 60" "bm < 60"
    using clock_parts [OF a] clock_parts [OF b] by (simp_all add: d)
  then have dig: "ah div 10 < 10" "bh div 10 < 10" "am div 10 < 10" "bm div 10 < 10" by auto
  have "(hhmm a < hhmm b) = (ah < bh \<or> ah = bh \<and> am < bm)"
    using two_digit_less [of ah bh] two_digit_less [of am bm] lt
    unfolding hhmm_chars [OF a] hhmm_chars [OF b] d [symmetric] Cons_less_Cons
    by (simp add: digit_less [OF dig(1,2)] digit_less [OF dig(3,4)] digit_eq [OF dig(1,2)]
        digit_eq [OF dig(3,4)] digit_less digit_eq)
      (metis mult_div_mod_eq)
  also have "\<dots> = (a < b)" unfolding ia ib using lt by linarith
  finally show ?thesis .
qed

lemma hhmm_le: "clock a \<Longrightarrow> clock b \<Longrightarrow> (hhmm a \<le> hhmm b) = (a \<le> b)"
  by (metis hhmm_less not_less)

lemma ist_minute_clock: "clock (ist_minute t)"
proof -
  have "0 \<le> (t + IST_OFFSET) mod DAY_MS" "(t + IST_OFFSET) mod DAY_MS < DAY_MS"
    by (simp_all add: DAY_MS_def)
  then show ?thesis
    using div_bounds [of 60000 "(t + IST_OFFSET) mod DAY_MS"]
    unfolding clock_def ist_minute_def DAY_MS_def by linarith
qed

lemma pad_len4: "n < 10000 \<Longrightarrow> length (pad n 4) = 4"
proof -
  assume "n < 10000"
  then have "length (nat_str n) \<le> 4"
    by (simp add: nat_str.simps [of n] nat_str.simps [of "n div 10"] nat_str.simps [of "n div 10 div 10"]
        nat_str.simps [of "n div 10 div 10 div 10"] less_mult_imp_div_less del: div_mult2_eq)
  then show ?thesis by (simp add: pad_def)
qed

end
