(* ===== verification/Transitions.thy ===== *)
theory Transitions
  imports Contract
begin

text \<open>
  Status transitions are data: \<open>packages/domain/src/transitions.ts\<close>, with the support desk's table and
  rules (\<open>support.ts\<close>), the path a QR order walks (\<open>qr.ts\<close>) and the statuses that hold an outlet open
  (\<open>locations.ts\<close>). A table is a function from a status to the statuses that may follow it.

  The lemmas: which statuses are final, which documents never revisit a status, that the QR counter's
  one next step is always an edge of the table, and that a document that has let go of an outlet
  does not take hold of it again.
\<close>

fun REQUEST_TRANSITIONS :: "reqStatus \<Rightarrow> reqStatus list" where
  "REQUEST_TRANSITIONS Req_Draft = [Req_Sent, Req_Cancelled]"
| "REQUEST_TRANSITIONS Req_Sent = [Req_ManagerApproved, Req_PartiallyApproved, Req_Rejected, Req_Cancelled]"
| "REQUEST_TRANSITIONS Req_ManagerApproved = [Req_TicketIssued, Req_Cancelled]"
| "REQUEST_TRANSITIONS Req_PartiallyApproved = [Req_TicketIssued, Req_Cancelled]"
| "REQUEST_TRANSITIONS Req_TicketIssued = [Req_Collected]"
| "REQUEST_TRANSITIONS Req_Collected = [Req_Closed]"
| "REQUEST_TRANSITIONS Req_Received = [Req_Closed]"
| "REQUEST_TRANSITIONS Req_Closed = []"
| "REQUEST_TRANSITIONS Req_Rejected = []"
| "REQUEST_TRANSITIONS Req_Cancelled = []"

fun TICKET_TRANSITIONS :: "tktStatus \<Rightarrow> tktStatus list" where
  "TICKET_TRANSITIONS Tkt_Issued = [Tkt_Collected, Tkt_Cancelled]"
| "TICKET_TRANSITIONS Tkt_Collected = [Tkt_Received]"
| "TICKET_TRANSITIONS Tkt_Received = []"
| "TICKET_TRANSITIONS Tkt_Cancelled = []"

fun PROD_ORDER_TRANSITIONS :: "pordStatus \<Rightarrow> pordStatus list" where
  "PROD_ORDER_TRANSITIONS Pord_New = [Pord_Accepted, Pord_Declined, Pord_Dispatched]"
| "PROD_ORDER_TRANSITIONS Pord_Accepted = [Pord_InKitchen, Pord_Dispatched]"
| "PROD_ORDER_TRANSITIONS Pord_InKitchen = [Pord_Ready, Pord_Dispatched]"
| "PROD_ORDER_TRANSITIONS Pord_Ready = [Pord_Dispatched]"
| "PROD_ORDER_TRANSITIONS Pord_Dispatched = [Pord_Ready]"
| "PROD_ORDER_TRANSITIONS Pord_Declined = []"

fun SHOP_ASK_TRANSITIONS :: "shopAskStatus \<Rightarrow> shopAskStatus list" where
  "SHOP_ASK_TRANSITIONS Ask_Asked = [Ask_Sent, Ask_Declined]"
| "SHOP_ASK_TRANSITIONS Ask_Sent = [Ask_Asked]"
| "SHOP_ASK_TRANSITIONS Ask_Declined = []"

fun REQUISITION_TRANSITIONS :: "prqStatus \<Rightarrow> prqStatus list" where
  "REQUISITION_TRANSITIONS Prq_Sent = [Prq_Approved, Prq_PartiallyApproved, Prq_Declined]"
| "REQUISITION_TRANSITIONS Prq_Approved = []"
| "REQUISITION_TRANSITIONS Prq_PartiallyApproved = []"
| "REQUISITION_TRANSITIONS Prq_Declined = []"

fun PO_TRANSITIONS :: "poStatus \<Rightarrow> poStatus list" where
  "PO_TRANSITIONS Po_Draft = [Po_Ordered, Po_Cancelled]"
| "PO_TRANSITIONS Po_Ordered = [Po_PartiallyReceived, Po_Received, Po_Cancelled]"
| "PO_TRANSITIONS Po_PartiallyReceived = [Po_PartiallyReceived, Po_Received]"
| "PO_TRANSITIONS Po_Received = []"
| "PO_TRANSITIONS Po_Cancelled = []"

fun ADJUSTMENT_REQUEST_TRANSITIONS :: "adjReqStatus \<Rightarrow> adjReqStatus list" where
  "ADJUSTMENT_REQUEST_TRANSITIONS Adj_Sent = [Adj_Approved, Adj_Rejected, Adj_Cancelled]"
| "ADJUSTMENT_REQUEST_TRANSITIONS Adj_Approved = []"
| "ADJUSTMENT_REQUEST_TRANSITIONS Adj_Rejected = []"
| "ADJUSTMENT_REQUEST_TRANSITIONS Adj_Cancelled = []"

fun QR_ORDER_TRANSITIONS :: "qrOrderStatus \<Rightarrow> qrOrderStatus list" where
  "QR_ORDER_TRANSITIONS Qr_Awaiting = [Qr_Paid, Qr_Refunded, Qr_Expired]"
| "QR_ORDER_TRANSITIONS Qr_Expired = [Qr_Paid, Qr_Refunded]"
| "QR_ORDER_TRANSITIONS Qr_Paid = [Qr_Preparing, Qr_Voided]"
| "QR_ORDER_TRANSITIONS Qr_Preparing = [Qr_Ready, Qr_OutForDelivery, Qr_Voided]"
| "QR_ORDER_TRANSITIONS Qr_Ready = [Qr_Collected, Qr_Voided]"
| "QR_ORDER_TRANSITIONS Qr_OutForDelivery = [Qr_Delivered, Qr_Voided]"
| "QR_ORDER_TRANSITIONS Qr_Collected = [Qr_Voided]"
| "QR_ORDER_TRANSITIONS Qr_Delivered = [Qr_Voided]"
| "QR_ORDER_TRANSITIONS Qr_Refunded = []"
| "QR_ORDER_TRANSITIONS Qr_Voided = []"

fun REFUND_TRANSITIONS :: "refundStatus \<Rightarrow> refundStatus list" where
  "REFUND_TRANSITIONS Ref_Pending = [Ref_Sent, Ref_Failed]"
| "REFUND_TRANSITIONS Ref_Sent = [Ref_Processed, Ref_Failed]"
| "REFUND_TRANSITIONS Ref_Failed = [Ref_Pending]"
| "REFUND_TRANSITIONS Ref_Processed = []"

definition canTransition :: "('s \<Rightarrow> 's list) \<Rightarrow> 's \<Rightarrow> 's \<Rightarrow> bool" where
  "canTransition table from to \<longleftrightarrow> List.member (table from) to"

lemma canTransition_iff [simp]: "canTransition table from to \<longleftrightarrow> to \<in> set (table from)"
  by (simp add: canTransition_def)

section \<open>The support desk (\<open>support.ts\<close>)\<close>

fun SUPPORT_TRANSITIONS :: "ticketStatus \<Rightarrow> ticketStatus list" where
  "SUPPORT_TRANSITIONS Sup_Open = [Sup_WithSupport, Sup_WaitingOnYou, Sup_Resolved, Sup_Closed]"
| "SUPPORT_TRANSITIONS Sup_WithSupport = [Sup_WaitingOnYou, Sup_Resolved, Sup_Closed]"
| "SUPPORT_TRANSITIONS Sup_WaitingOnYou = [Sup_WithSupport, Sup_Resolved, Sup_Closed]"
| "SUPPORT_TRANSITIONS Sup_Resolved = [Sup_WithSupport, Sup_Closed]"
| "SUPPORT_TRANSITIONS Sup_Closed = []"

definition mayUserSet :: "ticketStatus \<Rightarrow> bool" where
  "mayUserSet st \<longleftrightarrow> st = Sup_Resolved \<or> st = Sup_Closed"

definition statusAfterReply :: "ticketStatus \<Rightarrow> ticketStatus" where
  "statusAfterReply st = (if st = Sup_WaitingOnYou \<or> st = Sup_Resolved then Sup_WithSupport else st)"

definition mayRate :: "ticketStatus \<Rightarrow> bool" where
  "mayRate st \<longleftrightarrow> st = Sup_Resolved \<or> st = Sup_Closed"

definition mayReply :: "ticketStatus \<Rightarrow> bool" where
  "mayReply st \<longleftrightarrow> st \<noteq> Sup_Closed"

definition mayDeskSet :: "ticketStatus \<Rightarrow> bool" where
  "mayDeskSet st \<longleftrightarrow> st \<noteq> Sup_Open"

definition deskStatusAfterReply :: "ticketStatus \<Rightarrow> ticketStatus option \<Rightarrow> ticketStatus" where
  "deskStatusAfterReply st sentWith =
     (case sentWith of Some s \<Rightarrow> s | None \<Rightarrow> if st = Sup_Open then Sup_WithSupport else st)"

section \<open>The path a QR order walks (\<open>qr.ts\<close>)\<close>

fun QR_STEPS :: "qrMode \<Rightarrow> qrOrderStatus list" where
  "QR_STEPS Pickup = [Qr_Paid, Qr_Preparing, Qr_Ready, Qr_Collected]"
| "QR_STEPS Deliver = [Qr_Paid, Qr_Preparing, Qr_OutForDelivery, Qr_Delivered]"

definition qrStepsFor :: "qrMode \<Rightarrow> qrOrderStatus list" where
  "qrStepsFor mode = QR_STEPS mode"

text \<open>\<open>path.indexOf(status)\<close>: the first position, or none.\<close>

fun index_of :: "'a \<Rightarrow> 'a list \<Rightarrow> nat option" where
  "index_of x [] = None"
| "index_of x (y # ys) = (if x = y then Some 0 else map_option Suc (index_of x ys))"

definition nextQrStep :: "qrMode \<Rightarrow> qrOrderStatus \<Rightarrow> qrOrderStatus option" where
  "nextQrStep mode status =
     (let path = QR_STEPS mode in
      case index_of status path of
        None \<Rightarrow> None
      | Some i \<Rightarrow> if Suc i = length path then None else Some (path ! Suc i))"

section \<open>Which statuses hold an outlet open (\<open>locations.ts\<close>)\<close>

fun holds_request :: "reqStatus \<Rightarrow> bool" where
  "holds_request Req_Closed = False"
| "holds_request Req_Rejected = False"
| "holds_request Req_Cancelled = False"
| "holds_request _ = True"

fun holds_ticket :: "tktStatus \<Rightarrow> bool" where
  "holds_ticket Tkt_Issued = True"
| "holds_ticket Tkt_Collected = True"
| "holds_ticket Tkt_Received = False"
| "holds_ticket Tkt_Cancelled = False"

fun holds_prodOrder :: "pordStatus \<Rightarrow> bool" where
  "holds_prodOrder Pord_Dispatched = False"
| "holds_prodOrder Pord_Declined = False"
| "holds_prodOrder _ = True"

fun holds_shopAsk :: "shopAskStatus \<Rightarrow> bool" where
  "holds_shopAsk Ask_Asked = True"
| "holds_shopAsk _ = False"

fun holds_productReq :: "productReqStatus \<Rightarrow> bool" where
  "holds_productReq Npr_Requested = True"
| "holds_productReq _ = False"

fun holds_qrOrder :: "qrOrderStatus \<Rightarrow> bool" where
  "holds_qrOrder Qr_Paid = True"
| "holds_qrOrder Qr_Preparing = True"
| "holds_qrOrder Qr_Ready = True"
| "holds_qrOrder Qr_OutForDelivery = True"
| "holds_qrOrder _ = False"

section \<open>Walking a table\<close>

text \<open>\<open>walks table a b\<close>: some run of listed transitions takes a document from \<open>a\<close> to \<open>b\<close>.\<close>

inductive walks :: "('s \<Rightarrow> 's list) \<Rightarrow> 's \<Rightarrow> 's \<Rightarrow> bool" for table where
  stay: "walks table a a"
| go: "canTransition table a b \<Longrightarrow> walks table b c \<Longrightarrow> walks table a c"

inductive_cases walksE: "walks table a c"

locale status_table =
  fixes table :: "'s \<Rightarrow> 's list" and final :: "'s list"
  assumes final_stuck: "s \<in> set final \<Longrightarrow> table s = []"
begin

lemma final_stays: "walks table s t \<Longrightarrow> s \<in> set final \<Longrightarrow> t = s"
  by (auto elim: walksE simp: final_stuck)

end

text \<open>A table whose every edge goes down in rank: the document never comes back.\<close>

locale lifecycle = status_table +
  fixes rank :: "'s \<Rightarrow> nat"
  assumes rank_down: "t \<in> set (table s) \<Longrightarrow> rank t < rank s"
begin

lemma walk_rank: "walks table s t \<Longrightarrow> rank t \<le> rank s"
  by (induction rule: walks.induct) (auto dest: rank_down)

lemma no_return:
  assumes "walks table s t" and "walks table t s"
  shows "s = t"
  using assms(1)
proof (cases rule: walks.cases)
  case (go b)
  then have "rank t \<le> rank b" and "rank b < rank s" by (auto dest: walk_rank rank_down)
  with walk_rank [OF assms(2)] show ?thesis by simp
qed simp

lemma no_self_edge: "\<not> canTransition table s s"
  using rank_down by auto

end

fun request_rank :: "reqStatus \<Rightarrow> nat" where
  "request_rank Req_Draft = 5" | "request_rank Req_Sent = 4"
| "request_rank Req_ManagerApproved = 3" | "request_rank Req_PartiallyApproved = 3"
| "request_rank Req_TicketIssued = 2" | "request_rank Req_Collected = 1"
| "request_rank Req_Received = 1" | "request_rank _ = 0"

fun ticket_rank :: "tktStatus \<Rightarrow> nat" where
  "ticket_rank Tkt_Issued = 2" | "ticket_rank Tkt_Collected = 1" | "ticket_rank _ = 0"

fun qr_rank :: "qrOrderStatus \<Rightarrow> nat" where
  "qr_rank Qr_Awaiting = 6" | "qr_rank Qr_Expired = 5" | "qr_rank Qr_Paid = 4"
| "qr_rank Qr_Preparing = 3" | "qr_rank Qr_Ready = 2" | "qr_rank Qr_OutForDelivery = 2"
| "qr_rank Qr_Collected = 1" | "qr_rank Qr_Delivered = 1" | "qr_rank _ = 0"

interpretation req_table: lifecycle REQUEST_TRANSITIONS "[Req_Closed, Req_Rejected, Req_Cancelled]" request_rank
proof
  show "t \<in> set (REQUEST_TRANSITIONS s) \<Longrightarrow> request_rank t < request_rank s" for s t
    by (cases s) auto
qed auto

interpretation tkt_table: lifecycle TICKET_TRANSITIONS "[Tkt_Received, Tkt_Cancelled]" ticket_rank
proof
  show "t \<in> set (TICKET_TRANSITIONS s) \<Longrightarrow> ticket_rank t < ticket_rank s" for s t
    by (cases s) auto
qed auto

interpretation qr_table: lifecycle QR_ORDER_TRANSITIONS "[Qr_Refunded, Qr_Voided]" qr_rank
proof
  show "t \<in> set (QR_ORDER_TRANSITIONS s) \<Longrightarrow> qr_rank t < qr_rank s" for s t
    by (cases s) auto
qed auto

interpretation prq_table: lifecycle REQUISITION_TRANSITIONS
    "[Prq_Approved, Prq_PartiallyApproved, Prq_Declined]" "\<lambda>s. if s = Prq_Sent then 1 else 0"
proof
  show "t \<in> set (REQUISITION_TRANSITIONS s) \<Longrightarrow>
      (if t = Prq_Sent then 1 else 0) < (if s = Prq_Sent then 1 else (0::nat))" for s t
    by (cases s) auto
qed auto

interpretation adj_table: lifecycle ADJUSTMENT_REQUEST_TRANSITIONS
    "[Adj_Approved, Adj_Rejected, Adj_Cancelled]" "\<lambda>s. if s = Adj_Sent then 1 else 0"
proof
  show "t \<in> set (ADJUSTMENT_REQUEST_TRANSITIONS s) \<Longrightarrow>
      (if t = Adj_Sent then 1 else 0) < (if s = Adj_Sent then 1 else (0::nat))" for s t
    by (cases s) auto
qed auto

text \<open>The four tables with a way back are plain status tables.\<close>

interpretation po_table: status_table PO_TRANSITIONS "[Po_Received, Po_Cancelled]"
  by unfold_locales auto

interpretation pord_table: status_table PROD_ORDER_TRANSITIONS "[Pord_Declined]"
  by unfold_locales auto

interpretation ask_table: status_table SHOP_ASK_TRANSITIONS "[Ask_Declined]"
  by unfold_locales auto

interpretation refund_table: status_table REFUND_TRANSITIONS "[Ref_Processed]"
  by unfold_locales auto

interpretation support_table: status_table SUPPORT_TRANSITIONS "[Sup_Closed]"
  by unfold_locales auto

section \<open>Facts the services read\<close>

lemma next_step_edge:
  "nextQrStep mode s = Some t \<Longrightarrow> canTransition QR_ORDER_TRANSITIONS s t"
  by (cases mode; cases s) (auto simp: nextQrStep_def)

lemma user_set_edge:
  "mayUserSet st \<Longrightarrow> from \<noteq> st \<Longrightarrow> from \<noteq> Sup_Closed \<Longrightarrow> canTransition SUPPORT_TRANSITIONS from st"
  by (cases "from") (auto simp: mayUserSet_def)

lemma reply_edge:
  "mayReply st \<Longrightarrow> statusAfterReply st = st \<or> canTransition SUPPORT_TRANSITIONS st (statusAfterReply st)"
  by (cases st) (auto simp: statusAfterReply_def mayReply_def)

lemma desk_reply_edge:
  "mayReply st \<Longrightarrow> deskStatusAfterReply st None = st
     \<or> canTransition SUPPORT_TRANSITIONS st (deskStatusAfterReply st None)"
  by (cases st) (auto simp: deskStatusAfterReply_def mayReply_def)

lemma request_lets_go:
  "canTransition REQUEST_TRANSITIONS a b \<Longrightarrow> \<not> holds_request a \<Longrightarrow> \<not> holds_request b"
  by (cases a) auto

lemma ticket_lets_go:
  "canTransition TICKET_TRANSITIONS a b \<Longrightarrow> \<not> holds_ticket a \<Longrightarrow> \<not> holds_ticket b"
  by (cases a) auto

end
