(* ===== verification/Errors.thy ===== *)
theory Errors
  imports Text
begin

text \<open>
  How an operation ends: \<open>apps/api/src/lib/errors.ts\<close>. An error class is a constructor with the
  message the caller reads; the codes and HTTP statuses are functions of it. \<open>Internal\<close> is what the
  program does not answer with a sentence: an invariant broken, a row the insert was refused, a
  missing upstream order. An operation that may be refused returns \<open>error + 'a\<close>.
\<close>

datatype errorCode = Code_validation | Code_unauthenticated | Code_forbidden | Code_not_found
  | Code_conflict | Code_rule | Code_rate_limited | Code_not_ready | Code_internal

datatype error =
    ValidationError string
  | UnauthenticatedError string
  | ForbiddenError string
  | NotFoundError string
  | ConflictError string
  | RuleError string
  | RateLimitedError string
  | NotReadyError string
  | RegisterClosingError
  | Internal string

fun code_of :: "error \<Rightarrow> errorCode" where
  "code_of (ValidationError _) = Code_validation"
| "code_of (UnauthenticatedError _) = Code_unauthenticated"
| "code_of (ForbiddenError _) = Code_forbidden"
| "code_of (NotFoundError _) = Code_not_found"
| "code_of (ConflictError _) = Code_conflict"
| "code_of (RuleError _) = Code_rule"
| "code_of (RateLimitedError _) = Code_rate_limited"
| "code_of (NotReadyError _) = Code_not_ready"
| "code_of RegisterClosingError = Code_conflict"
| "code_of (Internal _) = Code_internal"

fun status_of :: "error \<Rightarrow> nat" where
  "status_of (ValidationError _) = 400"
| "status_of (UnauthenticatedError _) = 401"
| "status_of (ForbiddenError _) = 403"
| "status_of (NotFoundError _) = 404"
| "status_of (ConflictError _) = 409"
| "status_of (RuleError _) = 422"
| "status_of (RateLimitedError _) = 429"
| "status_of (NotReadyError _) = 503"
| "status_of RegisterClosingError = 409"
| "status_of (Internal _) = 500"

text \<open>\<open>e.message\<close>.\<close>

fun message_of :: "error \<Rightarrow> string" where
  "message_of (ValidationError m) = m"
| "message_of (UnauthenticatedError m) = m"
| "message_of (ForbiddenError m) = m"
| "message_of (NotFoundError m) = m"
| "message_of (ConflictError m) = m"
| "message_of (RuleError m) = m"
| "message_of (RateLimitedError m) = m"
| "message_of (NotReadyError m) = m"
| "message_of RegisterClosingError = ''The register is being closed - take the bill again in a moment.''"
| "message_of (Internal m) = m"

section \<open>Sequencing\<close>

text \<open>A guard that throws before the rest runs, a row that has to be there, and a step whose answer the
  rest uses. \<open>assertRule\<close> is the 422 half of every write (\<open>lib/rules.ts\<close>).\<close>

definition unless :: "error option \<Rightarrow> error + 'a \<Rightarrow> error + 'a" where
  "unless g k = (case g of Some e \<Rightarrow> Inl e | None \<Rightarrow> k)"

definition assertRule :: "bool \<Rightarrow> string \<Rightarrow> error option" where
  "assertRule cond msg = (if cond then None else Some (RuleError msg))"

definition found :: "'r option \<Rightarrow> error \<Rightarrow> ('r \<Rightarrow> error + 'a) \<Rightarrow> error + 'a" where
  "found row e k = (case row of None \<Rightarrow> Inl e | Some r \<Rightarrow> k r)"

definition bindE :: "error + 'a \<Rightarrow> ('a \<Rightarrow> error + 'b) \<Rightarrow> error + 'b" where
  "bindE m k = (case m of Inl e \<Rightarrow> Inl e | Inr a \<Rightarrow> k a)"

lemma unless_Inr [simp]: "unless g k = Inr x \<longleftrightarrow> g = None \<and> k = Inr x"
  by (auto simp: unless_def split: option.splits)

lemma assertRule_None [simp]: "assertRule cond msg = None \<longleftrightarrow> cond"
  by (simp add: assertRule_def)

lemma found_Inr [simp]: "found row e k = Inr x \<longleftrightarrow> (\<exists>r. row = Some r \<and> k r = Inr x)"
  by (auto simp: found_def split: option.splits)

lemma bindE_Inr [simp]: "bindE m k = Inr x \<longleftrightarrow> (\<exists>a. m = Inr a \<and> k a = Inr x)"
  by (auto simp: bindE_def split: sum.splits)

lemma unless_simps: "unless None k = k" "unless (Some e) k = Inl e"
  and found_simps: "found (Some r) e f = f r" "found None e f = Inl e"
  and bindE_simps: "bindE (Inr a) g = g a" "bindE (Inl e) g = Inl e"
  by (simp_all add: unless_def found_def bindE_def)

lemmas seq_simps = unless_simps found_simps bindE_simps

end
