(* ===== verification/Permissions.thy ===== *)
theory Permissions
  imports Contract Errors
begin

text \<open>
  Who may do what: \<open>packages/domain/src/permissions.ts\<close> and the route gate of
  \<open>apps/api/src/plugins/rbac.ts\<close>. \<open>FEATURES\<close> and \<open>ACTIONS\<close> are functions of their closed sets,
  \<open>feature_keys\<close> is the order \<open>Object.keys\<close> walks them in. The role cache (\<open>app.access.of\<close>) is an
  argument of the gate.

  Lemmas: exactly when a set of permissions may be given to a desk, that the seeded roles may hold
  what they are seeded with, when a door opens, that a door never closes because more is held, and
  that a 403 always names something the administrator could grant.
\<close>

datatype featureScope = Wide | Local

datatype section' = Sales | Outlets | MyCounter | CentralStore | KitchenSection | Purchasing | ItemsSection

record featureDef =
  fd_label :: string
  fd_section :: section'
  fd_scope :: featureScope
  fd_levels :: "level \<Rightarrow> role list option"

definition ALL_DESKS :: "role list" where "ALL_DESKS = [Counter, Manager, StoreDesk, Prod, Buyer]"

definition lv :: "role list option \<Rightarrow> role list option \<Rightarrow> level \<Rightarrow> role list option" where
  "lv v e l = (case l of View \<Rightarrow> v | Edit \<Rightarrow> e)"

definition both :: "role list \<Rightarrow> level \<Rightarrow> role list option" where
  "both desks = lv (Some desks) (Some desks)"

definition fdef :: "string \<Rightarrow> section' \<Rightarrow> featureScope \<Rightarrow> (level \<Rightarrow> role list option) \<Rightarrow> featureDef" where
  "fdef lbl sec sc ls = \<lparr>fd_label = lbl, fd_section = sec, fd_scope = sc, fd_levels = ls\<rparr>"

fun FEATURES :: "feature \<Rightarrow> featureDef" where
  "FEATURES F_billing = fdef ''Bills'' Sales Local (lv (Some [Counter, Manager]) (Some [Counter]))"
| "FEATURES F_x_report = fdef ''X reports'' Sales Local (lv (Some [Counter, Manager]) None)"
| "FEATURES F_z_report = fdef ''Z reports'' Sales Local (both [Counter, Manager])"
| "FEATURES F_shift_reports = fdef ''Shift reports'' Sales Wide (lv (Some [Counter, Manager]) None)"
| "FEATURES F_credit = fdef ''Discounts & credit limits'' Sales Wide (both ALL_DESKS)"
| "FEATURES F_settlements = fdef ''Receivables & settlements'' Sales Wide (both ALL_DESKS)"
| "FEATURES F_qr_orders = fdef ''QR orders'' Sales Local (both [Counter, Manager])"
| "FEATURES F_approvals = fdef ''Approvals'' Outlets Wide (both ALL_DESKS)"
| "FEATURES F_items_stock = fdef ''Items & stock'' Outlets Wide (both ALL_DESKS)"
| "FEATURES F_menu = fdef ''Menus'' Outlets Wide (both ALL_DESKS)"
| "FEATURES F_prices = fdef ''Prices'' Outlets Wide (both ALL_DESKS)"
| "FEATURES F_availability = fdef ''Product on / off'' Outlets Local (lv None (Some [Counter, Manager, Prod]))"
| "FEATURES F_item_photos = fdef ''Product photos'' Outlets Local (lv None (Some [Counter, Manager]))"
| "FEATURES F_outlet_stock = fdef ''Stock in hand'' MyCounter Local (both [Counter])"
| "FEATURES F_outlet_requests = fdef ''Stock requests'' MyCounter Local (both [Counter])"
| "FEATURES F_outlet_tickets = fdef ''Pick tickets'' MyCounter Local (both [Counter])"
| "FEATURES F_issue_desk = fdef ''Issue desk'' CentralStore Local (both [StoreDesk])"
| "FEATURES F_store_requisitions = fdef ''Store requisitions'' CentralStore Local (both [StoreDesk])"
| "FEATURES F_store_stock = fdef ''Store stock'' CentralStore Local (lv (Some [StoreDesk]) None)"
| "FEATURES F_store_reports = fdef ''Store reports'' CentralStore Local (lv (Some [StoreDesk]) None)"
| "FEATURES F_adjustments = fdef ''Adjustments'' CentralStore Local (both [StoreDesk, Prod])"
| "FEATURES F_goods_receipt = fdef ''Goods receipt'' CentralStore Local (lv None (Some [StoreDesk, Buyer]))"
| "FEATURES F_kitchen_orders = fdef ''Kitchen orders'' KitchenSection Local (both [Prod])"
| "FEATURES F_make_distribute = fdef ''Make & distribute'' KitchenSection Local (both [Prod])"
| "FEATURES F_kitchen_requests = fdef ''Kitchen stock requests'' KitchenSection Local (both [Prod])"
| "FEATURES F_kitchen_tickets = fdef ''Kitchen pick tickets'' KitchenSection Local (both [Prod])"
| "FEATURES F_kitchen_stock = fdef ''Kitchen stock'' KitchenSection Local (lv (Some [Prod]) None)"
| "FEATURES F_requisitions = fdef ''Requisitions'' Purchasing Wide (both ALL_DESKS)"
| "FEATURES F_procurement_list = fdef ''Procurement list'' Purchasing Wide (both ALL_DESKS)"
| "FEATURES F_purchase_orders = fdef ''Purchase orders'' Purchasing Wide (both ALL_DESKS)"
| "FEATURES F_rate_contracts = fdef ''Rate contracts'' Purchasing Wide (both ALL_DESKS)"
| "FEATURES F_vendors = fdef ''Vendors'' Purchasing Wide (both ALL_DESKS)"
| "FEATURES F_item_master = fdef ''Item master'' ItemsSection Local (lv None (Some [StoreDesk, Prod, Buyer]))"
| "FEATURES F_new_products = fdef ''New products'' ItemsSection Wide (both [StoreDesk, Buyer])"
| "FEATURES F_inventory = fdef ''Inventory'' ItemsSection Wide (lv (Some ALL_DESKS) None)"
| "FEATURES F_stock_ledger = fdef ''Stock ledger'' ItemsSection Wide (lv (Some ALL_DESKS) None)"

definition feature_keys :: "feature list" where
  "feature_keys =
    [F_billing, F_x_report, F_z_report, F_shift_reports, F_credit, F_settlements, F_qr_orders,
     F_approvals, F_items_stock, F_menu, F_prices, F_availability, F_item_photos,
     F_outlet_stock, F_outlet_requests, F_outlet_tickets,
     F_issue_desk, F_store_requisitions, F_store_stock, F_store_reports, F_adjustments, F_goods_receipt,
     F_kitchen_orders, F_make_distribute, F_kitchen_requests, F_kitchen_tickets, F_kitchen_stock,
     F_requisitions, F_procurement_list, F_purchase_orders, F_rate_contracts, F_vendors,
     F_item_master, F_new_products, F_inventory, F_stock_ledger]"

record actionDef =
  ad_label :: string
  ad_parent :: "feature option"
  ad_desks :: "role list option"
  ad_refusal :: string

fun ACTIONS :: "action \<Rightarrow> actionDef" where
  "ACTIONS Void_bill =
     \<lparr>ad_label = ''Void a bill'', ad_parent = Some F_billing, ad_desks = None,
      ad_refusal = ''You can see Bills but not void one - ask the administrator for the void permission.''\<rparr>"
| "ACTIONS Void_settlement =
     \<lparr>ad_label = ''Void a settlement'', ad_parent = Some F_settlements, ad_desks = None,
      ad_refusal = ''You can see Receivables & settlements but not void a settlement - ask the administrator for the void permission.''\<rparr>"
| "ACTIONS All_outlets =
     \<lparr>ad_label = ''Works for every outlet'', ad_parent = None, ad_desks = Some [Counter, Manager],
      ad_refusal = ''You can only do this at your own outlet - ask the administrator for access to every outlet.''\<rparr>"

definition can :: "permissions \<Rightarrow> feature \<Rightarrow> level \<Rightarrow> bool" where
  "can perms f l = (case perm_f perms f of None \<Rightarrow> False | Some held \<Rightarrow> l = View \<or> held = Edit)"

definition holds :: "permissions \<Rightarrow> action \<Rightarrow> bool" where
  "holds perms a = List.member (perm_a perms) a"

text \<open>\<open>{ ...edit(...), ...view(...) }\<close>: the entries of each spread, the later winning.\<close>

definition feature_map :: "(feature \<times> level) list \<Rightarrow> feature \<Rightarrow> level option" where
  "feature_map kvs = map_of (rev kvs)"

definition edit :: "feature list \<Rightarrow> (feature \<times> level) list" where
  "edit fs = map (\<lambda>f. (f, Edit)) fs"

definition view :: "feature list \<Rightarrow> (feature \<times> level) list" where
  "view fs = map (\<lambda>f. (f, View)) fs"

fun DESK_DEFAULTS :: "role \<Rightarrow> string \<times> permissions" where
  "DESK_DEFAULTS Counter = (''Counter Operator'',
     \<lparr>perm_f = feature_map (edit [F_billing, F_availability, F_item_photos, F_outlet_stock,
        F_outlet_requests, F_outlet_tickets, F_qr_orders] @ view [F_x_report]), perm_a = []\<rparr>)"
| "DESK_DEFAULTS Manager = (''Outlet Manager'',
     \<lparr>perm_f = feature_map (view [F_billing, F_x_report, F_shift_reports, F_stock_ledger, F_qr_orders] @
        edit [F_credit, F_settlements, F_approvals, F_items_stock, F_menu, F_prices, F_availability,
        F_item_photos]), perm_a = [Void_bill, Void_settlement, All_outlets]\<rparr>)"
| "DESK_DEFAULTS StoreDesk = (''Store Keeper'',
     \<lparr>perm_f = feature_map (edit [F_issue_desk, F_store_requisitions, F_adjustments, F_goods_receipt,
        F_item_master] @ view [F_store_stock, F_store_reports, F_stock_ledger]), perm_a = []\<rparr>)"
| "DESK_DEFAULTS Prod = (''Kitchen In-charge'',
     \<lparr>perm_f = feature_map (edit [F_kitchen_orders, F_make_distribute, F_kitchen_requests,
        F_kitchen_tickets, F_availability, F_adjustments, F_item_master] @
        view [F_kitchen_stock, F_stock_ledger]), perm_a = []\<rparr>)"
| "DESK_DEFAULTS Buyer = (''Procurement Officer'',
     \<lparr>perm_f = feature_map (edit [F_requisitions, F_procurement_list, F_purchase_orders,
        F_rate_contracts, F_vendors, F_goods_receipt, F_item_master, F_new_products] @
        view [F_inventory, F_stock_ledger]), perm_a = []\<rparr>)"

fun DESK_WORD :: "role \<Rightarrow> string" where
  "DESK_WORD Counter = ''counter''"
| "DESK_WORD Manager = ''outlet manager''"
| "DESK_WORD StoreDesk = ''store''"
| "DESK_WORD Prod = ''kitchen''"
| "DESK_WORD Buyer = ''purchasing''"

definition level_word :: "level \<Rightarrow> string" where
  "level_word l = (case l of View \<Rightarrow> ''view'' | Edit \<Rightarrow> ''edit'')"

definition grantable :: "role \<Rightarrow> feature \<Rightarrow> level \<Rightarrow> bool" where
  "grantable desk f l =
     (case fd_levels (FEATURES f) l of None \<Rightarrow> False | Some desks \<Rightarrow> List.member desks desk)"

definition feature_refusal :: "role \<Rightarrow> permissions \<Rightarrow> feature \<Rightarrow> string option" where
  "feature_refusal desk perms f =
     (case perm_f perms f of
        None \<Rightarrow> None
      | Some l \<Rightarrow> if grantable desk f l then None
          else Some (''The '' @ DESK_WORD desk @ '' desk can't be given '' @ level_word l
            @ '' access to '' @ fd_label (FEATURES f) @ ''.''))"

definition action_refusal :: "role \<Rightarrow> permissions \<Rightarrow> action \<Rightarrow> string option" where
  "action_refusal desk perms a =
     (case ad_desks (ACTIONS a) of
        Some desks \<Rightarrow>
          if \<not> List.member desks desk
          then Some (''The '' @ DESK_WORD desk @ '' desk can't be given \"'' @ ad_label (ACTIONS a) @ ''\".'')
          else None
      | None \<Rightarrow> None)"

definition parent_refusal :: "permissions \<Rightarrow> action \<Rightarrow> string option" where
  "parent_refusal perms a =
     (case ad_parent (ACTIONS a) of
        Some p \<Rightarrow> if can perms p View then None
          else Some (''\"'' @ ad_label (ACTIONS a) @ ''\" needs at least view access to ''
            @ fd_label (FEATURES p) @ ''.'')
      | None \<Rightarrow> None)"

text \<open>The first answer of a list of checks.\<close>

fun first_some :: "'a option list \<Rightarrow> 'a option" where
  "first_some [] = None"
| "first_some (None # xs) = first_some xs"
| "first_some (Some x # xs) = Some x"

definition grantRefusal :: "role \<Rightarrow> permissions \<Rightarrow> string option" where
  "grantRefusal desk perms =
     first_some (map (feature_refusal desk perms) feature_keys @
       concat (map (\<lambda>a. [action_refusal desk perms a, parent_refusal perms a]) (perm_a perms)))"

definition permissionRefusal :: "feature \<Rightarrow> string" where
  "permissionRefusal f = ''You can see '' @ fd_label (FEATURES f)
     @ '' but not change them - ask the administrator for edit access.''"

definition actionGrantable :: "role \<Rightarrow> action \<Rightarrow> bool" where
  "actionGrantable desk a =
     (List.member (case ad_desks (ACTIONS a) of Some d \<Rightarrow> d | None \<Rightarrow> ALL_DESKS) desk \<and>
      (case ad_parent (ACTIONS a) of None \<Rightarrow> True | Some p \<Rightarrow> grantable desk p View))"

datatype need = NeedF feature level | NeedA action
datatype access = Public | AnyOne | Admin | Needs "need list" | Desk "role list"

datatype admitted = Admitted bool | Refused nat string

definition NOTHING :: admitted where
  "NOTHING = Refused 404 ''There is nothing here.''"

text \<open>The loop over the needs, with the refusal kept from the first that set one (\<open>??=\<close>).\<close>

fun admit_needs :: "role \<Rightarrow> permissions \<Rightarrow> need list \<Rightarrow> string option \<Rightarrow> admitted" where
  "admit_needs desk perms [] refusal = (case refusal of Some r \<Rightarrow> Refused 403 r | None \<Rightarrow> NOTHING)"
| "admit_needs desk perms (NeedA a # ns) refusal =
     (if holds perms a then Admitted True
      else admit_needs desk perms ns
        (case refusal of Some r \<Rightarrow> Some r
         | None \<Rightarrow> (case ad_parent (ACTIONS a) of
             Some p \<Rightarrow> if can perms p View \<and> actionGrantable desk a then Some (ad_refusal (ACTIONS a)) else None
           | None \<Rightarrow> None)))"
| "admit_needs desk perms (NeedF f l # ns) refusal =
     (if can perms f l then Admitted (fd_scope (FEATURES f) = Wide \<or> holds perms All_outlets)
      else admit_needs desk perms ns
        (case refusal of Some r \<Rightarrow> Some r
         | None \<Rightarrow> if can perms f View \<and> grantable desk f l then Some (permissionRefusal f) else None))"

definition admits :: "access \<Rightarrow> role \<Rightarrow> permissions \<Rightarrow> admitted" where
  "admits access desk perms =
     (case access of
        Public \<Rightarrow> Admitted (holds perms All_outlets)
      | AnyOne \<Rightarrow> Admitted (holds perms All_outlets)
      | Admin \<Rightarrow> NOTHING
      | Desk desks \<Rightarrow> if List.member desks desk then Admitted (holds perms All_outlets) else NOTHING
      | Needs ns \<Rightarrow> admit_needs desk perms ns None)"

datatype readCollection = C_bills | C_stock | C_requests | C_tickets | C_shopAsks | C_prodOrders
  | C_adjReq | C_productReqs

fun WIDENED_BY :: "readCollection \<Rightarrow> feature list" where
  "WIDENED_BY C_bills = []"
| "WIDENED_BY C_stock = [F_items_stock, F_stock_ledger, F_inventory, F_prices, F_menu]"
| "WIDENED_BY C_requests = [F_approvals]"
| "WIDENED_BY C_tickets = [F_approvals, F_items_stock]"
| "WIDENED_BY C_shopAsks = [F_approvals]"
| "WIDENED_BY C_prodOrders = [F_approvals]"
| "WIDENED_BY C_adjReq = [F_approvals]"
| "WIDENED_BY C_productReqs = [F_approvals, F_menu]"

definition readsWide :: "role \<Rightarrow> permissions \<Rightarrow> readCollection \<Rightarrow> bool" where
  "readsWide desk perms c \<longleftrightarrow>
     (desk \<noteq> Counter \<and> desk \<noteq> Manager) \<or> holds perms All_outlets
     \<or> list_ex (\<lambda>f. can perms f View) (WIDENED_BY c)"

definition readsBills :: "role \<Rightarrow> permissions \<Rightarrow> bool" where
  "readsBills desk perms \<longleftrightarrow> (desk \<noteq> Counter \<and> desk \<noteq> Manager) \<or> can perms F_billing View"

section \<open>The route gate (\<open>plugins/rbac.ts\<close>)\<close>

record claims =
  cl_sub :: string
  cl_role :: role
  cl_loc :: key
  cl_admin :: bool
  cl_mcp :: bool

record roleAccess =
  ra_desk :: role
  ra_perms :: permissions
  ra_active :: bool

record actor =
  ac_sub :: string
  ac_role :: role
  ac_loc :: key
  ac_perms :: permissions
  ac_wide :: bool

definition NO_PERMS :: permissions where
  "NO_PERMS = \<lparr>perm_f = (\<lambda>_. None), perm_a = []\<rparr>"

definition nothingAt :: "string \<Rightarrow> string \<Rightarrow> error" where
  "nothingAt meth url = NotFoundError (''There is nothing at '' @ meth @ '' '' @ url @ ''.'')"

definition actorOf :: "claims \<Rightarrow> permissions \<Rightarrow> bool \<Rightarrow> actor" where
  "actorOf c perms wide = \<lparr>ac_sub = cl_sub c, ac_role = cl_role c, ac_loc = cl_loc c,
     ac_perms = perms, ac_wide = wide\<rparr>"

definition must_change :: "claims \<Rightarrow> bool \<Rightarrow> actor \<Rightarrow> error + actor option" where
  "must_change c allowMcp a =
     (if cl_mcp c \<and> \<not> allowMcp
      then Inl (ForbiddenError ''Change your password before you carry on.'') else Inr (Some a))"

text \<open>\<open>roleGate(access, allowMcp, { admitAdmin })\<close>. A public route passes without an actor.\<close>

definition roleGate ::
    "(string \<Rightarrow> roleAccess option) \<Rightarrow> access \<Rightarrow> bool \<Rightarrow> bool \<Rightarrow> string \<Rightarrow> string \<Rightarrow> claims
     \<Rightarrow> error + actor option" where
  "roleGate accessOf access allowMcp admitAdmin meth url c =
     (if access = Public then Inr None
      else if access = Admin \<or> cl_admin c
      then if (if access = Admin then \<not> cl_admin c else \<not> allowMcp \<and> \<not> admitAdmin)
           then Inl (nothingAt meth url)
           else must_change c allowMcp (actorOf c NO_PERMS True)
      else (case accessOf (cl_sub c) of
          None \<Rightarrow> Inl (UnauthenticatedError ''Your account was changed - sign in again.'')
        | Some r \<Rightarrow>
            if \<not> ra_active r \<or> ra_desk r \<noteq> cl_role c
            then Inl (UnauthenticatedError ''Your account was changed - sign in again.'')
            else (case admits access (ra_desk r) (ra_perms r) of
                Refused st msg \<Rightarrow> Inl (if st = 404 then nothingAt meth url else ForbiddenError msg)
              | Admitted wide \<Rightarrow> must_change c allowMcp (actorOf c (ra_perms r) wide))))"

definition requireLocOf :: "key \<Rightarrow> key \<Rightarrow> string \<Rightarrow> error option" where
  "requireLocOf claimsLoc loc what =
     (if claimsLoc \<noteq> loc then Some (ForbiddenError (''You can only do this for '' @ what @ ''.'')) else None)"

section \<open>Lemmas\<close>

lemma first_some_None [simp]: "first_some xs = None \<longleftrightarrow> (\<forall>x \<in> set xs. x = None)"
  by (induction xs rule: first_some.induct) auto

lemma feature_keys_all: "f \<in> set feature_keys"
  by (cases f) (simp_all add: feature_keys_def)

lemma holds_iff [simp]: "holds perms a \<longleftrightarrow> a \<in> set (perm_a perms)"
  by (simp add: holds_def)

lemma can_view: "can perms f View \<longleftrightarrow> perm_f perms f \<noteq> None"
  by (auto simp: can_def split: option.splits)

lemma can_edit: "can perms f Edit \<longleftrightarrow> perm_f perms f = Some Edit"
  by (auto simp: can_def split: option.splits)

lemma can_mono: "can perms f l \<Longrightarrow> l' \<le> l \<Longrightarrow> can perms f l'"
  by (cases l'; cases l) (auto simp: can_def less_eq_level_def split: option.splits)

text \<open>A set of permissions fits a desk.\<close>

definition fits :: "role \<Rightarrow> permissions \<Rightarrow> bool" where
  "fits desk perms \<longleftrightarrow>
     (\<forall>f l. perm_f perms f = Some l \<longrightarrow> grantable desk f l) \<and>
     (\<forall>a \<in> set (perm_a perms).
        (\<forall>ds. ad_desks (ACTIONS a) = Some ds \<longrightarrow> desk \<in> set ds) \<and>
        (\<forall>p. ad_parent (ACTIONS a) = Some p \<longrightarrow> can perms p View))"

lemma feature_refusal_None:
  "feature_refusal desk perms f = None \<longleftrightarrow> (\<forall>l. perm_f perms f = Some l \<longrightarrow> grantable desk f l)"
  by (auto simp: feature_refusal_def split: option.splits)

lemma action_refusal_None:
  "action_refusal desk perms a = None \<longleftrightarrow> (\<forall>ds. ad_desks (ACTIONS a) = Some ds \<longrightarrow> desk \<in> set ds)"
  by (auto simp: action_refusal_def split: option.splits)

lemma parent_refusal_None:
  "parent_refusal perms a = None \<longleftrightarrow> (\<forall>p. ad_parent (ACTIONS a) = Some p \<longrightarrow> can perms p View)"
  by (auto simp: parent_refusal_def split: option.splits)

lemma grant_fits: "grantRefusal desk perms = None \<longleftrightarrow> fits desk perms"
proof -
  have "grantRefusal desk perms = None \<longleftrightarrow>
      (\<forall>f \<in> set feature_keys. feature_refusal desk perms f = None) \<and>
      (\<forall>a \<in> set (perm_a perms). action_refusal desk perms a = None \<and> parent_refusal perms a = None)"
    by (auto simp: grantRefusal_def)
  then show ?thesis
    by (simp add: fits_def feature_refusal_None action_refusal_None parent_refusal_None
        feature_keys_all Ball_def)
qed

section \<open>What opens a door\<close>

definition meets :: "permissions \<Rightarrow> need \<Rightarrow> bool" where
  "meets perms n = (case n of NeedF f l \<Rightarrow> can perms f l | NeedA a \<Rightarrow> holds perms a)"

lemma meets_simps [simp]:
  "meets perms (NeedF f l) = can perms f l" "meets perms (NeedA a) = holds perms a"
  by (simp_all add: meets_def)

lemma admit_needs_iff:
  "(\<exists>w. admit_needs desk perms ns r = Admitted w) \<longleftrightarrow> (\<exists>n \<in> set ns. meets perms n)"
  by (induction desk perms ns r rule: admit_needs.induct) (auto simp: NOTHING_def split: option.splits)

text \<open>Everything one set holds, the other holds too.\<close>

definition perm_le :: "permissions \<Rightarrow> permissions \<Rightarrow> bool" where
  "perm_le p q \<longleftrightarrow> (\<forall>f l. can p f l \<longrightarrow> can q f l) \<and> set (perm_a p) \<subseteq> set (perm_a q)"

lemma meets_mono: "perm_le p q \<Longrightarrow> meets p n \<Longrightarrow> meets q n"
  by (cases n) (auto simp: perm_le_def)

lemma admits_mono:
  assumes "perm_le p q" and "admits access desk p = Admitted w"
  shows "\<exists>w'. admits access desk q = Admitted w'"
proof (cases access)
  case (Needs ns)
  with assms(2) have "\<exists>n \<in> set ns. meets p n"
    using admit_needs_iff [of desk p ns None] by (auto simp: admits_def)
  then have "\<exists>n \<in> set ns. meets q n" using assms(1) meets_mono by blast
  then show ?thesis using admit_needs_iff [of desk q ns None] Needs by (simp add: admits_def)
qed (use assms(2) in \<open>auto simp: admits_def NOTHING_def split: if_splits\<close>)

text \<open>What a refusal's sentence asks for: the least set that would meet the need.\<close>

fun least_for :: "need \<Rightarrow> permissions" where
  "least_for (NeedF f l) = \<lparr>perm_f = (\<lambda>g. if g = f then Some l else None), perm_a = []\<rparr>"
| "least_for (NeedA a) =
     \<lparr>perm_f = (\<lambda>g. if ad_parent (ACTIONS a) = Some g then Some View else None), perm_a = [a]\<rparr>"

lemma least_meets: "meets (least_for n) n"
proof (cases n)
  case (NeedF f l)
  then show ?thesis by (cases l) (auto simp: can_def)
qed auto

definition askable :: "role \<Rightarrow> permissions \<Rightarrow> need \<Rightarrow> bool" where
  "askable desk perms n =
     (case n of
        NeedF f l \<Rightarrow> can perms f View \<and> grantable desk f l
      | NeedA a \<Rightarrow> (case ad_parent (ACTIONS a) of
            Some p \<Rightarrow> can perms p View \<and> actionGrantable desk a | None \<Rightarrow> False))"

definition sentence :: "need \<Rightarrow> string" where
  "sentence n = (case n of NeedF f l \<Rightarrow> permissionRefusal f | NeedA a \<Rightarrow> ad_refusal (ACTIONS a))"

lemma askable_fits: "askable desk perms n \<Longrightarrow> fits desk (least_for n)"
proof (cases n)
  case (NeedF f l)
  then show "askable desk perms n \<Longrightarrow> fits desk (least_for n)" by (simp add: askable_def fits_def)
next
  case (NeedA a)
  assume "askable desk perms n"
  with NeedA show ?thesis
    by (cases a) (auto simp: askable_def fits_def actionGrantable_def can_def)
qed

lemma admit_needs_refusal:
  "admit_needs desk perms ns r = Refused 403 msg \<Longrightarrow>
   r = Some msg \<or> r = None \<and> (\<exists>n \<in> set ns. \<not> meets perms n \<and> askable desk perms n \<and> msg = sentence n)"
proof (induction desk perms ns r rule: admit_needs.induct)
  case (1 desk perms r)
  then show ?case by (auto simp: NOTHING_def split: option.splits)
next
  case (2 desk perms a ns r)
  then show ?case
    by (cases r; cases a) (auto simp: askable_def sentence_def split: if_splits)
next
  case (3 desk perms f l ns r)
  then show ?case
    by (cases r) (auto simp: askable_def sentence_def split: if_splits)
qed

end
