(* ===== verification/Documents.thy ===== *)
theory Documents
  imports Billing Dates Transitions Permissions "HOL-Library.Word"
begin

text \<open>
  Numbers, names and codes: \<open>packages/domain/src\<close> \<open>ids.ts\<close>, \<open>items.ts\<close>, \<open>hsn.ts\<close>,
  \<open>locations.ts\<close>, with the caps, words and labels of \<open>qr.ts\<close>, \<open>party.ts\<close> and \<open>discount.ts\<close>.
  A regular expression is written out as the scan it performs.

  Lemmas: a document number is read back off its printed form whatever its date, a number, item code
  or outlet key handed out is not in use, the key generator ends, and an outlet closes only when
  nothing is left on it.
\<close>

section \<open>Document numbers (\<open>ids.ts\<close>)\<close>

datatype idKind = K_req | K_tkt | K_bill | K_prq | K_po | K_prd | K_batch | K_vendor | K_contract
  | K_support | K_product_req | K_shop_ask | K_adj | K_z_report | K_adj_req | K_price_list
  | K_settlement | K_shift | K_role | K_qr_order | K_qr_code | K_wastage

fun formatId :: "idKind \<Rightarrow> nat \<Rightarrow> instant \<Rightarrow> string" where
  "formatId K_req n at' = ''REQ-'' @ year at' @ ''-0'' @ nat_str n"
| "formatId K_tkt n at' = ''TKT-0'' @ nat_str n"
| "formatId K_bill n at' = ''CF/'' @ nat_str n"
| "formatId K_prq n at' = ''PRQ-'' @ year at' @ ''-0'' @ nat_str n"
| "formatId K_po n at' = ''PO-'' @ year at' @ ''-0'' @ nat_str n"
| "formatId K_prd n at' = ''PRD-'' @ year at' @ ''-0'' @ nat_str n"
| "formatId K_batch n at' = ''BAT-'' @ ymd at' @ ''-'' @ pad n 2"
| "formatId K_vendor n at' = ''VN-'' @ pad n 3"
| "formatId K_contract n at' = ''RC-'' @ nat_str n"
| "formatId K_support n at' = ''SUP-00'' @ nat_str n"
| "formatId K_product_req n at' = ''NPR-00'' @ nat_str n"
| "formatId K_shop_ask n at' = ''ASK-0'' @ nat_str n"
| "formatId K_adj n at' = ''ADJ-'' @ year at' @ ''-'' @ pad n 4"
| "formatId K_adj_req n at' = ''ADJREQ-'' @ year at' @ ''-0'' @ nat_str n"
| "formatId K_price_list n at' = ''PL-'' @ pad n 3"
| "formatId K_settlement n at' = ''STL-'' @ year at' @ ''-'' @ pad n 4"
| "formatId K_z_report n at' = ''Z-'' @ year at' @ ''-'' @ pad n 4"
| "formatId K_shift n at' = ''SH-'' @ year at' @ ''-'' @ pad n 4"
| "formatId K_role n at' = ''ROLE-'' @ pad n 3"
| "formatId K_qr_order n at' = ''QO-'' @ year at' @ ''-'' @ pad n 4"
| "formatId K_qr_code n at' = ''QR-'' @ pad n 3"
| "formatId K_wastage n at' = ''WST-'' @ year at' @ ''-'' @ pad n 4"

declare formatId.simps [simp del]

definition alphanumeric :: "char \<Rightarrow> bool" where
  "alphanumeric c \<longleftrightarrow> is_digit c \<or> is_lower c \<or> ((65::nat) \<le> of_char c \<and> (of_char c :: nat) \<le> 90)"

definition grnId :: "string \<Rightarrow> nat \<Rightarrow> string" where
  "grnId poId instalment =
     (let tail = (case split_on CHR ''-'' poId of
            [a, b, c] \<Rightarrow> drop 2 b @ c
          | _ \<Rightarrow> filter alphanumeric poId)
      in ''GRN-'' @ tail @ ''-'' @ pad instalment 2)"

text \<open>\<open>^RC-(\\d+)$\<close> and, in \<open>items.ts\<close>, \<open>^RM-(\\d+)$\<close>: a prefix and at least one digit.\<close>

definition digits_after :: "string \<Rightarrow> string \<Rightarrow> string option" where
  "digits_after pfx s =
     (case strip_prefix pfx s of
        Some ds \<Rightarrow> if ds \<noteq> [] \<and> list_all is_digit ds then Some ds else None
      | None \<Rightarrow> None)"

definition emp_step :: "nat \<times> nat \<Rightarrow> string \<Rightarrow> nat \<times> nat" where
  "emp_step mw e = (case digits_after ''RC-'' e of
      None \<Rightarrow> mw
    | Some ds \<Rightarrow> (max (fst mw) (str_nat ds), max (snd mw) (length ds)))"

definition nextEmpNo :: "string list \<Rightarrow> string" where
  "nextEmpNo existing =
     (let mw = foldl emp_step (0, 4) existing in ''RC-'' @ pad (fst mw + 1) (snd mw))"

fun SEQUENCE_START :: "idKind \<Rightarrow> nat" where
  "SEQUENCE_START K_req = 913" | "SEQUENCE_START K_tkt = 441" | "SEQUENCE_START K_bill = 1188"
| "SEQUENCE_START K_prq = 16" | "SEQUENCE_START K_po = 143" | "SEQUENCE_START K_prd = 31"
| "SEQUENCE_START K_batch = 1" | "SEQUENCE_START K_vendor = 6" | "SEQUENCE_START K_contract = 109"
| "SEQUENCE_START K_support = 44" | "SEQUENCE_START K_product_req = 13" | "SEQUENCE_START K_shop_ask = 63"
| "SEQUENCE_START K_adj = 1" | "SEQUENCE_START K_adj_req = 1" | "SEQUENCE_START K_price_list = 3"
| "SEQUENCE_START K_settlement = 1" | "SEQUENCE_START K_z_report = 1" | "SEQUENCE_START K_shift = 1"
| "SEQUENCE_START K_role = 6" | "SEQUENCE_START K_qr_order = 1" | "SEQUENCE_START K_qr_code = 1"
| "SEQUENCE_START K_wastage = 1"

section \<open>The item master (\<open>items.ts\<close>)\<close>

datatype itemField = I_n | I_dn | I_mrp | I_cost | I_gst | I_hsn | I_rl | I_grp | I_sl | I_active | I_src | I_onOff

fun ITEM_FIELD_FEATURES :: "itemField \<Rightarrow> feature list" where
  "ITEM_FIELD_FEATURES I_mrp = [F_items_stock]"
| "ITEM_FIELD_FEATURES I_cost = [F_items_stock]"
| "ITEM_FIELD_FEATURES I_gst = [F_items_stock]"
| "ITEM_FIELD_FEATURES I_dn = [F_items_stock]"
| "ITEM_FIELD_FEATURES I_n = [F_item_master]"
| "ITEM_FIELD_FEATURES I_hsn = [F_item_master]"
| "ITEM_FIELD_FEATURES I_rl = [F_item_master]"
| "ITEM_FIELD_FEATURES I_grp = [F_item_master]"
| "ITEM_FIELD_FEATURES I_sl = [F_item_master]"
| "ITEM_FIELD_FEATURES I_src = [F_item_master]"
| "ITEM_FIELD_FEATURES I_onOff = [F_make_distribute]"
| "ITEM_FIELD_FEATURES I_active = [F_items_stock, F_item_master]"

definition mayEditItemField :: "permissions \<Rightarrow> itemField \<Rightarrow> bool" where
  "mayEditItemField perms f = list_ex (\<lambda>ft. can perms ft Edit) (ITEM_FIELD_FEATURES f)"

definition unauthorisedItemFields :: "permissions \<Rightarrow> itemField list \<Rightarrow> itemField list" where
  "unauthorisedItemFields perms named = filter (\<lambda>f. \<not> mayEditItemField perms f) named"

definition counterName :: "item \<Rightarrow> string" where
  "counterName i = (case truthy (item_dn i) of Some d \<Rightarrow> d | None \<Rightarrow> item_n i)"

fun ITEM_CODE_SERIES :: "itemType \<Rightarrow> string \<times> nat" where
  "ITEM_CODE_SERIES RAW = (''RM'', 1001)"
| "ITEM_CODE_SERIES PACK = (''PK'', 2001)"
| "ITEM_CODE_SERIES MRP = (''MR'', 3001)"
| "ITEM_CODE_SERIES FG = (''FG'', 4001)"
| "ITEM_CODE_SERIES MTO = (''MT'', 5001)"

definition itemCodePrefix :: "itemType \<Rightarrow> string" where
  "itemCodePrefix t = fst (ITEM_CODE_SERIES t)"

definition code_step :: "string \<Rightarrow> nat \<Rightarrow> string \<Rightarrow> nat" where
  "code_step pfx nxt c = (case digits_after (pfx @ ''-'') c of
      None \<Rightarrow> nxt | Some ds \<Rightarrow> max nxt (str_nat ds + 1))"

definition nextItemCode :: "itemType \<Rightarrow> string list \<Rightarrow> string" where
  "nextItemCode t existing =
     (case ITEM_CODE_SERIES t of (pfx, first) \<Rightarrow>
        pfx @ ''-'' @ nat_str (foldl (code_step pfx) first existing))"

fun CREATABLE_TYPES :: "role \<Rightarrow> itemType list" where
  "CREATABLE_TYPES StoreDesk = [RAW, PACK, MRP, FG, MTO]"
| "CREATABLE_TYPES Prod = [FG, MTO, RAW]"
| "CREATABLE_TYPES Buyer = [RAW, PACK, MRP]"
| "CREATABLE_TYPES Manager = []"
| "CREATABLE_TYPES Counter = []"

definition mayCreateType :: "role \<Rightarrow> itemType \<Rightarrow> bool" where
  "mayCreateType desk t = List.member (CREATABLE_TYPES desk) t"

fun TYPE_PLURAL :: "itemType \<Rightarrow> string" where
  "TYPE_PLURAL RAW = ''raw materials''"
| "TYPE_PLURAL PACK = ''packaging''"
| "TYPE_PLURAL MRP = ''printed-price (MRP) goods''"
| "TYPE_PLURAL FG = ''finished goods''"
| "TYPE_PLURAL MTO = ''made-to-order items''"

fun CREATOR_WORD :: "role \<Rightarrow> string" where
  "CREATOR_WORD StoreDesk = ''the store keeper''"
| "CREATOR_WORD Prod = ''the kitchen''"
| "CREATOR_WORD Buyer = ''procurement''"
| "CREATOR_WORD Manager = ''the outlet manager''"
| "CREATOR_WORD Counter = ''a counter''"

definition and_list :: "string list \<Rightarrow> string" where
  "and_list ps = (if length ps = 1 then hd ps
     else join '', '' (butlast ps) @ '' and '' @ last ps)"

definition createTypeRefusal :: "role \<Rightarrow> itemType \<Rightarrow> string" where
  "createTypeRefusal desk t =
     (let allowed = map TYPE_PLURAL (CREATABLE_TYPES desk);
          lst = (if allowed = [] then ''nothing'' else and_list allowed)
      in ''Refused - '' @ CREATOR_WORD desk @ '' does not add '' @ TYPE_PLURAL t
         @ '' to the item master, only '' @ lst)"

definition MRP_MISSING_REFUSAL :: string where
  "MRP_MISSING_REFUSAL = ''An MRP item needs the price printed on its pack''"

definition isSellable :: "itemType \<Rightarrow> bool" where
  "isSellable t \<longleftrightarrow> t = MRP \<or> t = FG \<or> t = MTO"

definition neverSoldRefusal :: "string \<Rightarrow> itemType \<Rightarrow> string" where
  "neverSoldRefusal name t = ''Refused - '' @ name @ '' is ''
     @ (if t = RAW then ''a raw material'' else ''packing'') @ '' and is never sold at a counter''"

definition unpricedRefusal :: "string \<Rightarrow> string \<Rightarrow> string" where
  "unpricedRefusal name outlet = ''Refused - give '' @ name @ '' a price at '' @ outlet @ '' before selling it there''"

definition mayEditItemImage :: "permissions \<Rightarrow> bool" where
  "mayEditItemImage perms = can perms F_item_photos Edit"

definition IMAGE_MAX_BYTES :: nat where "IMAGE_MAX_BYTES = 700000"

datatype imageType = Jpeg | Png | Webp

definition sig_at :: "8 word list \<Rightarrow> 8 word list \<Rightarrow> nat \<Rightarrow> bool" where
  "sig_at b sig off \<longleftrightarrow> off + length sig \<le> length b \<and>
     list_all (\<lambda>(i, v). b ! (off + i) = v) (enumerate 0 sig)"

definition sniffImageType :: "8 word list \<Rightarrow> imageType option" where
  "sniffImageType b =
     (if sig_at b [0xff, 0xd8, 0xff] 0 then Some Jpeg
      else if sig_at b [0x89, 0x50, 0x4e, 0x47, 0x0d, 0x0a, 0x1a, 0x0a] 0 then Some Png
      else if sig_at b [0x52, 0x49, 0x46, 0x46] 0 \<and> sig_at b [0x57, 0x45, 0x42, 0x50] 8 then Some Webp
      else None)"

definition IMAGE_NOT_PHOTO :: string where
  "IMAGE_NOT_PHOTO = ''That file is not a JPEG, PNG or WebP photo''"

definition checkPhoto :: "8 word list \<Rightarrow> string + imageType" where
  "checkPhoto b =
     (if IMAGE_MAX_BYTES < length b
      then Inl (''The photo is '' @ nat_str ((length b + 999) div 1000) @ '' KB - the limit is ''
        @ nat_str (IMAGE_MAX_BYTES div 1000) @ '' KB'')
      else (case sniffImageType b of Some t \<Rightarrow> Inr t | None \<Rightarrow> Inl IMAGE_NOT_PHOTO))"

definition imageRetiredMessage :: "string \<Rightarrow> string" where
  "imageRetiredMessage name = name @ '' is retired, so it takes no photo''"

definition imageOffMenuMessage :: "string \<Rightarrow> string \<Rightarrow> string" where
  "imageOffMenuMessage name outlet = name @ '' is not on the '' @ outlet @ '' menu - its photo is the manager's to set''"

definition imageNoneMessage :: "string \<Rightarrow> string" where
  "imageNoneMessage name = name @ '' has no photo to remove''"

section \<open>HSN codes (\<open>hsn.ts\<close>)\<close>

record hsnEntry =
  h_hsn :: string
  h_label :: string
  h_gst :: number
  h_category :: string

definition hsn_entry :: "string \<Rightarrow> string \<Rightarrow> number \<Rightarrow> string \<Rightarrow> hsnEntry" where
  "hsn_entry c l g cat = \<lparr>h_hsn = c, h_label = l, h_gst = g, h_category = cat\<rparr>"

definition CATEGORY_ORDER :: "string list" where
  "CATEGORY_ORDER = [''Dairy & eggs'', ''Bakery'', ''Grocery & staples'', ''Beverages'',
     ''Snacks & confectionery'', ''Packaging'', ''Cleaning & disposables'']"

definition HSN_CODES :: "hsnEntry list" where
  "HSN_CODES = [
     hsn_entry ''0401'' ''Milk and cream, not concentrated'' 0 ''Dairy & eggs'',
     hsn_entry ''0402'' ''Milk powder and condensed milk'' 5 ''Dairy & eggs'',
     hsn_entry ''0403'' ''Curd, yogurt, buttermilk'' 5 ''Dairy & eggs'',
     hsn_entry ''0405'' ''Butter and ghee'' 12 ''Dairy & eggs'',
     hsn_entry ''0406'' ''Cheese'' 12 ''Dairy & eggs'',
     hsn_entry ''0407'' ''Eggs'' 0 ''Dairy & eggs'',
     hsn_entry ''1905'' ''Bread'' 0 ''Bakery'',
     hsn_entry ''190540'' ''Rusk and toasted bread'' 5 ''Bakery'',
     hsn_entry ''190590'' ''Biscuits, cakes and pastries'' 18 ''Bakery'',
     hsn_entry ''0409'' ''Natural honey'' 0 ''Grocery & staples'',
     hsn_entry ''0701'' ''Fresh vegetables'' 0 ''Grocery & staples'',
     hsn_entry ''0713'' ''Pulses and dal'' 0 ''Grocery & staples'',
     hsn_entry ''0803'' ''Fresh fruit'' 0 ''Grocery & staples'',
     hsn_entry ''0910'' ''Spices and masala mixes'' 5 ''Grocery & staples'',
     hsn_entry ''1006'' ''Rice'' 5 ''Grocery & staples'',
     hsn_entry ''1101'' ''Wheat flour / atta / maida'' 5 ''Grocery & staples'',
     hsn_entry ''1507'' ''Edible vegetable oil'' 5 ''Grocery & staples'',
     hsn_entry ''1701'' ''Sugar and jaggery'' 5 ''Grocery & staples'',
     hsn_entry ''1902'' ''Pasta, noodles and vermicelli'' 12 ''Grocery & staples'',
     hsn_entry ''2007'' ''Jam, jelly and fruit preserve'' 12 ''Grocery & staples'',
     hsn_entry ''2103'' ''Sauces, ketchup and condiments'' 12 ''Grocery & staples'',
     hsn_entry ''2501'' ''Salt'' 0 ''Grocery & staples'',
     hsn_entry ''0901'' ''Coffee beans and powder'' 5 ''Beverages'',
     hsn_entry ''0902'' ''Tea'' 5 ''Beverages'',
     hsn_entry ''2101'' ''Instant coffee and tea premix'' 18 ''Beverages'',
     hsn_entry ''2009'' ''Fruit and vegetable juice'' 12 ''Beverages'',
     hsn_entry ''2201'' ''Packaged drinking water'' 18 ''Beverages'',
     hsn_entry ''2202'' ''Aerated and soft drinks'' 28 ''Beverages'',
     hsn_entry ''1704'' ''Sugar confectionery'' 18 ''Snacks & confectionery'',
     hsn_entry ''1806'' ''Chocolate and cocoa preparations'' 18 ''Snacks & confectionery'',
     hsn_entry ''2008'' ''Roasted and salted nuts'' 12 ''Snacks & confectionery'',
     hsn_entry ''2105'' ''Ice cream and edible ice'' 18 ''Snacks & confectionery'',
     hsn_entry ''2106'' ''Namkeen, snacks and food preparations n.e.s.'' 12 ''Snacks & confectionery'',
     hsn_entry ''3923'' ''Plastic packaging containers'' 18 ''Packaging'',
     hsn_entry ''4819'' ''Cardboard boxes and cartons'' 18 ''Packaging'',
     hsn_entry ''4823'' ''Paper cups and plates'' 18 ''Packaging'',
     hsn_entry ''7607'' ''Aluminium foil'' 18 ''Packaging'',
     hsn_entry ''3401'' ''Soap'' 18 ''Cleaning & disposables'',
     hsn_entry ''3402'' ''Detergent and cleaning agents'' 18 ''Cleaning & disposables'',
     hsn_entry ''3924'' ''Disposable plastic cutlery and tableware'' 12 ''Cleaning & disposables'',
     hsn_entry ''3926'' ''Disposable gloves and other plastic articles'' 18 ''Cleaning & disposables'',
     hsn_entry ''4818'' ''Tissue paper and napkins'' 12 ''Cleaning & disposables'']"

definition gstForHsn :: "string \<Rightarrow> number option" where
  "gstForHsn hsn = map_option h_gst (find (\<lambda>e. h_hsn e = trim hsn) HSN_CODES)"

definition hsnGroups :: "(string \<times> hsnEntry list) list" where
  "hsnGroups = map (\<lambda>category. (category, filter (\<lambda>e. h_category e = category) HSN_CODES)) CATEGORY_ORDER"

section \<open>Places (\<open>locations.ts\<close>)\<close>

definition atOutlet :: "role \<Rightarrow> bool" where
  "atOutlet r \<longleftrightarrow> r \<noteq> Prod \<and> r \<noteq> StoreDesk \<and> r \<noteq> Buyer"

text \<open>\<open>a.n.localeCompare(b.n) || ka.localeCompare(kb)\<close>, with the host's collation a parameter.\<close>

definition outlet_le :: "(string \<Rightarrow> string \<Rightarrow> bool) \<Rightarrow> key \<times> location \<Rightarrow> key \<times> location \<Rightarrow> bool" where
  "outlet_le coll a b \<longleftrightarrow>
     (if coll (loc_n (snd a)) (loc_n (snd b)) \<and> coll (loc_n (snd b)) (loc_n (snd a))
      then coll (fst a) (fst b) else coll (loc_n (snd a)) (loc_n (snd b)))"

definition outletKeys :: "(string \<Rightarrow> string \<Rightarrow> bool) \<Rightarrow> (key \<times> location) list \<Rightarrow> bool \<Rightarrow> key list" where
  "outletKeys coll locations openOnly =
     map fst (stable_sort (outlet_le coll)
       (filter (\<lambda>kl. loc_type (snd kl) = Outlet_Type \<and> (\<not> openOnly \<or> loc_active (snd kl))) locations))"

definition operationalKeys :: "(string \<Rightarrow> string \<Rightarrow> bool) \<Rightarrow> (key \<times> location) list \<Rightarrow> key list" where
  "operationalKeys coll locations =
     filter (\<lambda>k. map_of locations k \<noteq> None) [STORE, KITCHEN] @ outletKeys coll locations True"

definition worksAt :: "role \<Rightarrow> key \<Rightarrow> location option \<Rightarrow> bool" where
  "worksAt role k location =
     (case location of
        None \<Rightarrow> False
      | Some l \<Rightarrow> if atOutlet role then loc_type l = Outlet_Type \<and> loc_active l
          else k = (if role = Prod then KITCHEN else STORE))"

definition placesFor :: "(string \<Rightarrow> string \<Rightarrow> bool) \<Rightarrow> role \<Rightarrow> (key \<times> location) list \<Rightarrow> key list" where
  "placesFor coll role locations =
     (if atOutlet role then outletKeys coll locations True
      else [if role = Prod then KITCHEN else STORE])"

definition RESERVED :: "key list" where "RESERVED = [STORE, KITCHEN, QUARANTINE]"
definition STEM :: nat where "STEM = 20"

definition slug_char :: "char \<Rightarrow> bool" where
  "slug_char c \<longleftrightarrow> is_lower c \<or> is_digit c"

text \<open>\<open>replace(/[^a-z0-9]+/g, "-")\<close>: each run of other characters becomes one dash.\<close>

fun dash_runs :: "bool \<Rightarrow> string \<Rightarrow> string" where
  "dash_runs inrun [] = []"
| "dash_runs inrun (c # cs) =
     (if slug_char c then c # dash_runs False cs
      else if inrun then dash_runs True cs else CHR ''-'' # dash_runs True cs)"

definition trim_stem :: "string \<Rightarrow> string" where
  "trim_stem s = rev (dropWhile (\<lambda>c. c = CHR ''-'') (rev (take STEM s)))"

definition stem_of :: "string \<Rightarrow> string" where
  "stem_of name =
     (let slug = trim_stem (dropWhile (\<lambda>c. c = CHR ''-'') (dash_runs False (toLower name)))
      in if slug \<noteq> [] \<and> is_lower (hd slug) then slug
         else trim_stem (if slug \<noteq> [] then ''outlet-'' @ slug else ''outlet''))"

definition suffixed :: "string \<Rightarrow> nat \<Rightarrow> string" where
  "suffixed stem n = stem @ ''-'' @ nat_str n"

text \<open>\<open>for (let n = 2; ; n += 1)\<close>: as many tries as there are keys taken, and one more, are enough.\<close>

fun try_suffix :: "nat \<Rightarrow> string \<Rightarrow> string list \<Rightarrow> nat \<Rightarrow> string option" where
  "try_suffix 0 stem used n = None"
| "try_suffix (Suc fuel) stem used n =
     (if \<not> List.member used (suffixed stem n) then Some (suffixed stem n)
      else try_suffix fuel stem used (Suc n))"

definition outletKeyFor :: "string \<Rightarrow> string list \<Rightarrow> string option" where
  "outletKeyFor name taken =
     (let stem = stem_of name in
      if \<not> List.member RESERVED stem \<and> \<not> List.member taken stem then Some stem
      else try_suffix (Suc (length taken)) stem taken 2)"

record outletBlockers =
  ob_stock :: nat
  ob_tickets :: nat
  ob_requests :: nat
  ob_kitchenOrders :: nat
  ob_shopAsks :: nat
  ob_productRequests :: nat
  ob_qrOrders :: nat
  ob_staff :: "string list"
  ob_openRegister :: bool

definition count_word :: "nat \<Rightarrow> string \<Rightarrow> string" where
  "count_word n one = nat_str n @ '' '' @ one @ (if n = 1 then '''' else ''s'')"

definition close_parts :: "outletBlockers \<Rightarrow> string list" where
  "close_parts b =
     (if 0 < ob_stock b then [''stock on hand ('' @ count_word (ob_stock b) ''item'' @ '')''] else []) @
     (if 0 < ob_tickets b then [count_word (ob_tickets b) ''open ticket''] else []) @
     (if 0 < ob_requests b then [count_word (ob_requests b) ''open stock request''] else []) @
     (if 0 < ob_kitchenOrders b then [count_word (ob_kitchenOrders b) ''open kitchen order''] else []) @
     (if 0 < ob_shopAsks b then [count_word (ob_shopAsks b) ''open shop ask''] else []) @
     (if 0 < ob_productRequests b then [count_word (ob_productRequests b) ''open product request''] else []) @
     (if 0 < ob_qrOrders b then [count_word (ob_qrOrders b) ''open QR order''] else []) @
     (if ob_staff b \<noteq> [] then [nat_str (length (ob_staff b)) @ '' active staff ('' @ join '', '' (ob_staff b) @ '')''] else []) @
     (if ob_openRegister b then [''an open register (take its Z-report first)''] else [])"

definition closeRefusal :: "string \<Rightarrow> outletBlockers \<Rightarrow> string option" where
  "closeRefusal name b =
     (let parts = close_parts b in
      if parts = [] then None else Some (''Refused - '' @ name @ '' still has '' @ and_list parts))"

section \<open>Caps, words and labels (\<open>qr.ts\<close>, \<open>party.ts\<close>, \<open>discount.ts\<close>)\<close>

definition QR_MAX_LINES :: nat where "QR_MAX_LINES = 30"
definition QR_MAX_QTY :: number where "QR_MAX_QTY = 20"
definition QR_MAX_RUPEES :: number where "QR_MAX_RUPEES = 5000"
definition QR_PENDING_PER_PHONE :: nat where "QR_PENDING_PER_PHONE = 3"
definition QR_PENDING_PER_IP :: nat where "QR_PENDING_PER_IP = 20"

definition customerPhoneRefusal :: "string \<Rightarrow> string" where
  "customerPhoneRefusal raw = (if trim raw = '''' then ''That'' else trim raw)
     @ '' is not a phone number - enter your 10-digit mobile number, with or without +91.''"

fun QR_STATUS_WORDS :: "qrOrderStatus \<Rightarrow> string" where
  "QR_STATUS_WORDS Qr_Awaiting = ''Waiting for your payment to go through.''"
| "QR_STATUS_WORDS Qr_Paid = ''Paid - the counter has your order.''"
| "QR_STATUS_WORDS Qr_Preparing = ''Your order is being prepared.''"
| "QR_STATUS_WORDS Qr_Ready = ''Your order is ready - collect it at the counter.''"
| "QR_STATUS_WORDS Qr_OutForDelivery = ''Your order is on its way to you.''"
| "QR_STATUS_WORDS Qr_Collected = ''Collected - enjoy!''"
| "QR_STATUS_WORDS Qr_Delivered = ''Delivered - enjoy!''"
| "QR_STATUS_WORDS Qr_Refunded = ''We couldn't fill this order, so your payment is being refunded.''"
| "QR_STATUS_WORDS Qr_Expired = ''This order expired before it was paid.''"
| "QR_STATUS_WORDS Qr_Voided = ''This order was cancelled and your payment is being refunded.''"

fun PARTY_LABEL :: "billParty \<Rightarrow> string" where
  "PARTY_LABEL CustomerParty = ''customer''"
| "PARTY_LABEL (PartyOf PStaff) = ''staff member''"
| "PARTY_LABEL (PartyOf PDoctor) = ''doctor''"
| "PARTY_LABEL (PartyOf PDept) = ''department''"

fun PARTY_TITLE :: "billParty \<Rightarrow> string" where
  "PARTY_TITLE CustomerParty = ''Customers''"
| "PARTY_TITLE (PartyOf PStaff) = ''Staff''"
| "PARTY_TITLE (PartyOf PDoctor) = ''Doctors''"
| "PARTY_TITLE (PartyOf PDept) = ''Departments''"

definition phoneRefusal :: "string \<Rightarrow> string" where
  "phoneRefusal raw = trim raw @ '' is not a phone number - give the customer's 10 digits, with or without +91''"

definition creditLimitRefusal :: "number \<Rightarrow> string" where
  "creditLimitRefusal limit = ''Refused - '' @ money limit
     @ '' is not a credit limit; give nothing for no limit, or an amount that is not negative''"

section \<open>Lemmas: numbers read back\<close>

lemma last_split_cons: "c \<in> set xs \<Longrightarrow> last (split_on c (x # xs)) = last (split_on c xs)"
proof -
  assume "c \<in> set xs"
  then have "\<exists>a b r. split_on c xs = a # b # r"
  proof (induction xs)
    case (Cons y ys)
    then show ?case by (cases "split_on c ys") (auto split: list.splits)
  qed simp
  then show ?thesis by auto
qed

lemma last_split_app: "c \<in> set xs \<Longrightarrow> last (split_on c (ys @ xs)) = last (split_on c xs)"
  by (induction ys) (auto simp: last_split_cons simp del: split_on.simps)

lemma last_split_sep: "c \<notin> set w \<Longrightarrow> last (split_on c (c # w)) = w"
  by (simp add: split_on_no_sep)

lemmas last_split = last_split_cons last_split_app last_split_sep

lemma no_mark_in_digits:
  "\<not> is_digit c \<Longrightarrow> c \<notin> set (nat_str n)" "\<not> is_digit c \<Longrightarrow> c \<notin> set (pad n w)"
  using nat_str_digits [of n] pad_digits [of n w] by auto

lemma marks_not_digits [simp]: "\<not> is_digit CHR ''-''" "\<not> is_digit CHR ''/''"
  by (simp_all add: is_digit_def)

text \<open>The number a document was given, read off its printed form.\<close>

definition id_number :: "idKind \<Rightarrow> string \<Rightarrow> nat" where
  "id_number k s = str_nat (last (split_on (if k = K_bill then CHR ''/'' else CHR ''-'') s))"

lemma str_nat_zero_cons: "str_nat (CHR ''0'' # s) = str_nat s"
  using str_nat_zeros [of 1 s] by simp

lemma id_number_formatId: "id_number k (formatId k n t) = n"
  by (cases k) (simp_all add: id_number_def formatId.simps last_split no_mark_in_digits str_nat_zero_cons
      del: split_on.simps)

lemma formatId_inject: "formatId k m s = formatId k n t \<Longrightarrow> m = n"
  by (metis id_number_formatId)

section \<open>Lemmas: what is handed out is not in use\<close>

lemma strip_prefix_app: "strip_prefix p (p @ s) = Some s"
  by (induction p) auto

lemma digits_after_app: "ds \<noteq> [] \<Longrightarrow> list_all is_digit ds \<Longrightarrow> digits_after p (p @ ds) = Some ds"
  by (simp add: digits_after_def strip_prefix_app)

lemma fold_max_ge:
  fixes f :: "'a \<Rightarrow> nat" and g :: "nat \<Rightarrow> 'a \<Rightarrow> nat"
  assumes "\<And>m x. m \<le> g m x" and "\<And>m. f x \<le> g m x" and "x \<in> set xs"
  shows "f x \<le> foldl g m xs"
proof -
  have up: "m \<le> foldl g m ys" for m ys
    by (induction ys arbitrary: m) (auto intro: order_trans [OF assms(1)])
  from assms(3) show ?thesis
  proof (induction xs arbitrary: m)
    case (Cons y ys)
    then show ?case using up [of "g m x" ys] assms(2) [of m] by (auto intro: order_trans)
  qed simp
qed

lemma code_fold: "digits_after (pfx @ ''-'') c = Some ds \<Longrightarrow> c \<in> set xs \<Longrightarrow>
   str_nat ds < foldl (code_step pfx) m xs"
  using fold_max_ge [of "code_step pfx" "\<lambda>_. str_nat ds + 1" c xs m]
  by (fastforce simp: code_step_def split: option.splits)

lemma emp_fst: "fst (foldl emp_step mw xs) = foldl (\<lambda>m e. fst (emp_step (m, 0) e)) (fst mw) xs"
  by (induction xs arbitrary: mw) (auto simp: emp_step_def split: option.splits)

lemma emp_fold: "digits_after ''RC-'' c = Some ds \<Longrightarrow> c \<in> set xs \<Longrightarrow>
   str_nat ds \<le> fst (foldl emp_step mw xs)"
  unfolding emp_fst
  by (rule fold_max_ge [where f = "\<lambda>_. str_nat ds" and x = c]) (auto simp: emp_step_def split: option.splits)

lemma pad_nonempty [simp]: "pad n w \<noteq> []"
  by (simp add: pad_def)

lemma nextEmpNo_fresh: "nextEmpNo existing \<notin> set existing"
proof
  let ?mw = "foldl emp_step (0, 4) existing"
  assume "nextEmpNo existing \<in> set existing"
  moreover have "digits_after ''RC-'' (nextEmpNo existing) = Some (pad (fst ?mw + 1) (snd ?mw))"
    using pad_digits by (auto simp: nextEmpNo_def Let_def list_all_iff intro!: digits_after_app
        simp del: append_Cons simp flip: append_Cons)
  ultimately show False using emp_fold [of "nextEmpNo existing" _ existing "(0, 4)"] by fastforce
qed

lemma nextItemCode_fresh: "nextItemCode t existing \<notin> set existing"
proof
  obtain p f where pf: "ITEM_CODE_SERIES t = (p, f)" by fastforce
  let ?n = "foldl (code_step p) f existing"
  assume "nextItemCode t existing \<in> set existing"
  moreover have "nextItemCode t existing = (p @ ''-'') @ nat_str ?n" by (simp add: nextItemCode_def pf)
  moreover have "digits_after (p @ ''-'') ((p @ ''-'') @ nat_str ?n) = Some (nat_str ?n)"
    using nat_str_digits by (intro digits_after_app) (auto simp: list_all_iff)
  ultimately show False using code_fold [of p "nextItemCode t existing" "nat_str ?n" existing f] by simp
qed

section \<open>Lemmas: a new outlet's key\<close>

lemma suffixed_inject [simp]: "suffixed s m = suffixed s n \<longleftrightarrow> m = n"
  by (simp add: suffixed_def)

lemma try_suffix_ok:
  "try_suffix fuel stem used n = Some k \<Longrightarrow> k \<notin> set used \<and> (\<exists>m. k = suffixed stem m \<and> n \<le> m \<and> m < n + fuel)"
proof (induction fuel arbitrary: n)
  case (Suc fuel)
  show ?case
  proof (cases "suffixed stem n \<in> set used")
    case True
    with Suc obtain m where "k \<notin> set used" "k = suffixed stem m" "Suc n \<le> m" "m < Suc n + fuel" by force
    then show ?thesis by (intro conjI exI [of _ m]) auto
  next
    case False
    with Suc show ?thesis by (intro conjI exI [of _ n]) auto
  qed
qed simp

lemma try_suffix_none:
  "try_suffix fuel stem used n = None \<Longrightarrow> \<forall>m. n \<le> m \<and> m < n + fuel \<longrightarrow> suffixed stem m \<in> set used"
proof (induction fuel arbitrary: n)
  case (Suc fuel)
  then show ?case by (auto split: if_splits) (metis Suc_leI add_Suc le_eq_less_or_eq)
qed auto

text \<open>There are more tries than keys taken, so one of them is free.\<close>

lemma try_suffix_some: "length used < fuel \<Longrightarrow> try_suffix fuel stem used n \<noteq> None"
proof
  assume len: "length used < fuel" and "try_suffix fuel stem used n = None"
  then have "suffixed stem ` {n..<n + fuel} \<subseteq> set used"
    using try_suffix_none by fastforce
  then have "card (suffixed stem ` {n..<n + fuel}) \<le> card (set used)" by (simp add: card_mono)
  moreover have "card (suffixed stem ` {n..<n + fuel}) = fuel"
    by (subst card_image) (auto simp: inj_on_def)
  ultimately show False using card_length [of used] len by linarith
qed

lemma outletKeyFor_some: "outletKeyFor name taken \<noteq> None"
  using try_suffix_some [of taken "Suc (length taken)" "stem_of name" 2]
  by (simp add: outletKeyFor_def Let_def del: try_suffix.simps)

lemma outletKeyFor_shape:
  assumes "outletKeyFor name taken = Some k"
  shows "k \<notin> set taken \<and> (k = stem_of name \<and> k \<notin> set RESERVED \<or>
    (\<exists>m. k = suffixed (stem_of name) m \<and> 2 \<le> m \<and> m \<le> length taken + 2))"
  using assms try_suffix_ok [of "Suc (length taken)" "stem_of name" taken 2 k]
  by (auto simp: outletKeyFor_def Let_def simp del: try_suffix.simps split: if_splits)

lemma trim_stem_length: "length (trim_stem s) \<le> 20"
  by (auto simp: trim_stem_def STEM_def intro: order_trans [OF length_dropWhile_le])

lemma trim_stem_set: "c \<in> set (trim_stem s) \<Longrightarrow> c \<in> set s"
  by (auto simp: trim_stem_def dest!: set_dropWhileD in_set_takeD)

lemma dash_runs_chars: "c \<in> set (dash_runs b s) \<Longrightarrow> key_char c"
  by (induction b s rule: dash_runs.induct) (auto simp: key_char_def slug_char_def split: if_splits)

lemma trim_outlet: "\<exists>cs. trim_stem (''outlet'' @ s) = CHR ''o'' # cs"
proof -
  let ?r = "rev (take 19 (''utlet'' @ s))"
  have "take STEM (''outlet'' @ s) = CHR ''o'' # take 19 (''utlet'' @ s)" by (simp add: STEM_def)
  then have "trim_stem (''outlet'' @ s) = rev (dropWhile (\<lambda>c. c = CHR ''-'') (?r @ [CHR ''o'']))"
    unfolding trim_stem_def by (simp del: append_Cons)
  also have "\<dots> = CHR ''o'' # rev (dropWhile (\<lambda>c. c = CHR ''-'') ?r)"
    by (subst dropWhile_append3) simp_all
  finally show ?thesis by blast
qed

lemma stem_of_shape: "\<exists>c cs. stem_of name = c # cs \<and> is_lower c \<and> list_all key_char cs \<and> length cs \<le> 19"
proof -
  define slug where "slug = trim_stem (dropWhile (\<lambda>c. c = CHR ''-'') (dash_runs False (toLower name)))"
  have slug: "list_all key_char slug"
    using dash_runs_chars trim_stem_set set_dropWhileD unfolding slug_def list_all_iff by metis
  have lits: "list_all key_char ''outlet''" "is_lower CHR ''o''" "key_char CHR ''-''"
    by (simp_all add: key_char_def is_lower_def)
  show ?thesis
  proof (cases "slug \<noteq> [] \<and> is_lower (hd slug)")
    case True
    then have "stem_of name = hd slug # tl slug" by (simp add: stem_of_def slug_def [symmetric] Let_def)
    moreover have "length slug \<le> 20" by (simp add: slug_def trim_stem_length)
    ultimately show ?thesis using True slug by (cases slug) auto
  next
    case False
    define rest where "rest = (if slug \<noteq> [] then ''-'' @ slug else [])"
    have st: "stem_of name = trim_stem (''outlet'' @ rest)"
      using False by (auto simp: stem_of_def slug_def [symmetric] Let_def rest_def)
    obtain cs where cs: "trim_stem (''outlet'' @ rest) = CHR ''o'' # cs" using trim_outlet by blast
    have "list_all key_char (''outlet'' @ rest)" using slug lits by (simp add: rest_def)
    then have "list_all key_char (CHR ''o'' # cs)"
      using trim_stem_set [of _ "''outlet'' @ rest"] unfolding list_all_iff cs by blast
    moreover have "length (CHR ''o'' # cs) \<le> 20" unfolding cs [symmetric] by (rule trim_stem_length)
    ultimately show ?thesis using lits unfolding st cs by simp
  qed
qed

lemma nat_str_length3: "n < 1000 \<Longrightarrow> length (nat_str n) \<le> 3"
  by (simp add: nat_str.simps [of n] nat_str.simps [of "n div 10"] nat_str.simps [of "n div 10 div 10"]
      less_mult_imp_div_less del: div_mult2_eq)

lemma quarantine_not_suffixed: "suffixed s n \<noteq> QUARANTINE"
proof
  assume "suffixed s n = QUARANTINE"
  then have "CHR ''-'' \<in> set QUARANTINE" by (metis suffixed_def append_Cons in_set_conv_decomp)
  then show False by (simp add: QUARANTINE_def)
qed

lemma outletKeyFor_valid:
  assumes "outletKeyFor name taken = Some k" and "length taken < 998"
  shows "locKeyOk k \<and> k \<notin> set taken"
proof -
  obtain c cs where s: "stem_of name = c # cs" "is_lower c" "list_all key_char cs" "length cs \<le> 19"
    using stem_of_shape by blast
  from outletKeyFor_shape [OF assms(1)]
  consider "k = stem_of name" "k \<notin> set RESERVED" | m where "k = suffixed (stem_of name) m" "m < 1000"
    using assms(2) by force
  then show ?thesis
  proof cases
    case 1
    then show ?thesis using s outletKeyFor_shape [OF assms(1)]
      by (auto simp: locKeyOk_def stockLocOk_def RESERVED_def)
  next
    case 2
    have "list_all key_char (nat_str m)" using nat_str_digits [of m] by (auto simp: list_all_iff key_char_def)
    moreover have "length (nat_str m) \<le> 3" using nat_str_length3 2(2) by blast
    ultimately have "stockLocOk k" using s 2(1) by (simp add: stockLocOk_def suffixed_def key_char_def)
    then show ?thesis using outletKeyFor_shape [OF assms(1)] 2(1) quarantine_not_suffixed
      by (auto simp: locKeyOk_def)
  qed
qed

section \<open>Lemmas: places, closing, codes\<close>

lemma outletKeys_set:
  "k \<in> set (outletKeys coll locs b) \<longleftrightarrow>
   (\<exists>l. (k, l) \<in> set locs \<and> loc_type l = Outlet_Type \<and> (b \<longrightarrow> loc_active l))"
  by (auto simp: outletKeys_def image_iff)

lemma placesFor_worksAt:
  assumes "distinct (map fst locs)" and "map_of locs k = Some l"
  shows "worksAt r k (Some l) \<longleftrightarrow> k \<in> set (placesFor coll r locs)"
proof -
  have "(k, l') \<in> set locs \<longleftrightarrow> l' = l" for l' using assms by (metis map_of_SomeD map_of_is_SomeI option.inject)
  then show ?thesis by (auto simp: worksAt_def placesFor_def outletKeys_set)
qed

lemma closeRefusal_None:
  "closeRefusal name b = None \<longleftrightarrow>
   ob_stock b = 0 \<and> ob_tickets b = 0 \<and> ob_requests b = 0 \<and> ob_kitchenOrders b = 0 \<and> ob_shopAsks b = 0
   \<and> ob_productRequests b = 0 \<and> ob_qrOrders b = 0 \<and> ob_staff b = [] \<and> \<not> ob_openRegister b"
  by (simp add: closeRefusal_def close_parts_def Let_def)

lemma photo_ok:
  "checkPhoto b = Inr t \<longleftrightarrow> length b \<le> IMAGE_MAX_BYTES \<and> sniffImageType b = Some t"
  by (auto simp: checkPhoto_def split: option.splits)

end
