(* ===== verification/Planning.thy ===== *)
theory Planning
  imports Stock "HOL-Library.List_Lexorder" "HOL-Library.Char_ord"
begin

text \<open>
  Deciding requests and buying: \<open>packages/domain/src\<close> \<open>approval.ts\<close>, \<open>claims.ts\<close>, \<open>receipt.ts\<close>,
  \<open>purchasing.ts\<close>. Dates are wire dates, \<open>YYYY-MM-DD\<close> strings, compared as the source compares them.

  Lemmas: an approval stays inside what was asked, typed and free; releasing a claim conserves it
  line by line and takes the newest source first; a close-short gives back exactly what was never
  accepted; an order is received only when every line is covered.
\<close>

section \<open>Approvals (\<open>approval.ts\<close>)\<close>

record approvalLine =
  al_it :: key
  al_qty :: number
  al_appr :: number
  al_short :: number

record approvalPlan =
  ap_lines :: "approvalLine list"
  ap_st :: reqStatus
  ap_trimmed :: bool

text \<open>What a JavaScript number in a body may be: finite, or \<open>NaN\<close> and the infinities.\<close>

datatype jsnum = Finite number | NotFinite

text \<open>\<open>Number.isFinite(appr[i]) ? appr[i] : 0\<close>, an index past the end reading \<open>undefined\<close>.\<close>

definition asked :: "jsnum list \<Rightarrow> nat \<Rightarrow> number" where
  "asked appr i =
     (if i < length appr then (case appr ! i of Finite x \<Rightarrow> x | NotFinite \<Rightarrow> 0) else 0)"

definition approvedStatus :: "(number \<times> number) list \<Rightarrow> reqStatus" where
  "approvedStatus lines =
     (if list_all (\<lambda>(q, appr). appr = q) lines then Req_ManagerApproved else Req_PartiallyApproved)"

definition prqStatusOf :: "(number \<times> number) list \<Rightarrow> prqStatus" where
  "prqStatusOf lines =
     (if list_all (\<lambda>(q, appr). appr = 0) lines then Prq_Declined
      else if list_all (\<lambda>(q, appr). appr = q) lines then Prq_Approved else Prq_PartiallyApproved)"

definition qty_appr :: "approvalLine \<Rightarrow> number \<times> number" where
  "qty_appr l = (al_qty l, al_appr l)"

definition planPrqApproval :: "line list \<Rightarrow> jsnum list \<Rightarrow> approvalLine list \<times> prqStatus" where
  "planPrqApproval lines appr =
     (let out = map (\<lambda>(i, l).
            let ok = round3 (max 0 (min (snd l) (asked appr i)))
            in \<lparr>al_it = fst l, al_qty = snd l, al_appr = ok, al_short = round3 (snd l - ok)\<rparr>)
          (enumerate 0 lines)
      in (out, prqStatusOf (map qty_appr out)))"

definition plan_line :: "jsnum list \<Rightarrow> (key \<Rightarrow> nat \<Rightarrow> number) \<Rightarrow> nat \<times> line \<Rightarrow> approvalLine" where
  "plan_line appr freeFor il =
     (let i = fst il; l = snd il;
          ok = max 0 (round3 (min (snd l) (min (asked appr i) (freeFor (fst l) i))))
      in \<lparr>al_it = fst l, al_qty = snd l, al_appr = ok, al_short = round3 (snd l - ok)\<rparr>)"

definition planApproval :: "line list \<Rightarrow> jsnum list \<Rightarrow> (key \<Rightarrow> nat \<Rightarrow> number) \<Rightarrow> approvalPlan" where
  "planApproval lines appr freeFor =
     (let out = map (plan_line appr freeFor) (enumerate 0 lines);
          tot = foldl (\<lambda>t l. t + al_appr l) 0 out
      in \<lparr>ap_lines = out,
          ap_st = (if tot = 0 then Req_Rejected else approvedStatus (map qty_appr out)),
          ap_trimmed = list_ex (\<lambda>(i, l). al_appr l < min (al_qty l) (asked appr i)) (enumerate 0 out)\<rparr>)"

section \<open>Claims (\<open>claims.ts\<close>)\<close>

record claimSrc =
  c_prq :: string
  c_line :: nat
  c_qty :: number

text \<open>The loop over the sources, newest first: \<open>(released, left)\<close>. \<open>left.unshift\<close> puts what is kept
  in front of what came later.\<close>

fun release_loop :: "claimSrc list \<Rightarrow> number \<Rightarrow> claimSrc list \<times> claimSrc list" where
  "release_loop [] owed = ([], [])"
| "release_loop (x # xs) owed =
     (let take' = min owed (c_qty x);
          rest = release_loop xs (round3 (owed - take'));
          keep = round3 (c_qty x - take')
      in ((if 0 < take' then [x\<lparr>c_qty := round3 take'\<rparr>] else []) @ fst rest,
          snd rest @ (if 0 < keep then [x\<lparr>c_qty := keep\<rparr>] else [])))"

definition releaseClaim :: "claimSrc list \<Rightarrow> number \<Rightarrow> claimSrc list \<times> claimSrc list" where
  "releaseClaim src give = release_loop (rev src) (round3 (max 0 give))"

definition claim_key :: "claimSrc \<Rightarrow> (string \<times> nat) \<times> number" where
  "claim_key c = ((c_prq c, c_line c), c_qty c)"

definition claim_of :: "(string \<times> nat) \<times> number \<Rightarrow> claimSrc" where
  "claim_of x = \<lparr>c_prq = fst (fst x), c_line = snd (fst x), c_qty = snd x\<rparr>"

definition claim_le :: "(string \<Rightarrow> string \<Rightarrow> bool) \<Rightarrow> claimSrc \<Rightarrow> claimSrc \<Rightarrow> bool" where
  "claim_le coll a b \<longleftrightarrow>
     (if coll (c_prq a) (c_prq b) \<and> coll (c_prq b) (c_prq a) then c_line a \<le> c_line b
      else coll (c_prq a) (c_prq b))"

definition foldClaims :: "(string \<Rightarrow> string \<Rightarrow> bool) \<Rightarrow> claimSrc list \<Rightarrow> claimSrc list" where
  "foldClaims coll src = stable_sort (claim_le coll) (map claim_of (foldLines (map claim_key src)))"

section \<open>Receipts (\<open>receipt.ts\<close>)\<close>

definition RECEIPT_TOLERANCE :: number where "RECEIPT_TOLERANCE = 102/100"

record receiptLine =
  rl_name :: string
  rl_unit :: string
  rl_ordered :: number
  rl_received :: number

record receiptInput =
  ri_recv :: number
  ri_rejected :: number
  ri_batch :: string
  ri_mrp :: number
  ri_mfg :: string
  ri_exp :: string

definition checkReceiptLine :: "receiptLine \<Rightarrow> receiptInput \<Rightarrow> string \<Rightarrow> string option" where
  "checkReceiptLine l r today =
     (let tot = round3 (rl_received l + ri_recv r) in
      if round3 (rl_ordered l * RECEIPT_TOLERANCE) < tot
      then Some (rl_name l @ '' - '' @ fq tot (rl_unit l) @ '' exceeds the ordered ''
        @ fq (rl_ordered l) (rl_unit l) @ '' by more than 2%; hold it for purchase approval'')
      else if ri_rejected r < 0 \<or> ri_recv r < ri_rejected r
      then Some (rl_name l @ '' - rejected quantity cannot exceed what arrived'')
      else if trim (ri_batch r) = '''' then Some (rl_name l @ '' needs its batch or lot number'')
      else if ri_mfg r = '''' \<or> ri_exp r = ''''
      then Some (rl_name l @ '' needs a manufacturing and an expiry date'')
      else if ri_exp r \<le> ri_mfg r
      then Some (rl_name l @ '' - expiry cannot fall on or before the manufacturing date'')
      else if ri_exp r < today
      then Some (rl_name l @ '' - batch '' @ trim (ri_batch r)
        @ '' has already expired; do not book it in'')
      else None)"

definition netReceived :: "number \<Rightarrow> number \<Rightarrow> number" where
  "netReceived recv rejected = round3 (recv - rejected)"

record poLine =
  po_qty :: number
  po_recv :: number
  po_rejected :: number
  po_src :: "claimSrc list"

definition receiptStatus :: "poLine list \<Rightarrow> poStatus" where
  "receiptStatus lines =
     (if list_all (\<lambda>l. po_qty l \<le> netReceived (po_recv l) (po_rejected l)) lines
      then Po_Received else Po_PartiallyReceived)"

definition shortfallClaims :: "poLine list \<Rightarrow> claimSrc list" where
  "shortfallClaims lines = concat (map (\<lambda>l.
     fst (releaseClaim (po_src l)
       (round3 (max 0 (po_qty l - netReceived (po_recv l) (po_rejected l)))))) lines)"

section \<open>Buying (\<open>purchasing.ts\<close>)\<close>

definition isPurchased :: "itemType \<Rightarrow> bool" where
  "isPurchased t \<longleftrightarrow> t = RAW \<or> t = PACK \<or> t = MRP"

definition poValue :: "(number \<times> number) list \<Rightarrow> number" where
  "poValue lines = of_int (js_round (foldl (\<lambda>t (q, rate). t + q * rate) 0 lines * 100)) / 100"

definition needsApproval :: "number \<Rightarrow> number \<Rightarrow> bool" where
  "needsApproval value limit \<longleftrightarrow> limit < value"

definition rateFor :: "number option \<Rightarrow> number \<Rightarrow> number" where
  "rateFor contract itemCost =
     (case contract of Some rate \<Rightarrow> if 0 < rate then rate else itemCost | None \<Rightarrow> itemCost)"

definition contractInWindow :: "string \<Rightarrow> string \<Rightarrow> string \<Rightarrow> bool" where
  "contractInWindow cfrom cto today \<longleftrightarrow> cfrom \<le> today \<and> today \<le> cto"

section \<open>Lemmas: approvals\<close>

lemma plan_line_sel [simp]:
  "al_it (plan_line appr f il) = fst (snd il)"
  "al_qty (plan_line appr f il) = snd (snd il)"
  "al_appr (plan_line appr f il) =
     max 0 (round3 (min (snd (snd il)) (min (asked appr (fst il)) (f (fst (snd il)) (fst il)))))"
  by (simp_all add: plan_line_def Let_def)

lemma planApproval_nth:
  "i < length lines \<Longrightarrow>
   ap_lines (planApproval lines appr f) ! i = plan_line appr f (i, lines ! i)"
  by (simp add: planApproval_def Let_def nth_enumerate_eq)

lemma length_planApproval [simp]: "length (ap_lines (planApproval lines appr f)) = length lines"
  by (simp add: planApproval_def Let_def)

lemma plan_line_bounds:
  assumes "0 \<le> snd (snd il)" "is3 (snd (snd il))"
  shows "0 \<le> al_appr (plan_line appr f il)"
    and "al_appr (plan_line appr f il) \<le> snd (snd il)"
    and "al_appr (plan_line appr f il) \<le> max 0 (round3 (asked appr (fst il)))"
    and "al_appr (plan_line appr f il) \<le> max 0 (round3 (f (fst (snd il)) (fst il)))"
    and "al_appr (plan_line appr f il) + al_short (plan_line appr f il) = snd (snd il)"
proof -
  let ?m = "min (snd (snd il)) (min (asked appr (fst il)) (f (fst (snd il)) (fst il)))"
  have *: "round3 ?m \<le> round3 (snd (snd il))" "round3 ?m \<le> round3 (asked appr (fst il))"
    "round3 ?m \<le> round3 (f (fst (snd il)) (fst il))"
    by (intro r3.round_mono; simp)+
  then show "al_appr (plan_line appr f il) \<le> snd (snd il)" using assms by simp
  show "al_appr (plan_line appr f il) \<le> max 0 (round3 (asked appr (fst il)))"
    "al_appr (plan_line appr f il) \<le> max 0 (round3 (f (fst (snd il)) (fst il)))"
    using * by auto
  show "al_appr (plan_line appr f il) + al_short (plan_line appr f il) = snd (snd il)"
    using assms by (simp add: plan_line_def Let_def is3_diff is3_max)
qed simp

lemma foldl_appr_sum: "foldl (\<lambda>t l. t + al_appr l) a ls = a + (\<Sum>l\<leftarrow>ls. al_appr l)"
  by (induction ls arbitrary: a) auto

lemma plan_rejected_iff:
  "ap_st (planApproval lines appr f) = Req_Rejected \<longleftrightarrow>
   (\<forall>l \<in> set (ap_lines (planApproval lines appr f)). al_appr l = 0)"
proof -
  let ?out = "map (plan_line appr f) (enumerate 0 lines)"
  have "(\<Sum>l\<leftarrow>?out. al_appr l) = 0 \<longleftrightarrow> (\<forall>l \<in> set ?out. al_appr l = 0)"
    by (subst sum_list_nonneg_eq_0_iff) auto
  then show ?thesis
    by (simp add: planApproval_def Let_def foldl_appr_sum approvedStatus_def del: set_map)
qed

lemma plan_status_edge:
  "ap_st (planApproval lines appr f) \<in> {Req_Rejected, Req_ManagerApproved, Req_PartiallyApproved}"
  by (simp add: planApproval_def Let_def approvedStatus_def)

section \<open>Lemmas: claims\<close>

definition claim_total :: "string \<times> nat \<Rightarrow> claimSrc list \<Rightarrow> number" where
  "claim_total k cs = total_of k (map claim_key cs)"

lemma claim_total_simps [simp]:
  "claim_total k [] = 0"
  "claim_total k (c # cs) = (if (c_prq c, c_line c) = k then c_qty c else 0) + claim_total k cs"
  "claim_total k (cs @ ds) = claim_total k cs + claim_total k ds"
  by (simp_all add: claim_total_def claim_key_def)

lemma claim_total_rev [simp]: "claim_total k (rev cs) = claim_total k cs"
  by (induction cs) auto

lemma claim_total_concat: "claim_total k (concat css) = (\<Sum>cs\<leftarrow>css. claim_total k cs)"
  by (induction css) auto

definition claims_ok :: "claimSrc list \<Rightarrow> bool" where
  "claims_ok cs \<longleftrightarrow> (\<forall>c \<in> set cs. is3 (c_qty c) \<and> 0 < c_qty c)"

lemma release_loop_conserves:
  "claims_ok cs \<Longrightarrow> is3 owed \<Longrightarrow> 0 \<le> owed \<Longrightarrow>
   claim_total k (fst (release_loop cs owed)) + claim_total k (snd (release_loop cs owed)) = claim_total k cs"
proof (induction cs owed rule: release_loop.induct)
  case (2 x xs owed)
  let ?t = "min owed (c_qty x)"
  have g: "is3 ?t" "is3 (c_qty x)" "0 < c_qty x" "claims_ok xs"
    using 2 by (auto simp: claims_ok_def is3_min)
  have "claim_total k (fst (release_loop xs (owed - ?t))) + claim_total k (snd (release_loop xs (owed - ?t)))
      = claim_total k xs"
    using 2 g by (simp add: is3_diff)
  then show ?case using 2(3,4) g by (auto simp: Let_def is3_diff min_def)
qed simp

lemma release_loop_amount:
  "claims_ok cs \<Longrightarrow> is3 owed \<Longrightarrow> 0 \<le> owed \<Longrightarrow>
   (\<Sum>c\<leftarrow>fst (release_loop cs owed). c_qty c) = min owed (\<Sum>c\<leftarrow>cs. c_qty c)"
proof (induction cs owed rule: release_loop.induct)
  case (2 x xs owed)
  let ?t = "min owed (c_qty x)"
  have g: "is3 ?t" "is3 (c_qty x)" "0 < c_qty x" "claims_ok xs"
    using 2 by (auto simp: claims_ok_def is3_min)
  have "0 \<le> (\<Sum>c\<leftarrow>xs. c_qty c)" using g(4) by (intro sum_list_nonneg) (auto simp: claims_ok_def)
  moreover have "(\<Sum>c\<leftarrow>fst (release_loop xs (owed - ?t)). c_qty c) = min (owed - ?t) (\<Sum>c\<leftarrow>xs. c_qty c)"
    using 2 g by (simp add: is3_diff)
  ultimately show ?case using 2(3,4) g by (auto simp: Let_def is3_diff min_def)
qed simp

lemma release_loop_ok:
  "claims_ok cs \<Longrightarrow> is3 owed \<Longrightarrow> claims_ok (fst (release_loop cs owed)) \<and> claims_ok (snd (release_loop cs owed))"
proof (induction cs owed rule: release_loop.induct)
  case (2 x xs owed)
  let ?t = "min owed (c_qty x)"
  have g: "is3 ?t" "is3 (c_qty x)" "is3 (owed - ?t)" "is3 (c_qty x - ?t)" "claims_ok xs"
    using 2(2,3) by (auto simp: claims_ok_def is3_min is3_diff)
  then have "claims_ok (fst (release_loop xs (owed - ?t)))" "claims_ok (snd (release_loop xs (owed - ?t)))"
    using 2 by simp_all
  then have "\<forall>c \<in> set (fst (release_loop xs (owed - ?t))). is3 (c_qty c) \<and> 0 < c_qty c"
    "\<forall>c \<in> set (snd (release_loop xs (owed - ?t))). is3 (c_qty c) \<and> 0 < c_qty c"
    by (simp_all only: claims_ok_def)
  with g show ?case unfolding claims_ok_def release_loop.simps Let_def round3_id [OF g(1)]
    round3_id [OF g(3)] round3_id [OF g(4)] by auto
qed (simp add: claims_ok_def)

lemma release_none: "claims_ok cs \<Longrightarrow> release_loop cs 0 = ([], rev cs)"
  by (induction cs) (auto simp: claims_ok_def Let_def)

text \<open>Newest first: a source is touched only once every later one is used up.\<close>

lemma release_newest_first:
  assumes "claims_ok (cs @ ds)" "is3 owed" "0 \<le> owed" "owed \<le> (\<Sum>c\<leftarrow>cs. c_qty c)"
  shows "\<exists>l. snd (release_loop (cs @ ds) owed) = rev ds @ l"
  using assms
proof (induction cs owed rule: release_loop.induct)
  case (1 owed)
  then show ?case using release_none [of ds] by (auto simp: claims_ok_def)
next
  case (2 x xs owed)
  let ?t = "min owed (c_qty x)"
  have g: "is3 ?t" "0 < c_qty x" "claims_ok (xs @ ds)" "claims_ok xs"
    using 2 by (auto simp: claims_ok_def is3_min)
  have "0 \<le> (\<Sum>c\<leftarrow>xs. c_qty c)" using g(4) by (intro sum_list_nonneg) (auto simp: claims_ok_def)
  then have "\<exists>l. snd (release_loop (xs @ ds) (owed - ?t)) = rev ds @ l"
    using 2 g by (simp add: is3_diff min_def)
  then show ?case using 2(3) g by (auto simp: Let_def is3_diff)
qed

lemma foldClaims_total:
  assumes "claims_ok cs"
  shows "claim_total k (foldClaims coll cs) = claim_total k cs"
proof -
  have perm: "claim_total k xs = claim_total k ys" if "mset xs = mset ys" for xs ys
    using that by (simp add: claim_total_def total_of_def flip: sum_mset_sum_list)
  have "map claim_key (map claim_of xs) = xs" for xs
    by (induction xs) (auto simp: claim_key_def claim_of_def)
  then have "claim_total k (map claim_of (foldLines (map claim_key cs))) = total_of k (foldLines (map claim_key cs))"
    by (simp add: claim_total_def del: map_map)
  also have "\<dots> = total_of k (map claim_key cs)"
    using assms by (subst total_of_distinct [OF distinct_foldLines], subst get0_foldLines_grid)
      (auto simp: claims_ok_def claim_key_def)
  finally show ?thesis
    using perm [of "foldClaims coll cs" "map claim_of (foldLines (map claim_key cs))"]
    by (simp add: foldClaims_def claim_total_def)
qed

section \<open>Lemmas: receipts\<close>

lemma received_iff: "receiptStatus ls = Po_Received \<longleftrightarrow>
   (\<forall>l \<in> set ls. po_qty l \<le> netReceived (po_recv l) (po_rejected l))"
  by (simp add: receiptStatus_def list_all_iff)

lemma receipt_accepted:
  assumes "checkReceiptLine l r today = None"
  shows "round3 (rl_received l + ri_recv r) \<le> round3 (rl_ordered l * RECEIPT_TOLERANCE)"
    and "0 \<le> ri_rejected r" "ri_rejected r \<le> ri_recv r"
    and "trim (ri_batch r) \<noteq> ''''" "ri_mfg r < ri_exp r" "today \<le> ri_exp r"
  using assms by (auto simp: checkReceiptLine_def Let_def not_le split: if_splits)

end
