(* ===== verification/Db.thy ===== *)
theory Db
  imports Documents Planning
begin

text \<open>
  The database as the services see it: \<open>apps/api/src/db/schema\<close> \<open>ledger.ts\<close>, \<open>movement.ts\<close>,
  \<open>production.ts\<close> and the columns of \<open>master.ts\<close> the services read. One record holds every table. A
  table keyed by a text primary key is an association list in insertion order, its child lines kept in
  \<open>line_no\<close> order inside the row; \<open>stock_balances\<close> is a map of its two-column key; the append-only
  tables are lists. \<open>updated_at\<close> columns, which no rule reads, are left out.

  A transaction is a function of the whole record that answers \<open>error + db\<close>: a refusal writes
  nothing. Row locks decide which of two transactions runs first, so a committed history is a
  sequence of these functions, which is what the model walks. Check constraints and primary keys
  that an insert can run into are branches with the \<open>Internal\<close> error; foreign keys onto the master
  are not modelled.
\<close>

section \<open>Rows\<close>

datatype moveKind = Mk_opening | Mk_sale | Mk_ticket_out | Mk_ticket_in | Mk_production_consume
  | Mk_production_yield | Mk_grn_accept | Mk_grn_reject | Mk_adjustment | Mk_reversal

datatype ticketRef = Ref_request | Ref_prod_order | Ref_direct | Ref_shop_transfer | Ref_shop_ask

datatype changed = Ch_req | Ch_tkt | Ch_rsv | Ch_stock | Ch_pord | Ch_batch | Ch_shopAsks | Ch_bills
  | Ch_receivables | Ch_terms | Ch_adjustments | Ch_adjReq | Ch_wastage | Ch_prq | Ch_po | Ch_grn
  | Ch_contracts | Ch_shifts | Ch_qrOrders | Ch_qrCodes

record move =
  mv_loc :: key
  mv_it :: key
  mv_qty :: number
  mv_kind :: moveKind
  mv_refType :: string
  mv_refId :: string
  mv_by :: "string option"
  mv_at :: instant
  mv_reverses :: "nat option"

record reservation =
  rv_loc :: key
  rv_it :: key
  rv_qty :: number
  rv_ticket :: string
  rv_released :: "instant option"

record reqLine =
  ql_it :: key
  ql_qty :: number
  ql_appr :: number
  ql_short :: "number option"

record requestRow =
  rq_from :: key
  rq_by :: string
  rq_at :: instant
  rq_status :: reqStatus
  rq_ticket :: "string option"
  rq_note :: string
  rq_urgent :: bool
  rq_approvedBy :: "string option"
  rq_lines :: "reqLine list"

record ticketRow =
  tk_refType :: ticketRef
  tk_refId :: string
  tk_from :: key
  tk_to :: key
  tk_status :: tktStatus
  tk_otp :: string
  tk_attempts :: nat
  tk_issuedBy :: string
  tk_issuedAt :: instant
  tk_collectedAt :: "instant option"
  tk_receivedAt :: "instant option"
  tk_lines :: "line list"

record pordRow =
  pd_from :: key
  pd_by :: string
  pd_at :: instant
  pd_status :: pordStatus
  pd_need :: "string option"
  pd_note :: string
  pd_lines :: "line list"

record askRow =
  sa_from :: key
  sa_to :: key
  sa_it :: key
  sa_qty :: number
  sa_status :: shopAskStatus
  sa_by :: string
  sa_at :: instant
  sa_note :: string
  sa_granted :: "number option"
  sa_ticket :: "string option"
  sa_reason :: "string option"

record batchRow =
  bt_it :: key
  bt_started :: number
  bt_made :: number
  bt_at :: instant
  bt_best :: instant
  bt_note :: "string option"
  bt_by :: string

record histRow =
  hs_type :: string
  hs_id :: string
  hs_status :: string
  hs_who :: string
  hs_at :: instant

record db =
  db_items :: "key \<Rightarrow> item option"
  db_locations :: "(key \<times> location) list"
  db_menu :: "key \<Rightarrow> key list"
  db_overrides :: "key \<times> key \<Rightarrow> string option"
  db_users :: "string \<Rightarrow> string option"
  db_seq :: "idKind \<Rightarrow> nat option"
  db_balances :: "key \<times> key \<Rightarrow> number option"
  db_moves :: "move list"
  db_resv :: "reservation list"
  db_requests :: "(string \<times> requestRow) list"
  db_tickets :: "(string \<times> ticketRow) list"
  db_pords :: "(string \<times> pordRow) list"
  db_asks :: "(string \<times> askRow) list"
  db_batches :: "(string \<times> batchRow) list"
  db_hist :: "histRow list"
  db_notices :: "changed list list"

section \<open>Selecting, inserting, updating\<close>

definition request_of :: "db \<Rightarrow> string \<Rightarrow> requestRow option" where
  "request_of d i = map_of (db_requests d) i"

definition ticket_of :: "db \<Rightarrow> string \<Rightarrow> ticketRow option" where
  "ticket_of d i = map_of (db_tickets d) i"

definition pord_of :: "db \<Rightarrow> string \<Rightarrow> pordRow option" where
  "pord_of d i = map_of (db_pords d) i"

definition ask_of :: "db \<Rightarrow> string \<Rightarrow> askRow option" where
  "ask_of d i = map_of (db_asks d) i"

text \<open>\<open>insert into \<dots> values\<close>: a second row with the same primary key is refused by the database.\<close>

definition insert_row :: "(string \<times> 'r) list \<Rightarrow> string \<Rightarrow> 'r \<Rightarrow> error + (string \<times> 'r) list" where
  "insert_row t i r =
     (if map_of t i \<noteq> None then Inl (Internal ''duplicate key value violates unique constraint'')
      else Inr (t @ [(i, r)]))"

definition update_row :: "(string \<times> 'r) list \<Rightarrow> string \<Rightarrow> ('r \<Rightarrow> 'r) \<Rightarrow> (string \<times> 'r) list" where
  "update_row t i f = map (\<lambda>(k, r). if k = i then (k, f r) else (k, r)) t"

definition update_request :: "string \<Rightarrow> (requestRow \<Rightarrow> requestRow) \<Rightarrow> db \<Rightarrow> db" where
  "update_request i f d = d\<lparr>db_requests := update_row (db_requests d) i f\<rparr>"

definition update_ticket :: "string \<Rightarrow> (ticketRow \<Rightarrow> ticketRow) \<Rightarrow> db \<Rightarrow> db" where
  "update_ticket i f d = d\<lparr>db_tickets := update_row (db_tickets d) i f\<rparr>"

definition update_pord :: "string \<Rightarrow> (pordRow \<Rightarrow> pordRow) \<Rightarrow> db \<Rightarrow> db" where
  "update_pord i f d = d\<lparr>db_pords := update_row (db_pords d) i f\<rparr>"

definition update_ask :: "string \<Rightarrow> (askRow \<Rightarrow> askRow) \<Rightarrow> db \<Rightarrow> db" where
  "update_ask i f d = d\<lparr>db_asks := update_row (db_asks d) i f\<rparr>"

section \<open>The master, names, the trail, numbers, notices\<close>

text \<open>\<open>lib/master.ts\<close>: withdrawn items are left out.\<close>

definition loadItems :: "db \<Rightarrow> key \<Rightarrow> item option" where
  "loadItems d it = (case db_items d it of None \<Rightarrow> None | Some i \<Rightarrow> if item_active i then Some i else None)"

definition loadItemTypes :: "db \<Rightarrow> key \<Rightarrow> itemType option" where
  "loadItemTypes d it = map_option item_t (db_items d it)"

definition retiredItemName :: "db \<Rightarrow> key \<Rightarrow> string option" where
  "retiredItemName d it =
     (case db_items d it of None \<Rightarrow> None | Some i \<Rightarrow> if item_active i then None else Some (item_n i))"

definition loadLocations :: "db \<Rightarrow> (key \<times> location) list" where
  "loadLocations d = db_locations d"

definition loadMaster :: "db \<Rightarrow> master" where
  "loadMaster d = \<lparr>m_items = loadItems d, m_locations = loadLocations d\<rparr>"

text \<open>\<open>locations[k]?.n ?? k\<close> and \<open>items[k]?.n ?? k\<close>.\<close>

definition loc_name :: "db \<Rightarrow> key \<Rightarrow> string" where
  "loc_name d k = (case map_of (loadLocations d) k of Some l \<Rightarrow> loc_n l | None \<Rightarrow> k)"

definition item_name :: "db \<Rightarrow> key \<Rightarrow> string" where
  "item_name d k = (case loadItems d k of Some i \<Rightarrow> item_n i | None \<Rightarrow> k)"

text \<open>\<open>lib/locations.ts\<close>.\<close>

definition lockLocation :: "db \<Rightarrow> key \<Rightarrow> error + location" where
  "lockLocation d k = (case map_of (db_locations d) k of
      None \<Rightarrow> Inl (NotFoundError (''There is no location '' @ k @ ''.'')) | Some l \<Rightarrow> Inr l)"

definition assertOpen :: "location \<Rightarrow> error option" where
  "assertOpen l = (if \<not> loc_active l then Some (RuleError (''Refused - '' @ loc_n l @ '' is closed'')) else None)"

definition userName :: "db \<Rightarrow> string \<Rightarrow> string" where
  "userName d i = (case db_users d i of Some n \<Rightarrow> n | None \<Rightarrow> i)"

text \<open>\<open>lib/history.ts\<close>.\<close>

definition appendHistory :: "string \<Rightarrow> string \<Rightarrow> string \<Rightarrow> string \<Rightarrow> instant \<Rightarrow> db \<Rightarrow> db" where
  "appendHistory docType docId status who at' d = d\<lparr>db_hist := db_hist d @
     [\<lparr>hs_type = docType, hs_id = docId, hs_status = status, hs_who = who, hs_at = at'\<rparr>]\<rparr>"

definition readHistory :: "db \<Rightarrow> string \<Rightarrow> string \<Rightarrow> (string \<times> string \<times> instant) list" where
  "readHistory d docType docId =
     map (\<lambda>r. (hs_status r, hs_who r, hs_at r))
       (stable_sort (\<lambda>a b. hs_at a \<le> hs_at b)
         (filter (\<lambda>r. hs_type r = docType \<and> hs_id r = docId) (db_hist d)))"

text \<open>\<open>lib/ids.ts\<close>: the counter is a row, and the number handed out is the one it stood on.\<close>

definition ensureSequences :: "db \<Rightarrow> db" where
  "ensureSequences d = d\<lparr>db_seq := (\<lambda>k. case db_seq d k of Some n \<Rightarrow> Some n | None \<Rightarrow> Some (SEQUENCE_START k))\<rparr>"

definition allocateNumber :: "idKind \<Rightarrow> instant \<Rightarrow> db \<Rightarrow> error + (nat \<times> string) \<times> db" where
  "allocateNumber kind at' d =
     (case db_seq d kind of
        None \<Rightarrow> Inl (Internal ''sequence is not initialised - run ensureSequences()'')
      | Some n \<Rightarrow> Inr ((n, formatId kind n at'), d\<lparr>db_seq := (db_seq d)(kind \<mapsto> n + 1)\<rparr>))"

definition allocateId :: "idKind \<Rightarrow> instant \<Rightarrow> db \<Rightarrow> error + string \<times> db" where
  "allocateId kind at' d =
     (case allocateNumber kind at' d of Inl e \<Rightarrow> Inl e | Inr (no, d') \<Rightarrow> Inr (snd no, d'))"

text \<open>\<open>lib/events.ts\<close>: \<open>[...new Set(changed)]\<close>, and nothing is sent for nothing.\<close>

fun uniq :: "'a list \<Rightarrow> 'a list" where
  "uniq [] = []"
| "uniq (x # xs) = x # uniq (filter (\<lambda>y. y \<noteq> x) xs)"

definition emitChanged :: "changed list \<Rightarrow> db \<Rightarrow> db" where
  "emitChanged ch d = (if uniq ch = [] then d else d\<lparr>db_notices := db_notices d @ [uniq ch]\<rparr>)"

text \<open>\<open>withTransaction\<close> of \<open>lib/db.ts\<close>: a thrown error rolls everything back.\<close>

definition withTransaction :: "(db \<Rightarrow> error + db) \<Rightarrow> db \<Rightarrow> error option \<times> db" where
  "withTransaction f d = (case f d of Inl e \<Rightarrow> (Some e, d) | Inr d' \<Rightarrow> (None, d'))"

text \<open>\<open>assertTransition\<close> of \<open>lib/rules.ts\<close>; \<open>word\<close> prints a status.\<close>

definition assertTransition :: "('s \<Rightarrow> 's list) \<Rightarrow> ('s \<Rightarrow> string) \<Rightarrow> 's \<Rightarrow> 's \<Rightarrow> string \<Rightarrow> error option" where
  "assertTransition table word from to what =
     (if canTransition table from to then None
      else Some (RuleError (what @ '' is already '' @ toLower (word from))))"

text \<open>\<open>assertOpen(row, then)\<close>: the same refusal, with a way on.\<close>

definition assertOpenThen :: "location \<Rightarrow> string \<Rightarrow> error option" where
  "assertOpenThen l next' = (if \<not> loc_active l
     then Some (RuleError (''Refused - '' @ loc_n l @ '' is closed; '' @ next')) else None)"

section \<open>Lemmas\<close>

lemma assertOpenThen_None [simp]: "assertOpenThen l next' = None \<longleftrightarrow> loc_active l"
  by (simp add: assertOpenThen_def)

lemma map_of_update_row [simp]:
  "map_of (update_row t i f) j = (if j = i then map_option f (map_of t j) else map_of t j)"
  by (induction t) (auto simp: update_row_def)

lemma keys_update_row [simp]: "map fst (update_row t i f) = map fst t"
  by (induction t) (auto simp: update_row_def)

lemma insert_row_Inr [simp]:
  "insert_row t i r = Inr t' \<longleftrightarrow> map_of t i = None \<and> t' = t @ [(i, r)]"
  by (auto simp: insert_row_def)

lemma map_of_snoc: "map_of t i = None \<Longrightarrow> map_of (t @ [(i, r)]) j = (if j = i then Some r else map_of t j)"
  by (auto simp: map_add_def split: option.splits)

lemma assertTransition_None [simp]:
  "assertTransition table word from to what = None \<longleftrightarrow> canTransition table from to"
  by (simp add: assertTransition_def)

lemma assertOpen_None [simp]: "assertOpen l = None \<longleftrightarrow> loc_active l"
  by (simp add: assertOpen_def)

lemma withTransaction_err: "withTransaction f d = (Some e, d') \<Longrightarrow> d' = d"
  by (auto simp: withTransaction_def split: sum.splits)

lemma withTransaction_ok: "withTransaction f d = (None, d') \<longleftrightarrow> f d = Inr d'"
  by (auto simp: withTransaction_def split: sum.splits)

end
