(* ===== verification/Ledger.thy ===== *)
theory Ledger
  imports Db
begin

text \<open>
  The stock ledger and the holds on it: \<open>apps/api/src/lib\<close> \<open>ledger.ts\<close> and \<open>reservations.ts\<close>. Stock
  is the sum of an append-only list of moves, \<open>stock_balances\<close> is a cache of that sum per cell
  (a location and an item), and a hold is an open row of \<open>reservations\<close>.

  Lemmas: posting keeps the cache equal to the sum, a rebuild recomputes exactly it, a hold and its
  release change what is held by exactly the ticket's lines, and using up kitchen stock on arrival
  leaves the kitchen's balance where it was.
\<close>

section \<open>The ledger (\<open>ledger.ts\<close>)\<close>

type_synonym cell = "key \<times> key"

definition mv_cell :: "move \<Rightarrow> cell" where "mv_cell m = (mv_loc m, mv_it m)"

definition withUseOnArrival :: "(key \<Rightarrow> itemType option) \<Rightarrow> move list \<Rightarrow> move list" where
  "withUseOnArrival types moves = concat (map (\<lambda>m.
     (case types (mv_it m) of
        Some t \<Rightarrow> if 0 < mv_qty m \<and> usedOnArrival t (mv_loc m)
                  then [m, m\<lparr>mv_qty := - mv_qty m, mv_kind := Mk_production_consume\<rparr>] else [m]
      | None \<Rightarrow> [m])) moves)"

text \<open>A zero row where there is none. The sorted order the rows are visited in decides which lock is
  waited for, not what is written.\<close>

definition lockBalances :: "cell list \<Rightarrow> db \<Rightarrow> db" where
  "lockBalances cells d = d\<lparr>db_balances := (\<lambda>c.
     if c \<in> set cells \<and> db_balances d c = None then Some 0 else db_balances d c)\<rparr>"

definition add_delta :: "cell \<times> number \<Rightarrow> (cell \<Rightarrow> number option) \<Rightarrow> cell \<Rightarrow> number option" where
  "add_delta cd b = (case b (fst cd) of None \<Rightarrow> b | Some v \<Rightarrow> b(fst cd \<mapsto> pg_round3 (v + snd cd)))"

definition postMoves :: "move list \<Rightarrow> db \<Rightarrow> db" where
  "postMoves moves d =
     (let real = filter (\<lambda>m. round3 (mv_qty m) \<noteq> 0) moves in
      if real = [] then d
      else (let deltas = foldLines (map (\<lambda>m. (mv_cell m, mv_qty m)) real);
                d1 = lockBalances (map fst deltas) d
            in d1\<lparr>db_moves := db_moves d1 @ map (\<lambda>m. m\<lparr>mv_qty := round3 (mv_qty m)\<rparr>) real,
                  db_balances := fold add_delta deltas (db_balances d1)\<rparr>))"

definition moved :: "db \<Rightarrow> cell \<Rightarrow> number" where
  "moved d c = (\<Sum>m\<leftarrow>db_moves d. if mv_cell m = c then mv_qty m else 0)"

definition rebuildBalances :: "db \<Rightarrow> db" where
  "rebuildBalances d = d\<lparr>db_balances := (\<lambda>c.
     if c \<in> set (map mv_cell (db_moves d)) then Some (pg_round3 (moved d c))
     else map_option (\<lambda>_. 0) (db_balances d c))\<rparr>"

definition balancesAt :: "db \<Rightarrow> key \<Rightarrow> key list \<Rightarrow> key \<Rightarrow> number option" where
  "balancesAt d loc its it = (if it \<in> set its then db_balances d (loc, it) else None)"

section \<open>Holds (\<open>reservations.ts\<close>)\<close>

definition rv_cell :: "reservation \<Rightarrow> cell" where "rv_cell r = (rv_loc r, rv_it r)"

definition reserve :: "reservation list \<Rightarrow> db \<Rightarrow> error + db" where
  "reserve rows d =
     (if rows = [] then Inr d
      else if \<exists>r \<in> set rows. round3 (rv_qty r) \<le> 0
      then Inl (Internal ''new row for relation reservations violates check constraint reservations_qty_ck'')
      else (let d1 = lockBalances (map rv_cell rows) d
            in Inr (d1\<lparr>db_resv := db_resv d1 @ map (\<lambda>r. r\<lparr>rv_qty := round3 (rv_qty r), rv_released := None\<rparr>) rows\<rparr>)))"

definition release_row :: "string \<Rightarrow> instant \<Rightarrow> reservation \<Rightarrow> reservation" where
  "release_row tid at' r =
     (if rv_ticket r = tid \<and> rv_released r = None then r\<lparr>rv_released := Some at'\<rparr> else r)"

text \<open>How many rows were released, and the database with them released.\<close>

definition releaseForTicket :: "string \<Rightarrow> instant \<Rightarrow> db \<Rightarrow> nat \<times> db" where
  "releaseForTicket tid at' d =
     (length (filter (\<lambda>r. rv_ticket r = tid \<and> rv_released r = None) (db_resv d)),
      d\<lparr>db_resv := map (release_row tid at') (db_resv d)\<rparr>)"

definition open_at :: "cell \<Rightarrow> reservation \<Rightarrow> bool" where
  "open_at c r \<longleftrightarrow> rv_released r = None \<and> rv_cell r = c"

text \<open>What is held of a cell: the sum \<open>reservedAt\<close> groups.\<close>

definition held :: "db \<Rightarrow> cell \<Rightarrow> number" where
  "held d c = (\<Sum>r\<leftarrow>filter (open_at c) (db_resv d). rv_qty r)"

definition reservedAt :: "db \<Rightarrow> key \<Rightarrow> key list option \<Rightarrow> rsvMap" where
  "reservedAt d loc itemKeys = (\<lambda>(l, it).
     if l = loc \<and> (case itemKeys of None \<Rightarrow> True | Some ks \<Rightarrow> it \<in> set ks)
        \<and> (\<exists>r \<in> set (db_resv d). open_at (loc, it) r)
     then Some (pg_round3 (held d (loc, it))) else None)"

text \<open>\<open>round3((stock[it] ?? 0) - (held[`${loc}:${it}`] ?? 0))\<close>: the figure every cover check reads.\<close>

definition freeAt :: "db \<Rightarrow> key \<Rightarrow> key list \<Rightarrow> key \<Rightarrow> number" where
  "freeAt d loc its it =
     round3 (or0 (balancesAt d loc its it) - or0 (reservedAt d loc (Some its) (loc, it)))"

section \<open>What must hold of the two tables\<close>

definition onhand :: "db \<Rightarrow> cell \<Rightarrow> number" where "onhand d c = or0 (db_balances d c)"

text \<open>The cache is the sum of the moves, cell by cell, and every move is a figure of the ledger.\<close>

definition ledger_ok :: "db \<Rightarrow> bool" where
  "ledger_ok d \<longleftrightarrow> (\<forall>c. onhand d c = moved d c) \<and> (\<forall>m \<in> set (db_moves d). is3 (mv_qty m) \<and> mv_qty m \<noteq> 0)"

definition resv_ok :: "db \<Rightarrow> bool" where
  "resv_ok d \<longleftrightarrow> (\<forall>r \<in> set (db_resv d). is3 (rv_qty r) \<and> 0 < rv_qty r)"

text \<open>Nothing is promised that is not on the shelf.\<close>

definition covered :: "db \<Rightarrow> bool" where
  "covered d \<longleftrightarrow> (\<forall>c. held d c \<le> onhand d c)"

text \<open>What one ticket holds of a cell.\<close>

definition hold_of :: "db \<Rightarrow> string \<Rightarrow> cell \<Rightarrow> number" where
  "hold_of d tid c = (\<Sum>r\<leftarrow>filter (\<lambda>r. open_at c r \<and> rv_ticket r = tid) (db_resv d). rv_qty r)"

section \<open>Lemmas: the ledger\<close>

lemma is3_moved: "ledger_ok d \<Longrightarrow> is3 (moved d c)"
  unfolding moved_def by (rule is3_sum_list) (auto simp: ledger_ok_def)

lemma ledger_cache: "ledger_ok d \<Longrightarrow> onhand d c = moved d c"
  unfolding ledger_ok_def by blast

lemma is3_onhand: "ledger_ok d \<Longrightarrow> is3 (onhand d c)"
  using is3_moved ledger_cache by metis

lemma sum_list_zero: "(\<And>x. x \<in> set xs \<Longrightarrow> f x = 0) \<Longrightarrow> (\<Sum>x\<leftarrow>xs. f x) = (0 :: number)"
  by (induction xs) auto

lemma is3_held: "resv_ok d \<Longrightarrow> is3 (held d c)"
  unfolding held_def by (rule is3_sum_list) (auto simp: resv_ok_def)

lemma is3_hold_of: "resv_ok d \<Longrightarrow> is3 (hold_of d t c)"
  unfolding hold_of_def by (rule is3_sum_list) (auto simp: resv_ok_def)

lemma held_nonneg: "resv_ok d \<Longrightarrow> 0 \<le> held d c"
  unfolding held_def by (rule sum_list_nonneg) (fastforce simp: resv_ok_def)

lemma hold_of_le_held: "resv_ok d \<Longrightarrow> hold_of d t c \<le> held d c"
proof -
  assume *: "resv_ok d"
  have "(\<Sum>r\<leftarrow>filter (\<lambda>r. open_at c r \<and> rv_ticket r = t) xs. rv_qty r) \<le> (\<Sum>r\<leftarrow>filter (open_at c) xs. rv_qty r)"
    if "\<And>r. r \<in> set xs \<Longrightarrow> 0 < rv_qty r" for xs
    using that by (induction xs) (auto simp: add_increasing less_imp_le)
  then show ?thesis using * by (simp add: hold_of_def held_def resv_ok_def)
qed

lemma lockBalances_sel [simp]:
  "db_moves (lockBalances cs d) = db_moves d" "db_resv (lockBalances cs d) = db_resv d"
  "db_tickets (lockBalances cs d) = db_tickets d" "db_requests (lockBalances cs d) = db_requests d"
  "db_pords (lockBalances cs d) = db_pords d" "db_asks (lockBalances cs d) = db_asks d"
  "db_seq (lockBalances cs d) = db_seq d" "db_items (lockBalances cs d) = db_items d"
  "db_locations (lockBalances cs d) = db_locations d" "db_users (lockBalances cs d) = db_users d"
  "db_menu (lockBalances cs d) = db_menu d" "db_overrides (lockBalances cs d) = db_overrides d"
  "db_batches (lockBalances cs d) = db_batches d" "db_hist (lockBalances cs d) = db_hist d"
  "db_notices (lockBalances cs d) = db_notices d"
  by (simp_all add: lockBalances_def)

lemma onhand_lock [simp]: "onhand (lockBalances cs d) c = onhand d c"
  by (simp add: onhand_def lockBalances_def)

lemma lock_balance_some: "c \<in> set cs \<Longrightarrow> db_balances (lockBalances cs d) c \<noteq> None"
  by (simp add: lockBalances_def)

lemma fold_add_delta_other:
  "c \<notin> fst ` set ds \<Longrightarrow> fold add_delta ds b c = b c"
  by (induction ds arbitrary: b) (auto simp: add_delta_def split: option.splits)

lemma fold_add_delta:
  assumes "distinct (map fst ds)" and "(c, v) \<in> set ds" and "b c = Some x"
  shows "fold add_delta ds b c = Some (pg_round3 (x + v))"
  using assms
proof (induction ds arbitrary: b)
  case (Cons e ds)
  show ?case
  proof (cases "e = (c, v)")
    case True
    then have "c \<notin> fst ` set ds" using Cons.prems by auto
    moreover have "add_delta e b c = Some (pg_round3 (x + v))"
      using True Cons.prems by (simp add: add_delta_def)
    ultimately show ?thesis by (simp add: fold_add_delta_other)
  next
    case False
    then have "(c, v) \<in> set ds" "fst e \<noteq> c" using Cons.prems by (auto simp: image_iff)
    moreover have "add_delta e b c = Some x"
      using \<open>fst e \<noteq> c\<close> Cons.prems by (auto simp: add_delta_def split: option.splits)
    ultimately show ?thesis using Cons by simp
  qed
qed simp

text \<open>What a batch of moves adds to a cell.\<close>

definition delta_of :: "move list \<Rightarrow> cell \<Rightarrow> number" where
  "delta_of ms c = (\<Sum>m\<leftarrow>ms. if mv_cell m = c then round3 (mv_qty m) else 0)"

lemma delta_of_simps [simp]:
  "delta_of [] c = 0"
  "delta_of (m # ms) c = (if mv_cell m = c then round3 (mv_qty m) else 0) + delta_of ms c"
  "delta_of (ms @ ns) c = delta_of ms c + delta_of ns c"
  by (simp_all add: delta_of_def)

lemma delta_of_real: "delta_of (filter (\<lambda>m. round3 (mv_qty m) \<noteq> 0) ms) c = delta_of ms c"
  by (induction ms) auto

lemma is3_delta_of: "is3 (delta_of ms c)"
  unfolding delta_of_def by (rule is3_sum_list) simp

lemma postMoves_sel [simp]:
  "db_resv (postMoves ms d) = db_resv d" "db_tickets (postMoves ms d) = db_tickets d"
  "db_requests (postMoves ms d) = db_requests d" "db_pords (postMoves ms d) = db_pords d"
  "db_asks (postMoves ms d) = db_asks d" "db_seq (postMoves ms d) = db_seq d"
  "db_items (postMoves ms d) = db_items d" "db_locations (postMoves ms d) = db_locations d"
  "db_users (postMoves ms d) = db_users d" "db_menu (postMoves ms d) = db_menu d"
  "db_overrides (postMoves ms d) = db_overrides d" "db_batches (postMoves ms d) = db_batches d"
  "db_hist (postMoves ms d) = db_hist d" "db_notices (postMoves ms d) = db_notices d"
  by (simp_all add: postMoves_def Let_def)

lemma onhand_postMoves:
  assumes g: "\<And>c. is3 (onhand d c)"
  shows "onhand (postMoves ms d) c = onhand d c + delta_of ms c"
proof -
  let ?real = "filter (\<lambda>m. round3 (mv_qty m) \<noteq> 0) ms"
  let ?ds = "foldLines (map (\<lambda>m. (mv_cell m, mv_qty m)) ?real)"
  let ?b = "db_balances (lockBalances (map fst ?ds) d)"
  have key: "(\<Sum>l\<leftarrow>map (\<lambda>m. (mv_cell m, mv_qty m)) ms'. if fst l = c then round3 (snd l) else 0) = delta_of ms' c"
    for ms' by (induction ms') auto
  show ?thesis
  proof (cases "c \<in> fst ` set ?ds")
    case True
    then obtain v where v: "(c, v) \<in> set ?ds" by (auto simp del: keys_foldLines)
    have vd: "v = delta_of ms c" using foldLines_mem [OF v] unfolding key delta_of_real .
    obtain x where x: "?b c = Some x"
      using lock_balance_some [of c "map fst ?ds" d] True by auto
    then have xo: "x = onhand d c"
      using onhand_lock [of "map fst ?ds" d c] by (simp add: onhand_def)
    have "fold add_delta ?ds ?b c = Some (pg_round3 (x + v))"
      by (rule fold_add_delta) (use v x in simp_all)
    moreover have "?real \<noteq> []" using v by (cases ?real) (simp_all add: foldLines_def)
    ultimately have "db_balances (postMoves ms d) c = Some (pg_round3 (x + v))"
      by (simp add: postMoves_def Let_def)
    moreover have "is3 (x + v)" using g [of c] is3_delta_of [of ms c] xo vd by (simp add: is3_add)
    ultimately show ?thesis using xo vd by (simp add: onhand_def)
  next
    case False
    then have "delta_of ?real c = 0" by (auto simp: delta_of_def image_iff intro!: sum_list_zero)
    then have z: "delta_of ms c = 0" by (simp add: delta_of_real)
    have "onhand (postMoves ms d) c = onhand d c"
      using False onhand_lock [of "map fst ?ds" d c]
      by (simp add: postMoves_def Let_def onhand_def fold_add_delta_other)
    then show ?thesis using z by simp
  qed
qed

lemma moved_postMoves: "moved (postMoves ms d) c = moved d c + delta_of ms c"
proof -
  let ?real = "filter (\<lambda>m. round3 (mv_qty m) \<noteq> 0) ms"
  have "(\<Sum>m\<leftarrow>map (\<lambda>m. m\<lparr>mv_qty := round3 (mv_qty m)\<rparr>) ns. if mv_cell m = c then mv_qty m else 0)
      = delta_of ns c" for ns
    by (induction ns) (auto simp: mv_cell_def)
  then have "moved (postMoves ms d) c = moved d c + delta_of ?real c"
    by (auto simp: postMoves_def moved_def Let_def simp del: map_map)
  then show ?thesis by (simp only: delta_of_real)
qed

text \<open>The one door keeps the books.\<close>

lemma ledger_ok_postMoves: "ledger_ok d \<Longrightarrow> ledger_ok (postMoves ms d)"
proof -
  assume ok: "ledger_ok d"
  have "onhand (postMoves ms d) c = moved (postMoves ms d) c" for c
    using ledger_cache [OF ok, of c] onhand_postMoves [OF is3_onhand [OF ok], of ms c]
    by (simp add: moved_postMoves)
  moreover have "\<forall>m \<in> set (db_moves (postMoves ms d)). is3 (mv_qty m) \<and> mv_qty m \<noteq> 0"
    using ok by (auto simp: postMoves_def ledger_ok_def Let_def)
  ultimately show ?thesis by (simp add: ledger_ok_def)
qed

lemma moved_no_moves: "c \<notin> set (map mv_cell (db_moves d)) \<Longrightarrow> moved d c = 0"
  unfolding moved_def by (rule sum_list_zero) auto

text \<open>A rebuild recomputes the sum, whatever the cache said, and drops no row.\<close>

lemma rebuild_exact:
  assumes "\<forall>m \<in> set (db_moves d). is3 (mv_qty m)"
  shows "onhand (rebuildBalances d) c = moved d c"
proof -
  have "is3 (moved d c)" unfolding moved_def using assms by (intro is3_sum_list) auto
  then show ?thesis
    using moved_no_moves [of c d]
    by (cases "db_balances d c") (auto simp: onhand_def rebuildBalances_def)
qed

lemma rebuild_noop: "ledger_ok d \<Longrightarrow> onhand (rebuildBalances d) c = onhand d c"
  using rebuild_exact [of d c] ledger_cache [of d c] by (simp add: ledger_ok_def)

lemma rebuild_keeps_rows: "db_balances d c \<noteq> None \<Longrightarrow> db_balances (rebuildBalances d) c \<noteq> None"
  by (auto simp: rebuildBalances_def)

text \<open>Raw materials and packaging landing at the kitchen net to nothing.\<close>

lemma round3_minus_grid: "is3 v \<Longrightarrow> round3 (- v) = - round3 v"
  by (simp add: is3_minus)

lemma use_on_arrival_delta:
  assumes "\<And>m. m \<in> set ms \<Longrightarrow> is3 (mv_qty m)"
  shows "delta_of (withUseOnArrival types ms) c =
    (\<Sum>m\<leftarrow>ms. if mv_cell m = c \<and> \<not> (\<exists>t. types (mv_it m) = Some t \<and> 0 < mv_qty m \<and> usedOnArrival t (mv_loc m))
             then mv_qty m else 0)"
  using assms
proof (induction ms)
  case (Cons m ms)
  have "is3 (mv_qty m)" using Cons.prems by simp
  moreover have "delta_of (withUseOnArrival types ms) c =
    (\<Sum>m\<leftarrow>ms. if mv_cell m = c \<and> \<not> (\<exists>t. types (mv_it m) = Some t \<and> 0 < mv_qty m \<and> usedOnArrival t (mv_loc m))
             then mv_qty m else 0)" using Cons by simp
  ultimately show ?case
    by (cases "types (mv_it m)") (auto simp: withUseOnArrival_def mv_cell_def round3_minus_grid)
qed (simp add: withUseOnArrival_def)

section \<open>Lemmas: holds\<close>

lemma held_lock [simp]: "held (lockBalances cs d) c = held d c"
  and hold_of_lock [simp]: "hold_of (lockBalances cs d) t c = hold_of d t c"
  and resv_ok_lock [simp]: "resv_ok (lockBalances cs d) = resv_ok d"
  and moved_lock [simp]: "moved (lockBalances cs d) c = moved d c"
  and ledger_ok_lock [simp]: "ledger_ok (lockBalances cs d) = ledger_ok d"
  by (simp_all add: held_def hold_of_def resv_ok_def moved_def ledger_ok_def)

lemma held_postMoves [simp]: "held (postMoves ms d) c = held d c"
  and hold_of_postMoves [simp]: "hold_of (postMoves ms d) t c = hold_of d t c"
  and resv_ok_postMoves [simp]: "resv_ok (postMoves ms d) = resv_ok d"
  by (simp_all add: held_def hold_of_def resv_ok_def)

lemma reserve_ok:
  assumes "reserve rows d = Inr d'"
  shows "(\<forall>r \<in> set rows. 0 < round3 (rv_qty r)) \<and>
    db_resv d' = db_resv d @ map (\<lambda>r. r\<lparr>rv_qty := round3 (rv_qty r), rv_released := None\<rparr>) rows \<and>
    (\<exists>cs. d' = (lockBalances cs d)\<lparr>db_resv := db_resv d'\<rparr>)"
proof (cases "rows = []")
  case True
  then have "d' = d" using assms by (simp add: reserve_def)
  moreover have "lockBalances [] d = d" by (simp add: lockBalances_def)
  ultimately show ?thesis using True by (auto intro: exI [of _ "[]"])
next
  case False
  then show ?thesis using assms by (auto simp: reserve_def Let_def not_le split: if_splits)
qed

lemma held_release:
  assumes "resv_ok d"
  shows "held (snd (releaseForTicket tid at' d)) c = held d c - hold_of d tid c"
proof -
  have "(\<Sum>r\<leftarrow>filter (open_at c) (map (release_row tid at') xs). rv_qty r)
      = (\<Sum>r\<leftarrow>filter (open_at c) xs. rv_qty r) - (\<Sum>r\<leftarrow>filter (\<lambda>r. open_at c r \<and> rv_ticket r = tid) xs. rv_qty r)"
    for xs by (induction xs) (auto simp: release_row_def open_at_def rv_cell_def)
  then show ?thesis by (simp add: releaseForTicket_def held_def hold_of_def)
qed

lemma hold_of_release:
  "hold_of (snd (releaseForTicket tid at' d)) t c = (if t = tid then 0 else hold_of d t c)"
proof -
  have "(\<Sum>r\<leftarrow>filter (\<lambda>r. open_at c r \<and> rv_ticket r = t) (map (release_row tid at') xs). rv_qty r)
      = (if t = tid then 0 else (\<Sum>r\<leftarrow>filter (\<lambda>r. open_at c r \<and> rv_ticket r = t) xs. rv_qty r))"
    for xs by (induction xs) (auto simp: release_row_def open_at_def rv_cell_def)
  then show ?thesis by (simp add: releaseForTicket_def hold_of_def)
qed

lemma release_row_sel [simp]:
  "rv_qty (release_row tid at' r) = rv_qty r" "rv_ticket (release_row tid at' r) = rv_ticket r"
  "rv_cell (release_row tid at' r) = rv_cell r"
  by (simp_all add: release_row_def rv_cell_def)

lemma resv_ok_release: "resv_ok d \<Longrightarrow> resv_ok (snd (releaseForTicket tid at' d))"
  by (auto simp: resv_ok_def releaseForTicket_def)

lemma release_sel [simp]:
  "db_moves (snd (releaseForTicket tid at' d)) = db_moves d"
  "db_balances (snd (releaseForTicket tid at' d)) = db_balances d"
  "db_tickets (snd (releaseForTicket tid at' d)) = db_tickets d"
  "db_requests (snd (releaseForTicket tid at' d)) = db_requests d"
  "db_pords (snd (releaseForTicket tid at' d)) = db_pords d"
  "db_asks (snd (releaseForTicket tid at' d)) = db_asks d"
  "db_seq (snd (releaseForTicket tid at' d)) = db_seq d"
  by (simp_all add: releaseForTicket_def)

lemma no_open_no_hold: "\<not> (\<exists>r \<in> set (db_resv d). open_at c r) \<Longrightarrow> held d c = 0"
  by (auto simp: held_def filter_empty_conv intro!: sum_list_zero)

text \<open>The figure the cover checks read is the shelf less what is held of it.\<close>

lemma freeAt_eq:
  assumes "ledger_ok d" "resv_ok d" "it \<in> set its"
  shows "freeAt d loc its it = onhand d (loc, it) - held d (loc, it)"
proof -
  have "or0 (reservedAt d loc (Some its) (loc, it)) = held d (loc, it)"
    using assms no_open_no_hold [of d "(loc, it)"] is3_held [OF assms(2)]
    by (auto simp: reservedAt_def)
  moreover have "or0 (balancesAt d loc its it) = onhand d (loc, it)"
    using assms(3) by (simp add: balancesAt_def onhand_def)
  ultimately show ?thesis using assms is3_onhand is3_held by (simp add: freeAt_def is3_diff)
qed

end
