(* ===== verification/House.thy ===== *)
theory House
  imports Ledger Dates
begin

text \<open>
  The rest of the database, around the tables that move stock: \<open>apps/api/src/db/schema\<close> \<open>sales.ts\<close>
  (bills, register sessions, shifts, settlements), \<open>adjustments.ts\<close>, \<open>buying.ts\<close> (requisitions, purchase
  orders, goods receipts), the payers, rate card and price lists of \<open>master.ts\<close>, and the tables of
  \<open>qr.ts\<close>. A \<open>house\<close> is the whole hospital: the record \<open>db\<close> of the stock tables is one of
  its fields, and a service that never leaves those tables is lifted through it.

  Child tables keep their lines inside the row of their document, in \<open>line_no\<close> order. A pair of
  columns that is set together (\<open>voided_at, voided_by, void_reason\<close>) is one optional field.
\<close>

section \<open>Sales (\<open>sales.ts\<close>)\<close>

datatype billSource = TillSale | QrSale

record voidMark =
  vm_at :: instant
  vm_by :: string
  vm_reason :: string

record payerRef =
  pr_kind :: payerKind
  pr_id :: string
  pr_name :: string

record billRow =
  bi_loc :: key
  bi_operator :: string
  bi_total :: number
  bi_tax :: number
  bi_at :: instant
  bi_tender :: tender
  bi_session :: "string option"
  bi_payer :: "payerRef option"
  bi_customer :: "string option"
  bi_phone :: "string option"
  bi_pct :: number
  bi_disc :: number
  bi_void :: "voidMark option"
  bi_source :: billSource
  bi_qrOrder :: "string option"
  bi_lines :: "billLine list"

text \<open>How a settlement was paid (\<open>contract/schemas/receivables.ts\<close>).\<close>

datatype settlementMode = Mode_Cash | Mode_UPI | Mode_Card | Mode_Bank | Mode_Payroll

text \<open>What a Z stores. The fields that are zero by definition (\<open>tip\<close>, \<open>parcelCharge\<close>, \<dots>) are left out.\<close>

record registerTotals =
  rt_gross :: number
  rt_discount :: number
  rt_nett :: number
  rt_credit :: number
  rt_voidAmount :: number
  rt_voidBills :: nat
  rt_tenders :: "(tender \<times> number \<times> nat) list"
  rt_collected :: number
  rt_oldBills :: "(settlementMode \<times> number) list"
  rt_oldTotal :: number
  rt_sgst :: number
  rt_cgst :: number
  rt_tax :: number
  rt_count :: nat

record zClose =
  zc_no :: string
  zc_at :: instant
  zc_by :: string
  zc_totals :: registerTotals
  zc_counted :: "number option"
  zc_note :: string

record sessionRow =
  se_loc :: key
  se_openedAt :: instant
  se_openedBy :: string
  se_closed :: "zClose option"

record settlementRow =
  sl_kind :: payerKind
  sl_payer :: string
  sl_name :: string
  sl_amount :: number
  sl_mode :: settlementMode
  sl_note :: string
  sl_at :: instant
  sl_by :: string
  sl_void :: "voidMark option"
  sl_lines :: "(string \<times> number) list"

section \<open>The roster and the rate card (\<open>master.ts\<close>)\<close>

record payerRow =
  py_name :: string
  py_active :: bool

section \<open>Corrections (\<open>adjustments.ts\<close>)\<close>

record adjRow =
  aj_loc :: key
  aj_reason :: adjustReason
  aj_note :: string
  aj_by :: string
  aj_at :: instant
  aj_lines :: "line list"

record adjReqRow =
  ar_loc :: key
  ar_reason :: adjustReason
  ar_note :: string
  ar_by :: string
  ar_at :: instant
  ar_status :: adjReqStatus
  ar_approvedBy :: "string option"
  ar_adjustment :: "string option"
  ar_lines :: "line list"

record wasteRow =
  ws_it :: key
  ws_qty :: number
  ws_reason :: adjustReason
  ws_note :: string
  ws_cost :: number
  ws_value :: number
  ws_by :: string
  ws_at :: instant

section \<open>Buying (\<open>buying.ts\<close>, vendors and rate contracts of \<open>master.ts\<close>)\<close>

record prqLine =
  pn_it :: key
  pn_qty :: number
  pn_appr :: number
  pn_ordered :: number
  pn_short :: "number option"

record prqRow =
  pq_by :: string
  pq_at :: instant
  pq_status :: prqStatus
  pq_note :: string
  pq_approvedBy :: "string option"
  pq_apprNote :: "string option"
  pq_lines :: "prqLine list"

record orderLine =
  ol_it :: key
  ol_qty :: number
  ol_rate :: number
  ol_recv :: number
  ol_rejected :: number
  ol_src :: "claimSrc list"

record orderRow =
  od_vendor :: string
  od_at :: instant
  od_status :: poStatus
  od_eta :: "string option"
  od_needsApproval :: bool
  od_shortNote :: "string option"
  od_receivedAt :: "instant option"
  od_lines :: "orderLine list"

record grnRow =
  gr_po :: string
  gr_line :: nat
  gr_it :: key
  gr_accepted :: number
  gr_rejected :: number
  gr_batch :: string
  gr_mrp :: number
  gr_mfg :: string
  gr_exp :: string
  gr_dc :: string
  gr_invoice :: string
  gr_invDate :: "string option"
  gr_at :: instant
  gr_by :: string

record vendorRow =
  vn_name :: string
  vn_lead :: number
  vn_active :: bool

record contractRow =
  ct_vendor :: string
  ct_it :: key
  ct_rate :: number
  ct_from :: string
  ct_to :: string
  ct_active :: bool

record rateChangeRow =
  rc_contract :: string
  rc_old :: number
  rc_new :: number
  rc_po :: "string option"
  rc_by :: string

section \<open>QR ordering (\<open>qr.ts\<close>)\<close>

datatype refundReason = Rr_Unfulfillable | Rr_Void | Rr_Duplicate

text \<open>A printed code. A token is random text; a regenerated code has a new one.\<close>

record qrCodeRow =
  qc_loc :: key
  qc_label :: string
  qc_mode :: qrMode
  qc_token :: string
  qc_active :: bool
  qc_rotated :: "instant option"

record qrLine =
  qi_it :: key
  qi_qty :: number
  qi_rate :: number

text \<open>\<open>qd_payment\<close> is the payment that was billed, or refunded as unfulfillable; \<open>qd_secret\<close> and \<open>qd_nonce\<close> are
  digests, never the texts a phone holds.\<close>

record qrOrderRow =
  qd_status :: qrOrderStatus
  qd_loc :: key
  qd_total :: number
  qd_payment :: "string option"
  qd_bill :: "string option"
  qd_paidAt :: "instant option"
  qd_code :: string
  qd_label :: string
  qd_mode :: qrMode
  qd_spot :: string
  qd_name :: string
  qd_phone :: string
  qd_tax :: number
  qd_disc :: number
  qd_secret :: string
  qd_nonce :: string
  qd_ip :: string
  qd_rzpOrder :: "string option"
  qd_expires :: instant
  qd_created :: instant
  qd_lines :: "qrLine list"

record refundRow =
  rf_order :: string
  rf_bill :: "string option"
  rf_payment :: string
  rf_amount :: number
  rf_reason :: refundReason
  rf_status :: refundStatus
  rf_attempts :: nat
  rf_next :: instant
  rf_error :: "string option"
  rf_rzp :: "string option"
  rf_processed :: "instant option"

section \<open>The whole\<close>

record house =
  ho_db :: db
  ho_prices :: prices
  ho_bills :: "(string \<times> billRow) list"
  ho_sessions :: "(string \<times> sessionRow) list"
  ho_settlements :: "(string \<times> settlementRow) list"
  ho_payers :: "payerKind \<times> string \<Rightarrow> payerRow option"
  ho_classTerms :: "billParty \<Rightarrow> (number \<times> number option) option"
  ho_payerTerms :: "payerKind \<times> string \<Rightarrow> (number option \<times> number option) option"
  ho_adjs :: "(string \<times> adjRow) list"
  ho_adjReqs :: "(string \<times> adjReqRow) list"
  ho_wastage :: "(string \<times> wasteRow) list"
  ho_prqs :: "(string \<times> prqRow) list"
  ho_orders :: "(string \<times> orderRow) list"
  ho_grns :: "(string \<times> grnRow) list"
  ho_vendors :: "string \<Rightarrow> vendorRow option"
  ho_contracts :: "(string \<times> contractRow) list"
  ho_rateChanges :: "rateChangeRow list"
  ho_qrOrders :: "(string \<times> qrOrderRow) list"
  ho_refunds :: "(string \<times> refundRow) list"
  ho_codes :: "(string \<times> qrCodeRow) list"
  ho_hours :: "key \<Rightarrow> orderHoursDay list"
  ho_paused :: "key \<Rightarrow> bool option"
  ho_webhooks :: "string list"

definition bill_of :: "house \<Rightarrow> string \<Rightarrow> billRow option" where
  "bill_of h i = map_of (ho_bills h) i"

definition session_of :: "house \<Rightarrow> string \<Rightarrow> sessionRow option" where
  "session_of h i = map_of (ho_sessions h) i"

text \<open>A step on the stock tables, and one of them that can refuse.\<close>

definition on_db :: "(db \<Rightarrow> db) \<Rightarrow> house \<Rightarrow> house" where
  "on_db f h = h\<lparr>ho_db := f (ho_db h)\<rparr>"

definition try_db :: "(db \<Rightarrow> error + 'a \<times> db) \<Rightarrow> house \<Rightarrow> error + 'a \<times> house" where
  "try_db f h = bindE (f (ho_db h)) (\<lambda>(a, d). Inr (a, h\<lparr>ho_db := d\<rparr>))"

text \<open>\<open>withTransaction\<close> again, over the whole database: a thrown error rolls everything back.\<close>

definition transact :: "(house \<Rightarrow> error + house) \<Rightarrow> house \<Rightarrow> error option \<times> house" where
  "transact f h = (case f h of Inl e \<Rightarrow> (Some e, h) | Inr h' \<Rightarrow> (None, h'))"

lemma try_db_Inr [simp]: "try_db f h = Inr (a, h') \<longleftrightarrow> (\<exists>d. f (ho_db h) = Inr (a, d) \<and> h' = h\<lparr>ho_db := d\<rparr>)"
  by (auto simp: try_db_def)

lemma transact_ok: "transact f h = (None, h') \<longleftrightarrow> f h = Inr h'"
  by (auto simp: transact_def split: sum.splits)

lemma transact_err: "transact f h = (Some e, h') \<Longrightarrow> h' = h"
  by (auto simp: transact_def split: sum.splits)

lemma keeps_transact: "(\<And>h'. f h = Inr h' \<Longrightarrow> P h') \<Longrightarrow> P h \<Longrightarrow> P (snd (transact f h))"
  by (auto simp: transact_def split: sum.splits)

lemma on_db_sel [simp]: "ho_db (on_db f h) = f (ho_db h)" "ho_bills (on_db f h) = ho_bills h"
  "ho_sessions (on_db f h) = ho_sessions h" "ho_settlements (on_db f h) = ho_settlements h"
  "ho_prqs (on_db f h) = ho_prqs h" "ho_orders (on_db f h) = ho_orders h" "ho_adjReqs (on_db f h) = ho_adjReqs h"
  "ho_classTerms (on_db f h) = ho_classTerms h" "ho_payerTerms (on_db f h) = ho_payerTerms h"
  "ho_payers (on_db f h) = ho_payers h" "ho_prices (on_db f h) = ho_prices h"
  "ho_qrOrders (on_db f h) = ho_qrOrders h" "ho_refunds (on_db f h) = ho_refunds h"
  by (simp_all add: on_db_def)

end
