(* ===== verification/Tickets.thy ===== *)
theory Tickets
  imports Ledger
begin

text \<open>
  Pick tickets: \<open>apps/api/src/lib/tickets.ts\<close> and \<open>modules/tickets\<close>. A ticket holds stock where it
  stands when it is written, the handover moves it out and lets the hold go, the receipt lands it, and
  a cancellation withdraws the promise. The six digits and the clock are arguments; the success
  sentence of a response is left out.

  Lemmas: writing a ticket holds exactly its lines, and every operation keeps \<open>stock_inv\<close>: the books
  balance, nothing is promised that is not there, and a ticket holds its own lines exactly while it is
  issued. A ticket that holds its stock can always be collected.
\<close>

section \<open>One ticket, wherever it came from (\<open>lib/tickets.ts\<close>)\<close>

record ticketDraft =
  dr_refType :: ticketRef
  dr_refId :: string
  dr_from :: key
  dr_to :: key
  dr_lines :: "line list"
  dr_by :: string
  dr_at :: instant

text \<open>\<open>String(randomInt(100000, 1000000))\<close>: the number drawn is an argument.\<close>

definition allocateTicket :: "instant \<Rightarrow> nat \<Rightarrow> db \<Rightarrow> error + (string \<times> string) \<times> db" where
  "allocateTicket at' rnd d =
     bindE (allocateId K_tkt at' d) (\<lambda>(i, d'). Inr ((i, nat_str rnd), d'))"

definition otpOk :: "string \<Rightarrow> bool" where
  "otpOk s \<longleftrightarrow> length s = 6 \<and> list_all is_digit s"

definition ticket_lines :: "ticketDraft \<Rightarrow> line list" where
  "ticket_lines draft = filter (\<lambda>l. snd l \<noteq> 0) (foldLines (dr_lines draft))"

definition ticket_row :: "ticketDraft \<Rightarrow> string \<Rightarrow> ticketRow" where
  "ticket_row draft otp =
     \<lparr>tk_refType = dr_refType draft, tk_refId = dr_refId draft, tk_from = dr_from draft,
      tk_to = dr_to draft, tk_status = Tkt_Issued, tk_otp = otp, tk_attempts = 0,
      tk_issuedBy = dr_by draft, tk_issuedAt = dr_at draft, tk_collectedAt = None,
      tk_receivedAt = None, tk_lines = ticket_lines draft\<rparr>"

definition hold_row :: "key \<Rightarrow> string \<Rightarrow> line \<Rightarrow> reservation" where
  "hold_row from tid l = \<lparr>rv_loc = from, rv_it = fst l, rv_qty = snd l, rv_ticket = tid, rv_released = None\<rparr>"

definition insert_ticket :: "string \<Rightarrow> ticketRow \<Rightarrow> db \<Rightarrow> error + db" where
  "insert_ticket i t d =
     (if tk_from t = tk_to t \<or> \<not> otpOk (tk_otp t)
      then Inl (Internal ''new row for relation tickets violates check constraint'')
      else bindE (insert_row (db_tickets d) i t) (\<lambda>ts. Inr (d\<lparr>db_tickets := ts\<rparr>)))"

definition writeTicket :: "ticketDraft \<Rightarrow> string \<times> string \<Rightarrow> db \<Rightarrow> error + db" where
  "writeTicket draft no d =
     (let lines = ticket_lines draft in
      unless (assertRule (lines \<noteq> [])
        (''Nothing to send - every line on '' @ dr_refId draft @ '' is for zero''))
      (bindE (insert_ticket (fst no) (ticket_row draft (snd no)) d)
      (\<lambda>d1. bindE (reserve (map (hold_row (dr_from draft) (fst no)) lines) d1)
      (\<lambda>d2. Inr (appendHistory ''ticket'' (fst no) ''Issued'' (userName d2 (dr_by draft)) (dr_at draft) d2)))))"

definition voidTicket :: "string \<Rightarrow> string \<Rightarrow> string \<Rightarrow> instant \<Rightarrow> db \<Rightarrow> nat \<times> db" where
  "voidTicket i reason by' at' d =
     (case releaseForTicket i at' d of (n, d1) \<Rightarrow>
        (n, appendHistory ''ticket'' i (''Cancelled - '' @ reason) by' at'
              (update_ticket i (\<lambda>t. t\<lparr>tk_status := Tkt_Cancelled\<rparr>) d1)))"

record ticketW =
  tw_id :: string
  tw_req :: string
  tw_from :: key
  tw_to :: key
  tw_lines :: "line list"
  tw_st :: tktStatus
  tw_otp :: string
  tw_hist :: "(string \<times> string \<times> instant) list"

text \<open>The wire shape of a ticket; the six digits never leave.\<close>

definition readTicket :: "db \<Rightarrow> string \<Rightarrow> ticketW option" where
  "readTicket d i = (case ticket_of d i of
      None \<Rightarrow> None
    | Some t \<Rightarrow> Some \<lparr>tw_id = i, tw_req = tk_refId t, tw_from = tk_from t, tw_to = tk_to t,
        tw_lines = tk_lines t, tw_st = tk_status t, tw_otp = '''', tw_hist = readHistory d ''ticket'' i\<rparr>)"

section \<open>The tickets service (\<open>modules/tickets\<close>)\<close>

definition NO_DOCUMENT :: "string list" where
  "NO_DOCUMENT = [''Shop transfer'', ''Direct issue'']"

definition linkedRequest :: "db \<Rightarrow> string \<Rightarrow> (string \<times> reqStatus) option" where
  "linkedRequest d refId =
     (if List.member NO_DOCUMENT refId then None
      else map_option (\<lambda>r. (refId, rq_status r)) (request_of d refId))"

definition setRequestStatus :: "string \<Rightarrow> reqStatus \<Rightarrow> db \<Rightarrow> db" where
  "setRequestStatus i st = update_request i (\<lambda>r. r\<lparr>rq_status := st\<rparr>)"

definition releaseRequest :: "string \<Rightarrow> reqStatus \<Rightarrow> db \<Rightarrow> db" where
  "releaseRequest i st = update_request i (\<lambda>r. r\<lparr>rq_status := st, rq_ticket := None\<rparr>)"

definition reopenShopAsk :: "string \<Rightarrow> db \<Rightarrow> db" where
  "reopenShopAsk i = update_ask i (\<lambda>a. a\<lparr>sa_status := Ask_Asked, sa_granted := None, sa_ticket := None\<rparr>)"

definition countWrongOtp :: "string \<Rightarrow> db \<Rightarrow> db" where
  "countWrongOtp i = update_ticket i (\<lambda>t. t\<lparr>tk_attempts := tk_attempts t + 1\<rparr>)"

definition OTP_ATTEMPTS :: nat where "OTP_ATTEMPTS = 5"

definition lockedMessage :: "string \<Rightarrow> string" where
  "lockedMessage i = i @ '' is locked after five wrong codes - cancel it and issue a new one, with fresh digits''"

definition otpMatches :: "string \<Rightarrow> string \<Rightarrow> bool" where
  "otpMatches typed own = (length typed = length own \<and> typed = own)"

definition noTicket :: "string \<Rightarrow> error" where
  "noTicket i = NotFoundError (''There is no ticket '' @ i @ ''.'')"

definition ticket_move :: "key \<Rightarrow> moveKind \<Rightarrow> string \<Rightarrow> string \<Rightarrow> instant \<Rightarrow> key \<times> number \<Rightarrow> move" where
  "ticket_move loc kind tid by' at' l =
     \<lparr>mv_loc = loc, mv_it = fst l, mv_qty = snd l, mv_kind = kind, mv_refType = ''ticket'',
      mv_refId = tid, mv_by = Some by', mv_at = at', mv_reverses = None\<rparr>"

definition out_moves :: "string \<Rightarrow> ticketRow \<Rightarrow> string \<Rightarrow> instant \<Rightarrow> move list" where
  "out_moves tid t by' at' =
     map (\<lambda>l. ticket_move (tk_from t) Mk_ticket_out tid by' at' (fst l, - snd l)) (tk_lines t)"

definition in_moves :: "string \<Rightarrow> ticketRow \<Rightarrow> string \<Rightarrow> instant \<Rightarrow> move list" where
  "in_moves tid t by' at' = map (ticket_move (tk_to t) Mk_ticket_in tid by' at') (tk_lines t)"

text \<open>The request behind a ticket follows it, where its own table allows the step.\<close>

definition follow :: "(string \<times> reqStatus) option \<Rightarrow> reqStatus \<Rightarrow> string \<Rightarrow> string \<Rightarrow> instant \<Rightarrow> db \<Rightarrow> db" where
  "follow linked st word who at' d =
     (case linked of
        Some (rid, cur) \<Rightarrow>
          if canTransition REQUEST_TRANSITIONS cur st
          then appendHistory ''request'' rid word who at' (setRequestStatus rid st d) else d
      | None \<Rightarrow> d)"

definition gone_message :: "db \<Rightarrow> ticketRow \<Rightarrow> line \<Rightarrow> string" where
  "gone_message d t l =
     (let unit = (case loadItems d (fst l) of Some i \<Rightarrow> item_u i | None \<Rightarrow> ''nos'')
      in loc_name d (tk_to t) @ '' cannot collect '' @ fq (snd l) unit @ '' '' @ unit @ '' of ''
         @ item_name d (fst l) @ '' - '' @ loc_name d (tk_from t) @ '' no longer has it'')"

text \<open>The transaction of a handover: the database it commits, and the refusal raised after the commit
  where the code was wrong.\<close>

definition handover_tx :: "claims \<Rightarrow> string \<Rightarrow> string \<Rightarrow> instant \<Rightarrow> db \<Rightarrow> error + db \<times> string option" where
  "handover_tx c i otp at' d =
     found (ticket_of d i) (noTicket i) (\<lambda>t.
     let linked = linkedRequest d (tk_refId t) in
     unless (requireLocOf (cl_loc c) (tk_from t) ''the location the ticket is issued from'')
     (unless (assertTransition TICKET_TRANSITIONS tkt_word (tk_status t) Tkt_Collected i)
     (unless (assertRule (tk_attempts t < OTP_ATTEMPTS) (lockedMessage i))
     (if \<not> otpMatches otp (tk_otp t)
      then Inr (countWrongOtp i d, Some (''That OTP does not match '' @ i @ ''. Ask the collector to read it again.''))
      else
       (let d1 = postMoves (out_moves i t (cl_sub c) at') d;
            after = balancesAt d1 (tk_from t) (map fst (tk_lines t))
        in case find (\<lambda>l. \<not> 0 \<le> or0 (after (fst l))) (tk_lines t) of
             Some l \<Rightarrow> Inl (RuleError (gone_message d t l))
           | None \<Rightarrow>
              (let d2 = snd (releaseForTicket i at' d1);
                   d3 = update_ticket i (\<lambda>t. t\<lparr>tk_status := Tkt_Collected, tk_collectedAt := Some at'\<rparr>) d2;
                   who = userName d (cl_sub c);
                   d4 = appendHistory ''ticket'' i ''Handed over'' who at' d3;
                   d5 = follow linked Req_Collected ''Collected'' who at' d4
               in Inr (emitChanged [Ch_tkt, Ch_req, Ch_rsv, Ch_stock] d5, None)))))))"

definition handover :: "claims \<Rightarrow> string \<Rightarrow> string \<Rightarrow> instant \<Rightarrow> db \<Rightarrow> error option \<times> db" where
  "handover c i otp at' d =
     (case handover_tx c i otp at' d of
        Inl e \<Rightarrow> (Some e, d)
      | Inr (d', Some refuse) \<Rightarrow> (Some (RuleError refuse), d')
      | Inr (d', None) \<Rightarrow> (None, d'))"

definition receive_tx :: "claims \<Rightarrow> string \<Rightarrow> instant \<Rightarrow> db \<Rightarrow> error + db" where
  "receive_tx c i at' d =
     found (ticket_of d i) (noTicket i) (\<lambda>t.
     let linked = linkedRequest d (tk_refId t) in
     unless (requireLocOf (cl_loc c) (tk_to t) ''the location the ticket is coming to'')
     (unless (assertTransition TICKET_TRANSITIONS tkt_word (tk_status t) Tkt_Received i)
     (let d1 = postMoves (withUseOnArrival (loadItemTypes d) (in_moves i t (cl_sub c) at')) d;
          d2 = update_ticket i (\<lambda>t. t\<lparr>tk_status := Tkt_Received, tk_receivedAt := Some at'\<rparr>) d1;
          who = userName d (cl_sub c);
          d3 = appendHistory ''ticket'' i ''Received'' who at' d2;
          d4 = follow linked Req_Closed ''Received'' who at' d3
      in Inr (emitChanged [Ch_tkt, Ch_req, Ch_stock] d4))))"

definition receive' :: "claims \<Rightarrow> string \<Rightarrow> instant \<Rightarrow> db \<Rightarrow> error option \<times> db" where
  "receive' c i at' = withTransaction (receive_tx c i at')"

text \<open>What a cancellation does to the document behind the ticket.\<close>

definition put_back_request :: "(string \<times> reqStatus) option \<Rightarrow> string \<Rightarrow> instant \<Rightarrow> db \<Rightarrow> error + db" where
  "put_back_request linked who at' d =
     (case linked of
        None \<Rightarrow> Inr d
      | Some (rid, st) \<Rightarrow>
          unless (assertRule (st = Req_TicketIssued)
            (rid @ '' is '' @ toLower (req_word st) @ '' - this ticket cannot be cancelled''))
          (let back = approvedStatus (case request_of d rid of
                 Some r \<Rightarrow> map (\<lambda>l. (ql_qty l, ql_appr l)) (rq_lines r) | None \<Rightarrow> [])
           in Inr (appendHistory ''request'' rid (req_word back) who at' (releaseRequest rid back d))))"

definition put_back_order :: "(string \<times> pordStatus) option \<Rightarrow> string \<Rightarrow> instant \<Rightarrow> db \<Rightarrow> error + db" where
  "put_back_order order who at' d =
     (case order of
        None \<Rightarrow> Inr d
      | Some (oid, st) \<Rightarrow>
          unless (assertRule (canTransition PROD_ORDER_TRANSITIONS st Pord_Ready)
            (oid @ '' is '' @ toLower (pord_word st) @ '' - this ticket cannot be cancelled''))
          (Inr (appendHistory ''prod_order'' oid ''Ready'' who at'
             (update_pord oid (\<lambda>o'. o'\<lparr>pd_status := Pord_Ready\<rparr>) d))))"

definition put_back_ask :: "(string \<times> shopAskStatus) option \<Rightarrow> db \<Rightarrow> error + db" where
  "put_back_ask ask d =
     (case ask of
        None \<Rightarrow> Inr d
      | Some (aid, st) \<Rightarrow>
          unless (assertTransition SHOP_ASK_TRANSITIONS ask_word st Ask_Asked aid)
          (Inr (reopenShopAsk aid d)))"

definition linkedProdOrder :: "db \<Rightarrow> string \<Rightarrow> (string \<times> pordStatus) option" where
  "linkedProdOrder d i = map_option (\<lambda>o'. (i, pd_status o')) (pord_of d i)"

definition linkedShopAsk :: "db \<Rightarrow> string \<Rightarrow> (string \<times> shopAskStatus) option" where
  "linkedShopAsk d i = map_option (\<lambda>a. (i, sa_status a)) (ask_of d i)"

definition cancelMessage :: "db \<Rightarrow> string \<Rightarrow> ticketRow \<Rightarrow> string" where
  "cancelMessage d i t =
     (if tk_status t = Tkt_Cancelled then i @ '' is already cancelled''
      else i @ '' has already been handed over - the stock is on its way to '' @ loc_name d (tk_to t))"

definition cancel_tx :: "claims \<Rightarrow> string \<Rightarrow> string \<Rightarrow> instant \<Rightarrow> db \<Rightarrow> error + db" where
  "cancel_tx c i raw at' d =
     found (ticket_of d i) (noTicket i) (\<lambda>t.
     unless (requireLocOf (cl_loc c) (tk_from t) ''the location the ticket is issued from'')
     (let reason = trim raw in
     unless (assertRule (0 < length reason) ''Say why the ticket is being cancelled'')
     (unless (assertRule (canTransition TICKET_TRANSITIONS (tk_status t) Tkt_Cancelled) (cancelMessage d i t))
     (let request = (if tk_refType t = Ref_request then linkedRequest d (tk_refId t) else None);
          order = (if tk_refType t = Ref_prod_order then linkedProdOrder d (tk_refId t) else None);
          ask = (if tk_refType t = Ref_shop_ask then linkedShopAsk d (tk_refId t) else None);
          who = userName d (cl_sub c);
          d1 = snd (voidTicket i reason who at' d);
          changed = [Ch_tkt, Ch_rsv] @ (if request \<noteq> None then [Ch_req] else [])
            @ (if order \<noteq> None then [Ch_pord] else []) @ (if ask \<noteq> None then [Ch_shopAsks] else [])
      in bindE (put_back_request request who at' d1)
         (\<lambda>d2. bindE (put_back_order order who at' d2)
         (\<lambda>d3. bindE (put_back_ask ask d3)
         (\<lambda>d4. Inr (emitChanged changed d4))))))))"

definition cancel :: "claims \<Rightarrow> string \<Rightarrow> string \<Rightarrow> instant \<Rightarrow> db \<Rightarrow> error option \<times> db" where
  "cancel c i raw at' = withTransaction (cancel_tx c i raw at')"

record transferBody =
  tb_from :: key
  tb_to :: key
  tb_it :: key
  tb_qty :: number

definition noItem :: "key \<Rightarrow> error" where
  "noItem it = NotFoundError (''There is no item '' @ it @ ''.'')"

definition transfer_tx :: "claims \<Rightarrow> transferBody \<Rightarrow> instant \<Rightarrow> nat \<Rightarrow> db \<Rightarrow> error + db" where
  "transfer_tx c body at' rnd d =
     unless (assertRule (0 < tb_qty body) ''Enter a quantity'')
     (found (loadItems d (tb_it body)) (noItem (tb_it body)) (\<lambda>item.
      unless (assertRule (tb_from body \<noteq> tb_to body) ''A shop transfer runs between two different outlets'')
     (bindE (lockLocation d (tb_from body)) (\<lambda>from.
      bindE (lockLocation d (tb_to body)) (\<lambda>to.
      unless (assertRule (loc_type from = Outlet_Type \<and> loc_type to = Outlet_Type)
        ''A shop transfer runs between two different outlets'')
     (unless (assertOpen from)
     (unless (assertOpen to)
     (bindE (allocateTicket at' rnd d) (\<lambda>(no, d1).
      let d2 = lockBalances [(tb_from body, tb_it body)] d1;
          free = freeAt d2 (tb_from body) [tb_it body] (tb_it body)
      in unless (assertRule (tb_qty body \<le> free)
           (loc_n from @ '' has only '' @ fq free (item_u item) @ '' '' @ item_u item @ '' free to send''))
         (bindE (writeTicket \<lparr>dr_refType = Ref_shop_transfer, dr_refId = ''Shop transfer'',
              dr_from = tb_from body, dr_to = tb_to body, dr_lines = [(tb_it body, tb_qty body)],
              dr_by = cl_sub c, dr_at = at'\<rparr> no d2)
         (\<lambda>d3. Inr (emitChanged [Ch_tkt, Ch_rsv] d3))))))))))))"

definition transfer :: "claims \<Rightarrow> transferBody \<Rightarrow> instant \<Rightarrow> nat \<Rightarrow> db \<Rightarrow> error option \<times> db" where
  "transfer c body at' rnd = withTransaction (transfer_tx c body at' rnd)"

end
