(* ===== verification/Holds.thy ===== *)
theory Holds
  imports Tickets
begin

text \<open>
  What the ticket operations keep: \<open>stock_inv\<close>. The cached balance of every cell is the sum of its
  moves; no cell has more held of it than it has; every hold belongs to a ticket, and a ticket holds
  its own lines at its sending location exactly while it is issued, and nothing otherwise.
\<close>

definition lines_ok :: "line list \<Rightarrow> bool" where
  "lines_ok ls \<longleftrightarrow> ls \<noteq> [] \<and> distinct (map fst ls) \<and> (\<forall>l \<in> set ls. is3 (snd l) \<and> 0 < snd l)"

definition ticket_holds :: "ticketRow \<Rightarrow> cell \<Rightarrow> number" where
  "ticket_holds t c =
     (if tk_status t = Tkt_Issued \<and> fst c = tk_from t then total_of (snd c) (tk_lines t) else 0)"

definition holds_match :: "db \<Rightarrow> string \<Rightarrow> ticketRow \<Rightarrow> bool" where
  "holds_match d i t \<longleftrightarrow> (\<forall>c. hold_of d i c = ticket_holds t c)"

definition tickets_ok :: "db \<Rightarrow> bool" where
  "tickets_ok d \<longleftrightarrow>
     (\<forall>r \<in> set (db_resv d). ticket_of d (rv_ticket r) \<noteq> None) \<and>
     (\<forall>i t. ticket_of d i = Some t \<longrightarrow> lines_ok (tk_lines t) \<and> tk_from t \<noteq> tk_to t \<and> holds_match d i t)"

definition stock_inv :: "db \<Rightarrow> bool" where
  "stock_inv d \<longleftrightarrow> ledger_ok d \<and> resv_ok d \<and> covered d \<and> tickets_ok d"

lemma coveredD: "covered d \<Longrightarrow> held d c \<le> onhand d c"
  unfolding covered_def by blast

lemma coveredI: "(\<And>c. held d c \<le> onhand d c) \<Longrightarrow> covered d"
  unfolding covered_def by blast

lemma holds_matchD: "holds_match d i t \<Longrightarrow> hold_of d i c = ticket_holds t c"
  unfolding holds_match_def by blast

lemma holds_matchI: "(\<And>c. hold_of d i c = ticket_holds t c) \<Longrightarrow> holds_match d i t"
  unfolding holds_match_def by blast

lemma stock_invD:
  assumes "stock_inv d"
  shows "ledger_ok d" "resv_ok d" "covered d" "tickets_ok d"
  using assms by (simp_all add: stock_inv_def)

lemma tickets_okD:
  assumes "tickets_ok d" "ticket_of d i = Some t"
  shows "lines_ok (tk_lines t)" "tk_from t \<noteq> tk_to t" "hold_of d i c = ticket_holds t c"
  using assms holds_matchD unfolding tickets_ok_def by blast+

lemma inv_onhand_nonneg: "stock_inv d \<Longrightarrow> 0 \<le> onhand d c"
  using coveredD [of d c] held_nonneg [of d c] by (auto simp: stock_inv_def)

section \<open>Writes that leave stock alone\<close>

text \<open>The invariant reads four tables; a write to the rest keeps it.\<close>

definition same_stock :: "db \<Rightarrow> db \<Rightarrow> bool" where
  "same_stock d d' \<longleftrightarrow> db_balances d' = db_balances d \<and> db_moves d' = db_moves d
     \<and> db_resv d' = db_resv d \<and> db_tickets d' = db_tickets d"

lemma stock_inv_cong: "same_stock d d' \<Longrightarrow> stock_inv d' = stock_inv d"
  by (simp add: same_stock_def stock_inv_def ledger_ok_def resv_ok_def covered_def tickets_ok_def
      holds_match_def onhand_def moved_def held_def hold_of_def ticket_of_def)

lemma same_stock_read:
  "same_stock d d' \<Longrightarrow> onhand d' = onhand d \<and> held d' = held d \<and> hold_of d' = hold_of d"
  by (simp add: same_stock_def onhand_def held_def hold_of_def fun_eq_iff)

lemma same_stock_trans: "same_stock a b \<Longrightarrow> same_stock b c \<Longrightarrow> same_stock a c"
  by (simp add: same_stock_def)

lemma same_stock_refl [simp]: "same_stock d d"
  by (simp add: same_stock_def)

lemma same_stock_prims [simp]:
  "same_stock a (update_request i f d) = same_stock a d" "same_stock a (update_pord i g d) = same_stock a d"
  "same_stock a (update_ask i h d) = same_stock a d" "same_stock a (appendHistory t b s w at' d) = same_stock a d"
  "same_stock a (emitChanged ch d) = same_stock a d" "same_stock a (setRequestStatus i st d) = same_stock a d"
  "same_stock a (releaseRequest i st d) = same_stock a d" "same_stock a (reopenShopAsk i d) = same_stock a d"
  "same_stock a (follow l st w who at' d) = same_stock a d"
  by (simp_all add: same_stock_def update_request_def update_pord_def update_ask_def appendHistory_def
      emitChanged_def setRequestStatus_def releaseRequest_def reopenShopAsk_def follow_def
      split: option.splits)

lemma inv_prims [simp]:
  "stock_inv (update_request i f d) = stock_inv d" "stock_inv (update_pord i g d) = stock_inv d"
  "stock_inv (update_ask i h d) = stock_inv d" "stock_inv (appendHistory a b s w at' d) = stock_inv d"
  "stock_inv (emitChanged ch d) = stock_inv d" "stock_inv (follow l st w who at' d) = stock_inv d"
  "stock_inv (setRequestStatus i st d) = stock_inv d" "stock_inv (releaseRequest i st d) = stock_inv d"
  "stock_inv (reopenShopAsk i d) = stock_inv d"
  by (rule stock_inv_cong, simp)+

lemma allocateId_ok:
  "allocateId k at' d = Inr (i, d') \<longleftrightarrow>
   (\<exists>n. db_seq d k = Some n \<and> i = formatId k n at' \<and> d' = d\<lparr>db_seq := (db_seq d)(k \<mapsto> n + 1)\<rparr>)"
  by (auto simp: allocateId_def allocateNumber_def split: option.splits)

lemma allocateTicket_ok:
  "allocateTicket at' rnd d = Inr (no, d') \<longleftrightarrow>
   (\<exists>n. db_seq d K_tkt = Some n \<and> no = (formatId K_tkt n at', nat_str rnd)
      \<and> d' = d\<lparr>db_seq := (db_seq d)(K_tkt \<mapsto> n + 1)\<rparr>)"
  by (auto simp: allocateTicket_def allocateId_ok)

lemma inv_seq [simp]: "stock_inv (d\<lparr>db_seq := s\<rparr>) = stock_inv d"
  by (rule stock_inv_cong) (simp add: same_stock_def)

lemma inv_lock [simp]: "stock_inv (lockBalances cs d) = stock_inv d"
  by (simp add: stock_inv_def ledger_ok_def resv_ok_def covered_def tickets_ok_def holds_match_def ticket_of_def)

lemma onhand_seq [simp]: "onhand (d\<lparr>db_seq := s\<rparr>) = onhand d"
  and held_seq [simp]: "held (d\<lparr>db_seq := s\<rparr>) = held d"
  by (simp_all add: onhand_def held_def fun_eq_iff)

section \<open>Writing a ticket\<close>

lemma ticket_lines_ok:
  "ticket_lines draft \<noteq> [] \<Longrightarrow> \<forall>l \<in> set (ticket_lines draft). 0 < snd l \<Longrightarrow> lines_ok (ticket_lines draft)"
proof -
  have "distinct (map fst (filter P (foldLines ls)))" for P ls
    by (rule distinct_map_filter) simp
  moreover have "is3 (snd l)" if "l \<in> set (ticket_lines draft)" for l
    using that is3_get0_foldLines [of "fst l" "snd l"] by (auto simp: ticket_lines_def)
  ultimately show "ticket_lines draft \<noteq> [] \<Longrightarrow> \<forall>l \<in> set (ticket_lines draft). 0 < snd l \<Longrightarrow> ?thesis"
    by (auto simp: lines_ok_def ticket_lines_def)
qed

lemma total_of_ticket_lines: "total_of it (ticket_lines draft) = get0 (foldLines (dr_lines draft)) it"
  by (simp add: ticket_lines_def total_of_distinct)

lemma sum_hold_rows:
  "(\<Sum>r\<leftarrow>filter (open_at (l, it)) (map (hold_row from tid) ls). rv_qty r) = (if l = from then total_of it ls else 0)"
  by (induction ls) (auto simp: hold_row_def open_at_def rv_cell_def)

lemma writeTicket_shape:
  assumes "writeTicket draft no d = Inr d'"
  obtains cs where
    "ticket_of d (fst no) = None" "lines_ok (ticket_lines draft)" "dr_from draft \<noteq> dr_to draft"
    "otpOk (snd no)"
    "db_tickets d' = db_tickets d @ [(fst no, ticket_row draft (snd no))]"
    "db_resv d' = db_resv d @ map (hold_row (dr_from draft) (fst no)) (ticket_lines draft)"
    "db_balances d' = db_balances (lockBalances cs d)" "db_moves d' = db_moves d"
    "db_requests d' = db_requests d" "db_pords d' = db_pords d" "db_asks d' = db_asks d"
    "db_seq d' = db_seq d" "db_items d' = db_items d" "db_locations d' = db_locations d"
    "db_batches d' = db_batches d"
proof -
  let ?ls = "ticket_lines draft" and ?t = "ticket_row draft (snd no)"
  from assms obtain d1 d2 where ne: "?ls \<noteq> []"
    and ins: "insert_ticket (fst no) ?t d = Inr d1"
    and res: "reserve (map (hold_row (dr_from draft) (fst no)) ?ls) d1 = Inr d2"
    and d': "d' = appendHistory ''ticket'' (fst no) ''Issued'' (userName d2 (dr_by draft)) (dr_at draft) d2"
    by (auto simp: writeTicket_def Let_def)
  from ins have d1: "d1 = d\<lparr>db_tickets := db_tickets d @ [(fst no, ?t)]\<rparr>" "ticket_of d (fst no) = None"
    "dr_from draft \<noteq> dr_to draft" "otpOk (snd no)"
    by (auto simp: insert_ticket_def ticket_of_def ticket_row_def split: if_splits)
  have is3: "is3 (snd l)" if "l \<in> set ?ls" for l
    using that is3_get0_foldLines [of "fst l" "snd l"] by (auto simp: ticket_lines_def)
  from reserve_ok [OF res] obtain cs where
    pos: "\<forall>r \<in> set (map (hold_row (dr_from draft) (fst no)) ?ls). 0 < round3 (rv_qty r)" and
    rv: "db_resv d2 = db_resv d1 @ map (\<lambda>r. r\<lparr>rv_qty := round3 (rv_qty r), rv_released := None\<rparr>)
           (map (hold_row (dr_from draft) (fst no)) ?ls)" and
    d2: "d2 = (lockBalances cs d1)\<lparr>db_resv := db_resv d2\<rparr>" by auto
  have posl: "\<forall>l \<in> set ?ls. 0 < snd l" using pos is3 by (auto simp: hold_row_def)
  have rows: "map (\<lambda>r. r\<lparr>rv_qty := round3 (rv_qty r), rv_released := None\<rparr>) (map (hold_row (dr_from draft) (fst no)) ?ls)
      = map (hold_row (dr_from draft) (fst no)) ?ls"
    using is3 by (auto simp: hold_row_def)
  have d2s: "db_balances d2 = db_balances (lockBalances cs d1)" "db_moves d2 = db_moves d1"
    "db_tickets d2 = db_tickets d1" "db_requests d2 = db_requests d1" "db_pords d2 = db_pords d1"
    "db_asks d2 = db_asks d1" "db_seq d2 = db_seq d1" "db_items d2 = db_items d1"
    "db_locations d2 = db_locations d1" "db_batches d2 = db_batches d1"
    by (subst d2, simp)+
  have "db_balances d' = db_balances (lockBalances cs d)"
    unfolding d' by (simp add: d2s d1 appendHistory_def lockBalances_def fun_eq_iff)
  moreover have "db_resv d' = db_resv d @ map (hold_row (dr_from draft) (fst no)) ?ls"
    using rv unfolding rows by (simp add: d' d1 appendHistory_def)
  moreover have "db_tickets d' = db_tickets d @ [(fst no, ?t)]" "db_moves d' = db_moves d"
    "db_requests d' = db_requests d" "db_pords d' = db_pords d" "db_asks d' = db_asks d"
    "db_seq d' = db_seq d" "db_items d' = db_items d" "db_locations d' = db_locations d"
    "db_batches d' = db_batches d"
    unfolding d' by (simp_all add: d2s d1 appendHistory_def)
  moreover have "lines_ok ?ls" using ticket_lines_ok [OF ne posl] .
  ultimately show ?thesis using that d1 by blast
qed

text \<open>A ticket whose lines fit in what is free keeps every promise coverable.\<close>

lemma inv_writeTicket:
  assumes inv: "stock_inv d" and w: "writeTicket draft no d = Inr d'"
    and cover: "\<And>it. it \<in> fst ` set (dr_lines draft) \<Longrightarrow>
      get0 (foldLines (dr_lines draft)) it \<le> onhand d (dr_from draft, it) - held d (dr_from draft, it)"
  shows "stock_inv d'"
proof -
  let ?ls = "ticket_lines draft" and ?t = "ticket_row draft (snd no)" and ?i = "fst no"
  obtain cs where s: "ticket_of d ?i = None" "lines_ok ?ls" "dr_from draft \<noteq> dr_to draft"
    "db_tickets d' = db_tickets d @ [(?i, ?t)]"
    "db_resv d' = db_resv d @ map (hold_row (dr_from draft) ?i) ?ls"
    "db_balances d' = db_balances (lockBalances cs d)" "db_moves d' = db_moves d"
    using writeTicket_shape [OF w] by metis
  note I = stock_invD [OF inv]
  have oh: "onhand d' c = onhand d c" for c
    using onhand_lock [of cs d c] by (simp add: onhand_def s)
  have mv: "moved d' c = moved d c" for c by (simp add: moved_def s)
  have new: "(\<Sum>r\<leftarrow>filter (open_at c) (map (hold_row (dr_from draft) ?i) ?ls). rv_qty r)
      = (if fst c = dr_from draft then total_of (snd c) ?ls else 0)" for c
    using sum_hold_rows [of "fst c" "snd c"] by simp
  have hd: "held d' c = held d c + (if fst c = dr_from draft then total_of (snd c) ?ls else 0)" for c
    by (simp add: held_def s new del: filter_map)
  have to: "ticket_of d' j = (if j = ?i then Some ?t else ticket_of d j)" for j
    using map_of_snoc [OF s(1) [unfolded ticket_of_def]] by (simp only: ticket_of_def s(4))
  have no_old: "hold_of d ?i c = 0" for c
  proof -
    have "filter (\<lambda>r. open_at c r \<and> rv_ticket r = ?i) (db_resv d) = []"
      using I(4) s(1) unfolding tickets_ok_def filter_empty_conv by metis
    then show ?thesis by (simp only: hold_of_def) simp
  qed
  have mine: "filter (\<lambda>r. open_at c r \<and> rv_ticket r = j) (map (hold_row (dr_from draft) ?i) ?ls)
      = (if j = ?i then filter (open_at c) (map (hold_row (dr_from draft) ?i) ?ls) else [])" for c j
    by (induction ?ls) (auto simp: hold_row_def filter_map o_def)
  have ho: "hold_of d' j c = (if j = ?i then (if fst c = dr_from draft then total_of (snd c) ?ls else 0)
      else hold_of d j c)" for j c
    using no_old [of c] new [of c] by (simp add: hold_of_def s mine del: filter_map)
  have "ledger_ok d'"
  proof -
    have "onhand d' c = moved d' c" for c using ledger_cache [OF I(1), of c] oh mv by simp
    then show ?thesis using I(1) s(7) unfolding ledger_ok_def by simp
  qed
  moreover have "resv_ok d'"
    using I(2) s(2) by (auto simp: resv_ok_def s(5) lines_ok_def hold_row_def)
  moreover have "covered d'"
  proof (rule coveredI)
    fix c
    have "total_of (snd c) ?ls \<le> onhand d c - held d c" if "fst c = dr_from draft"
    proof (cases "snd c \<in> fst ` set (dr_lines draft)")
      case True
      then show ?thesis using cover [OF True] that total_of_ticket_lines [of "snd c" draft] by (cases c) simp
    next
      case False
      have "fst l \<in> fst ` set (dr_lines draft)" if "l \<in> set ?ls" for l
        using that imageI [of l "set (foldLines (dr_lines draft))" fst]
        unfolding keys_foldLines by (simp add: ticket_lines_def)
      then have "total_of (snd c) ?ls = 0"
        unfolding total_of_def using False by (intro sum_list_zero) auto
      then show ?thesis using coveredD [OF I(3), of c] by simp
    qed
    then show "held d' c \<le> onhand d' c" using coveredD [OF I(3), of c] by (auto simp: hd oh algebra_simps)
  qed
  moreover have "tickets_ok d'"
    unfolding tickets_ok_def
  proof (intro conjI allI impI ballI)
    show "ticket_of d' (rv_ticket r) \<noteq> None" if "r \<in> set (db_resv d')" for r
      using that I(4) by (auto simp: s(5) to hold_row_def tickets_ok_def)
    fix j u assume u: "ticket_of d' j = Some u"
    show "lines_ok (tk_lines u)" "tk_from u \<noteq> tk_to u"
      using u s tickets_okD(1,2) [OF I(4)] by (auto simp: to ticket_row_def split: if_splits)
    show "holds_match d' j u"
    proof (rule holds_matchI)
      fix c show "hold_of d' j c = ticket_holds u c"
        using u tickets_okD(3) [OF I(4), of j u c]
        by (auto simp: to ho ticket_holds_def ticket_row_def split: if_splits)
    qed
  qed
  ultimately show ?thesis by (simp add: stock_inv_def)
qed

section \<open>Handing over, receiving, cancelling\<close>

lemma update_ticket_sel [simp]:
  "db_balances (update_ticket i f d) = db_balances d" "db_moves (update_ticket i f d) = db_moves d"
  "db_resv (update_ticket i f d) = db_resv d" "db_requests (update_ticket i f d) = db_requests d"
  "db_pords (update_ticket i f d) = db_pords d" "db_asks (update_ticket i f d) = db_asks d"
  "db_seq (update_ticket i f d) = db_seq d" "db_locations (update_ticket i f d) = db_locations d"
  by (simp_all add: update_ticket_def)

lemma ticket_of_update: "ticket_of (update_ticket i f d) j = (if j = i then map_option f (ticket_of d i) else ticket_of d j)"
  by (simp add: update_ticket_def ticket_of_def)

lemma read_update_ticket [simp]:
  "onhand (update_ticket i f d) = onhand d" "held (update_ticket i f d) = held d"
  "hold_of (update_ticket i f d) = hold_of d" "moved (update_ticket i f d) = moved d"
  "ledger_ok (update_ticket i f d) = ledger_ok d" "resv_ok (update_ticket i f d) = resv_ok d"
  "covered (update_ticket i f d) = covered d"
  by (simp_all add: onhand_def held_def hold_of_def moved_def ledger_ok_def resv_ok_def covered_def fun_eq_iff)

text \<open>Changing a ticket without touching its lines, ends or what its status holds.\<close>

lemma tickets_ok_update:
  assumes ok: "tickets_ok d"
    and lines: "\<And>t. tk_lines (f t) = tk_lines t" "\<And>t. tk_from (f t) = tk_from t" "\<And>t. tk_to (f t) = tk_to t"
    and hold: "\<And>t c. ticket_of d i = Some t \<Longrightarrow> ticket_holds (f t) c = ticket_holds t c"
  shows "tickets_ok (update_ticket i f d)"
  unfolding tickets_ok_def
proof (intro conjI allI impI ballI)
  show "ticket_of (update_ticket i f d) (rv_ticket r) \<noteq> None" if "r \<in> set (db_resv (update_ticket i f d))" for r
    using that ok by (auto simp: ticket_of_update tickets_ok_def)
  fix j u assume "ticket_of (update_ticket i f d) j = Some u"
  then obtain t where t: "ticket_of d j = Some t" "u = (if j = i then f t else t)"
    by (auto simp: ticket_of_update split: if_splits)
  show "lines_ok (tk_lines u)" "tk_from u \<noteq> tk_to u"
    using tickets_okD(1,2) [OF ok t(1)] t(2) lines by simp_all
  show "holds_match (update_ticket i f d) j u"
    using tickets_okD(3) [OF ok t(1)] t hold by (intro holds_matchI) auto
qed

lemma total_of_minus: "total_of k (map (\<lambda>l. (fst l, - snd l)) ls) = - total_of k ls"
  by (induction ls) auto

lemma out_delta:
  "lines_ok (tk_lines t) \<Longrightarrow> delta_of (out_moves i t b at') c = (if fst c = tk_from t then - total_of (snd c) (tk_lines t) else 0)"
proof -
  have "delta_of (map (\<lambda>l. ticket_move f Mk_ticket_out i b at' (fst l, - snd l)) ls) (x, y)
      = (if x = f then - total_of y ls else 0)" if "\<forall>l \<in> set ls. is3 (snd l)" for ls f x y
    using that by (induction ls) (auto simp: ticket_move_def mv_cell_def round3_minus_grid)
  then show "lines_ok (tk_lines t) \<Longrightarrow> ?thesis" by (cases c) (simp add: out_moves_def lines_ok_def)
qed

lemma in_delta:
  "lines_ok (tk_lines t) \<Longrightarrow> delta_of (in_moves i t b at') c = (if fst c = tk_to t then total_of (snd c) (tk_lines t) else 0)"
proof -
  have "delta_of (map (ticket_move f Mk_ticket_in i b at') ls) (x, y)
      = (if x = f then total_of y ls else 0)" if "\<forall>l \<in> set ls. is3 (snd l)" for ls f x y
    using that by (induction ls) (auto simp: ticket_move_def mv_cell_def)
  then show "lines_ok (tk_lines t) \<Longrightarrow> ?thesis" by (cases c) (simp add: in_moves_def lines_ok_def)
qed

text \<open>What landing a ticket's lines adds: nothing for what the kitchen uses up on arrival.\<close>

definition landed :: "db \<Rightarrow> ticketRow \<Rightarrow> cell \<Rightarrow> number" where
  "landed d t c =
     (if fst c = tk_to t \<and> \<not> (\<exists>ty. loadItemTypes d (snd c) = Some ty \<and> usedOnArrival ty (tk_to t))
      then total_of (snd c) (tk_lines t) else 0)"

lemma use_in_delta:
  assumes "lines_ok (tk_lines t)"
  shows "delta_of (withUseOnArrival (loadItemTypes d) (in_moves i t b at')) c = landed d t c"
proof -
  let ?used = "\<lambda>it f. \<exists>ty. loadItemTypes d it = Some ty \<and> usedOnArrival ty f"
  have ok: "\<forall>l \<in> set (tk_lines t). is3 (snd l) \<and> 0 < snd l" using assms by (simp add: lines_ok_def)
  have "delta_of (withUseOnArrival (loadItemTypes d) (map (ticket_move f Mk_ticket_in i b at') ls)) (x, y)
      = (if x = f \<and> \<not> ?used y f then total_of y ls else 0)"
    if "\<forall>l \<in> set ls. is3 (snd l) \<and> 0 < snd l" for f ls x y
  proof -
    have "delta_of (withUseOnArrival (loadItemTypes d) (map (ticket_move f Mk_ticket_in i b at') ls)) (x, y)
        = (\<Sum>m\<leftarrow>map (ticket_move f Mk_ticket_in i b at') ls. if mv_cell m = (x, y)
             \<and> \<not> (\<exists>ty. loadItemTypes d (mv_it m) = Some ty \<and> 0 < mv_qty m \<and> usedOnArrival ty (mv_loc m))
             then mv_qty m else 0)"
      using that by (intro use_on_arrival_delta) (auto simp: ticket_move_def)
    also have "\<dots> = (\<Sum>l\<leftarrow>ls. if fst l = y then (if x = f \<and> \<not> ?used y f then snd l else 0) else 0)"
      using that by (intro arg_cong [where f = sum_list]) (auto simp: ticket_move_def mv_cell_def)
    also have "\<dots> = (if x = f \<and> \<not> ?used y f then total_of y ls else 0)"
      by (induction ls) auto
    finally show ?thesis .
  qed
  from this [OF ok] show ?thesis by (cases c) (auto simp: in_moves_def landed_def)
qed

lemma total_of_nonneg: "lines_ok ls \<Longrightarrow> 0 \<le> total_of k ls"
  unfolding lines_ok_def total_of_def by (intro sum_list_nonneg) auto

lemma landed_nonneg: "lines_ok (tk_lines t) \<Longrightarrow> 0 \<le> landed d t c"
  by (simp add: landed_def total_of_nonneg)

text \<open>A ticket's stock leaves and its hold goes with it.\<close>

definition hand_out :: "string \<Rightarrow> ticketRow \<Rightarrow> string \<Rightarrow> instant \<Rightarrow> db \<Rightarrow> db" where
  "hand_out i t b at' d =
     update_ticket i (\<lambda>t. t\<lparr>tk_status := Tkt_Collected, tk_collectedAt := Some at'\<rparr>)
       (snd (releaseForTicket i at' (postMoves (out_moves i t b at') d)))"

lemma ticket_of_release [simp]: "ticket_of (snd (releaseForTicket i at' d)) = ticket_of d"
  and ticket_of_postMoves [simp]: "ticket_of (postMoves ms d) = ticket_of d"
  by (simp_all add: ticket_of_def fun_eq_iff)

lemma onhand_release [simp]: "onhand (snd (releaseForTicket i at' d)) = onhand d"
  and moved_release [simp]: "moved (snd (releaseForTicket i at' d)) = moved d"
  and ledger_ok_release [simp]: "ledger_ok (snd (releaseForTicket i at' d)) = ledger_ok d"
  by (simp_all add: onhand_def moved_def ledger_ok_def fun_eq_iff)

lemma onhand_hand_out:
  assumes "stock_inv d" "ticket_of d i = Some t"
  shows "onhand (hand_out i t b at' d) c =
    onhand d c - (if fst c = tk_from t then total_of (snd c) (tk_lines t) else 0)"
  using onhand_postMoves [OF is3_onhand [OF stock_invD(1) [OF assms(1)]], of "out_moves i t b at'" c]
    out_delta [OF tickets_okD(1) [OF stock_invD(4) [OF assms(1)] assms(2)], of i b at' c]
  by (simp add: hand_out_def)

lemma held_hand_out:
  assumes "stock_inv d" "ticket_of d i = Some t"
  shows "held (hand_out i t b at' d) c = held d c - ticket_holds t c"
  using held_release [of "postMoves (out_moves i t b at') d" i at' c] stock_invD [OF assms(1)]
    tickets_okD(3) [OF stock_invD(4) [OF assms(1)] assms(2), of c]
  by (simp add: hand_out_def)

lemma tickets_ok_release:
  assumes ok: "tickets_ok d" and f: "\<And>t. tk_lines (f t) = tk_lines t" "\<And>t. tk_from (f t) = tk_from t"
    "\<And>t. tk_to (f t) = tk_to t" "\<And>t. tk_status (f t) \<noteq> Tkt_Issued"
  shows "tickets_ok (update_ticket i f (snd (releaseForTicket i at' d)))"
  unfolding tickets_ok_def
proof (intro conjI allI impI ballI)
  show "ticket_of (update_ticket i f (snd (releaseForTicket i at' d))) (rv_ticket r) \<noteq> None"
    if r: "r \<in> set (db_resv (update_ticket i f (snd (releaseForTicket i at' d))))" for r
  proof -
    obtain x where "x \<in> set (db_resv d)" "rv_ticket r = rv_ticket x"
      using r by (auto simp: releaseForTicket_def)
    then show ?thesis using ok by (auto simp: ticket_of_update tickets_ok_def)
  qed
  fix j u assume "ticket_of (update_ticket i f (snd (releaseForTicket i at' d))) j = Some u"
  then obtain t where t: "ticket_of d j = Some t" "u = (if j = i then f t else t)"
    by (auto simp: ticket_of_update split: if_splits)
  show "lines_ok (tk_lines u)" "tk_from u \<noteq> tk_to u"
    using tickets_okD(1,2) [OF ok t(1)] t(2) f by simp_all
  show "holds_match (update_ticket i f (snd (releaseForTicket i at' d))) j u"
    using tickets_okD(3) [OF ok t(1)] t f(4) by (intro holds_matchI) (auto simp: hold_of_release ticket_holds_def)
qed

lemma tickets_ok_postMoves [simp]: "tickets_ok (postMoves ms d) = tickets_ok d"
  by (simp add: tickets_ok_def holds_match_def)

lemma inv_hand_out:
  assumes inv: "stock_inv d" and t: "ticket_of d i = Some t" "tk_status t = Tkt_Issued"
  shows "stock_inv (hand_out i t b at' d)"
proof -
  note I = stock_invD [OF inv]
  have "covered (hand_out i t b at' d)"
  proof (rule coveredI)
    fix c show "held (hand_out i t b at' d) c \<le> onhand (hand_out i t b at' d) c"
      using coveredD [OF I(3), of c] t(2) unfolding held_hand_out [OF inv t(1)] onhand_hand_out [OF inv t(1)]
      by (simp add: ticket_holds_def)
  qed
  then show ?thesis
    using I by (simp add: stock_inv_def hand_out_def ledger_ok_postMoves resv_ok_release tickets_ok_release)
qed

lemma inv_receive:
  assumes inv: "stock_inv d" and t: "ticket_of d i = Some t" "tk_status t = Tkt_Collected"
  shows "stock_inv (update_ticket i (\<lambda>t. t\<lparr>tk_status := Tkt_Received, tk_receivedAt := r\<rparr>)
     (postMoves (withUseOnArrival (loadItemTypes d) (in_moves i t b at')) d))" (is "stock_inv (?u ?p)")
proof -
  note I = stock_invD [OF inv]
  have "covered ?p"
  proof (rule coveredI)
    fix c show "held ?p c \<le> onhand ?p c"
      using coveredD [OF I(3), of c] onhand_postMoves [OF is3_onhand [OF I(1)], of _ c]
        use_in_delta [OF tickets_okD(1) [OF I(4) t(1)], of d i b at' c]
        landed_nonneg [OF tickets_okD(1) [OF I(4) t(1)], of d c]
      by simp
  qed
  moreover have "tickets_ok (?u ?p)"
    using I(4) t by (intro tickets_ok_update) (auto simp: ticket_holds_def)
  ultimately show ?thesis using I by (simp add: stock_inv_def ledger_ok_postMoves)
qed

lemma inv_void:
  assumes inv: "stock_inv d"
  shows "stock_inv (snd (voidTicket i reason b at' d))"
proof -
  note I = stock_invD [OF inv]
  let ?d = "update_ticket i (\<lambda>t. t\<lparr>tk_status := Tkt_Cancelled\<rparr>) (snd (releaseForTicket i at' d))"
  have "covered ?d"
  proof (rule coveredI)
    fix c
    have "0 \<le> hold_of d i c" unfolding hold_of_def using I(2)
      by (intro sum_list_nonneg) (auto simp: resv_ok_def less_imp_le)
    then show "held ?d c \<le> onhand ?d c"
      using coveredD [OF I(3), of c] held_release [OF I(2), of i at' c] by simp
  qed
  then have "stock_inv ?d"
    using I by (simp add: stock_inv_def resv_ok_release tickets_ok_release)
  then show ?thesis by (simp add: voidTicket_def split_beta)
qed

lemma inv_count: "stock_inv d \<Longrightarrow> stock_inv (countWrongOtp i d)"
proof -
  assume inv: "stock_inv d"
  have "tickets_ok (countWrongOtp i d)" unfolding countWrongOtp_def
    by (rule tickets_ok_update) (use stock_invD(4) [OF inv] in \<open>auto simp: ticket_holds_def\<close>)
  then show ?thesis using inv by (simp add: stock_inv_def countWrongOtp_def)
qed

section \<open>The operations\<close>

lemma requireLocOf_None [simp]: "requireLocOf a b w = None \<longleftrightarrow> a = b"
  by (simp add: requireLocOf_def)

lemma handover_tx_shape:
  assumes "handover_tx c i otp at' d = Inr (d', r)"
  obtains t where "ticket_of d i = Some t" "cl_loc c = tk_from t" "tk_status t = Tkt_Issued"
    "tk_attempts t < OTP_ATTEMPTS"
    "otp \<noteq> tk_otp t \<and> d' = countWrongOtp i d \<and> r \<noteq> None \<or>
     otp = tk_otp t \<and> r = None \<and>
     d' = emitChanged [Ch_tkt, Ch_req, Ch_rsv, Ch_stock]
       (follow (linkedRequest d (tk_refId t)) Req_Collected ''Collected'' (userName d (cl_sub c)) at'
         (appendHistory ''ticket'' i ''Handed over'' (userName d (cl_sub c)) at'
           (hand_out i t (cl_sub c) at' d)))"
proof -
  from assms obtain t where t: "ticket_of d i = Some t" "cl_loc c = tk_from t"
    "canTransition TICKET_TRANSITIONS (tk_status t) Tkt_Collected" "tk_attempts t < OTP_ATTEMPTS"
    by (auto simp: handover_tx_def Let_def)
  from t(3) have "tk_status t = Tkt_Issued" by (cases "tk_status t") auto
  with that [OF t(1,2) this t(4)] assms t(1) show ?thesis
    by (auto simp: handover_tx_def Let_def otpMatches_def hand_out_def split: if_splits option.splits)
qed

lemma inv_handover_tx: "stock_inv d \<Longrightarrow> handover_tx c i otp at' d = Inr (d', r) \<Longrightarrow> stock_inv d'"
  by (erule handover_tx_shape) (auto intro: inv_count inv_hand_out)

lemma inv_handover: "stock_inv d \<Longrightarrow> stock_inv (snd (handover c i otp at' d))"
  by (auto simp: handover_def split: sum.splits option.splits dest: inv_handover_tx)

lemma receive_tx_shape:
  assumes "receive_tx c i at' d = Inr d'"
  obtains t where "ticket_of d i = Some t" "cl_loc c = tk_to t" "tk_status t = Tkt_Collected"
    "d' = emitChanged [Ch_tkt, Ch_req, Ch_stock]
       (follow (linkedRequest d (tk_refId t)) Req_Closed ''Received'' (userName d (cl_sub c)) at'
         (appendHistory ''ticket'' i ''Received'' (userName d (cl_sub c)) at'
           (update_ticket i (\<lambda>t. t\<lparr>tk_status := Tkt_Received, tk_receivedAt := Some at'\<rparr>)
             (postMoves (withUseOnArrival (loadItemTypes d) (in_moves i t (cl_sub c) at')) d))))"
proof -
  from assms obtain t where t: "ticket_of d i = Some t" "cl_loc c = tk_to t"
    "canTransition TICKET_TRANSITIONS (tk_status t) Tkt_Received"
    by (auto simp: receive_tx_def Let_def)
  from t(3) have "tk_status t = Tkt_Collected" by (cases "tk_status t") auto
  with that [OF t(1,2) this] assms t(1) show ?thesis by (auto simp: receive_tx_def Let_def)
qed

lemma inv_receive_tx: "stock_inv d \<Longrightarrow> receive_tx c i at' d = Inr d' \<Longrightarrow> stock_inv d'"
  by (erule receive_tx_shape) (auto intro: inv_receive)

lemma put_back_stock:
  "put_back_request q who at' d = Inr d' \<Longrightarrow> same_stock d d'"
  "put_back_order o' who at' d = Inr d' \<Longrightarrow> same_stock d d'"
  "put_back_ask a d = Inr d' \<Longrightarrow> same_stock d d'"
  unfolding put_back_request_def put_back_order_def put_back_ask_def Let_def
  by (auto split: option.splits)

lemma cancel_tx_shape:
  assumes "cancel_tx c i raw at' d = Inr d'"
  obtains t d2 d3 d4 where "ticket_of d i = Some t" "cl_loc c = tk_from t" "tk_status t = Tkt_Issued"
    "0 < length (trim raw)"
    "put_back_request (if tk_refType t = Ref_request then linkedRequest d (tk_refId t) else None)
       (userName d (cl_sub c)) at' (snd (voidTicket i (trim raw) (userName d (cl_sub c)) at' d)) = Inr d2"
    "put_back_order (if tk_refType t = Ref_prod_order then linkedProdOrder d (tk_refId t) else None)
       (userName d (cl_sub c)) at' d2 = Inr d3"
    "put_back_ask (if tk_refType t = Ref_shop_ask then linkedShopAsk d (tk_refId t) else None) d3 = Inr d4"
    "\<exists>ch. d' = emitChanged ch d4"
proof -
  from assms obtain t where t: "ticket_of d i = Some t" "cl_loc c = tk_from t"
    "canTransition TICKET_TRANSITIONS (tk_status t) Tkt_Cancelled" "0 < length (trim raw)"
    by (auto simp: cancel_tx_def Let_def)
  from t(3) have "tk_status t = Tkt_Issued" by (cases "tk_status t") auto
  with that [OF t(1,2) this t(4)] assms t(1) show ?thesis by (auto simp: cancel_tx_def Let_def)
qed

lemma inv_cancel_tx: "stock_inv d \<Longrightarrow> cancel_tx c i raw at' d = Inr d' \<Longrightarrow> stock_inv d'"
proof (erule cancel_tx_shape)
  fix t d2 d3 d4
  assume "stock_inv d" and
    p: "put_back_request (if tk_refType t = Ref_request then linkedRequest d (tk_refId t) else None)
       (userName d (cl_sub c)) at' (snd (voidTicket i (trim raw) (userName d (cl_sub c)) at' d)) = Inr d2"
    "put_back_order (if tk_refType t = Ref_prod_order then linkedProdOrder d (tk_refId t) else None)
       (userName d (cl_sub c)) at' d2 = Inr d3"
    "put_back_ask (if tk_refType t = Ref_shop_ask then linkedShopAsk d (tk_refId t) else None) d3 = Inr d4"
    and d': "\<exists>ch. d' = emitChanged ch d4"
  then have "stock_inv (snd (voidTicket i (trim raw) (userName d (cl_sub c)) at' d))" by (simp add: inv_void)
  then have "stock_inv d4"
    using p put_back_stock stock_inv_cong by metis
  then show "stock_inv d'" using d' by auto
qed

lemma get0_single: "get0 (foldLines [(it, q)]) it' = (if it' = it then round3 q else 0)"
  by (simp add: get0_foldLines)

lemma round3_le_free:
  assumes "q \<le> free" "is3 free" shows "round3 q \<le> free"
  using r3.round_mono [OF assms(1)] assms(2) by simp

text \<open>The cover check of a one-line ticket.\<close>

lemma single_cover:
  assumes "stock_inv d" and "q \<le> freeAt d loc [it] it"
  shows "round3 q \<le> onhand d (loc, it) - held d (loc, it)"
proof -
  note I = stock_invD [OF assms(1)]
  have f: "freeAt d loc [it] it = onhand d (loc, it) - held d (loc, it)" using I by (intro freeAt_eq) auto
  then have "is3 (freeAt d loc [it] it)" using is3_onhand [OF I(1)] is3_held [OF I(2)] by (simp add: is3_diff)
  then show ?thesis using round3_le_free [OF assms(2)] f by simp
qed

lemma inv_transfer_tx: "stock_inv d \<Longrightarrow> transfer_tx c body at' rnd d = Inr d' \<Longrightarrow> stock_inv d'"
proof -
  assume inv: "stock_inv d" and tx: "transfer_tx c body at' rnd d = Inr d'"
  from tx obtain no d1 d3 draft where a: "allocateTicket at' rnd d = Inr (no, d1)" and
    free: "tb_qty body \<le> freeAt (lockBalances [(tb_from body, tb_it body)] d1) (tb_from body) [tb_it body] (tb_it body)" and
    w: "writeTicket draft no (lockBalances [(tb_from body, tb_it body)] d1) = Inr d3" and
    dr: "dr_from draft = tb_from body" "dr_lines draft = [(tb_it body, tb_qty body)]" and
    d': "d' = emitChanged [Ch_tkt, Ch_rsv] d3"
    by (auto simp: transfer_tx_def Let_def split: prod.splits)
  have inv1: "stock_inv (lockBalances [(tb_from body, tb_it body)] d1)"
    using inv a by (auto simp: allocateTicket_ok)
  have "stock_inv d3"
    by (rule inv_writeTicket [OF inv1 w]) (use single_cover [OF inv1 free] dr in \<open>auto simp: get0_single\<close>)
  then show "stock_inv d'" by (simp add: d')
qed

end
