(* ===== verification/Requests.thy ===== *)
theory Requests
  imports Holds
begin

text \<open>
  Stock requests: \<open>apps/api/src/modules/requests\<close>. An outlet asks the central store, the manager
  decides or redirects the ask to a peer outlet, and the store keeper turns an approval into a ticket.
  Deciding writes quantities and nothing else, issuing writes a hold and nothing else.

  Lemmas: every operation keeps \<open>stock_inv\<close> and \<open>requests_ok\<close>, an approval stays inside the ask, what was
  typed and what the store can still promise.
\<close>

definition noRequest :: "string \<Rightarrow> error" where
  "noRequest i = NotFoundError (''There is no request '' @ i @ ''.'')"

text \<open>\<open>requestsRepo\<close>: what is read and written.\<close>

definition request_lines :: "requestRow \<Rightarrow> (key \<times> number \<times> number) list" where
  "request_lines r = map (\<lambda>l. (ql_it l, ql_qty l, ql_appr l)) (rq_lines r)"

definition asked_lines :: "requestRow \<Rightarrow> line list" where
  "asked_lines r = map (\<lambda>l. (ql_it l, ql_qty l)) (rq_lines r)"

definition insertRequest :: "string \<Rightarrow> requestRow \<Rightarrow> db \<Rightarrow> error + db" where
  "insertRequest i r d = bindE (insert_row (db_requests d) i r) (\<lambda>rs. Inr (d\<lparr>db_requests := rs\<rparr>))"

definition approve_lines :: "(number \<times> number) list \<Rightarrow> reqLine list \<Rightarrow> reqLine list" where
  "approve_lines ds ls = map (\<lambda>(i, l). if i < length ds
     then l\<lparr>ql_appr := fst (ds ! i), ql_short := Some (snd (ds ! i))\<rparr> else l) (enumerate 0 ls)"

definition setLineApprovals :: "string \<Rightarrow> (number \<times> number) list \<Rightarrow> db \<Rightarrow> db" where
  "setLineApprovals i ds = update_request i (\<lambda>r. r\<lparr>rq_lines := approve_lines ds (rq_lines r)\<rparr>)"

definition openRequests :: "db \<Rightarrow> reqShape list" where
  "openRequests d =
     map (\<lambda>h. \<lparr>rs_st = rq_status (snd h), rs_ticket = rq_ticket (snd h), rs_lines = request_lines (snd h)\<rparr>)
       (filter (\<lambda>h. (rq_status (snd h) = Req_ManagerApproved \<or> rq_status (snd h) = Req_PartiallyApproved)
          \<and> rq_ticket (snd h) = None) (db_requests d))"

section \<open>Raising and withdrawing\<close>

record requestBody =
  rb_lines :: "line list"
  rb_note :: string
  rb_urgent :: bool

text \<open>The first line whose item an earlier line already names.\<close>

fun repeated :: "key list \<Rightarrow> line list \<Rightarrow> key option" where
  "repeated seen [] = None"
| "repeated seen (l # ls) = (if List.member seen (fst l) then Some (fst l) else repeated (fst l # seen) ls)"

definition new_request :: "claims \<Rightarrow> requestBody \<Rightarrow> instant \<Rightarrow> requestRow" where
  "new_request c body at' =
     \<lparr>rq_from = cl_loc c, rq_by = cl_sub c, rq_at = at', rq_status = Req_Sent, rq_ticket = None,
      rq_note = rb_note body, rq_urgent = rb_urgent body, rq_approvedBy = None,
      rq_lines = map (\<lambda>l. \<lparr>ql_it = fst l, ql_qty = round3 (snd l), ql_appr = 0, ql_short = None\<rparr>) (rb_lines body)\<rparr>"

definition create_tx :: "claims \<Rightarrow> requestBody \<Rightarrow> instant \<Rightarrow> db \<Rightarrow> error + db" where
  "create_tx c body at' d =
     bindE (lockLocation d (cl_loc c)) (\<lambda>from.
     unless (if loc_type from = Outlet_Type then assertOpen from else None)
     (unless (map_option (\<lambda>l. noItem (fst l)) (find (\<lambda>l. loadItems d (fst l) = None) (rb_lines body)))
     (unless (assertRule (list_all (\<lambda>l. 0 < snd l) (rb_lines body)) ''Add at least one line with a quantity'')
     (unless (map_option (\<lambda>it. RuleError (''Combine the '' @ item_name d it @ '' lines into one''))
        (repeated [] (rb_lines body)))
     (bindE (allocateId K_req at' d) (\<lambda>(i, d1).
      bindE (insertRequest i (new_request c body at') d1) (\<lambda>d2.
      Inr (emitChanged [Ch_req]
        (appendHistory ''request'' i ''Request sent'' (userName d (cl_sub c)) at' d2)))))))))"

definition createRequest :: "claims \<Rightarrow> requestBody \<Rightarrow> instant \<Rightarrow> db \<Rightarrow> error option \<times> db" where
  "createRequest c body at' = withTransaction (create_tx c body at')"

definition was_approved :: "reqStatus \<Rightarrow> bool" where
  "was_approved st \<longleftrightarrow> st = Req_ManagerApproved \<or> st = Req_PartiallyApproved"

definition cancelRequest_tx :: "actor \<Rightarrow> string \<Rightarrow> instant \<Rightarrow> db \<Rightarrow> error + db" where
  "cancelRequest_tx a i now d =
     found (request_of d i) (noRequest i) (\<lambda>r.
     unless (if ac_wide a then None else requireLocOf (ac_loc a) (rq_from r) ''your own counter'')
     (unless (assertRule (rq_status r \<noteq> Req_TicketIssued)
        (i @ '' already has ticket '' @ (case rq_ticket r of Some t \<Rightarrow> t | None \<Rightarrow> ''null'')
         @ '' - cancel the ticket instead''))
     (unless (assertTransition REQUEST_TRANSITIONS req_word (rq_status r) Req_Cancelled i)
     (Inr (emitChanged [Ch_req]
        (appendHistory ''request'' i
           (if was_approved (rq_status r) then ''Cancelled - never issued'' else ''Cancelled'')
           (userName d (ac_sub a)) now (setRequestStatus i Req_Cancelled d)))))))"

definition cancelRequest :: "actor \<Rightarrow> string \<Rightarrow> instant \<Rightarrow> db \<Rightarrow> error option \<times> db" where
  "cancelRequest a i now = withTransaction (cancelRequest_tx a i now)"

section \<open>Deciding\<close>

text \<open>What the store may still promise of an item: on hand, less holds, less other approvals.\<close>

definition freeFor :: "db \<Rightarrow> key list \<Rightarrow> key \<Rightarrow> nat \<Rightarrow> number" where
  "freeFor d keys it i =
     round3 (or0 (balancesAt d STORE keys it) - or0 (reservedAt d STORE (Some keys) (STORE, it))
       - committed (openRequests d) it)"

definition approvalOf :: "db \<Rightarrow> requestRow \<Rightarrow> number list \<Rightarrow> approvalPlan" where
  "approvalOf d r appr =
     planApproval (asked_lines r) (map Finite appr) (freeFor d (map fst (asked_lines r)))"

definition approve_tx :: "claims \<Rightarrow> string \<Rightarrow> number list \<Rightarrow> string \<Rightarrow> instant \<Rightarrow> db \<Rightarrow> error + db" where
  "approve_tx c i appr note now d =
     found (request_of d i) (noRequest i) (\<lambda>r.
     unless (assertRule (length appr = length (rq_lines r))
       (''Give a quantity for each of the '' @ nat_str (length (rq_lines r)) @ '' lines''))
     (let plan = approvalOf d r appr in
      unless (assertTransition REQUEST_TRANSITIONS req_word (rq_status r) (ap_st plan) i)
      (let d1 = setLineApprovals i (map (\<lambda>l. (al_appr l, al_short l)) (ap_lines plan)) d;
           d2 = update_request i (\<lambda>r. r\<lparr>rq_status := ap_st plan, rq_note := note,
                  rq_approvedBy := Some (cl_sub c)\<rparr>) d1
       in Inr (emitChanged [Ch_req]
            (appendHistory ''request'' i (req_word (ap_st plan)) (userName d (cl_sub c)) now d2)))))"

definition approveRequest :: "claims \<Rightarrow> string \<Rightarrow> number list \<Rightarrow> string \<Rightarrow> instant \<Rightarrow> db \<Rightarrow> error option \<times> db" where
  "approveRequest c i appr note now = withTransaction (approve_tx c i appr note now)"

definition reject_tx :: "claims \<Rightarrow> string \<Rightarrow> string \<Rightarrow> instant \<Rightarrow> db \<Rightarrow> error + db" where
  "reject_tx c i note now d =
     found (request_of d i) (noRequest i) (\<lambda>r.
     unless (assertRule (0 < length (trim note)) ''Give a reason - the counter sees it on the request'')
     (unless (assertTransition REQUEST_TRANSITIONS req_word (rq_status r) Req_Rejected i)
     (Inr (emitChanged [Ch_req]
        (appendHistory ''request'' i ''Rejected'' (userName d (cl_sub c)) now
          (update_request i (\<lambda>r. r\<lparr>rq_status := Req_Rejected, rq_note := note,
             rq_approvedBy := Some (cl_sub c)\<rparr>) d))))))"

definition rejectRequest :: "claims \<Rightarrow> string \<Rightarrow> string \<Rightarrow> instant \<Rightarrow> db \<Rightarrow> error option \<times> db" where
  "rejectRequest c i note now = withTransaction (reject_tx c i note now)"

section \<open>Redirecting and issuing\<close>

definition ticket_on_request :: "string \<Rightarrow> string \<Rightarrow> requestRow \<Rightarrow> requestRow" where
  "ticket_on_request tid by' r = r\<lparr>rq_status := Req_TicketIssued, rq_ticket := Some tid, rq_approvedBy := Some by'\<rparr>"

definition short_lines :: "db \<Rightarrow> key \<Rightarrow> line list \<Rightarrow> line list" where
  "short_lines d loc ls = filter (\<lambda>l. freeAt d loc (map fst ls) (fst l) < snd l) ls"

definition redirect_tx ::
    "(string \<Rightarrow> string \<Rightarrow> bool) \<Rightarrow> claims \<Rightarrow> string \<Rightarrow> key \<Rightarrow> instant \<Rightarrow> nat \<Rightarrow> db \<Rightarrow> error + db" where
  "redirect_tx coll c i from at' rnd d =
     found (request_of d i) (noRequest i) (\<lambda>r.
     unless (assertRule (rq_status r = Req_Sent)
       (i @ '' has already been decided - redirect only applies before it is approved''))
     (let outlets = outletKeys coll (loadLocations d) True in
      unless (assertRule (List.member outlets (rq_from r))
        (i @ '' was not raised by an outlet - there is no peer shop to redirect it to''))
      (unless (assertRule (from \<noteq> rq_from r) ''Pick a different outlet to redirect from'')
      (unless (assertRule (List.member outlets from) ''A redirect only runs between two outlets'')
      (bindE (allocateTicket at' rnd d) (\<lambda>(no, d1).
       let lines = asked_lines r;
           d2 = lockBalances (map (\<lambda>l. (from, fst l)) lines) d1;
           short = short_lines d2 from lines
       in unless (assertRule (short = [])
            (loc_name d from @ '' has not got enough '' @ join '', '' (map (\<lambda>l. item_name d (fst l)) short)
             @ '' free to cover this request''))
          (bindE (writeTicket \<lparr>dr_refType = Ref_shop_transfer, dr_refId = i, dr_from = from,
               dr_to = rq_from r, dr_lines = lines, dr_by = cl_sub c, dr_at = at'\<rparr> no d2)
          (\<lambda>d3. Inr (emitChanged [Ch_req, Ch_tkt, Ch_rsv]
             (appendHistory ''request'' i (''Redirected to '' @ loc_name d from) (userName d (cl_sub c)) at'
               (update_request i (ticket_on_request (fst no) (cl_sub c))
                 (setLineApprovals i (map (\<lambda>l. (snd l, 0)) lines) d3))))))))))))"

definition redirectRequest ::
    "(string \<Rightarrow> string \<Rightarrow> bool) \<Rightarrow> claims \<Rightarrow> string \<Rightarrow> key \<Rightarrow> instant \<Rightarrow> nat \<Rightarrow> db \<Rightarrow> error option \<times> db" where
  "redirectRequest coll c i from at' rnd = withTransaction (redirect_tx coll c i from at' rnd)"

definition approved_fold :: "requestRow \<Rightarrow> line list" where
  "approved_fold r =
     foldLines (map (\<lambda>l. (ql_it l, ql_appr l)) (filter (\<lambda>l. 0 < ql_appr l) (rq_lines r)))"

definition issue_tx :: "claims \<Rightarrow> string \<Rightarrow> instant \<Rightarrow> nat \<Rightarrow> db \<Rightarrow> error + db" where
  "issue_tx c i at' rnd d =
     found (request_of d i) (noRequest i) (\<lambda>r.
     unless (assertTransition REQUEST_TRANSITIONS req_word (rq_status r) Req_TicketIssued i)
     (unless (assertRule (filter (\<lambda>l. 0 < ql_appr l) (rq_lines r) \<noteq> []) ''Nothing approved on this request'')
     (bindE (allocateTicket at' rnd d) (\<lambda>(no, d1).
      let lines = approved_fold r;
          d2 = lockBalances (map (\<lambda>l. (STORE, fst l)) lines) d1
      in unless (case short_lines d2 STORE lines of
             [] \<Rightarrow> None
           | s # _ \<Rightarrow> Some (RuleError (''Not enough '' @ item_name d (fst s) @ '' available to promise'')))
         (bindE (writeTicket \<lparr>dr_refType = Ref_request, dr_refId = i, dr_from = STORE,
              dr_to = rq_from r, dr_lines = lines, dr_by = cl_sub c, dr_at = at'\<rparr> no d2)
         (\<lambda>d3. Inr (emitChanged [Ch_req, Ch_tkt, Ch_rsv]
            (appendHistory ''request'' i ''Ticket issued'' (userName d (cl_sub c)) at'
              (update_request i (\<lambda>r. r\<lparr>rq_status := Req_TicketIssued, rq_ticket := Some (fst no)\<rparr>) d3)))))))))"

definition issueTicket :: "claims \<Rightarrow> string \<Rightarrow> instant \<Rightarrow> nat \<Rightarrow> db \<Rightarrow> error option \<times> db" where
  "issueTicket c i at' rnd = withTransaction (issue_tx c i at' rnd)"

section \<open>Requests as the database keeps them\<close>

text \<open>An item is on a request once, for a figure of the ledger.\<close>

definition request_ok :: "requestRow \<Rightarrow> bool" where
  "request_ok r \<longleftrightarrow> distinct (map ql_it (rq_lines r)) \<and> (\<forall>l \<in> set (rq_lines r). is3 (ql_qty l))"

definition requests_ok :: "db \<Rightarrow> bool" where
  "requests_ok d \<longleftrightarrow> (\<forall>i r. request_of d i = Some r \<longrightarrow> request_ok r)"

lemma requests_ok_cong: "db_requests d' = db_requests d \<Longrightarrow> requests_ok d' = requests_ok d"
  by (simp add: requests_ok_def request_of_def)

lemma request_of_update:
  "request_of (update_request i f d) j = (if j = i then map_option f (request_of d i) else request_of d j)"
  by (simp add: update_request_def request_of_def)

lemma requests_ok_update:
  "requests_ok d \<Longrightarrow> (\<And>r. request_ok r \<Longrightarrow> request_ok (f r)) \<Longrightarrow> requests_ok (update_request i f d)"
  by (auto simp: requests_ok_def request_of_update split: if_splits)

lemma request_ok_fields [simp]:
  "request_ok (r\<lparr>rq_status := st\<rparr>) = request_ok r" "request_ok (r\<lparr>rq_ticket := t\<rparr>) = request_ok r"
  "request_ok (r\<lparr>rq_note := n\<rparr>) = request_ok r" "request_ok (r\<lparr>rq_approvedBy := a\<rparr>) = request_ok r"
  "request_ok (ticket_on_request tid b r) = request_ok r"
  by (simp_all add: request_ok_def ticket_on_request_def)

lemma approve_lines_sel [simp]:
  "map ql_it (approve_lines ds ls) = map ql_it ls" "map ql_qty (approve_lines ds ls) = map ql_qty ls"
  by (auto simp: approve_lines_def map_eq_conv nth_enumerate_eq intro!: nth_equalityI)

lemma request_ok_approve: "request_ok r \<Longrightarrow> request_ok (r\<lparr>rq_lines := approve_lines ds (rq_lines r)\<rparr>)"
proof -
  assume "request_ok r"
  moreover have "ql_qty ` set (approve_lines ds (rq_lines r)) = ql_qty ` set (rq_lines r)"
    by (metis approve_lines_sel(2) list.set_map)
  ultimately show ?thesis unfolding request_ok_def by (auto simp: image_iff) (metis imageE imageI)
qed

lemma requests_ok_prims [simp]:
  "requests_ok (appendHistory a b s w at' d) = requests_ok d" "requests_ok (emitChanged ch d) = requests_ok d"
  "requests_ok (update_ticket i f d) = requests_ok d" "requests_ok (update_pord i g d) = requests_ok d"
  "requests_ok (update_ask i h d) = requests_ok d" "requests_ok (postMoves ms d) = requests_ok d"
  "requests_ok (snd (releaseForTicket i at' d)) = requests_ok d" "requests_ok (lockBalances cs d) = requests_ok d"
  "requests_ok (d\<lparr>db_seq := sq\<rparr>) = requests_ok d"
  by (rule requests_ok_cong, simp add: appendHistory_def emitChanged_def update_pord_def update_ask_def)+

lemma requests_ok_status: "requests_ok d \<Longrightarrow> requests_ok (setRequestStatus i st d)"
  unfolding setRequestStatus_def by (erule requests_ok_update) simp

lemma repeated_None: "repeated seen ls = None \<Longrightarrow> distinct (map fst ls) \<and> fst ` set ls \<inter> set seen = {}"
  by (induction seen ls rule: repeated.induct) (auto split: if_splits)

text \<open>A list of lines that names each item once and fits in what is free keeps every promise coverable.\<close>

lemma cover_lines:
  assumes inv: "stock_inv d" and ls: "distinct (map fst ls)" "\<forall>l \<in> set ls. is3 (snd l)"
    and fits: "short_lines d loc ls = []" and it: "it \<in> fst ` set ls"
  shows "get0 (foldLines ls) it \<le> onhand d (loc, it) - held d (loc, it)"
proof -
  obtain l where l: "l \<in> set ls" "it = fst l" using it by auto
  have "get0 (foldLines ls) it = snd l"
    using get0_foldLines_grid [of ls it] total_of_distinct [OF ls(1), of it] get0_mem [OF ls(1), of it "snd l"] l ls(2)
    by simp
  moreover have "snd l \<le> freeAt d loc (map fst ls) it"
    using fits l by (auto simp: short_lines_def filter_empty_conv not_less)
  moreover have "freeAt d loc (map fst ls) it = onhand d (loc, it) - held d (loc, it)"
    using stock_invD [OF inv] it by (intro freeAt_eq) auto
  ultimately show ?thesis by simp
qed

lemma foldLines_once: "distinct (map fst (foldLines ls))" "\<forall>l \<in> set (foldLines ls). is3 (snd l)"
  using is3_get0_foldLines by auto

lemma approved_fold_once: "distinct (map fst (approved_fold r))" "\<forall>l \<in> set (approved_fold r). is3 (snd l)"
  unfolding approved_fold_def by (rule foldLines_once)+

lemma no_first [simp]: "(case xs of [] \<Rightarrow> None | x # _ \<Rightarrow> Some (f x)) = None \<longleftrightarrow> xs = []"
  by (cases xs) auto

section \<open>The operations keep the invariants\<close>

definition inv :: "db \<Rightarrow> bool" where
  "inv d \<longleftrightarrow> stock_inv d \<and> requests_ok d"

lemma create_tx_shape:
  assumes "create_tx c body at' d = Inr d'"
  obtains n where "db_seq d K_req = Some n" "request_of d (formatId K_req n at') = None"
    "distinct (map fst (rb_lines body))" "\<forall>l \<in> set (rb_lines body). 0 < snd l"
    "d' = emitChanged [Ch_req] (appendHistory ''request'' (formatId K_req n at') ''Request sent'' (userName d (cl_sub c)) at'
       (d\<lparr>db_seq := (db_seq d)(K_req \<mapsto> n + 1),
          db_requests := db_requests d @ [(formatId K_req n at', new_request c body at')]\<rparr>))"
  using assms repeated_None [of "[]" "rb_lines body"]
  by (auto simp: create_tx_def allocateId_ok insertRequest_def request_of_def list_all_iff)

lemma inv_create_tx: "inv d \<Longrightarrow> create_tx c body at' d = Inr d' \<Longrightarrow> inv d'"
proof (erule create_tx_shape)
  fix n
  let ?i = "formatId K_req n at'"
  let ?d = "d\<lparr>db_seq := (db_seq d)(K_req \<mapsto> n + 1), db_requests := db_requests d @ [(?i, new_request c body at')]\<rparr>"
  assume "inv d" and none: "request_of d ?i = None" and dist: "distinct (map fst (rb_lines body))"
    and d': "d' = emitChanged [Ch_req] (appendHistory ''request'' ?i ''Request sent'' (userName d (cl_sub c)) at' ?d)"
  have "request_ok (new_request c body at')"
    using dist by (auto simp: request_ok_def new_request_def o_def)
  moreover have "request_of ?d j = (if j = ?i then Some (new_request c body at') else request_of d j)" for j
    using map_of_snoc [OF none [unfolded request_of_def]] by (simp add: request_of_def)
  ultimately have "requests_ok ?d" using \<open>inv d\<close> by (auto simp: requests_ok_def inv_def split: if_splits)
  moreover have "stock_inv ?d" using \<open>inv d\<close> stock_inv_cong [of d ?d] by (simp add: inv_def same_stock_def)
  ultimately show "inv d'" by (simp add: inv_def d')
qed

lemma inv_cancelRequest_tx: "inv d \<Longrightarrow> cancelRequest_tx a i now d = Inr d' \<Longrightarrow> inv d'"
  by (auto simp: cancelRequest_tx_def inv_def intro: requests_ok_status)

lemma inv_setLineApprovals: "inv d \<Longrightarrow> inv (setLineApprovals i ds d)"
  by (auto simp: inv_def setLineApprovals_def intro: requests_ok_update request_ok_approve)

lemma inv_update_request: "inv d \<Longrightarrow> (\<And>r. request_ok r \<Longrightarrow> request_ok (f r)) \<Longrightarrow> inv (update_request i f d)"
  by (simp add: inv_def requests_ok_update)

lemma inv_notes [simp]: "inv (emitChanged ch d) = inv d" "inv (appendHistory a b s w at' d) = inv d"
  by (simp_all add: inv_def)

lemma inv_approve_tx: "inv d \<Longrightarrow> approve_tx c i appr note now d = Inr d' \<Longrightarrow> inv d'"
  by (auto simp: approve_tx_def Let_def intro!: inv_update_request inv_setLineApprovals)

lemma inv_reject_tx: "inv d \<Longrightarrow> reject_tx c i note now d = Inr d' \<Longrightarrow> inv d'"
  by (auto simp: reject_tx_def intro!: inv_update_request)

lemma requests_ok_writeTicket: "writeTicket draft no d = Inr d' \<Longrightarrow> requests_ok d' = requests_ok d"
  by (erule writeTicket_shape) (rule requests_ok_cong)

lemma redirect_tx_shape:
  assumes "redirect_tx coll c i from at' rnd d = Inr d'"
  obtains r n d3 where "request_of d i = Some r" "rq_status r = Req_Sent" "from \<noteq> rq_from r"
    "db_seq d K_tkt = Some n"
    "short_lines (lockBalances (map (\<lambda>l. (from, fst l)) (asked_lines r)) (d\<lparr>db_seq := (db_seq d)(K_tkt \<mapsto> n + 1)\<rparr>)) from (asked_lines r) = []"
    "writeTicket \<lparr>dr_refType = Ref_shop_transfer, dr_refId = i, dr_from = from, dr_to = rq_from r,
       dr_lines = asked_lines r, dr_by = cl_sub c, dr_at = at'\<rparr> (formatId K_tkt n at', nat_str rnd)
       (lockBalances (map (\<lambda>l. (from, fst l)) (asked_lines r)) (d\<lparr>db_seq := (db_seq d)(K_tkt \<mapsto> n + 1)\<rparr>)) = Inr d3"
    "d' = emitChanged [Ch_req, Ch_tkt, Ch_rsv]
       (appendHistory ''request'' i (''Redirected to '' @ loc_name d from) (userName d (cl_sub c)) at'
         (update_request i (ticket_on_request (formatId K_tkt n at') (cl_sub c))
           (setLineApprovals i (map (\<lambda>l. (snd l, 0)) (asked_lines r)) d3)))"
  using assms unfolding redirect_tx_def Let_def
  by (auto simp: allocateTicket_ok)

lemma inv_redirect_tx: "inv d \<Longrightarrow> redirect_tx coll c i from at' rnd d = Inr d' \<Longrightarrow> inv d'"
proof (erule redirect_tx_shape)
  fix r n d3
  let ?d2 = "lockBalances (map (\<lambda>l. (from, fst l)) (asked_lines r)) (d\<lparr>db_seq := (db_seq d)(K_tkt \<mapsto> n + 1)\<rparr>)"
  let ?no = "(formatId K_tkt n at', nat_str rnd)"
  let ?dr = "\<lparr>dr_refType = Ref_shop_transfer, dr_refId = i, dr_from = from, dr_to = rq_from r,
       dr_lines = asked_lines r, dr_by = cl_sub c, dr_at = at'\<rparr>"
  assume d: "inv d" and r: "request_of d i = Some r" and short: "short_lines ?d2 from (asked_lines r) = []"
    and w: "writeTicket ?dr ?no ?d2 = Inr d3"
    and d': "d' = emitChanged [Ch_req, Ch_tkt, Ch_rsv]
       (appendHistory ''request'' i (''Redirected to '' @ loc_name d from) (userName d (cl_sub c)) at'
         (update_request i (ticket_on_request (formatId K_tkt n at') (cl_sub c))
           (setLineApprovals i (map (\<lambda>l. (snd l, 0)) (asked_lines r)) d3)))"
  have inv2: "stock_inv ?d2" using d by (simp add: inv_def)
  have "request_ok r" using d r by (auto simp: inv_def requests_ok_def)
  then have ls: "distinct (map fst (asked_lines r))" "\<forall>l \<in> set (asked_lines r). is3 (snd l)"
    by (auto simp: request_ok_def asked_lines_def o_def)
  have "stock_inv d3"
    by (rule inv_writeTicket [OF inv2 w]) (use cover_lines [OF inv2 ls short] in simp)
  moreover have "requests_ok d3" using d requests_ok_writeTicket [OF w] by (simp add: inv_def)
  ultimately have "inv d3" by (simp add: inv_def)
  then show "inv d'" unfolding d' by (simp add: inv_update_request inv_setLineApprovals)
qed

lemma issue_tx_shape:
  assumes "issue_tx c i at' rnd d = Inr d'"
  obtains r n d3 where "request_of d i = Some r"
    "rq_status r = Req_ManagerApproved \<or> rq_status r = Req_PartiallyApproved"
    "db_seq d K_tkt = Some n"
    "short_lines (lockBalances (map (\<lambda>l. (STORE, fst l)) (approved_fold r)) (d\<lparr>db_seq := (db_seq d)(K_tkt \<mapsto> n + 1)\<rparr>)) STORE (approved_fold r) = []"
    "writeTicket \<lparr>dr_refType = Ref_request, dr_refId = i, dr_from = STORE, dr_to = rq_from r,
       dr_lines = approved_fold r, dr_by = cl_sub c, dr_at = at'\<rparr> (formatId K_tkt n at', nat_str rnd)
       (lockBalances (map (\<lambda>l. (STORE, fst l)) (approved_fold r)) (d\<lparr>db_seq := (db_seq d)(K_tkt \<mapsto> n + 1)\<rparr>)) = Inr d3"
    "d' = emitChanged [Ch_req, Ch_tkt, Ch_rsv]
       (appendHistory ''request'' i ''Ticket issued'' (userName d (cl_sub c)) at'
         (update_request i (\<lambda>r. r\<lparr>rq_status := Req_TicketIssued, rq_ticket := Some (formatId K_tkt n at')\<rparr>) d3))"
proof -
  from assms obtain r where r: "request_of d i = Some r"
    "canTransition REQUEST_TRANSITIONS (rq_status r) Req_TicketIssued"
    by (auto simp: issue_tx_def)
  from r(2) have "rq_status r = Req_ManagerApproved \<or> rq_status r = Req_PartiallyApproved"
    by (cases "rq_status r") auto
  with that [OF r(1) this] assms r(1) show ?thesis
    unfolding issue_tx_def Let_def by (auto simp: allocateTicket_ok)
qed

lemma inv_issue_tx: "inv d \<Longrightarrow> issue_tx c i at' rnd d = Inr d' \<Longrightarrow> inv d'"
proof (erule issue_tx_shape)
  fix r n d3
  let ?ls = "approved_fold r"
  let ?d2 = "lockBalances (map (\<lambda>l. (STORE, fst l)) ?ls) (d\<lparr>db_seq := (db_seq d)(K_tkt \<mapsto> n + 1)\<rparr>)"
  let ?dr = "\<lparr>dr_refType = Ref_request, dr_refId = i, dr_from = STORE, dr_to = rq_from r,
       dr_lines = ?ls, dr_by = cl_sub c, dr_at = at'\<rparr>"
  assume d: "inv d" and short: "short_lines ?d2 STORE ?ls = []"
    and w: "writeTicket ?dr (formatId K_tkt n at', nat_str rnd) ?d2 = Inr d3"
    and d': "d' = emitChanged [Ch_req, Ch_tkt, Ch_rsv]
       (appendHistory ''request'' i ''Ticket issued'' (userName d (cl_sub c)) at'
         (update_request i (\<lambda>r. r\<lparr>rq_status := Req_TicketIssued, rq_ticket := Some (formatId K_tkt n at')\<rparr>) d3))"
  have inv2: "stock_inv ?d2" using d by (simp add: inv_def)
  have "stock_inv d3"
    by (rule inv_writeTicket [OF inv2 w])
      (use cover_lines [OF inv2 approved_fold_once short] in simp)
  then have "inv d3" using d requests_ok_writeTicket [OF w] by (simp add: inv_def)
  then show "inv d'" unfolding d' by (simp add: inv_update_request)
qed

text \<open>The ticket operations keep the requests well formed.\<close>

lemma requests_ok_follow: "requests_ok d \<Longrightarrow> requests_ok (follow l st w who at' d)"
  by (auto simp: follow_def intro: requests_ok_status split: option.splits)

lemma inv_handover_req: "inv d \<Longrightarrow> handover_tx c i otp at' d = Inr (d', r) \<Longrightarrow> inv d'"
  using inv_handover_tx [of d c i otp at' d' r]
  by (auto simp: inv_def hand_out_def countWrongOtp_def requests_ok_follow elim!: handover_tx_shape)

lemma inv_receive_req: "inv d \<Longrightarrow> receive_tx c i at' d = Inr d' \<Longrightarrow> inv d'"
  using inv_receive_tx [of d c i at' d'] by (auto simp: inv_def requests_ok_follow elim!: receive_tx_shape)

lemma put_back_requests:
  "put_back_request q who at' d = Inr d' \<Longrightarrow> requests_ok d \<Longrightarrow> requests_ok d'"
  "put_back_order o' who at' d = Inr d' \<Longrightarrow> requests_ok d' = requests_ok d"
  "put_back_ask a d = Inr d' \<Longrightarrow> requests_ok d' = requests_ok d"
  unfolding put_back_request_def put_back_order_def put_back_ask_def Let_def reopenShopAsk_def releaseRequest_def
  by (auto split: option.splits intro!: requests_ok_update)

lemma inv_cancel_req: "inv d \<Longrightarrow> cancel_tx c i raw at' d = Inr d' \<Longrightarrow> inv d'"
proof -
  assume d: "inv d" and tx: "cancel_tx c i raw at' d = Inr d'"
  have "requests_ok d'" using tx
  proof (rule cancel_tx_shape)
    fix t d2 d3 d4
    assume "put_back_request (if tk_refType t = Ref_request then linkedRequest d (tk_refId t) else None)
       (userName d (cl_sub c)) at' (snd (voidTicket i (trim raw) (userName d (cl_sub c)) at' d)) = Inr d2"
    moreover have "requests_ok (snd (voidTicket i (trim raw) (userName d (cl_sub c)) at' d))"
      using d by (simp add: inv_def voidTicket_def split_beta)
    ultimately have "requests_ok d2" by (rule put_back_requests)
    moreover assume "put_back_order (if tk_refType t = Ref_prod_order then linkedProdOrder d (tk_refId t) else None)
       (userName d (cl_sub c)) at' d2 = Inr d3"
      "put_back_ask (if tk_refType t = Ref_shop_ask then linkedShopAsk d (tk_refId t) else None) d3 = Inr d4"
      "\<exists>ch. d' = emitChanged ch d4"
    ultimately show ?thesis using put_back_requests(2,3) by auto
  qed
  then show ?thesis using d inv_cancel_tx [OF _ tx] by (simp add: inv_def)
qed

lemma inv_transfer_req: "inv d \<Longrightarrow> transfer_tx c body at' rnd d = Inr d' \<Longrightarrow> inv d'"
proof -
  assume d: "inv d" and tx: "transfer_tx c body at' rnd d = Inr d'"
  then have "requests_ok d'"
    by (auto simp: transfer_tx_def Let_def inv_def allocateTicket_ok dest: requests_ok_writeTicket)
  then show ?thesis using d inv_transfer_tx [OF _ tx] by (simp add: inv_def)
qed

end
