(* ===== verification/Production.thy ===== *)
theory Production
  imports Requests
begin

text \<open>
  The Central Kitchen: \<open>apps/api/src/modules/production\<close> and \<open>lib/batches.ts\<close>. Orders are raised, walk
  the board and go out on one ticket, a batch books its yield onto the kitchen's rack, and a tray may be
  pushed out with no order behind it.

  Lemmas: every operation keeps the invariant of \<open>Requests\<close>; the board moves only along its table, and
  a batch books exactly what came good.
\<close>

definition noOrder :: "string \<Rightarrow> error" where
  "noOrder i = NotFoundError (''There is no production order '' @ i @ ''.'')"

definition insertOrder :: "string \<Rightarrow> pordRow \<Rightarrow> db \<Rightarrow> error + db" where
  "insertOrder i r d = bindE (insert_row (db_pords d) i r) (\<lambda>rs. Inr (d\<lparr>db_pords := rs\<rparr>))"

definition menuAt :: "db \<Rightarrow> key \<Rightarrow> key list" where
  "menuAt d loc = db_menu d loc"

section \<open>Raising an order\<close>

record prodOrderBody =
  ob_from :: "key option"
  ob_lines :: "line list"
  ob_need :: "string option"
  ob_note :: string

text \<open>The checks of one line, in order.\<close>

definition order_line_refusal :: "db \<Rightarrow> key \<Rightarrow> string \<Rightarrow> line \<Rightarrow> error option" where
  "order_line_refusal d from fromName l =
     (case loadItems d (fst l) of
        None \<Rightarrow> Some (noItem (fst l))
      | Some item \<Rightarrow>
          if isOnOff (Some item) then Some (RuleError (onOffRefusal (item_n item) ''ordered from the kitchen''))
          else if item_t item = MTO
          then Some (RuleError (item_n item @ '' is made to order at the counter - it is not ordered from the kitchen''))
          else if item_t item \<noteq> FG
          then Some (RuleError (item_n item @ '' is not made in the kitchen - raise a stock request for it instead''))
          else if \<not> List.member (menuAt d from) (fst l)
          then Some (RuleError (item_n item @ '' is not listed at '' @ fromName @ '' - add it to that menu first''))
          else None)"

definition raise_tx :: "claims \<Rightarrow> prodOrderBody \<Rightarrow> instant \<Rightarrow> db \<Rightarrow> error + db" where
  "raise_tx c body at' d =
     found (truthy (ob_from body)) (RuleError ''Choose which outlet this order is for'') (\<lambda>from.
     bindE (lockLocation d from) (\<lambda>outlet.
     unless (assertRule (loc_type outlet = Outlet_Type)
       (loc_n outlet @ '' is not an outlet - a production order is raised for a counter''))
     (unless (assertOpen outlet)
     (let lines = foldLines (ob_lines body) in
      unless (assertRule (list_all (\<lambda>l. 0 < snd l) lines) ''Enter a quantity on every line'')
     (unless (assertRule (lines \<noteq> []) ''Add at least one item to the order'')
     (unless (first_some (map (order_line_refusal d from (loc_n outlet)) lines))
     (bindE (allocateId K_prd at' d) (\<lambda>(i, d1).
      bindE (insertOrder i \<lparr>pd_from = from, pd_by = cl_sub c, pd_at = at', pd_status = Pord_New,
          pd_need = ob_need body, pd_note = ob_note body, pd_lines = lines\<rparr> d1) (\<lambda>d2.
      Inr (emitChanged [Ch_pord]
        (appendHistory ''prod_order'' i ''Raised'' (userName d (cl_sub c)) at' d2)))))))))))"

definition raiseOrder :: "claims \<Rightarrow> prodOrderBody \<Rightarrow> instant \<Rightarrow> db \<Rightarrow> error option \<times> db" where
  "raiseOrder c body at' = withTransaction (raise_tx c body at')"

section \<open>Dispatching one\<close>

definition dispatchRefusal :: "db \<Rightarrow> string \<Rightarrow> pordRow \<Rightarrow> string" where
  "dispatchRefusal d i o' =
     (if pd_status o' = Pord_Declined then i @ '' was declined - it cannot be dispatched''
      else i @ '' has already gone out - it is on one ticket to '' @ loc_name d (pd_from o'))"

definition setOrderStatus :: "string \<Rightarrow> pordStatus \<Rightarrow> db \<Rightarrow> db" where
  "setOrderStatus i st = update_pord i (\<lambda>o'. o'\<lparr>pd_status := st\<rparr>)"

definition dispatch_tx :: "claims \<Rightarrow> string \<Rightarrow> instant \<Rightarrow> nat \<Rightarrow> db \<Rightarrow> error + db" where
  "dispatch_tx c i at' rnd d =
     found (pord_of d i) (noOrder i) (\<lambda>o'.
     unless (assertRule (canTransition PROD_ORDER_TRANSITIONS (pd_status o') Pord_Dispatched) (dispatchRefusal d i o'))
     (let lines = foldLines (pd_lines o') in
      unless (assertRule (lines \<noteq> []) (i @ '' has no items on it''))
     (unless (map_option (\<lambda>l. RuleError (onOffRefusal (item_name d (fst l)) ''dispatched''))
        (find (\<lambda>l. isOnOff (loadItems d (fst l))) lines))
     (bindE (allocateTicket at' rnd d) (\<lambda>(no, d1).
      let d2 = lockBalances (map (\<lambda>l. (KITCHEN, fst l)) lines) d1;
          short = short_lines d2 KITCHEN lines
      in unless (assertRule (short = []) (''Nothing dispatched - the kitchen is short of ''
            @ join '', '' (map (\<lambda>l. item_name d (fst l)) short)))
         (bindE (writeTicket \<lparr>dr_refType = Ref_prod_order, dr_refId = i, dr_from = KITCHEN,
              dr_to = pd_from o', dr_lines = lines, dr_by = cl_sub c, dr_at = at'\<rparr> no d2)
         (\<lambda>d3. Inr (emitChanged [Ch_pord, Ch_tkt, Ch_rsv]
            (appendHistory ''prod_order'' i ''Dispatched'' (userName d (cl_sub c)) at'
              (setOrderStatus i Pord_Dispatched d3))))))))))"

definition dispatch :: "claims \<Rightarrow> string \<Rightarrow> instant \<Rightarrow> nat \<Rightarrow> db \<Rightarrow> error option \<times> db" where
  "dispatch c i at' rnd = withTransaction (dispatch_tx c i at' rnd)"

section \<open>The board\<close>

definition setStatus_tx :: "claims \<Rightarrow> string \<Rightarrow> pordStatus \<Rightarrow> instant \<Rightarrow> db \<Rightarrow> error + db" where
  "setStatus_tx c i st at' d =
     found (pord_of d i) (noOrder i) (\<lambda>o'.
     unless (assertRule (st \<noteq> Pord_Dispatched)
       (i @ '' goes out on a pick ticket - dispatch it from the order instead''))
     (unless (assertRule (pd_status o' \<noteq> Pord_Dispatched)
       (i @ '' has already gone out - cancel its ticket to bring it back onto the board''))
     (unless (assertRule (canTransition PROD_ORDER_TRANSITIONS (pd_status o') st)
       (i @ '' is '' @ toLower (pord_word (pd_status o')) @ '' - it cannot go straight to '' @ toLower (pord_word st)))
     (Inr (emitChanged [Ch_pord]
        (appendHistory ''prod_order'' i (pord_word st) (userName d (cl_sub c)) at' (setOrderStatus i st d)))))))"

definition setStatus :: "claims \<Rightarrow> string \<Rightarrow> pordStatus \<Rightarrow> instant \<Rightarrow> db \<Rightarrow> error option \<times> db" where
  "setStatus c i st at' = withTransaction (setStatus_tx c i st at')"

section \<open>A batch\<close>

record batchDraft =
  bd_it :: key
  bd_item :: item
  bd_started :: number
  bd_made :: number
  bd_note :: "string option"
  bd_by :: string
  bd_at :: instant

definition yield_move :: "batchDraft \<Rightarrow> string \<Rightarrow> move" where
  "yield_move b i = \<lparr>mv_loc = KITCHEN, mv_it = bd_it b, mv_qty = bd_made b, mv_kind = Mk_production_yield,
     mv_refType = ''batch'', mv_refId = i, mv_by = Some (bd_by b), mv_at = bd_at b, mv_reverses = None\<rparr>"

definition insertBatch :: "string \<Rightarrow> batchRow \<Rightarrow> db \<Rightarrow> error + db" where
  "insertBatch i r d =
     (if bt_made r < 0 \<or> bt_started r < bt_made r
      then Inl (Internal ''new row for relation batches violates check constraint batches_made_ck'')
      else bindE (insert_row (db_batches d) i r) (\<lambda>rs. Inr (d\<lparr>db_batches := rs\<rparr>)))"

definition writeBatch :: "batchDraft \<Rightarrow> db \<Rightarrow> error + db" where
  "writeBatch b d =
     bindE (allocateNumber K_batch (bd_at b) d) (\<lambda>(no, d1).
     let d2 = (if 0 < bd_made b then postMoves [yield_move b (snd no)] d1 else d1) in
     insertBatch (snd no) \<lparr>bt_it = bd_it b, bt_started = bd_started b, bt_made = bd_made b, bt_at = bd_at b,
        bt_best = bestBeforeAt (bd_at b) (item_sl (bd_item b)), bt_note = bd_note b, bt_by = bd_by b\<rparr> d2)"

record batchBody =
  bb_it :: key
  bb_started :: number
  bb_made :: "number option"
  bb_note :: "string option"

text \<open>How JavaScript prints a figure of the ledger: no trailing zeros.\<close>

definition js_num :: "number \<Rightarrow> string" where
  "js_num v = (if is_integer v then int_str \<lfloor>v\<rfloor>
     else rev (dropWhile (\<lambda>c. c = CHR ''0'') (rev (toFixed 3 v))))"

definition makeBatch_tx :: "claims \<Rightarrow> batchBody \<Rightarrow> instant \<Rightarrow> db \<Rightarrow> error + db" where
  "makeBatch_tx c body at' d =
     (let started = round3 (bb_started body) in
      unless (assertRule (0 < started) ''Enter a quantity to make'')
     (let made = round3 (case bb_made body of Some m \<Rightarrow> m | None \<Rightarrow> started) in
      unless (assertRule (0 \<le> made \<and> made \<le> started)
        (''Yield cannot exceed the '' @ js_num started @ '' started''))
     (found (loadItems d (bb_it body)) (noItem (bb_it body)) (\<lambda>item.
      unless (assertRule (db_overrides d (KITCHEN, bb_it body) = None)
        (item_n item @ '' is switched off in the kitchen''))
     (unless (assertRule (\<not> isOnOff (Some item)) (onOffRefusal (item_n item) ''batched''))
     (unless (assertRule (item_t item \<noteq> MTO)
        (item_n item @ '' is made to order at the counter - it is not batched''))
     (unless (assertRule (item_t item = FG)
        (item_n item @ '' is not a finished good - only a finished good is batched''))
     (bindE (writeBatch \<lparr>bd_it = bb_it body, bd_item = item, bd_started = started, bd_made = made,
          bd_note = bb_note body, bd_by = cl_sub c, bd_at = at'\<rparr> d)
     (\<lambda>d1. Inr (emitChanged [Ch_batch, Ch_stock] d1))))))))))"

definition makeBatch :: "claims \<Rightarrow> batchBody \<Rightarrow> instant \<Rightarrow> db \<Rightarrow> error option \<times> db" where
  "makeBatch c body at' = withTransaction (makeBatch_tx c body at')"

section \<open>A tray pushed out\<close>

record distributeBody =
  dt_it :: key
  dt_qty :: number
  dt_to :: key

definition distribute_tx :: "claims \<Rightarrow> distributeBody \<Rightarrow> instant \<Rightarrow> nat \<Rightarrow> db \<Rightarrow> error + db" where
  "distribute_tx c body at' rnd d =
     unless (assertRule (0 < dt_qty body) ''Enter a quantity'')
     (found (loadItems d (dt_it body)) (noItem (dt_it body)) (\<lambda>item.
      unless (assertRule (\<not> isOnOff (Some item)) (onOffRefusal (item_n item) ''distributed''))
     (unless (assertRule (item_t item \<noteq> MTO)
        (item_n item @ '' is made to order at the counter - it is not distributed''))
     (bindE (lockLocation d (dt_to body)) (\<lambda>to.
      unless (assertRule (dt_to body \<noteq> KITCHEN)
        ''A tray cannot be distributed to the kitchen it came from - choose the store or an outlet'')
     (unless (if loc_type to = Outlet_Type then assertOpen to else None)
     (unless (if loc_type to = Outlet_Type
        then assertRule (List.member (menuAt d (dt_to body)) (dt_it body))
          (item_n item @ '' is not listed at '' @ loc_n to @ '' - add it to that menu first'')
        else None)
     (bindE (allocateTicket at' rnd d) (\<lambda>(no, d1).
      let d2 = lockBalances [(KITCHEN, dt_it body)] d1;
          free = freeAt d2 KITCHEN [dt_it body] (dt_it body)
      in unless (assertRule (dt_qty body \<le> free)
           (''Kitchen has only '' @ fq free (item_u item) @ '' '' @ item_u item @ '' free to promise''))
         (bindE (writeTicket \<lparr>dr_refType = Ref_direct, dr_refId = ''Direct issue'', dr_from = KITCHEN,
              dr_to = dt_to body, dr_lines = [(dt_it body, dt_qty body)], dr_by = cl_sub c, dr_at = at'\<rparr> no d2)
         (\<lambda>d3. Inr (emitChanged [Ch_tkt, Ch_rsv] d3))))))))))))"

definition distribute :: "claims \<Rightarrow> distributeBody \<Rightarrow> instant \<Rightarrow> nat \<Rightarrow> db \<Rightarrow> error option \<times> db" where
  "distribute c body at' rnd = withTransaction (distribute_tx c body at' rnd)"

section \<open>The operations keep the invariant\<close>

lemma inv_cong:
  assumes "same_stock d d'" "db_requests d' = db_requests d"
  shows "inv d' = inv d"
  using stock_inv_cong [OF assms(1)] requests_ok_cong [OF assms(2)] by (simp add: inv_def)

lemma inv_orders [simp]: "inv (setOrderStatus i st d) = inv d" "inv (update_ask i h d) = inv d"
  by (simp_all add: inv_def setOrderStatus_def)

lemma inv_sequence [simp]: "inv (d\<lparr>db_seq := s\<rparr>) = inv d" and inv_locked [simp]: "inv (lockBalances cs d) = inv d"
  by (simp_all add: inv_def)

lemma inv_tables [simp]:
  "inv (d\<lparr>db_pords := ps\<rparr>) = inv d" "inv (d\<lparr>db_asks := as\<rparr>) = inv d" "inv (d\<lparr>db_batches := bs\<rparr>) = inv d"
  by (rule inv_cong, simp_all add: same_stock_def)+

text \<open>A ticket whose folded lines passed the cover check of their location.\<close>

lemma inv_ticket:
  assumes d: "inv d" and w: "writeTicket draft no d = Inr d'"
    and ls: "distinct (map fst (dr_lines draft))" "\<forall>l \<in> set (dr_lines draft). is3 (snd l)"
    and short: "short_lines d (dr_from draft) (dr_lines draft) = []"
  shows "inv d'"
proof -
  have inv: "stock_inv d" using d by (simp add: inv_def)
  have "stock_inv d'" by (rule inv_writeTicket [OF inv w]) (use cover_lines [OF inv ls short] in simp)
  then show ?thesis using d requests_ok_writeTicket [OF w] by (simp add: inv_def)
qed

lemma inv_single_ticket:
  assumes d: "inv d" and w: "writeTicket draft no d = Inr d'"
    and ls: "dr_lines draft = [(it, q)]" and free: "q \<le> freeAt d (dr_from draft) [it] it"
  shows "inv d'"
proof -
  have inv: "stock_inv d" using d by (simp add: inv_def)
  have "stock_inv d'"
    by (rule inv_writeTicket [OF inv w]) (use single_cover [OF inv free] ls in \<open>simp add: get0_single\<close>)
  then show ?thesis using d requests_ok_writeTicket [OF w] by (simp add: inv_def)
qed

lemma inv_raise_tx: "inv d \<Longrightarrow> raise_tx c body at' d = Inr d' \<Longrightarrow> inv d'"
  by (auto simp: raise_tx_def Let_def allocateId_ok insertOrder_def)

lemma inv_dispatch_tx:
  assumes d: "inv d" and tx: "dispatch_tx c i at' rnd d = Inr d'"
  shows "inv d'"
proof -
  from tx obtain o' no d1 d3 where o': "pord_of d i = Some o'" and
    a: "allocateTicket at' rnd d = Inr (no, d1)" and
    s: "short_lines (lockBalances (map (\<lambda>l. (KITCHEN, fst l)) (foldLines (pd_lines o'))) d1) KITCHEN (foldLines (pd_lines o')) = []" and
    w: "writeTicket \<lparr>dr_refType = Ref_prod_order, dr_refId = i, dr_from = KITCHEN, dr_to = pd_from o',
        dr_lines = foldLines (pd_lines o'), dr_by = cl_sub c, dr_at = at'\<rparr> no
        (lockBalances (map (\<lambda>l. (KITCHEN, fst l)) (foldLines (pd_lines o'))) d1) = Inr d3" and
    d': "d' = emitChanged [Ch_pord, Ch_tkt, Ch_rsv]
            (appendHistory ''prod_order'' i ''Dispatched'' (userName d (cl_sub c)) at' (setOrderStatus i Pord_Dispatched d3))"
    unfolding dispatch_tx_def Let_def by auto
  have "inv d1" using d a by (auto simp: allocateTicket_ok)
  then have "inv d3" by (intro inv_ticket [OF _ w]) (use s foldLines_once in auto)
  then show ?thesis by (simp add: d')
qed

lemma inv_setStatus_tx: "inv d \<Longrightarrow> setStatus_tx c i st at' d = Inr d' \<Longrightarrow> inv d'"
  by (auto simp: setStatus_tx_def)

lemma covered_gain: "covered d \<Longrightarrow> ledger_ok d \<Longrightarrow> (\<And>c. 0 \<le> delta_of ms c) \<Longrightarrow> covered (postMoves ms d)"
  by (rule coveredI) (simp add: onhand_postMoves [OF is3_onhand] add_increasing2 coveredD)

lemma inv_gain: "inv d \<Longrightarrow> (\<And>c. 0 \<le> delta_of ms c) \<Longrightarrow> inv (postMoves ms d)"
  by (simp add: inv_def stock_inv_def ledger_ok_postMoves covered_gain)

lemma insertBatch_ok:
  "insertBatch i r d = Inr d' \<longleftrightarrow> 0 \<le> bt_made r \<and> bt_made r \<le> bt_started r \<and> map_of (db_batches d) i = None
     \<and> d' = d\<lparr>db_batches := db_batches d @ [(i, r)]\<rparr>"
  by (auto simp: insertBatch_def)

lemma inv_writeBatch: "inv d \<Longrightarrow> writeBatch b d = Inr d' \<Longrightarrow> inv d'"
proof -
  assume d: "inv d" and w: "writeBatch b d = Inr d'"
  from w obtain n where n: "db_seq d K_batch = Some n" and
    d': "\<exists>r. d' = (if 0 < bd_made b then postMoves [yield_move b (formatId K_batch n (bd_at b))]
        (d\<lparr>db_seq := (db_seq d)(K_batch \<mapsto> n + 1)\<rparr>) else d\<lparr>db_seq := (db_seq d)(K_batch \<mapsto> n + 1)\<rparr>)
        \<lparr>db_batches := r\<rparr>"
    unfolding writeBatch_def Let_def allocateNumber_def
    by (auto simp: insertBatch_ok cong: if_cong split: option.splits)
  let ?d = "if 0 < bd_made b then postMoves [yield_move b (formatId K_batch n (bd_at b))]
        (d\<lparr>db_seq := (db_seq d)(K_batch \<mapsto> n + 1)\<rparr>) else d\<lparr>db_seq := (db_seq d)(K_batch \<mapsto> n + 1)\<rparr>"
  have "inv ?d" using d by (auto intro!: inv_gain r3.round_nonneg simp: yield_move_def)
  then show "inv d'" using d' by auto
qed

lemma inv_makeBatch_tx: "inv d \<Longrightarrow> makeBatch_tx c body at' d = Inr d' \<Longrightarrow> inv d'"
  unfolding makeBatch_tx_def Let_def by (auto dest: inv_writeBatch)

lemma inv_distribute_tx:
  assumes d: "inv d" and tx: "distribute_tx c body at' rnd d = Inr d'"
  shows "inv d'"
proof -
  let ?lk = "lockBalances [(KITCHEN, dt_it body)]"
  from tx obtain no d1 d3 where a: "allocateTicket at' rnd d = Inr (no, d1)" and
    f: "dt_qty body \<le> freeAt (?lk d1) KITCHEN [dt_it body] (dt_it body)" and
    w: "writeTicket \<lparr>dr_refType = Ref_direct, dr_refId = ''Direct issue'', dr_from = KITCHEN,
      dr_to = dt_to body, dr_lines = [(dt_it body, dt_qty body)], dr_by = cl_sub c, dr_at = at'\<rparr> no (?lk d1) = Inr d3" and
    d': "d' = emitChanged [Ch_tkt, Ch_rsv] d3"
    unfolding distribute_tx_def Let_def by auto
  have "inv d1" using d a by (auto simp: allocateTicket_ok)
  then have "inv d3" by (intro inv_single_ticket [OF _ w]) (use f in auto)
  then show ?thesis by (simp add: d')
qed

end
