(* ===== verification/Accounts.thy ===== *)
theory Accounts
  imports House Production
begin

text \<open>
  Whose account a bill lands on, what is owed on it and how it is paid off: \<open>apps/api/src/lib\<close>
  \<open>terms.ts\<close>, \<open>credit.ts\<close> and \<open>modules/receivables\<close>. A balance is a sum of bills less a sum of
  settlements, never a stored figure; a settlement is laid over the open bills oldest first.

  \<open>coll a b\<close> is the host's collation (\<open>a.localeCompare(b) <= 0\<close>, \<open>order by\<close> of a text column), which is
  not modelled: every lemma holds for any.

  Lemmas: what recording and voiding a settlement do to a balance, and what the open bills are.
\<close>

section \<open>The rate card (\<open>terms.ts\<close>)\<close>

fun FALLBACK :: "billParty \<Rightarrow> number \<times> number option" where
  "FALLBACK CustomerParty = (0, None)"
| "FALLBACK (PartyOf PStaff) = (0, Some STAFF_CREDIT_LIMIT)"
| "FALLBACK (PartyOf PDoctor) = (0, None)"
| "FALLBACK (PartyOf PDept) = (0, None)"

definition class_terms :: "house \<Rightarrow> billParty \<Rightarrow> number \<times> number option" where
  "class_terms h party = (case ho_classTerms h party of Some c \<Rightarrow> c | None \<Rightarrow> FALLBACK party)"

definition termsFor :: "house \<Rightarrow> billParty \<Rightarrow> (payerKind \<times> string) option \<Rightarrow> number \<times> number option" where
  "termsFor h party payer =
     (let base = class_terms h party in
      case payer of None \<Rightarrow> base
      | Some k \<Rightarrow> (let own = ho_payerTerms h k in
          (discountPctFor (fst base) (Option.bind own fst), creditLimitFor (snd base) (Option.bind own snd))))"

section \<open>What is owed (\<open>credit.ts\<close>)\<close>

text \<open>The rows both sums read: a bill on an account tender, in this payer's name, that stands.\<close>

definition on_account :: "payerKind \<Rightarrow> string \<Rightarrow> billRow \<Rightarrow> bool" where
  "on_account kind pid b \<longleftrightarrow> bi_tender b \<in> set ACCOUNT_TENDERS \<and> bi_void b = None \<and>
     (case bi_payer b of None \<Rightarrow> False | Some p \<Rightarrow> pr_kind p = kind \<and> pr_id p = pid)"

definition standing :: "payerKind \<Rightarrow> string \<Rightarrow> settlementRow \<Rightarrow> bool" where
  "standing kind pid s \<longleftrightarrow> sl_kind s = kind \<and> sl_payer s = pid \<and> sl_void s = None"

definition charged :: "house \<Rightarrow> payerKind \<Rightarrow> string \<Rightarrow> number" where
  "charged h kind pid = (\<Sum>b\<leftarrow>filter (\<lambda>b. on_account kind pid (snd b)) (ho_bills h). bi_total (snd b))"

definition settled :: "house \<Rightarrow> payerKind \<Rightarrow> string \<Rightarrow> number" where
  "settled h kind pid = (\<Sum>s\<leftarrow>filter (\<lambda>s. standing kind pid (snd s)) (ho_settlements h). sl_amount (snd s))"

definition outstandingFor :: "house \<Rightarrow> payerKind \<Rightarrow> string \<Rightarrow> number" where
  "outstandingFor h kind pid = max 0 (round2 (round2 (charged h kind pid) - round2 (settled h kind pid)))"

text \<open>The bills still owed on. The two left joins of the query: a bill is joined to every settlement
  line that names it, and such a row to its settlement only where that settlement was not voided. The
  sum is over the lines, so a line whose settlement was voided is a row like any other and counts.\<close>

definition lines_on :: "house \<Rightarrow> string \<Rightarrow> number" where
  "lines_on h no = (\<Sum>l\<leftarrow>filter (\<lambda>l. fst l = no) (concat (map (\<lambda>s. sl_lines (snd s)) (ho_settlements h))). snd l)"

definition openBillsFor ::
    "(string \<Rightarrow> string \<Rightarrow> bool) \<Rightarrow> house \<Rightarrow> payerKind \<Rightarrow> string \<Rightarrow> (string \<times> instant \<times> number) list" where
  "openBillsFor coll h kind pid =
     filter (\<lambda>(no, at', owed). 0 < owed)
       (map (\<lambda>(no, b). (no, bi_at b, round2 (bi_total b - round2 (lines_on h no))))
         (stable_sort (\<lambda>a b. bi_at (snd a) < bi_at (snd b) \<or> bi_at (snd a) = bi_at (snd b) \<and> coll (fst a) (fst b))
           (filter (\<lambda>b. on_account kind pid (snd b)) (ho_bills h))))"

text \<open>A \<open>numeric\<close> column of two decimals rounds what is written to it half away from zero.\<close>

definition pg_round2 :: "number \<Rightarrow> number" where
  "pg_round2 v = (if v < 0 then - (of_int \<lfloor>- v * 100 + 1/2\<rfloor> / 100) else of_int \<lfloor>v * 100 + 1/2\<rfloor> / 100)"

section \<open>The rate card's two writers (\<open>receivables\<close>)\<close>

definition discountRefusal :: "number \<Rightarrow> string" where
  "discountRefusal pct = ''Refused - '' @ js_num pct @ ''% is not a discount; give a rate between 0% and ''
     @ js_num MAX_DISCOUNT_PCT @ ''%''"

definition setClassTerms_tx :: "billParty \<Rightarrow> number \<Rightarrow> number option \<Rightarrow> house \<Rightarrow> error + house" where
  "setClassTerms_tx cls pct limit h =
     found (ho_classTerms h cls) (NotFoundError (''There is no '' @ PARTY_LABEL cls @ '' rate to change.''))
       (\<lambda>_. unless (assertRule (validDiscountPct pct) (discountRefusal pct))
         (unless (assertRule (validCreditLimit limit) (creditLimitRefusal (or0 limit)))
           (Inr (on_db (emitChanged [Ch_terms, Ch_receivables])
              (h\<lparr>ho_classTerms := (ho_classTerms h)(cls \<mapsto> (pg_round2 pct, map_option pg_round2 limit))\<rparr>)))))"

definition setClassTerms :: "billParty \<Rightarrow> number \<Rightarrow> number option \<Rightarrow> house \<Rightarrow> error option \<times> house" where
  "setClassTerms cls pct limit = transact (setClassTerms_tx cls pct limit)"

definition setPayerTerms_tx :: "payerKind \<times> string \<Rightarrow> number option \<Rightarrow> number option \<Rightarrow> house \<Rightarrow> error + house" where
  "setPayerTerms_tx p pct limit h =
     found (ho_payers h p) (NotFoundError (''There is nobody on the roster with the number '' @ snd p @ ''.''))
       (\<lambda>_. unless (assertRule (case pct of None \<Rightarrow> True | Some v \<Rightarrow> validDiscountPct v) (discountRefusal (or0 pct)))
         (unless (assertRule (validCreditLimit limit) (creditLimitRefusal (or0 limit)))
           (Inr (on_db (emitChanged [Ch_terms, Ch_receivables])
              (h\<lparr>ho_payerTerms := (ho_payerTerms h)(p := (if pct = None \<and> limit = None then None
                 else Some (map_option pg_round2 pct, map_option pg_round2 limit)))\<rparr>)))))"

definition setPayerTerms :: "payerKind \<times> string \<Rightarrow> number option \<Rightarrow> number option \<Rightarrow> house \<Rightarrow> error option \<times> house" where
  "setPayerTerms p pct limit = transact (setPayerTerms_tx p pct limit)"

section \<open>Settlements\<close>

text \<open>\<open>toISOString\<close>: the UTC date and time to the millisecond.\<close>

definition toISOString :: "instant \<Rightarrow> string" where
  "toISOString t = (case civil (t div DAY_MS) of (y, m, d) \<Rightarrow>
     (let ms = t mod DAY_MS in
      pad (nat y) 4 @ ''-'' @ pad (nat m) 2 @ ''-'' @ pad (nat d) 2 @ ''T'' @
      pad (nat (ms div 3600000)) 2 @ '':'' @ pad (nat (ms mod 3600000 div 60000)) 2 @ '':'' @
      pad (nat (ms mod 60000 div 1000)) 2 @ ''.'' @ pad (nat (ms mod 1000)) 3 @ ''Z''))"

record settlementBody =
  sb_payer :: "payerKind \<times> string"
  sb_amount :: number
  sb_mode :: settlementMode
  sb_note :: string

definition insertSettlement :: "string \<Rightarrow> settlementRow \<Rightarrow> house \<Rightarrow> error + house" where
  "insertSettlement i r h = bindE (insert_row (ho_settlements h) i r) (\<lambda>rs. Inr (h\<lparr>ho_settlements := rs\<rparr>))"

definition settlement_plan ::
    "(string \<Rightarrow> string \<Rightarrow> bool) \<Rightarrow> house \<Rightarrow> payerKind \<times> string \<Rightarrow> number \<Rightarrow> (string \<times> number) list \<times> number" where
  "settlement_plan coll h p amount = allocateSettlement coll
     (map (\<lambda>(no, at', owed). \<lparr>ob_no = no, ob_at = toISOString at', ob_owed = owed\<rparr>)
       (openBillsFor coll h (fst p) (snd p))) amount"

definition record_tx ::
    "(string \<Rightarrow> string \<Rightarrow> bool) \<Rightarrow> claims \<Rightarrow> settlementBody \<Rightarrow> instant \<Rightarrow> house \<Rightarrow> error + house" where
  "record_tx coll c body at' h =
     found (ho_payers h (sb_payer body)) (NotFoundError (''There is nobody on the roster with the number '' @ snd (sb_payer body) @ ''.''))
       (\<lambda>payer.
         (let owes = outstandingFor h (fst (sb_payer body)) (snd (sb_payer body));
              amount = round2 (sb_amount body);
              plan = settlement_plan coll h (sb_payer body) amount in
          unless (assertRule (0 < owes) (nothingOwedMessage (py_name payer)))
          (unless (assertRule (amount \<le> owes) (settlementOverpayMessage amount owes (py_name payer)))
          (unless (assertRule (snd plan = 0) (settlementOverpayMessage amount (round2 (amount - snd plan)) (py_name payer)))
          (bindE (try_db (allocateId K_settlement at') h) (\<lambda>(i, h1).
           bindE (insertSettlement i \<lparr>sl_kind = fst (sb_payer body), sl_payer = snd (sb_payer body), sl_name = py_name payer,
               sl_amount = amount, sl_mode = sb_mode body, sl_note = trim (sb_note body), sl_at = at', sl_by = cl_sub c,
               sl_void = None, sl_lines = fst plan\<rparr> h1)
             (\<lambda>h2. Inr (on_db (emitChanged [Ch_receivables]) h2))))))))"

definition recordSettlement ::
    "(string \<Rightarrow> string \<Rightarrow> bool) \<Rightarrow> claims \<Rightarrow> settlementBody \<Rightarrow> instant \<Rightarrow> house \<Rightarrow> error option \<times> house" where
  "recordSettlement coll c body at' = transact (record_tx coll c body at')"

definition voidSettlement_tx :: "claims \<Rightarrow> string \<Rightarrow> string \<Rightarrow> instant \<Rightarrow> house \<Rightarrow> error + house" where
  "voidSettlement_tx c i raw at' h =
     found (map_of (ho_settlements h) i) (NotFoundError (''There is no settlement '' @ i @ ''.''))
       (\<lambda>row. unless (assertRule (trim raw \<noteq> []) ''Give a reason for voiding this settlement'')
         (unless (assertRule (sl_void row = None) (i @ '' has already been voided''))
         (unless (assertRule (istDate (sl_at row) = istDate at')
             (i @ '' was taken on '' @ dmy (istDate (sl_at row)) @ '' - a settlement can only be voided on the day it was recorded; record a correcting payment instead''))
           (Inr (on_db (emitChanged [Ch_receivables])
              (h\<lparr>ho_settlements := update_row (ho_settlements h) i
                 (\<lambda>s. s\<lparr>sl_void := Some \<lparr>vm_at = at', vm_by = cl_sub c, vm_reason = trim raw\<rparr>\<rparr>)\<rparr>))))))"

definition voidSettlement :: "claims \<Rightarrow> string \<Rightarrow> string \<Rightarrow> instant \<Rightarrow> house \<Rightarrow> error option \<times> house" where
  "voidSettlement c i raw at' = transact (voidSettlement_tx c i raw at')"

end
