(* ===== verification/Till.thy ===== *)
theory Till
  imports Accounts Register Transitions
begin

text \<open>
  The sale: \<open>apps/api/src/lib/sale.ts\<close>, its till and its void (\<open>modules/pos\<close>), with what a void does to a
  QR order and its refund (\<open>lib/qr-orders.ts\<close>, \<open>queueRefund\<close> of \<open>lib/refunds.ts\<close>). One bill at one outlet is
  priced, covered, numbered, written and posted in one transaction; a void takes it back the same day by
  reversing the moves it posted.

  A cart is an association list in the order of its keys; an item key is never a numeral, so the order
  of a JavaScript object is the order of insertion.
\<close>

section \<open>What an outlet can sell\<close>

record sellable =
  sv_loc :: key
  sv_locName :: string
  sv_master :: master
  sv_menu :: "key list"
  sv_stock :: stockMap
  sv_rsv :: rsvMap
  sv_ovr :: ovrMap
  sv_prices :: prices

definition sellableAt :: "house \<Rightarrow> key \<Rightarrow> sellable" where
  "sellableAt h loc = (let d = ho_db h in
     \<lparr>sv_loc = loc, sv_locName = loc_name d loc, sv_master = loadMaster d, sv_menu = db_menu d loc,
      sv_stock = (\<lambda>l it. if l = loc then db_balances d (loc, it) else None),
      sv_rsv = reservedAt d loc None,
      sv_ovr = (\<lambda>(l, it). if l = loc \<or> l = KITCHEN then db_overrides d (l, it) else None),
      sv_prices = ho_prices h\<rparr>)"

text \<open>\<open>None\<close> is \<open>Number.POSITIVE_INFINITY\<close>.\<close>

definition coverOf :: "sellable \<Rightarrow> key \<Rightarrow> number option" where
  "coverOf s it = (if isMTO (sv_master s) it then None else Some (avail (sv_stock s) (sv_rsv s) (sv_loc s) it))"

record sellableLine =
  sm_key :: key
  sm_item :: item
  sm_price :: number
  sm_available :: bool
  sm_why :: "string option"
  sm_cover :: "number option"

definition menu_line :: "sellable \<Rightarrow> key \<Rightarrow> item \<Rightarrow> sellableLine" where
  "menu_line s it i =
     (let a = availOf (sv_master s) (sv_stock s) (sv_rsv s) (sv_ovr s) (sv_loc s) it;
          price = p_p (priceOf (sv_master s) (sv_prices s) (sv_loc s) it)
      in \<lparr>sm_key = it, sm_item = i, sm_price = price, sm_available = av_ok a \<and> 0 < price,
          sm_why = (if \<not> av_ok a then av_why a else if 0 < price then None
                    else Some (item_n i @ '' has no price at '' @ sv_locName s)),
          sm_cover = coverOf s it\<rparr>)"

definition menuOf :: "(string \<Rightarrow> string \<Rightarrow> bool) \<Rightarrow> sellable \<Rightarrow> sellableLine list" where
  "menuOf coll s =
     stable_sort (\<lambda>a b. coll (item_n (sm_item a)) (item_n (sm_item b)) \<and>
         (coll (item_n (sm_item b)) (item_n (sm_item a)) \<longrightarrow> coll (sm_key a) (sm_key b)))
       (concat (map (\<lambda>it. case m_items (sv_master s) it of None \<Rightarrow> [] | Some i \<Rightarrow> [menu_line s it i]) (sv_menu s)))"

text \<open>The checks of one line of the cart, in order.\<close>

definition line_refusal :: "sellable \<Rightarrow> key \<times> number \<Rightarrow> error option" where
  "line_refusal s l = (let it = fst l in
     case m_items (sv_master s) it of
       None \<Rightarrow> Some (NotFoundError (''There is no item '' @ it @ ''.''))
     | Some i \<Rightarrow> first_some
         [assertRule (List.member (sv_menu s) it) (item_n i @ '' is not listed at '' @ sv_locName s),
          (let a = availOf (sv_master s) (sv_stock s) (sv_rsv s) (sv_ovr s) (sv_loc s) it in
           assertRule (av_ok a) (item_n i @ '' is not available at '' @ sv_locName s @ '' - ''
             @ (case av_why a of Some w \<Rightarrow> w | None \<Rightarrow> ''undefined''))),
          (case coverOf s it of None \<Rightarrow> None
           | Some cover \<Rightarrow> assertRule (snd l \<le> cover)
               (''Only '' @ fq cover (item_u i) @ '' '' @ item_u i @ '' of '' @ item_n i @ '' left at '' @ sv_locName s)),
          assertRule (0 < p_p (priceOf (sv_master s) (sv_prices s) (sv_loc s) it))
            (''Refused - '' @ item_n i @ '' has no price at '' @ sv_locName s)])"

definition on_a_list :: "sellable \<Rightarrow> bool" where
  "on_a_list s \<longleftrightarrow> truthy (Option.bind (map_of (m_locations (sv_master s)) (sv_loc s)) loc_list) \<noteq> None"

definition assertSellable :: "sellable \<Rightarrow> line list \<Rightarrow> error option" where
  "assertSellable s cart = first_some
     (assertRule (on_a_list s) (''Refused - '' @ sv_locName s @ '' is on no price list; attach one from Prices before selling'')
      # map (line_refusal s) cart)"

definition cartOf :: "line list \<Rightarrow> line list" where
  "cartOf ls = foldLines ls"

section \<open>The sale\<close>

record saleInput =
  si_loc :: key
  si_operator :: string
  si_lines :: "line list"
  si_tender :: tender
  si_payer :: "payerRef option"
  si_customer :: "string option"
  si_phone :: "string option"
  si_source :: billSource
  si_qrOrder :: "string option"

definition onHandAt :: "db \<Rightarrow> key \<Rightarrow> key list \<Rightarrow> key \<Rightarrow> number option" where
  "onHandAt d loc its it = (if it \<in> set its then db_balances d (loc, it) else None)"

text \<open>The walk-in customer's phone: nothing typed is no phone, anything else must be one.\<close>

definition sale_phone :: "saleInput \<Rightarrow> error + string option" where
  "sale_phone input = (let raw = (case si_phone input of Some p \<Rightarrow> trim p | None \<Rightarrow> []);
       phone = (if raw = [] then None else normalizePhone raw) in
     unless (assertRule (raw = [] \<or> phone \<noteq> None) (phoneRefusal raw)) (Inr phone))"

definition PAYER_LABEL :: "payerKind \<Rightarrow> string" where
  "PAYER_LABEL k = PARTY_LABEL (PartyOf k)"

text \<open>Whose account: the tender's kind of payer, on the roster, under the roster's name.\<close>

definition sale_payer :: "saleInput \<Rightarrow> house \<Rightarrow> error + payerRef option" where
  "sale_payer input h =
     (let need = payerKindForTender (si_tender input); word = toLower (tender_word (si_tender input)) in
      unless (case need of None \<Rightarrow> None | Some k \<Rightarrow>
          (case si_payer input of
             None \<Rightarrow> Some (RuleError (''Choose a '' @ PAYER_LABEL k @ '' before taking a '' @ word))
           | Some p \<Rightarrow> assertRule (pr_kind p = k)
               (''Choose a '' @ PAYER_LABEL k @ '' for a '' @ word @ '' - '' @ pr_name p @ '' is not one'')))
      (case si_payer input of None \<Rightarrow> Inr None
       | Some p \<Rightarrow> (case ho_payers h (pr_kind p, pr_id p) of
            Some r \<Rightarrow> if py_active r then Inr (Some (p\<lparr>pr_name := py_name r\<rparr>))
              else Inl (RuleError (''There is no '' @ PAYER_LABEL (pr_kind p) @ '' '' @ pr_id p @ '' on the roster''))
          | None \<Rightarrow> Inl (RuleError (''There is no '' @ PAYER_LABEL (pr_kind p) @ '' '' @ pr_id p @ '' on the roster'')))))"

definition payer_key :: "payerRef \<Rightarrow> payerKind \<times> string" where
  "payer_key p = (pr_kind p, pr_id p)"

definition credit_refusal :: "house \<Rightarrow> payerRef option \<Rightarrow> number \<Rightarrow> number option \<Rightarrow> error option" where
  "credit_refusal h payer tot limit = (case payer of None \<Rightarrow> None
     | Some p \<Rightarrow> (let owes = outstandingFor h (pr_kind p) (pr_id p) in
         assertRule (\<not> breachesCredit owes tot limit) (creditBreachMessage owes tot (pr_name p) (or0 limit))))"

text \<open>What leaves each shelf, folded the way \<open>postMoves\<close> folds it, and the two checks of it.\<close>

definition taken :: "billPlan \<Rightarrow> line list" where
  "taken plan = foldLines (map (\<lambda>m. (sm_it m, - sm_qty m)) (pl_moves plan))"

definition sale_free :: "db \<Rightarrow> key \<Rightarrow> key list \<Rightarrow> key \<Rightarrow> number" where
  "sale_free d loc its it =
     round3 (or0 (onHandAt d loc its it) - or0 (reservedAt d loc (Some its) (loc, it)))"

definition only_left :: "sellable \<Rightarrow> key \<Rightarrow> number \<Rightarrow> string" where
  "only_left s it v = ''Only '' @ fq (max 0 v) (unitOf (sv_master s) it) @ '' '' @ unitOf (sv_master s) it @ '' of ''
     @ (case m_items (sv_master s) it of Some i \<Rightarrow> item_n i | None \<Rightarrow> it) @ '' left at '' @ sv_locName s"

definition cover_refusal :: "db \<Rightarrow> sellable \<Rightarrow> line list \<Rightarrow> error option" where
  "cover_refusal d s took = first_some (map (\<lambda>(it, sold).
     (let free = sale_free d (sv_loc s) (map fst took) it in assertRule (sold \<le> free) (only_left s it free))) took)"

definition left_refusal :: "db \<Rightarrow> sellable \<Rightarrow> line list \<Rightarrow> error option" where
  "left_refusal d s took = first_some (map (\<lambda>(it, sold).
     (let free = sale_free d (sv_loc s) (map fst took) it in assertRule (0 \<le> free) (only_left s it (round3 (free + sold))))) took)"

definition sale_moves :: "billPlan \<Rightarrow> string \<Rightarrow> string \<Rightarrow> instant \<Rightarrow> move list" where
  "sale_moves plan no by' at' = map (\<lambda>m. \<lparr>mv_loc = sm_loc m, mv_it = sm_it m, mv_qty = sm_qty m, mv_kind = Mk_sale,
     mv_refType = ''bill'', mv_refId = no, mv_by = Some by', mv_at = at', mv_reverses = None\<rparr>) (pl_moves plan)"

definition insertBill :: "string \<Rightarrow> billRow \<Rightarrow> house \<Rightarrow> error + house" where
  "insertBill no b h =
     (if (bi_source b = QrSale) \<noteq> (bi_qrOrder b \<noteq> None)
      then Inl (Internal ''new row for relation bills violates check constraint bills_source_ck'')
      else if bi_qrOrder b \<noteq> None \<and> List.member (map (\<lambda>x. bi_qrOrder (snd x)) (ho_bills h)) (bi_qrOrder b)
      then Inl (Internal ''duplicate key value violates unique constraint bills_qr_order_uq'')
      else bindE (insert_row (ho_bills h) no b) (\<lambda>rs. Inr (h\<lparr>ho_bills := rs\<rparr>)))"

definition sale_bill ::
    "saleInput \<Rightarrow> instant \<Rightarrow> string \<Rightarrow> payerRef option \<Rightarrow> string option \<Rightarrow> number \<Rightarrow> billPlan \<Rightarrow> billRow" where
  "sale_bill input at' sid payer phone pct plan =
     \<lparr>bi_loc = si_loc input, bi_operator = si_operator input, bi_total = round2 (pl_tot plan),
      bi_tax = round2 (pl_tax plan), bi_at = at', bi_tender = si_tender input, bi_session = Some sid,
      bi_payer = payer, bi_customer = truthy (si_customer input), bi_phone = phone, bi_pct = pct,
      bi_disc = round2 (pl_disc plan), bi_void = None, bi_source = si_source input, bi_qrOrder = si_qrOrder input,
      bi_lines = pl_lines plan\<rparr>"

text \<open>From the number on: take it, write the bill, post its moves, look once more.\<close>

definition write_sale ::
    "saleInput \<Rightarrow> instant \<Rightarrow> sellable \<Rightarrow> string \<Rightarrow> payerRef option \<Rightarrow> string option \<Rightarrow> number \<Rightarrow> billPlan
     \<Rightarrow> house \<Rightarrow> error + string \<times> house" where
  "write_sale input at' s sid payer phone pct plan h =
     bindE (try_db (allocateId K_bill at') h) (\<lambda>(no, h1).
     bindE (insertBill no (sale_bill input at' sid payer phone pct plan) h1) (\<lambda>h2.
     (let h3 = on_db (postMoves (sale_moves plan no (si_operator input) at')) h2 in
      unless (left_refusal (ho_db h3) s (taken plan)) (Inr (no, h3)))))"

definition sale_terms :: "house \<Rightarrow> payerRef option \<Rightarrow> number \<times> number option" where
  "sale_terms h payer = termsFor h (partyOf (map_option pr_kind payer)) (map_option payer_key payer)"

definition sale_plan :: "saleInput \<Rightarrow> house \<Rightarrow> payerRef option \<Rightarrow> billPlan" where
  "sale_plan input h payer = planBill (loadMaster (ho_db h)) (ho_prices h) (si_loc input)
     (cartOf (si_lines input)) (fst (sale_terms h payer))"

definition postSale ::
    "saleInput \<Rightarrow> instant \<Rightarrow> string list \<Rightarrow> house \<Rightarrow> error + (string \<times> changed list) \<times> house" where
  "postSale input at' us h =
     bindE (lockLocation (ho_db h) (si_loc input)) (\<lambda>l.
     unless (assertOpen l)
     (bindE (sessionFor (si_loc input) (si_operator input) at' us h) (\<lambda>(sid, h1).
      bindE (sale_phone input) (\<lambda>phone.
      bindE (sale_payer input h1) (\<lambda>payer.
      (let s = sellableAt h1 (si_loc input); plan = sale_plan input h1 payer; terms = sale_terms h1 payer in
       unless (assertSellable s (cartOf (si_lines input)))
      (unless (credit_refusal h1 payer (pl_tot plan) (snd terms))
      (let h2 = on_db (lockBalances (map (\<lambda>t. (si_loc input, fst t)) (taken plan))) h1 in
       unless (cover_refusal (ho_db h2) s (taken plan))
      (bindE (write_sale input at' s sid payer phone (fst terms) plan h2) (\<lambda>(no, h3).
        Inr ((no, if payer = None then [Ch_stock, Ch_bills] else [Ch_stock, Ch_bills, Ch_receivables]), h3)))))))))))"

record payBody =
  yb_loc :: key
  yb_lines :: "line list"
  yb_tender :: tender
  yb_payer :: "payerRef option"
  yb_customer :: "string option"
  yb_phone :: "string option"

definition till_sale :: "claims \<Rightarrow> payBody \<Rightarrow> saleInput" where
  "till_sale c body = \<lparr>si_loc = yb_loc body, si_operator = cl_sub c, si_lines = yb_lines body, si_tender = yb_tender body,
     si_payer = yb_payer body, si_customer = yb_customer body, si_phone = yb_phone body, si_source = TillSale,
     si_qrOrder = None\<rparr>"

definition pay_tx :: "claims \<Rightarrow> payBody \<Rightarrow> instant \<Rightarrow> string list \<Rightarrow> house \<Rightarrow> error + house" where
  "pay_tx c body at' us h =
     bindE (postSale (till_sale c body) at' us h) (\<lambda>((no, ch), h'). Inr (on_db (emitChanged ch) h'))"

definition pay :: "claims \<Rightarrow> payBody \<Rightarrow> instant \<Rightarrow> string list \<Rightarrow> house \<Rightarrow> error option \<times> house" where
  "pay c body at' us = transact (pay_tx c body at' us)"

section \<open>A QR order and its refund, as far as a void reaches\<close>

definition moveQrOrder ::
    "string \<times> qrOrderRow \<Rightarrow> qrOrderStatus \<Rightarrow> string \<Rightarrow> instant \<Rightarrow> string option \<Rightarrow> (qrOrderRow \<Rightarrow> qrOrderRow) \<Rightarrow> house \<Rightarrow> error + house" where
  "moveQrOrder row to who at' note patch h =
     unless (assertTransition QR_ORDER_TRANSITIONS qr_word (qd_status (snd row)) to (fst row))
       (Inr (on_db (appendHistory ''qr_order'' (fst row)
           (case truthy note of Some n \<Rightarrow> qr_word to @ '' - '' @ n | None \<Rightarrow> qr_word to) who at')
         (h\<lparr>ho_qrOrders := update_row (ho_qrOrders h) (fst row) (\<lambda>r. patch (r\<lparr>qd_status := to\<rparr>))\<rparr>)))"

definition queueRefund ::
    "string \<Rightarrow> string \<Rightarrow> number \<Rightarrow> refundReason \<Rightarrow> string option \<Rightarrow> instant \<Rightarrow> house \<Rightarrow> error + house" where
  "queueRefund order payment amount reason billNo at' h =
     (let n = length (filter (\<lambda>r. rf_order (snd r) = order) (ho_refunds h)) in
      if amount \<le> 0 then Inl (Internal ''new row for relation payment_refunds violates check constraint payment_refunds_amount_ck'')
      else bindE (insert_row (ho_refunds h) (order @ ''-R'' @ nat_str (n + 1))
          \<lparr>rf_order = order, rf_bill = billNo, rf_payment = payment, rf_amount = amount, rf_reason = reason,
           rf_status = Ref_Pending, rf_attempts = 0, rf_next = at', rf_error = None, rf_rzp = None, rf_processed = None\<rparr>)
        (\<lambda>rs. Inr (h\<lparr>ho_refunds := rs\<rparr>)))"

section \<open>The void\<close>

text \<open>\<open>limit 1\<close> of the live settlements that closed part of a bill.\<close>

definition liveSettlementOf :: "house \<Rightarrow> string \<Rightarrow> string option" where
  "liveSettlementOf h no = map_option fst
     (find (\<lambda>s. sl_void (snd s) = None \<and> List.member (map fst (sl_lines (snd s))) no) (ho_settlements h))"

text \<open>The sale's own moves with their ids; a move's id is its place in the ledger.\<close>

definition saleMoves :: "db \<Rightarrow> string \<Rightarrow> (nat \<times> move) list" where
  "saleMoves d no = filter (\<lambda>(i, m). mv_refType m = ''bill'' \<and> mv_refId m = no \<and> mv_kind m = Mk_sale)
     (enumerate 1 (db_moves d))"

definition reversal :: "string \<Rightarrow> string \<Rightarrow> instant \<Rightarrow> nat \<times> move \<Rightarrow> move" where
  "reversal no by' at' im = \<lparr>mv_loc = mv_loc (snd im), mv_it = mv_it (snd im), mv_qty = - mv_qty (snd im),
     mv_kind = Mk_reversal, mv_refType = ''bill'', mv_refId = no, mv_by = Some by', mv_at = at',
     mv_reverses = Some (fst im)\<rparr>"

definition setVoided :: "string \<Rightarrow> voidMark \<Rightarrow> house \<Rightarrow> house" where
  "setVoided no v h = h\<lparr>ho_bills := update_row (ho_bills h) no (\<lambda>b. b\<lparr>bi_void := Some v\<rparr>)\<rparr>"

text \<open>The order a QR bill filled, and what the void owes its customer.\<close>

definition void_order :: "house \<Rightarrow> billRow \<Rightarrow> (string \<times> qrOrderRow) option" where
  "void_order h b = (if bi_source b = QrSale
     then Option.bind (bi_qrOrder b) (\<lambda>q. map_option (Pair q) (map_of (ho_qrOrders h) q)) else None)"

definition void_refund ::
    "(string \<times> qrOrderRow) option \<Rightarrow> string \<Rightarrow> number \<Rightarrow> string \<Rightarrow> string \<Rightarrow> instant \<Rightarrow> house \<Rightarrow> error + bool \<times> house" where
  "void_refund order no amount reason who at' h =
     (case Option.bind order (\<lambda>q. truthy (qd_payment (snd q))) of
        None \<Rightarrow> Inr (False, h)
      | Some payment \<Rightarrow>
          bindE (moveQrOrder (the order) Qr_Voided who at' (Some reason) id h) (\<lambda>h1.
          bindE (queueRefund (fst (the order)) payment amount Rr_Void (Some no) at' h1) (\<lambda>h2. Inr (True, h2))))"

text \<open>Everything that may refuse a void, in the order it is asked.\<close>

definition void_refusal :: "claims \<Rightarrow> string \<Rightarrow> string \<Rightarrow> instant \<Rightarrow> billRow \<Rightarrow> house \<Rightarrow> error option" where
  "void_refusal c no reason at' b h = first_some
     [if bi_operator b = cl_sub c
      then Some (ForbiddenError ''You can't void a bill you took yourself - ask someone else who holds Void a bill.'') else None,
      assertRule (reason \<noteq> []) ''Give a reason for voiding this bill'',
      assertRule (bi_void b = None) (no @ '' has already been voided''),
      assertRule (istDate (bi_at b) = istDate at')
        (no @ '' was taken on '' @ dmy (istDate (bi_at b)) @ '' - a bill can only be voided on the day it was billed; write the stock back on with an adjustment instead''),
      (case liveSettlementOf h no of None \<Rightarrow> None
       | Some i \<Rightarrow> Some (RuleError (no @ '' has been settled by '' @ i @ '' - void that settlement first, then this bill''))),
      (case lockLocation (ho_db h) (bi_loc b) of Inl e \<Rightarrow> Some e
       | Inr l \<Rightarrow> assertOpenThen l ''reopen it before voiding its bills''),
      (case Option.bind (Option.bind (bi_session b) (holdSession h)) se_closed of None \<Rightarrow> None
       | Some z \<Rightarrow> Some (RuleError (no @ '' was closed off on '' @ zc_no z @ '' and can no longer be voided.'')))]"

definition voidBill_tx :: "claims \<Rightarrow> string \<Rightarrow> string \<Rightarrow> instant \<Rightarrow> house \<Rightarrow> error + house" where
  "voidBill_tx c no raw at' h =
     found (bill_of h no) (NotFoundError (''There is no bill '' @ no @ ''.'')) (\<lambda>b.
     (let reason = trim raw; who = userName (ho_db h) (cl_sub c) in
      unless (void_refusal c no reason at' b h)
      (let h1 = on_db (postMoves (map (reversal no (cl_sub c) at') (saleMoves (ho_db h) no))) h;
           h2 = setVoided no \<lparr>vm_at = at', vm_by = cl_sub c, vm_reason = reason\<rparr> h1;
           h3 = on_db (appendHistory ''bill'' no (''Voided - '' @ reason) who at') h2 in
       bindE (void_refund (void_order h b) no (bi_total b) reason who at' h3) (\<lambda>(refunded, h4).
       Inr (on_db (emitChanged (if bi_payer b \<noteq> None then [Ch_stock, Ch_bills, Ch_receivables]
         else if refunded then [Ch_stock, Ch_bills, Ch_qrOrders] else [Ch_stock, Ch_bills])) h4)))))"

definition voidBill :: "claims \<Rightarrow> string \<Rightarrow> string \<Rightarrow> instant \<Rightarrow> house \<Rightarrow> error option \<times> house" where
  "voidBill c no raw at' = transact (voidBill_tx c no raw at')"

end
