(* ===== verification/ShopAsks.thy ===== *)
theory ShopAsks
  imports Production
begin

text \<open>
  One shop asking another: \<open>apps/api/src/modules/shopasks\<close>. The asker's own counter asks, the shop
  that holds the stock grants or declines; a grant holds the stock there and raises the ticket the asker
  collects against.
\<close>

record askBody =
  as_to :: key
  as_it :: key
  as_qty :: number
  as_note :: string

definition insertAsk :: "string \<Rightarrow> askRow \<Rightarrow> db \<Rightarrow> error + db" where
  "insertAsk i r d = bindE (insert_row (db_asks d) i r) (\<lambda>rs. Inr (d\<lparr>db_asks := rs\<rparr>))"

definition noAsk :: "string \<Rightarrow> error" where
  "noAsk i = NotFoundError (''There is no shop ask '' @ i @ ''.'')"

definition ask_tx :: "claims \<Rightarrow> askBody \<Rightarrow> instant \<Rightarrow> db \<Rightarrow> error + db" where
  "ask_tx c body at' d =
     (let from = cl_loc c in
      unless (assertRule (as_to body \<noteq> from) ''Pick a different shop'')
     (bindE (lockLocation d from) (\<lambda>asker.
      bindE (lockLocation d (as_to body)) (\<lambda>holder.
      unless (assertRule (loc_type holder = Outlet_Type \<and> loc_type asker = Outlet_Type)
        ''Only another shop can be asked directly'')
     (unless (assertOpen asker)
     (unless (assertOpen holder)
     (unless (assertRule (0 < as_qty body) ''Enter a quantity'')
     (found (loadItems d (as_it body)) (noItem (as_it body)) (\<lambda>item.
      bindE (allocateId K_shop_ask at' d) (\<lambda>(i, d1).
      bindE (insertAsk i \<lparr>sa_from = from, sa_to = as_to body, sa_it = as_it body, sa_qty = round3 (as_qty body),
          sa_status = Ask_Asked, sa_by = cl_sub c, sa_at = at', sa_note = as_note body, sa_granted = None,
          sa_ticket = None, sa_reason = None\<rparr> d1)
      (\<lambda>d2. Inr (emitChanged [Ch_shopAsks] d2))))))))))))"

definition askShop :: "claims \<Rightarrow> askBody \<Rightarrow> instant \<Rightarrow> db \<Rightarrow> error option \<times> db" where
  "askShop c body at' = withTransaction (ask_tx c body at')"

definition answer_tx :: "claims \<Rightarrow> string \<Rightarrow> number \<Rightarrow> instant \<Rightarrow> nat \<Rightarrow> db \<Rightarrow> error + db" where
  "answer_tx c i grant at' rnd d =
     found (ask_of d i) (noAsk i) (\<lambda>a.
     unless (requireLocOf (cl_loc c) (sa_to a) ''your own counter'')
     (unless (assertTransition SHOP_ASK_TRANSITIONS ask_word (sa_status a) Ask_Sent i)
     (found (loadItems d (sa_it a)) (noItem (sa_it a)) (\<lambda>item.
      unless (assertRule (0 < grant) ''Grant a quantity, or decline the ask'')
     (unless (assertRule (grant \<le> sa_qty a) (loc_name d (sa_from a) @ '' asked for ''
        @ fq (sa_qty a) (item_u item) @ '' '' @ item_u item @ '' - grant that or less''))
     (let give = round3 grant in
      bindE (allocateTicket at' rnd d) (\<lambda>(no, d1).
      let d2 = lockBalances [(sa_to a, sa_it a)] d1;
          free = freeAt d2 (sa_to a) [sa_it a] (sa_it a)
      in unless (assertRule (give \<le> free)
           (loc_name d (sa_to a) @ '' has only '' @ fq free (item_u item) @ '' '' @ item_u item @ '' free to send''))
         (bindE (writeTicket \<lparr>dr_refType = Ref_shop_ask, dr_refId = i, dr_from = sa_to a, dr_to = sa_from a,
              dr_lines = [(sa_it a, give)], dr_by = cl_sub c, dr_at = at'\<rparr> no d2)
         (\<lambda>d3. Inr (emitChanged [Ch_shopAsks, Ch_tkt, Ch_rsv]
            (update_ask i (\<lambda>a. a\<lparr>sa_status := Ask_Sent, sa_granted := Some give,
               sa_ticket := Some (fst no)\<rparr>) d3)))))))))))"

definition answerShopAsk :: "claims \<Rightarrow> string \<Rightarrow> number \<Rightarrow> instant \<Rightarrow> nat \<Rightarrow> db \<Rightarrow> error option \<times> db" where
  "answerShopAsk c i grant at' rnd = withTransaction (answer_tx c i grant at' rnd)"

definition decline_tx :: "claims \<Rightarrow> string \<Rightarrow> string \<Rightarrow> db \<Rightarrow> error + db" where
  "decline_tx c i reason d =
     found (ask_of d i) (noAsk i) (\<lambda>a.
     unless (requireLocOf (cl_loc c) (sa_to a) ''your own counter'')
     (unless (assertRule (0 < length (trim reason)) ''Give a reason - the other shop sees it'')
     (unless (assertTransition SHOP_ASK_TRANSITIONS ask_word (sa_status a) Ask_Declined i)
     (Inr (emitChanged [Ch_shopAsks]
        (update_ask i (\<lambda>a. a\<lparr>sa_status := Ask_Declined, sa_reason := Some (trim reason)\<rparr>) d))))))"

definition declineShopAsk :: "claims \<Rightarrow> string \<Rightarrow> string \<Rightarrow> db \<Rightarrow> error option \<times> db" where
  "declineShopAsk c i reason = withTransaction (decline_tx c i reason)"

section \<open>The operations keep the invariant\<close>

lemma inv_ask_tx: "inv d \<Longrightarrow> ask_tx c body at' d = Inr d' \<Longrightarrow> inv d'"
  by (auto simp: ask_tx_def Let_def allocateId_ok insertAsk_def)

lemma inv_answer_tx:
  assumes d: "inv d" and tx: "answer_tx c i grant at' rnd d = Inr d'"
  shows "inv d'"
proof -
  from tx obtain a no d1 d3 where "ask_of d i = Some a" and a: "allocateTicket at' rnd d = Inr (no, d1)" and
    g: "round3 grant \<le> freeAt (lockBalances [(sa_to a, sa_it a)] d1) (sa_to a) [sa_it a] (sa_it a)" and
    w: "writeTicket \<lparr>dr_refType = Ref_shop_ask, dr_refId = i, dr_from = sa_to a, dr_to = sa_from a,
        dr_lines = [(sa_it a, round3 grant)], dr_by = cl_sub c, dr_at = at'\<rparr> no
        (lockBalances [(sa_to a, sa_it a)] d1) = Inr d3" and
    d': "d' = emitChanged [Ch_shopAsks, Ch_tkt, Ch_rsv] 
      (update_ask i (\<lambda>a. a\<lparr>sa_status := Ask_Sent, sa_granted := Some (round3 grant),
         sa_ticket := Some (fst no)\<rparr>) d3)"
    unfolding answer_tx_def Let_def by auto
  have "inv d1" using d a by (auto simp: allocateTicket_ok)
  then have "inv d3" by (intro inv_single_ticket [OF _ w]) (use g in auto)
  then show ?thesis by (simp add: d')
qed

lemma inv_decline_tx: "inv d \<Longrightarrow> decline_tx c i reason d = Inr d' \<Longrightarrow> inv d'"
  by (auto simp: decline_tx_def)

end
