(* ===== verification/System.thy ===== *)
theory System
  imports ShopAsks
begin

text \<open>
  The movement of stock as one machine: an operation is a call of a service with its arguments, \<open>exec\<close>
  runs it as the transaction the service opens, and a database is reachable when some sequence of calls
  leads to it. Whether a call succeeds or is refused, the machine goes on from what was committed.

  Lemmas: the invariant holds in every reachable state, and what one step may do to a ticket, a request
  and a kitchen order.
\<close>

datatype op =
    Op_createRequest claims requestBody instant
  | Op_cancelRequest actor string instant
  | Op_approveRequest claims string "number list" string instant
  | Op_rejectRequest claims string string instant
  | Op_redirectRequest claims string key instant nat
  | Op_issueTicket claims string instant nat
  | Op_handover claims string string instant
  | Op_receive claims string instant
  | Op_cancelTicket claims string string instant
  | Op_transfer claims transferBody instant nat
  | Op_raiseOrder claims prodOrderBody instant
  | Op_dispatch claims string instant nat
  | Op_setStatus claims string pordStatus instant
  | Op_makeBatch claims batchBody instant
  | Op_distribute claims distributeBody instant nat
  | Op_askShop claims askBody instant
  | Op_answerShopAsk claims string number instant nat
  | Op_declineShopAsk claims string string

fun exec :: "(string \<Rightarrow> string \<Rightarrow> bool) \<Rightarrow> op \<Rightarrow> db \<Rightarrow> error option \<times> db" where
  "exec coll (Op_createRequest c b t) = createRequest c b t"
| "exec coll (Op_cancelRequest a i t) = cancelRequest a i t"
| "exec coll (Op_approveRequest c i ap n t) = approveRequest c i ap n t"
| "exec coll (Op_rejectRequest c i n t) = rejectRequest c i n t"
| "exec coll (Op_redirectRequest c i f t r) = redirectRequest coll c i f t r"
| "exec coll (Op_issueTicket c i t r) = issueTicket c i t r"
| "exec coll (Op_handover c i otp t) = handover c i otp t"
| "exec coll (Op_receive c i t) = receive' c i t"
| "exec coll (Op_cancelTicket c i why t) = cancel c i why t"
| "exec coll (Op_transfer c b t r) = transfer c b t r"
| "exec coll (Op_raiseOrder c b t) = raiseOrder c b t"
| "exec coll (Op_dispatch c i t r) = dispatch c i t r"
| "exec coll (Op_setStatus c i st t) = setStatus c i st t"
| "exec coll (Op_makeBatch c b t) = makeBatch c b t"
| "exec coll (Op_distribute c b t r) = distribute c b t r"
| "exec coll (Op_askShop c b t) = askShop c b t"
| "exec coll (Op_answerShopAsk c i g t r) = answerShopAsk c i g t r"
| "exec coll (Op_declineShopAsk c i why) = declineShopAsk c i why"

section \<open>Machines that keep an invariant\<close>

text \<open>A machine runs calls one after another; \<open>runs\<close> is what any sequence of them can reach.\<close>

inductive runs :: "('o \<Rightarrow> 'd \<Rightarrow> error option \<times> 'd) \<Rightarrow> 'd \<Rightarrow> 'd \<Rightarrow> bool" for ex where
  here: "runs ex d d"
| call: "runs ex d d' \<Longrightarrow> runs ex d (snd (ex op d'))"

inductive_cases runsE: "runs ex d d'"

locale guarded_machine =
  fixes ex :: "'o \<Rightarrow> 'd \<Rightarrow> error option \<times> 'd" and safe :: "'d \<Rightarrow> bool"
  assumes keeps: "safe d \<Longrightarrow> ex op d = (None, d') \<Longrightarrow> safe d'"
    and refuses: "safe d \<Longrightarrow> ex op d = (Some e, d') \<Longrightarrow> safe d'"
begin

lemma step_safe: "safe d \<Longrightarrow> safe (snd (ex op d))"
proof -
  assume d: "safe d"
  obtain e d' where x: "ex op d = (e, d')" by fastforce
  then show "safe (snd (ex op d))" using keeps [OF d, of op d'] refuses [OF d, of op _ d'] by (cases e) simp_all
qed

lemma runs_safe: "runs ex d d' \<Longrightarrow> safe d \<Longrightarrow> safe d'"
  by (induction rule: runs.induct) (auto intro: step_safe)

text \<open>A relation every step keeps, and that composes, holds from the start to the end of a run.\<close>

lemma runs_relates:
  assumes "runs ex d d'" "safe d" and "\<And>a. rel a a" and "\<And>a b c. rel a b \<Longrightarrow> rel b c \<Longrightarrow> rel a c"
    and "\<And>op a. safe a \<Longrightarrow> rel a (snd (ex op a))"
  shows "rel d d'"
  using assms(1,2)
proof (induction rule: runs.induct)
  case (call d d' op)
  have "rel d' (snd (ex op d'))" by (rule assms(5) [OF runs_safe [OF call(1,3)]])
  with call.IH [OF call(3)] show ?case by (rule assms(4))
qed (rule assms(3))

end

lemma keeps_tx: "(\<And>d'. f d = Inr d' \<Longrightarrow> P d') \<Longrightarrow> P d \<Longrightarrow> P (snd (withTransaction f d))"
  by (auto simp: withTransaction_def split: sum.splits)

lemmas service_defs = createRequest_def cancelRequest_def approveRequest_def rejectRequest_def
  redirectRequest_def issueTicket_def receive'_def cancel_def transfer_def raiseOrder_def dispatch_def
  setStatus_def makeBatch_def distribute_def askShop_def answerShopAsk_def declineShopAsk_def

lemmas inv_services = inv_create_tx inv_cancelRequest_tx inv_approve_tx inv_reject_tx inv_redirect_tx
  inv_issue_tx inv_receive_req inv_cancel_req inv_transfer_req inv_raise_tx inv_dispatch_tx
  inv_setStatus_tx inv_makeBatch_tx inv_distribute_tx inv_ask_tx inv_answer_tx inv_decline_tx

lemma inv_handover_step: "inv d \<Longrightarrow> inv (snd (handover c i otp at' d))"
  by (auto simp: handover_def split: sum.splits option.splits dest: inv_handover_req)

lemma inv_exec: "inv d \<Longrightarrow> inv (snd (exec coll op d))"
  by (cases op; simp add: service_defs;
      (rule inv_handover_step, assumption | rule keeps_tx, erule (1) inv_services, assumption))

interpretation rch: guarded_machine "exec coll" inv for coll
proof
  show "inv d \<Longrightarrow> exec coll op d = (None, d') \<Longrightarrow> inv d'" for d op d'
    using inv_exec [of d coll op] by simp
  show "inv d \<Longrightarrow> exec coll op d = (Some e, d') \<Longrightarrow> inv d'" for d op e d'
    using inv_exec [of d coll op] by simp
qed

section \<open>What one step does to a ticket\<close>

text \<open>A table is only ever added to: a row stays under its key, changed as \<open>keep\<close> allows.\<close>

definition rows_kept :: "('r \<Rightarrow> 'r \<Rightarrow> bool) \<Rightarrow> ('k \<Rightarrow> 'r option) \<Rightarrow> ('k \<Rightarrow> 'r option) \<Rightarrow> bool" where
  "rows_kept keep old new \<longleftrightarrow> (\<forall>i x. old i = Some x \<longrightarrow> (\<exists>y. new i = Some y \<and> keep x y))"

lemma rows_keptI: "(\<And>i x. old i = Some x \<Longrightarrow> \<exists>y. new i = Some y \<and> keep x y) \<Longrightarrow> rows_kept keep old new"
  by (simp add: rows_kept_def)

lemma rows_keptD: "rows_kept keep old new \<Longrightarrow> old i = Some x \<Longrightarrow> \<exists>y. new i = Some y \<and> keep x y"
  by (simp add: rows_kept_def)

lemma rows_kept_refl: "(\<And>x. keep x x) \<Longrightarrow> rows_kept keep old old"
  by (rule rows_keptI) simp

lemma rows_kept_trans:
  assumes "\<And>x y z. keep x y \<Longrightarrow> keep y z \<Longrightarrow> keep x z" "rows_kept keep a b" "rows_kept keep b c"
  shows "rows_kept keep a c"
proof (rule rows_keptI)
  fix i x assume "a i = Some x"
  then obtain y where y: "b i = Some y" "keep x y" using rows_keptD [OF assms(2)] by blast
  then obtain z where "c i = Some z" "keep y z" using rows_keptD [OF assms(3)] by blast
  with y show "\<exists>z. c i = Some z \<and> keep x z" using assms(1) by blast
qed

lemma rows_kept_snoc: "map_of rows k = None \<Longrightarrow> (\<And>x. keep x x) \<Longrightarrow> rows_kept keep (map_of rows) (map_of (rows @ [(k, v)]))"
  by (rule rows_keptI) (auto simp: map_of_snoc)

text \<open>A ticket keeps its lines, its two ends and its digits, and its status stays or walks its table.\<close>

lemma walks_step: "canTransition table a b \<Longrightarrow> walks table a b"
  by (rule walks.go) (auto intro: walks.stay)

lemma walks_trans: "walks table a b \<Longrightarrow> walks table b c \<Longrightarrow> walks table a c"
  by (induction rule: walks.induct) (auto intro: walks.go)

definition ticket_kept :: "ticketRow \<Rightarrow> ticketRow \<Rightarrow> bool" where
  "ticket_kept t t' \<longleftrightarrow> tk_lines t' = tk_lines t \<and> tk_from t' = tk_from t \<and> tk_to t' = tk_to t \<and>
     tk_otp t' = tk_otp t \<and> walks TICKET_TRANSITIONS (tk_status t) (tk_status t')"

definition ticket_step :: "db \<Rightarrow> db \<Rightarrow> bool" where
  "ticket_step d d' \<longleftrightarrow> rows_kept ticket_kept (ticket_of d) (ticket_of d')"

lemma ticket_kept_refl: "ticket_kept t t"
  by (simp add: ticket_kept_def walks.stay)

lemma ticket_kept_trans: "ticket_kept a b \<Longrightarrow> ticket_kept b c \<Longrightarrow> ticket_kept a c"
  by (auto simp: ticket_kept_def intro: walks_trans)

lemma ticket_step_same: "db_tickets d' = db_tickets d \<Longrightarrow> ticket_step d d'"
  using rows_kept_refl [of ticket_kept] ticket_kept_refl by (simp add: ticket_step_def ticket_of_def [abs_def])

lemma ticket_step_trans: "ticket_step a b \<Longrightarrow> ticket_step b c \<Longrightarrow> ticket_step a c"
  unfolding ticket_step_def by (rule rows_kept_trans [of ticket_kept, OF ticket_kept_trans])

lemma ticket_step_update:
  assumes "\<And>t. ticket_of d i = Some t \<Longrightarrow> ticket_kept t (f t)"
  shows "ticket_step d (update_ticket i f d)"
  unfolding ticket_step_def
  by (rule rows_keptI) (use assms ticket_kept_refl in \<open>auto simp: ticket_of_update\<close>)

lemma ticket_step_cong: "db_tickets b' = db_tickets b \<Longrightarrow> db_tickets a' = db_tickets a \<Longrightarrow> ticket_step a b \<Longrightarrow> ticket_step a' b'"
  by (simp add: ticket_step_def ticket_of_def [abs_def])

lemma ticket_step_write: "writeTicket draft no d = Inr d' \<Longrightarrow> ticket_step d d'"
proof (erule writeTicket_shape)
  assume n: "ticket_of d (fst no) = None" and t: "db_tickets d' = db_tickets d @ [(fst no, ticket_row draft (snd no))]"
  show "ticket_step d d'"
    using rows_kept_snoc [of "db_tickets d" "fst no" ticket_kept] n t ticket_kept_refl
    by (simp add: ticket_step_def ticket_of_def [abs_def])
qed

lemma tickets_prims [simp]:
  "db_tickets (update_request i f d) = db_tickets d" "db_tickets (update_pord i g d) = db_tickets d"
  "db_tickets (update_ask i h d) = db_tickets d" "db_tickets (appendHistory x b s w at' d) = db_tickets d"
  "db_tickets (emitChanged ch d) = db_tickets d" "db_tickets (setRequestStatus i st d) = db_tickets d"
  "db_tickets (releaseRequest i st d) = db_tickets d" "db_tickets (reopenShopAsk i d) = db_tickets d"
  "db_tickets (follow l st w who at' d) = db_tickets d" "db_tickets (setOrderStatus i pst d) = db_tickets d"
  "db_tickets (setLineApprovals i ds d) = db_tickets d"
  by (simp_all add: update_request_def update_pord_def update_ask_def appendHistory_def emitChanged_def
      setRequestStatus_def releaseRequest_def reopenShopAsk_def follow_def setOrderStatus_def
      setLineApprovals_def split: option.splits)

lemma ticket_step_hand_out: "ticket_of d i = Some t \<Longrightarrow> tk_status t = Tkt_Issued \<Longrightarrow> ticket_step d (hand_out i t b at' d)"
  unfolding hand_out_def
  by (rule ticket_step_cong [OF refl _ ticket_step_update]) (auto simp: ticket_kept_def intro: walks_step)

lemma ticket_step_handover: "handover_tx c i otp at' d = Inr (d', r) \<Longrightarrow> ticket_step d d'"
proof (erule handover_tx_shape)
  fix t assume t: "ticket_of d i = Some t" "tk_status t = Tkt_Issued"
    and "otp \<noteq> tk_otp t \<and> d' = countWrongOtp i d \<and> r \<noteq> None \<or>
     otp = tk_otp t \<and> r = None \<and>
     d' = emitChanged [Ch_tkt, Ch_req, Ch_rsv, Ch_stock]
       (follow (linkedRequest d (tk_refId t)) Req_Collected ''Collected'' (userName d (cl_sub c)) at'
         (appendHistory ''ticket'' i ''Handed over'' (userName d (cl_sub c)) at'
           (hand_out i t (cl_sub c) at' d)))"
  moreover have "ticket_step d (countWrongOtp i d)"
    unfolding countWrongOtp_def by (rule ticket_step_update) (auto simp: ticket_kept_def intro: walks.stay)
  moreover have "ticket_step d (hand_out i t (cl_sub c) at' d)" by (rule ticket_step_hand_out [OF t])
  ultimately show "ticket_step d d'" using ticket_step_cong [OF _ refl] by auto
qed

lemma ticket_step_receive: "receive_tx c i at' d = Inr d' \<Longrightarrow> ticket_step d d'"
proof (erule receive_tx_shape)
  fix t assume t: "ticket_of d i = Some t" "tk_status t = Tkt_Collected"
    and d': "d' = emitChanged [Ch_tkt, Ch_req, Ch_stock]
       (follow (linkedRequest d (tk_refId t)) Req_Closed ''Received'' (userName d (cl_sub c)) at'
         (appendHistory ''ticket'' i ''Received'' (userName d (cl_sub c)) at'
           (update_ticket i (\<lambda>t. t\<lparr>tk_status := Tkt_Received, tk_receivedAt := Some at'\<rparr>)
             (postMoves (withUseOnArrival (loadItemTypes d) (in_moves i t (cl_sub c) at')) d))))"
  let ?d = "postMoves (withUseOnArrival (loadItemTypes d) (in_moves i t (cl_sub c) at')) d"
  have "ticket_step ?d (update_ticket i (\<lambda>t. t\<lparr>tk_status := Tkt_Received, tk_receivedAt := Some at'\<rparr>) ?d)"
    by (rule ticket_step_update) (use t in \<open>auto simp: ticket_kept_def intro: walks_step\<close>)
  then show "ticket_step d d'" by (rule ticket_step_cong [rotated 2]) (simp_all add: d')
qed

lemma put_back_tickets:
  "put_back_request q who at' d = Inr d' \<Longrightarrow> db_tickets d' = db_tickets d"
  "put_back_order o' who at' d = Inr d' \<Longrightarrow> db_tickets d' = db_tickets d"
  "put_back_ask a d = Inr d' \<Longrightarrow> db_tickets d' = db_tickets d"
  unfolding put_back_request_def put_back_order_def put_back_ask_def Let_def
  by (auto split: option.splits)

lemma ticket_step_cancel: "cancel_tx c i raw at' d = Inr d' \<Longrightarrow> ticket_step d d'"
proof (erule cancel_tx_shape)
  fix t d2 d3 d4
  let ?v = "snd (voidTicket i (trim raw) (userName d (cl_sub c)) at' d)"
  assume t: "ticket_of d i = Some t" "tk_status t = Tkt_Issued" and
    p: "put_back_request (if tk_refType t = Ref_request then linkedRequest d (tk_refId t) else None)
       (userName d (cl_sub c)) at' ?v = Inr d2"
    "put_back_order (if tk_refType t = Ref_prod_order then linkedProdOrder d (tk_refId t) else None)
       (userName d (cl_sub c)) at' d2 = Inr d3"
    "put_back_ask (if tk_refType t = Ref_shop_ask then linkedShopAsk d (tk_refId t) else None) d3 = Inr d4"
    and d': "\<exists>ch. d' = emitChanged ch d4"
  let ?r = "snd (releaseForTicket i at' d)"
  have "ticket_step ?r (update_ticket i (\<lambda>t. t\<lparr>tk_status := Tkt_Cancelled\<rparr>) ?r)"
    by (rule ticket_step_update) (use t in \<open>auto simp: ticket_kept_def intro: walks_step\<close>)
  moreover have "db_tickets ?v = db_tickets (update_ticket i (\<lambda>t. t\<lparr>tk_status := Tkt_Cancelled\<rparr>) ?r)"
    by (simp add: voidTicket_def split_beta)
  moreover have "db_tickets d' = db_tickets ?v" using p put_back_tickets d' by auto
  ultimately show "ticket_step d d'" by (intro ticket_step_cong [of d' _ d ?r]) simp_all
qed

lemma ticket_step_writer:
  assumes "writeTicket draft no d1 = Inr d2" "db_tickets d1 = db_tickets d" "db_tickets d' = db_tickets d2"
  shows "ticket_step d d'"
  using ticket_step_cong [OF assms(3) assms(2) [symmetric] ticket_step_write [OF assms(1)]] .

lemma ticket_step_services:
  "create_tx c rb at' d = Inr d' \<Longrightarrow> ticket_step d d'"
  "cancelRequest_tx a i at' d = Inr d' \<Longrightarrow> ticket_step d d'"
  "approve_tx c i ap n at' d = Inr d' \<Longrightarrow> ticket_step d d'"
  "reject_tx c i n at' d = Inr d' \<Longrightarrow> ticket_step d d'"
  "raise_tx c ob at' d = Inr d' \<Longrightarrow> ticket_step d d'"
  "setStatus_tx c i st at' d = Inr d' \<Longrightarrow> ticket_step d d'"
  "ask_tx c ab at' d = Inr d' \<Longrightarrow> ticket_step d d'"
  "decline_tx c i n d = Inr d' \<Longrightarrow> ticket_step d d'"
  by (rule ticket_step_same,
      auto simp: create_tx_def cancelRequest_tx_def approve_tx_def reject_tx_def raise_tx_def setStatus_tx_def
        ask_tx_def decline_tx_def Let_def allocateId_ok insertRequest_def insertOrder_def insertAsk_def)+

lemma batch_tickets: "writeBatch b d = Inr d' \<Longrightarrow> db_tickets d' = db_tickets d"
  by (auto simp: writeBatch_def Let_def allocateNumber_def insertBatch_ok split: option.splits)

lemma ticket_step_writers:
  "transfer_tx c tb at' rnd d = Inr d' \<Longrightarrow> ticket_step d d'"
  "redirect_tx coll c i from at' rnd d = Inr d' \<Longrightarrow> ticket_step d d'"
  "issue_tx c i at' rnd d = Inr d' \<Longrightarrow> ticket_step d d'"
  "dispatch_tx c i at' rnd d = Inr d' \<Longrightarrow> ticket_step d d'"
  "distribute_tx c db at' rnd d = Inr d' \<Longrightarrow> ticket_step d d'"
  "answer_tx c i g at' rnd d = Inr d' \<Longrightarrow> ticket_step d d'"
  unfolding transfer_tx_def redirect_tx_def issue_tx_def dispatch_tx_def distribute_tx_def answer_tx_def Let_def
  by (auto simp: allocateTicket_ok intro: ticket_step_writer)

lemma ticket_step_batch: "makeBatch_tx c bb at' d = Inr d' \<Longrightarrow> ticket_step d d'"
  unfolding makeBatch_tx_def Let_def by (rule ticket_step_same) (auto dest: batch_tickets)

lemma ticket_step_refl: "ticket_step d d"
  by (rule ticket_step_same) simp

lemmas ticket_step_tx = ticket_step_services ticket_step_writers ticket_step_batch ticket_step_receive
  ticket_step_cancel

lemma ticket_step_exec: "ticket_step d (snd (exec coll op d))"
proof -
  have ho: "ticket_step d (snd (handover c i otp at' d))" for c i otp at'
    by (auto simp: handover_def intro: ticket_step_refl ticket_step_handover split: sum.splits option.splits)
  show ?thesis
    by (cases op; simp add: service_defs; (rule ho | rule keeps_tx, erule ticket_step_tx, rule ticket_step_refl))
qed

end
