(* ===== verification/Selling.thy ===== *)
theory Selling
  imports Till System
begin

text \<open>
  What the sale and its void keep and do. A sale is written only when every shelf it takes from still
  covers what is held there; a void adds back what the sale's own moves took, and nothing in the system
  but a sale ever writes a sale's move.
\<close>

section \<open>Moves of a sale\<close>

definition sales_ok :: "db \<Rightarrow> bool" where
  "sales_ok d \<longleftrightarrow> (\<forall>m \<in> set (db_moves d). mv_kind m = Mk_sale \<longrightarrow> mv_qty m \<le> 0)"

definition move_step :: "db \<Rightarrow> db \<Rightarrow> bool" where
  "move_step d d' \<longleftrightarrow> (\<exists>ms. db_moves d' = db_moves d @ ms \<and> (\<forall>m \<in> set ms. mv_kind m \<noteq> Mk_sale))"

lemma move_step_same: "db_moves d' = db_moves d \<Longrightarrow> move_step d d'"
  by (auto simp: move_step_def)

lemma move_step_trans: "move_step a b \<Longrightarrow> move_step b c \<Longrightarrow> move_step a c"
  by (auto simp: move_step_def)

lemma moves_postMoves: "\<exists>ns. db_moves (postMoves ms d) = db_moves d @ ns \<and>
    (\<forall>n \<in> set ns. \<exists>m \<in> set ms. n = m\<lparr>mv_qty := round3 (mv_qty m)\<rparr>)"
  by (auto simp: postMoves_def Let_def)

lemma move_step_post: "(\<And>m. m \<in> set ms \<Longrightarrow> mv_kind m \<noteq> Mk_sale) \<Longrightarrow> move_step d (postMoves ms d)"
  using moves_postMoves [of ms d] by (fastforce simp: move_step_def)

lemma sales_ok_step: "move_step d d' \<Longrightarrow> sales_ok d \<Longrightarrow> sales_ok d'"
  by (auto simp: move_step_def sales_ok_def)

lemma round3_nonpos: "v \<le> 0 \<Longrightarrow> round3 v \<le> 0"
  by (rule r3.round_nonpos)

lemma sales_ok_post:
  assumes "sales_ok d" "\<And>m. m \<in> set ms \<Longrightarrow> mv_kind m = Mk_sale \<Longrightarrow> mv_qty m \<le> 0"
  shows "sales_ok (postMoves ms d)"
  using assms moves_postMoves [of ms d] round3_nonpos by (fastforce simp: sales_ok_def)

lemma moves_prims [simp]:
  "db_moves (update_request i f d) = db_moves d" "db_moves (update_pord i g d) = db_moves d"
  "db_moves (update_ask i h d) = db_moves d" "db_moves (appendHistory x b s w at' d) = db_moves d"
  "db_moves (emitChanged ch d) = db_moves d" "db_moves (setRequestStatus i st d) = db_moves d"
  "db_moves (releaseRequest i st d) = db_moves d" "db_moves (reopenShopAsk i d) = db_moves d"
  "db_moves (follow l st w who at' d) = db_moves d" "db_moves (setOrderStatus i pst d) = db_moves d"
  "db_moves (setLineApprovals i ds d) = db_moves d" "db_moves (update_ticket i ft d) = db_moves d"
  "db_moves (countWrongOtp i d) = db_moves d"
  by (simp_all add: update_request_def update_pord_def update_ask_def appendHistory_def emitChanged_def
      setRequestStatus_def releaseRequest_def reopenShopAsk_def follow_def setOrderStatus_def
      setLineApprovals_def update_ticket_def countWrongOtp_def split: option.splits)

lemma writeTicket_moves: "writeTicket draft no d = Inr d' \<Longrightarrow> db_moves d' = db_moves d"
  by (erule writeTicket_shape) simp

lemma move_step_services:
  "create_tx c rb at' d = Inr d' \<Longrightarrow> move_step d d'"
  "cancelRequest_tx a i at' d = Inr d' \<Longrightarrow> move_step d d'"
  "approve_tx c i ap n at' d = Inr d' \<Longrightarrow> move_step d d'"
  "reject_tx c i n at' d = Inr d' \<Longrightarrow> move_step d d'"
  "raise_tx c ob at' d = Inr d' \<Longrightarrow> move_step d d'"
  "setStatus_tx c i st at' d = Inr d' \<Longrightarrow> move_step d d'"
  "ask_tx c ab at' d = Inr d' \<Longrightarrow> move_step d d'"
  "decline_tx c i n d = Inr d' \<Longrightarrow> move_step d d'"
  by (rule move_step_same,
      auto simp: create_tx_def cancelRequest_tx_def approve_tx_def reject_tx_def raise_tx_def setStatus_tx_def
        ask_tx_def decline_tx_def Let_def allocateId_ok insertRequest_def insertOrder_def insertAsk_def)+

lemma move_step_writers:
  "transfer_tx c tb at' rnd d = Inr d' \<Longrightarrow> move_step d d'"
  "redirect_tx coll c i from at' rnd d = Inr d' \<Longrightarrow> move_step d d'"
  "issue_tx c i at' rnd d = Inr d' \<Longrightarrow> move_step d d'"
  "dispatch_tx c i at' rnd d = Inr d' \<Longrightarrow> move_step d d'"
  "distribute_tx c db at' rnd d = Inr d' \<Longrightarrow> move_step d d'"
  "answer_tx c i g at' rnd d = Inr d' \<Longrightarrow> move_step d d'"
  unfolding transfer_tx_def redirect_tx_def issue_tx_def dispatch_tx_def distribute_tx_def answer_tx_def Let_def
  by (rule move_step_same; auto simp: allocateTicket_ok dest: writeTicket_moves)+

lemma out_in_kinds:
  "m \<in> set (out_moves i t by' at') \<Longrightarrow> mv_kind m \<noteq> Mk_sale"
  "m \<in> set (in_moves i t by' at') \<Longrightarrow> mv_kind m \<noteq> Mk_sale"
  by (auto simp: out_moves_def in_moves_def ticket_move_def)

lemma use_kinds: "(\<And>m. m \<in> set ms \<Longrightarrow> mv_kind m \<noteq> Mk_sale) \<Longrightarrow> m \<in> set (withUseOnArrival ty ms) \<Longrightarrow> mv_kind m \<noteq> Mk_sale"
  by (fastforce simp: withUseOnArrival_def split: option.splits if_splits)

lemma move_step_handover: "handover_tx c i otp at' d = Inr (d', r) \<Longrightarrow> move_step d d'"
proof (erule handover_tx_shape)
  fix t assume "otp \<noteq> tk_otp t \<and> d' = countWrongOtp i d \<and> r \<noteq> None \<or>
     otp = tk_otp t \<and> r = None \<and>
     d' = emitChanged [Ch_tkt, Ch_req, Ch_rsv, Ch_stock]
       (follow (linkedRequest d (tk_refId t)) Req_Collected ''Collected'' (userName d (cl_sub c)) at'
         (appendHistory ''ticket'' i ''Handed over'' (userName d (cl_sub c)) at'
           (hand_out i t (cl_sub c) at' d)))"
  moreover have "move_step d (postMoves (out_moves i t (cl_sub c) at') d)"
    by (rule move_step_post) (rule out_in_kinds)
  moreover have "db_moves (hand_out i t (cl_sub c) at' d) = db_moves (postMoves (out_moves i t (cl_sub c) at') d)"
    by (simp add: hand_out_def)
  ultimately show "move_step d d'" by (auto simp: move_step_def)
qed

lemma move_step_receive: "receive_tx c i at' d = Inr d' \<Longrightarrow> move_step d d'"
proof (erule receive_tx_shape)
  fix t assume d': "d' = emitChanged [Ch_tkt, Ch_req, Ch_stock]
       (follow (linkedRequest d (tk_refId t)) Req_Closed ''Received'' (userName d (cl_sub c)) at'
         (appendHistory ''ticket'' i ''Received'' (userName d (cl_sub c)) at'
           (update_ticket i (\<lambda>t. t\<lparr>tk_status := Tkt_Received, tk_receivedAt := Some at'\<rparr>)
             (postMoves (withUseOnArrival (loadItemTypes d) (in_moves i t (cl_sub c) at')) d))))"
  have "move_step d (postMoves (withUseOnArrival (loadItemTypes d) (in_moves i t (cl_sub c) at')) d)"
    by (rule move_step_post, rule use_kinds [OF out_in_kinds(2)])
  then show "move_step d d'" by (simp add: d' move_step_def)
qed

lemma put_back_moves:
  "put_back_request q who at' d = Inr d' \<Longrightarrow> db_moves d' = db_moves d"
  "put_back_order o' who at' d = Inr d' \<Longrightarrow> db_moves d' = db_moves d"
  "put_back_ask a d = Inr d' \<Longrightarrow> db_moves d' = db_moves d"
  unfolding put_back_request_def put_back_order_def put_back_ask_def Let_def
  by (auto split: option.splits)

lemma move_step_cancel: "cancel_tx c i raw at' d = Inr d' \<Longrightarrow> move_step d d'"
  by (erule cancel_tx_shape, rule move_step_same) (auto simp: voidTicket_def split_beta dest!: put_back_moves)

lemma move_step_batch: "makeBatch_tx c bb at' d = Inr d' \<Longrightarrow> move_step d d'"
proof -
  have p: "\<exists>ms. db_moves (postMoves [yield_move b n] (d\<lparr>db_seq := s\<rparr>)) = db_moves d @ ms \<and>
      (\<forall>m \<in> set ms. mv_kind m \<noteq> Mk_sale)" for b n s
    using move_step_post [of "[yield_move b n]" "d\<lparr>db_seq := s\<rparr>"] by (simp add: move_step_def yield_move_def)
  have w: "writeBatch b d = Inr e \<Longrightarrow> move_step d e" for b e
    using p [of b] by (auto simp: writeBatch_def Let_def allocateNumber_def insertBatch_ok move_step_def
        split: option.splits if_splits)
  show "makeBatch_tx c bb at' d = Inr d' \<Longrightarrow> move_step d d'"
    unfolding makeBatch_tx_def Let_def by (auto dest: w simp: move_step_def)
qed

lemmas move_step_tx = move_step_services move_step_writers move_step_batch move_step_receive move_step_cancel

lemma move_step_exec: "move_step d (snd (exec coll op d))"
proof -
  have refl: "move_step d d" by (rule move_step_same) simp
  have ho: "move_step d (snd (handover c i otp at' d))" for c i otp at'
    by (auto simp: handover_def intro: refl move_step_handover split: sum.splits option.splits)
  show ?thesis
    by (cases op; simp add: service_defs; (rule ho | rule keeps_tx, erule move_step_tx, rule refl))
qed

text \<open>No stock service writes the locations.\<close>

lemma locations_prims [simp]:
  "db_locations (update_request i f d) = db_locations d" "db_locations (update_pord i g d) = db_locations d"
  "db_locations (update_ask i h d) = db_locations d" "db_locations (appendHistory x b s w at' d) = db_locations d"
  "db_locations (emitChanged ch d) = db_locations d" "db_locations (setRequestStatus i st d) = db_locations d"
  "db_locations (releaseRequest i st d) = db_locations d" "db_locations (reopenShopAsk i d) = db_locations d"
  "db_locations (follow l st w who at' d) = db_locations d" "db_locations (setOrderStatus i pst d) = db_locations d"
  "db_locations (setLineApprovals i ds d) = db_locations d" "db_locations (countWrongOtp i d) = db_locations d"
  "db_locations (hand_out i t by' at' d) = db_locations d" "db_locations (snd (releaseForTicket i at' d)) = db_locations d"
  by (simp_all add: update_request_def update_pord_def update_ask_def appendHistory_def emitChanged_def
      setRequestStatus_def releaseRequest_def reopenShopAsk_def follow_def setOrderStatus_def hand_out_def
      setLineApprovals_def update_ticket_def countWrongOtp_def releaseForTicket_def Let_def split: option.splits)

lemma writeTicket_locations: "writeTicket draft no d = Inr d' \<Longrightarrow> db_locations d' = db_locations d"
  by (erule writeTicket_shape) simp

lemma put_back_locations:
  "put_back_request q who at' d = Inr d' \<Longrightarrow> db_locations d' = db_locations d"
  "put_back_order o' who at' d = Inr d' \<Longrightarrow> db_locations d' = db_locations d"
  "put_back_ask a d = Inr d' \<Longrightarrow> db_locations d' = db_locations d"
  unfolding put_back_request_def put_back_order_def put_back_ask_def Let_def
  by (auto split: option.splits)

lemma batch_locations: "writeBatch b d = Inr d' \<Longrightarrow> db_locations d' = db_locations d"
  by (auto simp: writeBatch_def Let_def allocateNumber_def insertBatch_ok split: option.splits if_splits)

lemma locations_tx:
  "create_tx c rb at' d = Inr d' \<Longrightarrow> db_locations d' = db_locations d"
  "cancelRequest_tx a i at' d = Inr d' \<Longrightarrow> db_locations d' = db_locations d"
  "approve_tx c i ap n at' d = Inr d' \<Longrightarrow> db_locations d' = db_locations d"
  "reject_tx c i n at' d = Inr d' \<Longrightarrow> db_locations d' = db_locations d"
  "raise_tx c ob at' d = Inr d' \<Longrightarrow> db_locations d' = db_locations d"
  "setStatus_tx c i ost at' d = Inr d' \<Longrightarrow> db_locations d' = db_locations d"
  "ask_tx c ab at' d = Inr d' \<Longrightarrow> db_locations d' = db_locations d"
  "decline_tx c i n d = Inr d' \<Longrightarrow> db_locations d' = db_locations d"
  "transfer_tx c tb at' rnd d = Inr d' \<Longrightarrow> db_locations d' = db_locations d"
  "redirect_tx coll c i from at' rnd d = Inr d' \<Longrightarrow> db_locations d' = db_locations d"
  "issue_tx c i at' rnd d = Inr d' \<Longrightarrow> db_locations d' = db_locations d"
  "dispatch_tx c i at' rnd d = Inr d' \<Longrightarrow> db_locations d' = db_locations d"
  "distribute_tx c db at' rnd d = Inr d' \<Longrightarrow> db_locations d' = db_locations d"
  "answer_tx c i g at' rnd d = Inr d' \<Longrightarrow> db_locations d' = db_locations d"
  "makeBatch_tx c bb at' d = Inr d' \<Longrightarrow> db_locations d' = db_locations d"
  by (auto simp: create_tx_def cancelRequest_tx_def approve_tx_def reject_tx_def raise_tx_def setStatus_tx_def
      ask_tx_def decline_tx_def Let_def allocateId_ok insertRequest_def insertOrder_def insertAsk_def
      transfer_tx_def redirect_tx_def issue_tx_def dispatch_tx_def distribute_tx_def answer_tx_def makeBatch_tx_def
      allocateTicket_ok dest!: writeTicket_locations batch_locations)

lemma locations_tickets:
  "handover_tx c i otp at' d = Inr (d', r) \<Longrightarrow> db_locations d' = db_locations d"
  "receive_tx c i at' d = Inr d' \<Longrightarrow> db_locations d' = db_locations d"
  "cancel_tx c i raw at' d = Inr d' \<Longrightarrow> db_locations d' = db_locations d"
proof -
  show "handover_tx c i otp at' d = Inr (d', r) \<Longrightarrow> db_locations d' = db_locations d"
    by (erule handover_tx_shape) auto
  show "receive_tx c i at' d = Inr d' \<Longrightarrow> db_locations d' = db_locations d"
    by (erule receive_tx_shape) simp
  show "cancel_tx c i raw at' d = Inr d' \<Longrightarrow> db_locations d' = db_locations d"
    by (erule cancel_tx_shape) (auto simp: voidTicket_def split_beta dest!: put_back_locations)
qed

lemma exec_locations: "db_locations (snd (exec coll op d)) = db_locations d"
proof -
  have ho: "db_locations (snd (handover c i otp at' d)) = db_locations d" for c i otp at'
    by (auto simp: handover_def dest: locations_tickets split: sum.splits option.splits)
  show ?thesis
    by (cases op; simp add: service_defs; (rule ho | rule keeps_tx [where P = "\<lambda>e. db_locations e = db_locations d"],
        (erule locations_tx | erule locations_tickets), rule refl))
qed

section \<open>The session and the bill\<close>

lemma session_pass_ok:
  "session_pass loc by' at' us h = Inr (sid, h1) \<Longrightarrow>
   (\<exists>r. openSessionAt h loc = Some (sid, r)) \<and> h1 = h \<or>
   openSessionAt h loc = None \<and> session_of h sid = None \<and>
     h1 = h\<lparr>ho_sessions := ho_sessions h @ [(sid, \<lparr>se_loc = loc, se_openedAt = at', se_openedBy = by', se_closed = None\<rparr>)]\<rparr>"
  by (induction us) (auto split: option.splits if_splits)

lemma sessionFor_ok:
  assumes "sessionFor loc by' at' us h = Inr (sid, h1)"
  shows "(\<exists>r. openSessionAt h loc = Some (sid, r)) \<and> h1 = h \<or>
   openSessionAt h loc = None \<and> session_of h sid = None \<and>
     h1 = h\<lparr>ho_sessions := ho_sessions h @ [(sid, \<lparr>se_loc = loc, se_openedAt = at', se_openedBy = by', se_closed = None\<rparr>)]\<rparr>"
  using assms unfolding sessionFor_def by (rule session_pass_ok)

lemma sessionFor_db: "sessionFor loc by' at' us h = Inr (sid, h1) \<Longrightarrow> ho_db h1 = ho_db h \<and> ho_bills h1 = ho_bills h
    \<and> ho_settlements h1 = ho_settlements h"
  using sessionFor_ok [of loc by' at' us h sid h1] by auto

lemma insertBill_ok: "insertBill no b h = Inr h' \<Longrightarrow> bill_of h no = None \<and> h' = h\<lparr>ho_bills := ho_bills h @ [(no, b)]\<rparr>"
  by (auto simp: insertBill_def bill_of_def split: if_splits)

lemma write_sale_shape:
  assumes "write_sale input at' s sid payer phone pct plan h = Inr (no, h')"
  obtains n where "db_seq (ho_db h) K_bill = Some n" "no = formatId K_bill n at'" "bill_of h no = None"
    "h' = h\<lparr>ho_db := postMoves (sale_moves plan no (si_operator input) at') ((ho_db h)\<lparr>db_seq := (db_seq (ho_db h))(K_bill \<mapsto> n + 1)\<rparr>),
        ho_bills := ho_bills h @ [(no, sale_bill input at' sid payer phone pct plan)]\<rparr>"
    "left_refusal (ho_db h') s (taken plan) = None"
  using assms
  by (auto simp: write_sale_def Let_def allocateId_ok on_db_def bill_of_def dest!: insertBill_ok)

lemma postSale_shape:
  assumes "postSale input at' us h = Inr ((no, ch), h')"
  obtains l sid h1 phone payer where
    "map_of (db_locations (ho_db h)) (si_loc input) = Some l" "loc_active l"
    "sessionFor (si_loc input) (si_operator input) at' us h = Inr (sid, h1)"
    "sale_payer input h1 = Inr payer" "assertSellable (sellableAt h1 (si_loc input)) (cartOf (si_lines input)) = None"
    "credit_refusal h1 payer (pl_tot (sale_plan input h1 payer)) (snd (sale_terms h1 payer)) = None"
    "write_sale input at' (sellableAt h1 (si_loc input)) sid payer phone (fst (sale_terms h1 payer)) (sale_plan input h1 payer)
       (on_db (lockBalances (map (\<lambda>t. (si_loc input, fst t)) (taken (sale_plan input h1 payer)))) h1) = Inr (no, h')"
  using assms
  by (auto simp: postSale_def Let_def lockLocation_def split: option.splits)

section \<open>What a sale takes\<close>

lemma inv_cover:
  assumes "inv d" "\<And>c. held d c \<le> onhand d c + delta_of ms c"
  shows "inv (postMoves ms d)"
proof -
  have "ledger_ok d" using assms(1) by (simp add: inv_def stock_inv_def)
  then have "covered (postMoves ms d)"
    using assms(2) by (intro coveredI) (simp add: onhand_postMoves [OF is3_onhand])
  then show ?thesis using assms(1) by (simp add: inv_def stock_inv_def ledger_ok_postMoves tickets_ok_postMoves requests_ok_prims)
qed

lemma plan_moves:
  "pl_moves (sale_plan input h payer) = map (\<lambda>c. \<lparr>sm_loc = si_loc input, sm_it = fst c, sm_qty = - snd c\<rparr>)
     (filter (\<lambda>c. \<not> isMTO (loadMaster (ho_db h)) (fst c)) (cartOf (si_lines input)))"
  using foldl_bill_moves by (simp add: sale_plan_def planBill_def)

lemma taken_keys: "fst ` set (taken plan) = sm_it ` set (pl_moves plan)"
  by (simp only: taken_def keys_foldLines set_map image_image fst_conv)

lemma first_some_map_None: "first_some (map f xs) = None \<longleftrightarrow> (\<forall>x \<in> set xs. f x = None)"
  by (auto simp: first_some_None)

lemma sale_free_eq: "sale_free d loc its it = freeAt d loc its it"
  by (simp add: sale_free_def freeAt_def onHandAt_def balancesAt_def)

lemma left_refusal_covers:
  assumes "left_refusal d s (taken plan) = None" "it \<in> sm_it ` set (pl_moves plan)" "ledger_ok d" "resv_ok d"
  shows "held d (sv_loc s, it) \<le> onhand d (sv_loc s, it)"
proof -
  obtain q where q: "(it, q) \<in> set (taken plan)" using assms(2) taken_keys [of plan] by force
  then have "it \<in> set (map fst (taken plan))" by force
  moreover have "0 \<le> freeAt d (sv_loc s) (map fst (taken plan)) it"
    using assms(1) q by (auto simp: left_refusal_def first_some_map_None sale_free_eq Let_def)
  ultimately show ?thesis using freeAt_eq [OF assms(3,4)] by fastforce
qed

lemma sale_delta_out: "c \<notin> (\<lambda>m. (sm_loc m, sm_it m)) ` set (pl_moves plan) \<Longrightarrow> delta_of (sale_moves plan no by' at') c = 0"
  unfolding delta_of_def by (rule sum_list_zero) (auto simp: sale_moves_def mv_cell_def)

lemma inv_write_sale:
  assumes inv: "inv (ho_db h)" and w: "write_sale input at' s sid payer phone pct plan h = Inr (no, h')"
    and here: "\<forall>m \<in> set (pl_moves plan). sm_loc m = sv_loc s"
  shows "inv (ho_db h')"
  using w
proof (rule write_sale_shape)
  fix n
  let ?d = "(ho_db h)\<lparr>db_seq := (db_seq (ho_db h))(K_bill \<mapsto> n + 1)\<rparr>"
  let ?ms = "sale_moves plan no (si_operator input) at'"
  assume h': "h' = h\<lparr>ho_db := postMoves ?ms ?d, ho_bills := ho_bills h @ [(no, sale_bill input at' sid payer phone pct plan)]\<rparr>"
    and left: "left_refusal (ho_db h') s (taken plan) = None"
  have d: "inv ?d" using inv by simp
  then have ok: "ledger_ok ?d" "resv_ok ?d" by (auto simp: inv_def stock_inv_def)
  have post: "onhand (postMoves ?ms ?d) c = onhand ?d c + delta_of ?ms c" for c
    by (rule onhand_postMoves) (rule is3_onhand [OF ok(1)])
  have "held ?d c \<le> onhand ?d c + delta_of ?ms c" for c
  proof (cases "c \<in> (\<lambda>m. (sm_loc m, sm_it m)) ` set (pl_moves plan)")
    case True
    then obtain it where c: "c = (sv_loc s, it)" "it \<in> sm_it ` set (pl_moves plan)" using here by auto
    have "left_refusal (postMoves ?ms ?d) s (taken plan) = None" using left h' by simp
    from left_refusal_covers [OF this c(2) ledger_ok_postMoves [OF ok(1)]] ok(2)
    show ?thesis unfolding c(1) [symmetric] using post by simp
  next
    case False
    have "held ?d c \<le> onhand ?d c" using d by (auto simp: inv_def stock_inv_def dest: coveredD)
    then show ?thesis using sale_delta_out [OF False] by simp
  qed
  from inv_cover [OF d this] show "inv (ho_db h')" by (simp add: h')
qed

lemma inv_sale:
  assumes "inv (ho_db h)" "postSale i at' us h = Inr ((no, ch), h')"
  shows "inv (ho_db h')"
  using assms(2)
proof (rule postSale_shape)
  fix l sid h1 phone payer
  let ?h2 = "on_db (lockBalances (map (\<lambda>t. (si_loc i, fst t)) (taken (sale_plan i h1 payer)))) h1"
  assume "sessionFor (si_loc i) (si_operator i) at' us h = Inr (sid, h1)"
  then have "ho_db h1 = ho_db h" using sessionFor_db by blast
  then have d: "inv (ho_db ?h2)" using assms(1) by simp
  assume w: "write_sale i at' (sellableAt h1 (si_loc i)) sid payer phone (fst (sale_terms h1 payer)) (sale_plan i h1 payer) ?h2 = Inr (no, h')"
  from inv_write_sale [OF d w] show "inv (ho_db h')" by (auto simp: plan_moves sellableAt_def Let_def)
qed

section \<open>What a void gives back\<close>

definition sale_move :: "string \<Rightarrow> move \<Rightarrow> bool" where
  "sale_move no m \<longleftrightarrow> mv_refType m = ''bill'' \<and> mv_refId m = no \<and> mv_kind m = Mk_sale"

text \<open>What a bill's sale added to a cell, a figure of nothing or less.\<close>

definition sold :: "db \<Rightarrow> string \<Rightarrow> cell \<Rightarrow> number" where
  "sold d no c = (\<Sum>m\<leftarrow>filter (sale_move no) (db_moves d). if mv_cell m = c then mv_qty m else 0)"

definition quiet :: "db \<Rightarrow> db \<Rightarrow> bool" where
  "quiet d d' \<longleftrightarrow> same_stock d d' \<and> db_requests d' = db_requests d \<and> db_locations d' = db_locations d"

lemma quiet_inv: "quiet d d' \<Longrightarrow> inv d' = inv d"
  using inv_cong by (auto simp: quiet_def)

lemma quiet_read:
  assumes "quiet d d'"
  shows "onhand d' = onhand d" "held d' = held d" "hold_of d' = hold_of d" "db_moves d' = db_moves d"
    "ticket_of d' = ticket_of d" "request_of d' = request_of d"
  using assms same_stock_read [of d d'] by (auto simp: quiet_def same_stock_def ticket_of_def request_of_def)

lemma quiet_locations: "quiet d d' \<Longrightarrow> db_locations d' = db_locations d"
  by (simp add: quiet_def)

lemma quiet_refl [simp]: "quiet d d"
  by (simp add: quiet_def)

lemma quiet_trans: "quiet a b \<Longrightarrow> quiet b c \<Longrightarrow> quiet a c"
  by (auto simp: quiet_def intro: same_stock_trans)

lemma quiet_prims [simp]:
  "quiet a (appendHistory t b s w at' d) = quiet a d" "quiet a (emitChanged ch d) = quiet a d"
  "quiet a (d\<lparr>db_seq := q\<rparr>) = quiet a d" "quiet (appendHistory t b s w at' d) a = quiet d a"
  "quiet a (d\<lparr>db_users := us\<rparr>) = quiet a d"
  by (simp_all add: quiet_def same_stock_def appendHistory_def emitChanged_def)

lemma reversal_delta:
  assumes "\<And>m. m \<in> set (db_moves d) \<Longrightarrow> is3 (mv_qty m)"
  shows "delta_of (map (reversal no by' at') (saleMoves d no)) c = - sold d no c"
proof -
  have "delta_of (map (reversal no by' at') (filter (\<lambda>(i, m). mv_refType m = ''bill'' \<and> mv_refId m = no \<and> mv_kind m = Mk_sale) (enumerate k ms))) c
    = - (\<Sum>m\<leftarrow>filter (sale_move no) ms. if mv_cell m = c then mv_qty m else 0)"
    if "\<And>m. m \<in> set ms \<Longrightarrow> is3 (mv_qty m)" for k ms
    using that by (induction ms arbitrary: k) (auto simp: sale_move_def reversal_def mv_cell_def round3_minus_grid)
  then show ?thesis using assms by (simp add: saleMoves_def sold_def)
qed

lemma sold_nonpos: "sales_ok d \<Longrightarrow> sold d no c \<le> 0"
proof -
  have "(\<Sum>m\<leftarrow>filter (sale_move no) ms. if mv_cell m = c then mv_qty m else 0) \<le> 0"
    if "\<forall>m \<in> set ms. mv_kind m = Mk_sale \<longrightarrow> mv_qty m \<le> 0" for ms
    using that by (induction ms) (auto simp: sale_move_def add_nonpos_nonpos)
  then show "sales_ok d \<Longrightarrow> ?thesis" by (auto simp: sales_ok_def sold_def)
qed

definition bill_reversals :: "house \<Rightarrow> string \<Rightarrow> string \<Rightarrow> instant \<Rightarrow> move list" where
  "bill_reversals h no by' at' = map (reversal no by' at') (saleMoves (ho_db h) no)"

text \<open>What a move of a QR order, a queued refund and a void write, each in one piece.\<close>

lemma moveQrOrder_shape:
  assumes "moveQrOrder row to who at' note patch h = Inr h'"
  shows "to \<in> set (QR_ORDER_TRANSITIONS (qd_status (snd row))) \<and> (\<exists>d. quiet (ho_db h) d \<and>
    h' = h\<lparr>ho_db := d, ho_qrOrders := update_row (ho_qrOrders h) (fst row) (\<lambda>r. patch (r\<lparr>qd_status := to\<rparr>))\<rparr>)"
proof -
  let ?d = "appendHistory ''qr_order'' (fst row) (case truthy note of Some n \<Rightarrow> qr_word to @ '' - '' @ n | None \<Rightarrow> qr_word to) who at' (ho_db h)"
  from assms have "to \<in> set (QR_ORDER_TRANSITIONS (qd_status (snd row)))" and
    "h' = h\<lparr>ho_db := ?d, ho_qrOrders := update_row (ho_qrOrders h) (fst row) (\<lambda>r. patch (r\<lparr>qd_status := to\<rparr>))\<rparr>"
    by (auto simp: moveQrOrder_def on_db_def)
  moreover have "quiet (ho_db h) ?d" by simp
  ultimately show ?thesis by blast
qed

definition new_refund :: "string \<Rightarrow> string \<Rightarrow> number \<Rightarrow> refundReason \<Rightarrow> string option \<Rightarrow> instant \<Rightarrow> refundRow" where
  "new_refund oid payment amount reason no at' = \<lparr>rf_order = oid, rf_bill = no, rf_payment = payment, rf_amount = amount,
     rf_reason = reason, rf_status = Ref_Pending, rf_attempts = 0, rf_next = at', rf_error = None, rf_rzp = None,
     rf_processed = None\<rparr>"

lemma queueRefund_shape:
  assumes "queueRefund oid payment amount reason no at' h = Inr h'"
  shows "\<exists>i. map_of (ho_refunds h) i = None \<and> 0 < amount \<and>
    h' = h\<lparr>ho_refunds := ho_refunds h @ [(i, new_refund oid payment amount reason no at')]\<rparr>"
  using assms by (auto simp: queueRefund_def new_refund_def Let_def split: if_splits)

definition void_qr :: "(string \<times> qrOrderRow) option \<Rightarrow> string \<Rightarrow> number \<Rightarrow> instant \<Rightarrow> house \<Rightarrow> house \<Rightarrow> bool" where
  "void_qr order no amount at' h h' \<longleftrightarrow> (case Option.bind order (\<lambda>q. truthy (qd_payment (snd q))) of
      None \<Rightarrow> ho_qrOrders h' = ho_qrOrders h \<and> ho_refunds h' = ho_refunds h
    | Some p \<Rightarrow> 0 < amount \<and> Qr_Voided \<in> set (QR_ORDER_TRANSITIONS (qd_status (snd (the order)))) \<and>
        ho_qrOrders h' = update_row (ho_qrOrders h) (fst (the order)) (\<lambda>r. r\<lparr>qd_status := Qr_Voided\<rparr>) \<and>
        (\<exists>i. map_of (ho_refunds h) i = None \<and>
           ho_refunds h' = ho_refunds h @ [(i, new_refund (fst (the order)) p amount Rr_Void (Some no) at')]))"

lemma void_refund_shape:
  assumes "void_refund order no amount reason who at' h = Inr (r, h')"
  shows "quiet (ho_db h) (ho_db h') \<and> void_qr order no amount at' h h' \<and>
    h' = h\<lparr>ho_db := ho_db h', ho_qrOrders := ho_qrOrders h', ho_refunds := ho_refunds h'\<rparr>"
proof (cases "Option.bind order (\<lambda>q. truthy (qd_payment (snd q)))")
  case None
  then show ?thesis using assms by (simp add: void_refund_def void_qr_def)
next
  case (Some p)
  then obtain h1 where h1: "moveQrOrder (the order) Qr_Voided who at' (Some reason) id h = Inr h1"
    and h': "queueRefund (fst (the order)) p amount Rr_Void (Some no) at' h1 = Inr h'"
    using assms by (auto simp: void_refund_def)
  from queueRefund_shape [OF h'] obtain i where i: "map_of (ho_refunds h1) i = None" "0 < amount"
    "h' = h1\<lparr>ho_refunds := ho_refunds h1 @ [(i, new_refund (fst (the order)) p amount Rr_Void (Some no) at')]\<rparr>" by blast
  obtain d where "quiet (ho_db h) d" and q: "h1 = h\<lparr>ho_db := d,
      ho_qrOrders := update_row (ho_qrOrders h) (fst (the order)) (\<lambda>r. id (r\<lparr>qd_status := Qr_Voided\<rparr>))\<rparr>"
    and "Qr_Voided \<in> set (QR_ORDER_TRANSITIONS (qd_status (snd (the order))))"
    using moveQrOrder_shape [OF h1] by blast
  then show ?thesis using i Some by (auto simp: void_qr_def)
qed

lemma void_shape:
  assumes "voidBill_tx c no raw at' h = Inr h'"
  obtains b where "bill_of h no = Some b" "void_refusal c no (trim raw) at' b h = None"
    "quiet (postMoves (bill_reversals h no (cl_sub c) at') (ho_db h)) (ho_db h')"
    "ho_bills h' = update_row (ho_bills h) no (\<lambda>b. b\<lparr>bi_void := Some \<lparr>vm_at = at', vm_by = cl_sub c, vm_reason = trim raw\<rparr>\<rparr>)"
    "ho_sessions h' = ho_sessions h" "ho_settlements h' = ho_settlements h"
    "void_qr (void_order h b) no (bi_total b) at' h h'"
proof -
  from assms obtain b where b: "bill_of h no = Some b" "void_refusal c no (trim raw) at' b h = None"
    and "\<exists>r h4 ch. void_refund (void_order h b) no (bi_total b) (trim raw) (userName (ho_db h) (cl_sub c)) at'
      (on_db (appendHistory ''bill'' no (''Voided - '' @ trim raw) (userName (ho_db h) (cl_sub c)) at')
        (setVoided no \<lparr>vm_at = at', vm_by = cl_sub c, vm_reason = trim raw\<rparr>
          (on_db (postMoves (bill_reversals h no (cl_sub c) at')) h))) = Inr (r, h4) \<and> h' = on_db (emitChanged ch) h4"
    by (auto simp: voidBill_tx_def Let_def bill_reversals_def)
  then obtain r h4 ch where v: "void_refund (void_order h b) no (bi_total b) (trim raw) (userName (ho_db h) (cl_sub c)) at'
      (on_db (appendHistory ''bill'' no (''Voided - '' @ trim raw) (userName (ho_db h) (cl_sub c)) at')
        (setVoided no \<lparr>vm_at = at', vm_by = cl_sub c, vm_reason = trim raw\<rparr>
          (on_db (postMoves (bill_reversals h no (cl_sub c) at')) h))) = Inr (r, h4)" and h': "h' = on_db (emitChanged ch) h4"
    by blast
  obtain d q f where h4: "h4 = (setVoided no \<lparr>vm_at = at', vm_by = cl_sub c, vm_reason = trim raw\<rparr> h)\<lparr>ho_db := d, ho_qrOrders := q, ho_refunds := f\<rparr>"
    using void_refund_shape [OF v] by (auto simp: on_db_def setVoided_def)
  show ?thesis
    by (rule that [OF b]) (use void_refund_shape [OF v] in \<open>auto simp: h' h4 setVoided_def on_db_def void_qr_def split: option.splits\<close>)
qed

lemma void_onhand:
  assumes "inv (ho_db h)" "voidBill_tx c no raw at' h = Inr h'"
  shows "onhand (ho_db h') x = onhand (ho_db h) x - sold (ho_db h) no x \<and> held (ho_db h') x = held (ho_db h) x"
  using assms(2)
proof (rule void_shape)
  assume q: "quiet (postMoves (bill_reversals h no (cl_sub c) at') (ho_db h)) (ho_db h')"
  have ok: "ledger_ok (ho_db h)" using assms(1) by (simp add: inv_def stock_inv_def)
  then have "onhand (postMoves (bill_reversals h no (cl_sub c) at') (ho_db h)) x = onhand (ho_db h) x - sold (ho_db h) no x"
    using onhand_postMoves [OF is3_onhand [OF ok], of "bill_reversals h no (cl_sub c) at'" x] reversal_delta [of "ho_db h" no "cl_sub c" at' x]
    by (simp add: bill_reversals_def ledger_ok_def)
  with quiet_read [OF q] show ?thesis by simp
qed

lemma inv_voidBill:
  assumes "inv (ho_db h)" "sales_ok (ho_db h)" "voidBill_tx c no raw at' h = Inr h'"
  shows "inv (ho_db h')"
  using assms(3)
proof (rule void_shape)
  assume q: "quiet (postMoves (bill_reversals h no (cl_sub c) at') (ho_db h)) (ho_db h')"
  have "ledger_ok (ho_db h)" using assms(1) by (simp add: inv_def stock_inv_def)
  then have "0 \<le> delta_of (bill_reversals h no (cl_sub c) at') x" for x
    using reversal_delta [of "ho_db h" no "cl_sub c" at' x] sold_nonpos [OF assms(2), of no x]
    by (simp add: bill_reversals_def ledger_ok_def)
  from inv_gain [OF assms(1) this] show ?thesis using quiet_inv [OF q] by simp
qed

end
