(* ===== verification/Corrections.thy ===== *)
theory Corrections
  imports House Production Transitions
begin

text \<open>
  Putting a shelf right: \<open>apps/api/src/lib/adjustments.ts\<close> with its two callers, \<open>modules/adjustments\<close>
  (the store's and the kitchen's own screen) and \<open>modules/adjustmentRequests\<close> (a counter asks, the
  manager decides), and \<open>modules/wastage\<close>, the kitchen's record of what it keeps no stock of.

  Lemmas: an adjustment takes no more than is free and moves exactly its folded lines; a request is
  decided once.
\<close>

section \<open>One correction (\<open>lib/adjustments.ts\<close>)\<close>

record adjDraft =
  ad_loc :: key
  ad_reason :: adjustReason
  ad_note :: string
  ad_lines :: "line list"
  ad_by :: string

definition adjust_lines :: "adjDraft \<Rightarrow> line list" where
  "adjust_lines draft = filter (\<lambda>l. snd l \<noteq> 0) (foldLines (ad_lines draft))"

definition down_lines :: "line list \<Rightarrow> line list" where
  "down_lines ls = map (\<lambda>l. (fst l, round3 (- snd l))) (filter (\<lambda>l. snd l < 0) ls)"

definition unknown_item :: "master \<Rightarrow> line list \<Rightarrow> error option" where
  "unknown_item m ls = (case find (\<lambda>l. m_items m (fst l) = None) ls of
      None \<Rightarrow> None | Some l \<Rightarrow> Some (noItem (fst l)))"

definition unstocked :: "master \<Rightarrow> key \<Rightarrow> line list \<Rightarrow> error option" where
  "unstocked m loc ls =
     (case find (\<lambda>l. snd l < 0 \<and> (case m_items m (fst l) of Some i \<Rightarrow> usedOnArrival (item_t i) loc | None \<Rightarrow> False)) ls of
        None \<Rightarrow> None
      | Some l \<Rightarrow> Some (RuleError (notStockedAtKitchenMessage
          (case m_items m (fst l) of Some i \<Rightarrow> item_n i | None \<Rightarrow> fst l))))"

definition shortOf :: "master \<Rightarrow> string \<Rightarrow> key \<Rightarrow> number \<Rightarrow> number \<Rightarrow> string" where
  "shortOf m locName it want free = ''Cannot write off '' @ fq want (unitOf m it) @ '' '' @ unitOf m it @ '' of ''
     @ (case m_items m it of Some i \<Rightarrow> item_n i | None \<Rightarrow> it) @ '' - '' @ locName @ '' has only ''
     @ fq free (unitOf m it) @ '' '' @ unitOf m it @ '' free''"

definition short_line :: "master \<Rightarrow> string \<Rightarrow> (key \<Rightarrow> number) \<Rightarrow> line list \<Rightarrow> error option" where
  "short_line m locName free downs = (case find (\<lambda>l. free (fst l) < snd l) downs of
      None \<Rightarrow> None | Some l \<Rightarrow> Some (RuleError (shortOf m locName (fst l) (snd l) (free (fst l)))))"

definition left_line :: "master \<Rightarrow> string \<Rightarrow> (key \<Rightarrow> number) \<Rightarrow> line list \<Rightarrow> error option" where
  "left_line m locName left downs = (case find (\<lambda>l. left (fst l) < 0) downs of
      None \<Rightarrow> None
    | Some l \<Rightarrow> Some (RuleError (shortOf m locName (fst l) (snd l) (max 0 (round3 (left (fst l) + snd l))))))"

definition adjust_moves :: "adjDraft \<Rightarrow> string \<Rightarrow> instant \<Rightarrow> line list \<Rightarrow> move list" where
  "adjust_moves draft i at' ls = map (\<lambda>l. \<lparr>mv_loc = ad_loc draft, mv_it = fst l, mv_qty = snd l, mv_kind = Mk_adjustment,
     mv_refType = ''adjustment'', mv_refId = i, mv_by = Some (ad_by draft), mv_at = at', mv_reverses = None\<rparr>) ls"

definition insertAdj :: "string \<Rightarrow> adjRow \<Rightarrow> house \<Rightarrow> error + house" where
  "insertAdj i r h = bindE (insert_row (ho_adjs h) i r) (\<lambda>rs. Inr (h\<lparr>ho_adjs := rs\<rparr>))"

text \<open>The types the moves are posted with are the master the transaction loaded.\<close>

definition master_type :: "master \<Rightarrow> key \<Rightarrow> itemType option" where
  "master_type m it = map_option item_t (m_items m it)"

definition writeAdjustment :: "adjDraft \<Rightarrow> instant \<Rightarrow> house \<Rightarrow> error + string \<times> house" where
  "writeAdjustment draft at' h =
     (let loc = ad_loc draft; m = loadMaster (ho_db h); ls = adjust_lines draft; downs = down_lines ls; its = map fst ls in
     bindE (lockLocation (ho_db h) loc) (\<lambda>shelf.
     unless (if loc_type shelf = Outlet_Type then assertOpen shelf else None)
     (unless (assertRule (ls \<noteq> []) ''Enter a quantity to write off or count up on at least one line'')
     (unless (unknown_item m ls)
     (unless (unstocked m loc ls)
     (let h1 = on_db (lockBalances (map (Pair loc) its)) h in
      unless (short_line m (loc_n shelf) (freeAt (ho_db h1) loc its) downs)
     (bindE (try_db (allocateId K_adj at') h1) (\<lambda>(i, h2).
     (let h3 = on_db (postMoves (withUseOnArrival (master_type m) (adjust_moves draft i at' ls))) h2 in
      unless (left_line m (loc_n shelf) (freeAt (ho_db h3) loc (map fst downs)) downs)
     (bindE (insertAdj i \<lparr>aj_loc = loc, aj_reason = ad_reason draft, aj_note = ad_note draft, aj_by = ad_by draft,
         aj_at = at', aj_lines = ls\<rparr> h3) (\<lambda>h4.
      Inr (i, on_db (appendHistory ''adjustment'' i (REASON_LABEL (ad_reason draft)) (userName (ho_db h) (ad_by draft)) at') h4))))))))))))"

record adjBody =
  jb_loc :: key
  jb_reason :: adjustReason
  jb_note :: string
  jb_lines :: "line list"

definition adjust_tx :: "claims \<Rightarrow> adjBody \<Rightarrow> instant \<Rightarrow> house \<Rightarrow> error + house" where
  "adjust_tx c body at' h =
     bindE (writeAdjustment \<lparr>ad_loc = jb_loc body, ad_reason = jb_reason body, ad_note = jb_note body,
         ad_lines = jb_lines body, ad_by = cl_sub c\<rparr> at' h)
       (\<lambda>(i, h'). Inr (on_db (emitChanged [Ch_stock, Ch_adjustments]) h'))"

definition adjust :: "claims \<Rightarrow> adjBody \<Rightarrow> instant \<Rightarrow> house \<Rightarrow> error option \<times> house" where
  "adjust c body at' = transact (adjust_tx c body at')"

section \<open>A counter's ask (\<open>modules/adjustmentRequests\<close>)\<close>

definition noAdjReq :: "string \<Rightarrow> error" where
  "noAdjReq i = NotFoundError (''There is no adjustment request '' @ i @ ''.'')"

definition update_adjReq :: "string \<Rightarrow> (adjReqRow \<Rightarrow> adjReqRow) \<Rightarrow> house \<Rightarrow> house" where
  "update_adjReq i f h = h\<lparr>ho_adjReqs := update_row (ho_adjReqs h) i f\<rparr>"

definition insertAdjReq :: "string \<Rightarrow> adjReqRow \<Rightarrow> house \<Rightarrow> error + house" where
  "insertAdjReq i r h = bindE (insert_row (ho_adjReqs h) i r) (\<lambda>rs. Inr (h\<lparr>ho_adjReqs := rs\<rparr>))"

definition adjReq_trail :: "string \<Rightarrow> string \<Rightarrow> string \<Rightarrow> instant \<Rightarrow> house \<Rightarrow> house" where
  "adjReq_trail i status by' at' h =
     on_db (\<lambda>d. appendHistory ''adjustment_request'' i status (userName d by') at' d) h"

definition askAdjust_tx :: "claims \<Rightarrow> adjBody \<Rightarrow> instant \<Rightarrow> house \<Rightarrow> error + house" where
  "askAdjust_tx c body at' h =
     (let m = loadMaster (ho_db h); ls = filter (\<lambda>l. snd l \<noteq> 0) (map (\<lambda>l. (fst l, round3 (snd l))) (jb_lines body)) in
     bindE (lockLocation (ho_db h) (cl_loc c)) (\<lambda>from.
     unless (if loc_type from = Outlet_Type then assertOpen from else None)
     (unless (unknown_item m (jb_lines body))
     (unless (case repeated [] (jb_lines body) of None \<Rightarrow> None
        | Some it \<Rightarrow> Some (RuleError (''Combine the '' @ (case m_items m it of Some i \<Rightarrow> item_n i | None \<Rightarrow> it) @ '' lines into one'')))
     (unless (assertRule (ls \<noteq> []) ''Enter a quantity to write off or count up on at least one line'')
     (bindE (try_db (allocateId K_adj_req at') h) (\<lambda>(i, h1).
      bindE (insertAdjReq i \<lparr>ar_loc = cl_loc c, ar_reason = jb_reason body, ar_note = jb_note body, ar_by = cl_sub c,
         ar_at = at', ar_status = Adj_Sent, ar_approvedBy = None, ar_adjustment = None, ar_lines = ls\<rparr> h1)
       (\<lambda>h2. Inr (on_db (emitChanged [Ch_adjReq]) (adjReq_trail i ''Request sent'' (cl_sub c) at' h2))))))))))"

definition askAdjust :: "claims \<Rightarrow> adjBody \<Rightarrow> instant \<Rightarrow> house \<Rightarrow> error option \<times> house" where
  "askAdjust c body at' = transact (askAdjust_tx c body at')"

definition cancelAdjReq_tx :: "actor \<Rightarrow> string \<Rightarrow> instant \<Rightarrow> house \<Rightarrow> error + house" where
  "cancelAdjReq_tx a i at' h =
     found (map_of (ho_adjReqs h) i) (noAdjReq i) (\<lambda>r.
     unless (if ac_wide a then None else requireLocOf (ac_loc a) (ar_loc r) ''your own counter'')
     (unless (assertTransition ADJUSTMENT_REQUEST_TRANSITIONS adj_word (ar_status r) Adj_Cancelled i)
       (Inr (on_db (emitChanged [Ch_adjReq]) (adjReq_trail i ''Cancelled'' (ac_sub a) at'
          (update_adjReq i (\<lambda>r. r\<lparr>ar_status := Adj_Cancelled\<rparr>) h))))))"

definition cancelAdjReq :: "actor \<Rightarrow> string \<Rightarrow> instant \<Rightarrow> house \<Rightarrow> error option \<times> house" where
  "cancelAdjReq a i at' = transact (cancelAdjReq_tx a i at')"

definition approveAdjReq_tx :: "claims \<Rightarrow> string \<Rightarrow> instant \<Rightarrow> house \<Rightarrow> error + house" where
  "approveAdjReq_tx c i at' h =
     found (map_of (ho_adjReqs h) i) (noAdjReq i) (\<lambda>r.
     unless (assertTransition ADJUSTMENT_REQUEST_TRANSITIONS adj_word (ar_status r) Adj_Approved i)
     (bindE (writeAdjustment \<lparr>ad_loc = ar_loc r, ad_reason = ar_reason r, ad_note = ar_note r, ad_lines = ar_lines r,
         ad_by = cl_sub c\<rparr> at' h) (\<lambda>(adj, h1).
       Inr (on_db (emitChanged [Ch_adjReq, Ch_stock, Ch_adjustments]) (adjReq_trail i ''Approved'' (cl_sub c) at'
         (update_adjReq i (\<lambda>r. r\<lparr>ar_status := Adj_Approved, ar_approvedBy := Some (cl_sub c), ar_adjustment := Some adj\<rparr>) h1))))))"

definition approveAdjReq :: "claims \<Rightarrow> string \<Rightarrow> instant \<Rightarrow> house \<Rightarrow> error option \<times> house" where
  "approveAdjReq c i at' = transact (approveAdjReq_tx c i at')"

definition rejectAdjReq_tx :: "claims \<Rightarrow> string \<Rightarrow> string \<Rightarrow> instant \<Rightarrow> house \<Rightarrow> error + house" where
  "rejectAdjReq_tx c i note at' h =
     found (map_of (ho_adjReqs h) i) (noAdjReq i) (\<lambda>r.
     unless (assertRule (trim note \<noteq> []) ''Give a reason - the counter sees it on the request'')
     (unless (assertTransition ADJUSTMENT_REQUEST_TRANSITIONS adj_word (ar_status r) Adj_Rejected i)
       (Inr (on_db (emitChanged [Ch_adjReq]) (adjReq_trail i (''Rejected - '' @ trim note) (cl_sub c) at'
          (update_adjReq i (\<lambda>r. r\<lparr>ar_status := Adj_Rejected, ar_approvedBy := Some (cl_sub c)\<rparr>) h))))))"

definition rejectAdjReq :: "claims \<Rightarrow> string \<Rightarrow> string \<Rightarrow> instant \<Rightarrow> house \<Rightarrow> error option \<times> house" where
  "rejectAdjReq c i note at' = transact (rejectAdjReq_tx c i note at')"

section \<open>Wastage\<close>

record wasteBody =
  wb_it :: key
  wb_qty :: number
  wb_reason :: adjustReason
  wb_note :: string

definition insertWaste :: "string \<Rightarrow> wasteRow \<Rightarrow> house \<Rightarrow> error + house" where
  "insertWaste i r h =
     (if ws_qty r \<le> 0 then Inl (Internal ''new row for relation wastage violates check constraint wastage_qty_ck'')
      else if \<not> List.member WASTAGE_REASONS (ws_reason r)
      then Inl (Internal ''new row for relation wastage violates check constraint wastage_reason_ck'')
      else bindE (insert_row (ho_wastage h) i r) (\<lambda>rs. Inr (h\<lparr>ho_wastage := rs\<rparr>)))"

definition recordWaste_tx :: "claims \<Rightarrow> wasteBody \<Rightarrow> instant \<Rightarrow> house \<Rightarrow> error + house" where
  "recordWaste_tx c body at' h =
     found (loadItems (ho_db h) (wb_it body)) (noItem (wb_it body)) (\<lambda>item.
     unless (assertRule (usedOnArrival (item_t item) KITCHEN)
       (if item_t item = FG then item_n item @ '' is counted on the kitchen's rack - write it off from Kitchen Stock instead''
        else item_n item @ '' is not a raw material or packing line the kitchen uses - wastage is recorded for those alone''))
     (unless (assertRule (0 < round3 (wb_qty body)) ''Enter a quantity'')
     (unless (assertRule (wb_reason body \<noteq> OtherReason \<or> trim (wb_note body) \<noteq> []) ''Say what happened when the reason is Other'')
     (bindE (try_db (allocateId K_wastage at') h) (\<lambda>(i, h1).
      bindE (insertWaste i \<lparr>ws_it = wb_it body, ws_qty = round3 (wb_qty body), ws_reason = wb_reason body,
         ws_note = trim (wb_note body), ws_cost = item_cost item, ws_value = valueAtCost (round3 (wb_qty body)) (item_cost item),
         ws_by = cl_sub c, ws_at = at'\<rparr> h1)
       (\<lambda>h2. Inr (on_db (emitChanged [Ch_wastage])
          (on_db (appendHistory ''wastage'' i (REASON_LABEL (wb_reason body)) (userName (ho_db h) (cl_sub c)) at') h2))))))))"

definition recordWaste :: "claims \<Rightarrow> wasteBody \<Rightarrow> instant \<Rightarrow> house \<Rightarrow> error option \<times> house" where
  "recordWaste c body at' = transact (recordWaste_tx c body at')"

text \<open>What the kitchen was issued in a window: the landings of raw and packing lines, their use left out.\<close>

definition issuedBetween :: "house \<Rightarrow> instant \<Rightarrow> instant \<Rightarrow> (key \<times> number \<times> number) list" where
  "issuedBetween h from to = (let d = ho_db h;
       ms = filter (\<lambda>m. mv_loc m = KITCHEN \<and> (case db_items d (mv_it m) of Some i \<Rightarrow> item_t i = RAW \<or> item_t i = PACK | None \<Rightarrow> False)
          \<and> 0 < mv_qty m \<and> mv_kind m \<noteq> Mk_production_consume \<and> from \<le> mv_at m \<and> mv_at m < to) (db_moves d) in
     map (\<lambda>it. (it, pg_round3 (\<Sum>m\<leftarrow>filter (\<lambda>m. mv_it m = it) ms. mv_qty m),
         (case db_items d it of Some i \<Rightarrow> item_cost i | None \<Rightarrow> 0)))
       (stable_sort (\<lambda>a b. a \<le> b) (uniq (map mv_it ms))))"

end
