(* ===== verification/Buying.thy ===== *)
theory Buying
  imports House Production Transitions
begin

text \<open>
  Buying: \<open>apps/api/src/modules/requisitions\<close>, \<open>modules/purchaseorders\<close>, \<open>modules/grn\<close> with
  \<open>lib/claims.ts\<close> and \<open>lib/contract-rates.ts\<close>. The store asks for goods on a requisition, procurement
  claims approved lines onto a purchase order, the vendor delivers against it in instalments, and what an
  order gives up goes back on the procurement list: a claim is a quantity added to, or taken off, the
  \<open>ordered\<close> column of a requisition line.

  Lemmas: what an order's claims do to the requisition lines behind it, and what a goods receipt posts.
\<close>

definition prq_of :: "house \<Rightarrow> string \<Rightarrow> prqRow option" where
  "prq_of h i = map_of (ho_prqs h) i"

definition order_of :: "house \<Rightarrow> string \<Rightarrow> orderRow option" where
  "order_of h i = map_of (ho_orders h) i"

definition update_prq :: "string \<Rightarrow> (prqRow \<Rightarrow> prqRow) \<Rightarrow> house \<Rightarrow> house" where
  "update_prq i f h = h\<lparr>ho_prqs := update_row (ho_prqs h) i f\<rparr>"

definition update_order :: "string \<Rightarrow> (orderRow \<Rightarrow> orderRow) \<Rightarrow> house \<Rightarrow> house" where
  "update_order i f h = h\<lparr>ho_orders := update_row (ho_orders h) i f\<rparr>"

definition trail :: "string \<Rightarrow> string \<Rightarrow> string \<Rightarrow> string \<Rightarrow> instant \<Rightarrow> house \<Rightarrow> house" where
  "trail kind i status by' at' h = on_db (\<lambda>d. appendHistory kind i status (userName d by') at' d) h"

section \<open>Requisitions\<close>

definition noPrq :: "string \<Rightarrow> error" where
  "noPrq i = NotFoundError (''There is no requisition '' @ i @ ''.'')"

definition PRQ_REASON :: string where
  "PRQ_REASON = ''Give a reason - the store keeper sees it on the requisition''"

definition known_item :: "db \<Rightarrow> key \<Rightarrow> error option" where
  "known_item d it = (if loadItems d it \<noteq> None then None else
     (case retiredItemName d it of
        Some n \<Rightarrow> Some (RuleError (''Refused - '' @ n @ '' is retired and is no longer bought''))
      | None \<Rightarrow> Some (noItem it)))"

definition assertKnownItems :: "db \<Rightarrow> line list \<Rightarrow> error option" where
  "assertKnownItems d ls = first_some (map (\<lambda>l. known_item d (fst l)) ls)"

definition combine_refusal :: "db \<Rightarrow> line list \<Rightarrow> error option" where
  "combine_refusal d ls = (case repeated [] ls of None \<Rightarrow> None
     | Some it \<Rightarrow> Some (RuleError (''Combine the '' @ item_name d it @ '' lines into one'')))"

definition insertPrq :: "string \<Rightarrow> prqRow \<Rightarrow> house \<Rightarrow> error + house" where
  "insertPrq i r h = bindE (insert_row (ho_prqs h) i r) (\<lambda>rs. Inr (h\<lparr>ho_prqs := rs\<rparr>))"

definition createPrq_tx :: "claims \<Rightarrow> line list \<Rightarrow> string \<Rightarrow> instant \<Rightarrow> house \<Rightarrow> error + house" where
  "createPrq_tx c ls note at' h =
     unless (assertKnownItems (ho_db h) ls)
     (unless (assertRule (list_all (\<lambda>l. 0 < snd l) ls) ''Add at least one line before sending'')
     (unless (combine_refusal (ho_db h) ls)
     (bindE (try_db (allocateId K_prq at') h) (\<lambda>(i, h1).
      bindE (insertPrq i \<lparr>pq_by = cl_sub c, pq_at = at', pq_status = Prq_Sent, pq_note = note, pq_approvedBy = None,
          pq_apprNote = None, pq_lines = map (\<lambda>l. \<lparr>pn_it = fst l, pn_qty = round3 (snd l), pn_appr = 0, pn_ordered = 0, pn_short = None\<rparr>) ls\<rparr> h1)
       (\<lambda>h2. Inr (on_db (emitChanged [Ch_prq]) (trail ''requisition'' i ''Sent'' (cl_sub c) at' h2)))))))"

definition createPrq :: "claims \<Rightarrow> line list \<Rightarrow> string \<Rightarrow> instant \<Rightarrow> house \<Rightarrow> error option \<times> house" where
  "createPrq c ls note at' = transact (createPrq_tx c ls note at')"

definition made_refusal :: "db \<Rightarrow> line list \<Rightarrow> error option" where
  "made_refusal d ls =
     (case find (\<lambda>l. case loadItems d (fst l) of Some i \<Rightarrow> \<not> isPurchased (item_t i) | None \<Rightarrow> False) ls of
        None \<Rightarrow> None
      | Some l \<Rightarrow> Some (RuleError (item_name d (fst l) @ '' is made in-house - only raw, packing and MRP goods are bought'')))"

definition addDirect_tx :: "claims \<Rightarrow> line list \<Rightarrow> string \<Rightarrow> instant \<Rightarrow> house \<Rightarrow> error + house" where
  "addDirect_tx c ls note at' h =
     unless (assertKnownItems (ho_db h) ls)
     (unless (assertRule (list_all (\<lambda>l. 0 < snd l) ls) ''Enter a quantity on every line'')
     (unless (combine_refusal (ho_db h) ls)
     (unless (made_refusal (ho_db h) ls)
     (unless (assertRule (trim note \<noteq> []) ''Give a reason - it is kept on the requisition for the store keeper'')
     (bindE (try_db (allocateId K_prq at') h) (\<lambda>(i, h1).
      bindE (insertPrq i \<lparr>pq_by = cl_sub c, pq_at = at', pq_status = Prq_Approved, pq_note = note, pq_approvedBy = Some (cl_sub c),
          pq_apprNote = Some note, pq_lines = map (\<lambda>l. \<lparr>pn_it = fst l, pn_qty = round3 (snd l), pn_appr = round3 (snd l), pn_ordered = 0, pn_short = Some 0\<rparr>) ls\<rparr> h1)
       (\<lambda>h2. Inr (on_db (emitChanged [Ch_prq]) (trail ''requisition'' i ''Approved'' (cl_sub c) at' h2)))))))))"

definition addDirect :: "claims \<Rightarrow> line list \<Rightarrow> string \<Rightarrow> instant \<Rightarrow> house \<Rightarrow> error option \<times> house" where
  "addDirect c ls note at' = transact (addDirect_tx c ls note at')"

definition approve_prq_lines :: "(number \<times> number) list \<Rightarrow> prqLine list \<Rightarrow> prqLine list" where
  "approve_prq_lines ds ls = map (\<lambda>(n, l). if n < length ds
     then l\<lparr>pn_appr := fst (ds ! n), pn_short := Some (snd (ds ! n))\<rparr> else l) (enumerate 0 ls)"

text \<open>\<open>requisition_lines_ordered_ck\<close>, which a new approval can run into as well as a claim.\<close>

definition ordered_ck :: "prqLine list \<Rightarrow> bool" where
  "ordered_ck ls \<longleftrightarrow> list_all (\<lambda>l. 0 \<le> pn_ordered l \<and> pn_ordered l \<le> pn_appr l) ls"

definition setPrqApprovals :: "string \<Rightarrow> (number \<times> number) list \<Rightarrow> house \<Rightarrow> error + house" where
  "setPrqApprovals i ds h = (let h' = update_prq i (\<lambda>r. r\<lparr>pq_lines := approve_prq_lines ds (pq_lines r)\<rparr>) h in
     case prq_of h' i of Some r \<Rightarrow> if ordered_ck (pq_lines r) then Inr h'
         else Inl (Internal ''new row for relation requisition_lines violates check constraint requisition_lines_ordered_ck'')
     | None \<Rightarrow> Inr h')"

definition decidePrq :: "string \<Rightarrow> prqStatus \<Rightarrow> string \<Rightarrow> string \<Rightarrow> house \<Rightarrow> house" where
  "decidePrq i st note by' = update_prq i (\<lambda>r. r\<lparr>pq_status := st, pq_apprNote := Some note, pq_approvedBy := Some by'\<rparr>)"

definition approvePrq_tx :: "claims \<Rightarrow> string \<Rightarrow> jsnum list \<Rightarrow> string \<Rightarrow> instant \<Rightarrow> house \<Rightarrow> error + house" where
  "approvePrq_tx c i appr note at' h =
     found (prq_of h i) (noPrq i) (\<lambda>p.
     (let ls = map (\<lambda>l. (pn_it l, pn_qty l)) (pq_lines p); plan = planPrqApproval ls appr in
     unless (assertRule (length appr = length ls) (''Give a quantity for each of the '' @ nat_str (length ls) @ '' lines''))
     (unless (if snd plan = Prq_Declined then assertRule (trim note \<noteq> []) PRQ_REASON else None)
     (unless (assertTransition REQUISITION_TRANSITIONS prq_word (pq_status p) (snd plan) i)
     (bindE (setPrqApprovals i (map (\<lambda>l. (al_appr l, al_short l)) (fst plan)) h) (\<lambda>h1.
      Inr (on_db (emitChanged [Ch_prq]) (trail ''requisition'' i (prq_word (snd plan)) (cl_sub c) at'
        (decidePrq i (snd plan) note (cl_sub c) h1)))))))))"

definition approvePrq :: "claims \<Rightarrow> string \<Rightarrow> jsnum list \<Rightarrow> string \<Rightarrow> instant \<Rightarrow> house \<Rightarrow> error option \<times> house" where
  "approvePrq c i appr note at' = transact (approvePrq_tx c i appr note at')"

definition declinePrq_tx :: "claims \<Rightarrow> string \<Rightarrow> string \<Rightarrow> instant \<Rightarrow> house \<Rightarrow> error + house" where
  "declinePrq_tx c i note at' h =
     found (prq_of h i) (noPrq i) (\<lambda>p.
     unless (assertRule (trim note \<noteq> []) PRQ_REASON)
     (unless (assertTransition REQUISITION_TRANSITIONS prq_word (pq_status p) Prq_Declined i)
     (bindE (setPrqApprovals i (map (\<lambda>l. (0, pn_qty l)) (pq_lines p)) h) (\<lambda>h1.
      Inr (on_db (emitChanged [Ch_prq]) (trail ''requisition'' i ''Declined'' (cl_sub c) at'
        (decidePrq i Prq_Declined note (cl_sub c) h1)))))))"

definition declinePrq :: "claims \<Rightarrow> string \<Rightarrow> string \<Rightarrow> instant \<Rightarrow> house \<Rightarrow> error option \<times> house" where
  "declinePrq c i note at' = transact (declinePrq_tx c i note at')"

section \<open>Claims on requisition lines (\<open>lib/claims.ts\<close>)\<close>

definition add_to_line :: "nat \<Rightarrow> number \<Rightarrow> prqLine list \<Rightarrow> prqLine list" where
  "add_to_line n v ls = (if n < length ls
     then ls[n := (ls ! n)\<lparr>pn_ordered := pg_round3 (pn_ordered (ls ! n) + v)\<rparr>] else ls)"

definition add_one :: "number \<Rightarrow> claimSrc \<Rightarrow> house \<Rightarrow> error + house" where
  "add_one sign x h = (let h' = update_prq (c_prq x) (\<lambda>r. r\<lparr>pq_lines := add_to_line (c_line x) (round3 (sign * c_qty x)) (pq_lines r)\<rparr>) h in
     case prq_of h' (c_prq x) of Some r \<Rightarrow> if ordered_ck (pq_lines r) then Inr h'
         else Inl (Internal ''new row for relation requisition_lines violates check constraint requisition_lines_ordered_ck'')
     | None \<Rightarrow> Inr h')"

fun addOrdered :: "number \<Rightarrow> claimSrc list \<Rightarrow> house \<Rightarrow> error + house" where
  "addOrdered sign [] h = Inr h"
| "addOrdered sign (x # xs) h = bindE (add_one sign x h) (addOrdered sign xs)"

definition returnClaims :: "(string \<Rightarrow> string \<Rightarrow> bool) \<Rightarrow> claimSrc list \<Rightarrow> house \<Rightarrow> error + house" where
  "returnClaims coll released h = addOrdered (- 1) (foldClaims coll released) h"

section \<open>Contract rates (\<open>lib/contract-rates.ts\<close>)\<close>

definition js_paise :: "number \<Rightarrow> int" where "js_paise n = js_round (n * 100)"

definition live_contract :: "string \<Rightarrow> key list \<Rightarrow> string \<Rightarrow> contractRow \<Rightarrow> bool" where
  "live_contract vendor its on' r \<longleftrightarrow> ct_vendor r = vendor \<and> ct_active r \<and> List.member its (ct_it r) \<and>
     contractInWindow (ct_from r) (ct_to r) on'"

definition lockLiveContracts :: "house \<Rightarrow> string \<Rightarrow> key list \<Rightarrow> string \<Rightarrow> (string \<times> key \<times> number) list" where
  "lockLiveContracts h vendor its on' = map (\<lambda>(i, r). (i, ct_it r, ct_rate r))
     (filter (\<lambda>(i, r). live_contract vendor its on' r) (ho_contracts h))"

definition activeContractRates :: "house \<Rightarrow> string \<Rightarrow> key list \<Rightarrow> string \<Rightarrow> key \<Rightarrow> number option" where
  "activeContractRates h vendor its on' it =
     map_of (rev (map (\<lambda>(i, x, r). (x, r)) (lockLiveContracts h vendor its on'))) it"

definition logRateChange :: "string \<Rightarrow> number \<Rightarrow> number \<Rightarrow> string option \<Rightarrow> string \<Rightarrow> house \<Rightarrow> house" where
  "logRateChange ct old new po by' h = h\<lparr>ho_rateChanges := ho_rateChanges h @
     [\<lparr>rc_contract = ct, rc_old = old, rc_new = new, rc_po = po, rc_by = by'\<rparr>]\<rparr>"

text \<open>How many contracts moved, and the database with them moved.\<close>

fun syncContractRates ::
    "(string \<times> key \<times> number) list \<Rightarrow> (key \<Rightarrow> number option) \<Rightarrow> string \<Rightarrow> string \<Rightarrow> house \<Rightarrow> nat \<times> house" where
  "syncContractRates [] rates po by' h = (0, h)"
| "syncContractRates ((i, it, rate) # cs) rates po by' h =
     (case rates it of
        None \<Rightarrow> syncContractRates cs rates po by' h
      | Some next' \<Rightarrow>
          if next' \<le> 0 \<or> js_paise next' = js_paise rate then syncContractRates cs rates po by' h
          else (let new = of_int (js_paise next') / 100;
                    h1 = logRateChange i rate new (Some po) by' (h\<lparr>ho_contracts := update_row (ho_contracts h) i (\<lambda>r. r\<lparr>ct_rate := new\<rparr>)\<rparr>);
                    r = syncContractRates cs rates po by' h1
                in (fst r + 1, snd r)))"

section \<open>Purchase orders\<close>

definition noOrderPo :: "string \<Rightarrow> error" where
  "noOrderPo i = NotFoundError (''There is no purchase order '' @ i @ ''.'')"

record pick =
  pk_prq :: string
  pk_line :: nat
  pk_qty :: number
  pk_rate :: "number option"

definition pick_claim :: "pick \<Rightarrow> claimSrc" where
  "pick_claim p = \<lparr>c_prq = pk_prq p, c_line = pk_line p, c_qty = round3 (pk_qty p)\<rparr>"

definition line_at :: "house \<Rightarrow> string \<Rightarrow> nat \<Rightarrow> prqLine option" where
  "line_at h i n = (case prq_of h i of Some r \<Rightarrow> if n < length (pq_lines r) then Some (pq_lines r ! n) else None | None \<Rightarrow> None)"

definition pending_on :: "prqRow \<Rightarrow> prqLine \<Rightarrow> number" where
  "pending_on r l = (if pq_status r = Prq_Approved \<or> pq_status r = Prq_PartiallyApproved
     then round3 (pn_appr l - pn_ordered l) else 0)"

definition claim_refusal :: "house \<Rightarrow> claimSrc \<Rightarrow> error option" where
  "claim_refusal h f = (case prq_of h (c_prq f) of
     None \<Rightarrow> Some (noPrq (c_prq f))
   | Some r \<Rightarrow> (case line_at h (c_prq f) (c_line f) of
       None \<Rightarrow> Some (NotFoundError (''There is no line '' @ nat_str (c_line f) @ '' on '' @ c_prq f @ ''.''))
     | Some l \<Rightarrow> assertRule (c_qty f \<le> pending_on r l)
         ((case loadItems (ho_db h) (pn_it l) of Some i \<Rightarrow> item_n i | None \<Rightarrow> ''That line'') @ '' - only ''
           @ fq (pending_on r l) (unitOf (loadMaster (ho_db h)) (pn_it l)) @ '' still pending on '' @ c_prq f)))"

text \<open>The item behind a pick; every pick has one once the claims have passed.\<close>

definition pick_item :: "house \<Rightarrow> pick \<Rightarrow> key" where
  "pick_item h p = (case line_at h (pk_prq p) (pk_line p) of Some l \<Rightarrow> pn_it l | None \<Rightarrow> [])"

text \<open>The first rate given per item, refused where it is not above zero.\<close>

fun given_rates :: "house \<Rightarrow> pick list \<Rightarrow> (key \<times> number) list \<Rightarrow> error + (key \<times> number) list" where
  "given_rates h [] given = Inr given"
| "given_rates h (p # ps) given = (let it = pick_item h p in
     case pk_rate p of
       None \<Rightarrow> given_rates h ps given
     | Some rate \<Rightarrow> if map_of given it \<noteq> None then given_rates h ps given
         else unless (assertRule (0 < rate) (item_name (ho_db h) it @ '' - enter a rate above zero''))
           (given_rates h ps (given @ [(it, rate)])))"

fun merge_pick :: "key \<times> claimSrc \<Rightarrow> orderLine list \<Rightarrow> orderLine list" where
  "merge_pick x [] = [\<lparr>ol_it = fst x, ol_qty = c_qty (snd x), ol_rate = 0, ol_recv = 0, ol_rejected = 0, ol_src = [snd x]\<rparr>]"
| "merge_pick x (l # ls) = (if ol_it l = fst x
     then l\<lparr>ol_qty := round3 (ol_qty l + c_qty (snd x)), ol_src := ol_src l @ [snd x]\<rparr> # ls else l # merge_pick x ls)"

definition merged :: "house \<Rightarrow> pick list \<Rightarrow> orderLine list" where
  "merged h picks = foldl (\<lambda>ls p. merge_pick (pick_item h p, pick_claim p) ls) [] picks"

text \<open>\<open>writeLines\<close>: the lines are deleted and written again, so nothing is received on them.\<close>

definition fresh_line :: "orderLine \<Rightarrow> orderLine" where
  "fresh_line l = l\<lparr>ol_qty := round3 (ol_qty l), ol_rate := of_int (js_paise (ol_rate l)) / 100, ol_recv := 0, ol_rejected := 0,
     ol_src := map (\<lambda>x. x\<lparr>c_qty := round3 (c_qty x)\<rparr>) (ol_src l)\<rparr>"

definition writeLines :: "string \<Rightarrow> orderLine list \<Rightarrow> house \<Rightarrow> house" where
  "writeLines i ls = update_order i (\<lambda>o'. o'\<lparr>od_lines := map fresh_line ls\<rparr>)"

definition vendor_refusal :: "house \<Rightarrow> string \<Rightarrow> string \<Rightarrow> string \<Rightarrow> error option" where
  "vendor_refusal h v none tail = (case ho_vendors h v of None \<Rightarrow> Some (RuleError none)
     | Some r \<Rightarrow> assertRule (vn_active r) (vn_name r @ '' is inactive - reactivate it or '' @ tail))"

definition vendor_lead :: "house \<Rightarrow> string \<Rightarrow> number" where
  "vendor_lead h v = (case ho_vendors h v of Some r \<Rightarrow> vn_lead r | None \<Rightarrow> 0)"

definition price_line :: "house \<Rightarrow> string \<Rightarrow> key list \<Rightarrow> string \<Rightarrow> (key \<times> number) list \<Rightarrow> orderLine \<Rightarrow> orderLine" where
  "price_line h vendor its on' given l = l\<lparr>ol_rate := (case map_of given (ol_it l) of Some r \<Rightarrow> r
     | None \<Rightarrow> rateFor (activeContractRates h vendor its on' (ol_it l))
         (case loadItems (ho_db h) (ol_it l) of Some i \<Rightarrow> item_cost i | None \<Rightarrow> 0))\<rparr>"

definition insertOrderPo :: "string \<Rightarrow> orderRow \<Rightarrow> house \<Rightarrow> error + house" where
  "insertOrderPo i r h = bindE (insert_row (ho_orders h) i r) (\<lambda>rs. Inr (h\<lparr>ho_orders := rs\<rparr>))"

definition createPo_tx ::
    "(string \<Rightarrow> string \<Rightarrow> bool) \<Rightarrow> claims \<Rightarrow> string \<Rightarrow> pick list \<Rightarrow> instant \<Rightarrow> house \<Rightarrow> error + house" where
  "createPo_tx coll c vendor picks at' h =
     unless (assertRule (picks \<noteq> []) ''Pick at least one line before raising an order'')
     (unless (vendor_refusal h vendor ''Choose a vendor for this order'' ''choose another vendor'')
     (unless (assertRule (list_all (\<lambda>p. 0 < pk_qty p) picks) ''Enter a quantity on every line you pick'')
     (let folded = foldClaims coll (map pick_claim picks) in
      unless (first_some (map (claim_refusal h) folded))
     (bindE (given_rates h picks []) (\<lambda>given.
     (let live = lockLiveContracts h vendor (map fst given) (istDate at'); ls = merged h picks; its = map ol_it ls in
      bindE (try_db (allocateId K_po at') h) (\<lambda>(i, h1).
      bindE (insertOrderPo i \<lparr>od_vendor = vendor, od_at = at', od_status = Po_Draft,
          od_eta = Some (etaFrom at' (vendor_lead h vendor)), od_needsApproval = False, od_shortNote = None,
          od_receivedAt = None, od_lines = map fresh_line (map (price_line h vendor its (istDate at') given) ls)\<rparr> h1) (\<lambda>h2.
      bindE (addOrdered 1 folded h2) (\<lambda>h3.
      (let s = syncContractRates live (map_of given) i (cl_sub c) (trail ''purchase_order'' i ''Draft'' (cl_sub c) at' h3) in
       Inr (on_db (emitChanged (if fst s = 0 then [Ch_po, Ch_prq] else [Ch_po, Ch_prq, Ch_contracts])) (snd s))))))))))))"

definition createPo ::
    "(string \<Rightarrow> string \<Rightarrow> bool) \<Rightarrow> claims \<Rightarrow> string \<Rightarrow> pick list \<Rightarrow> instant \<Rightarrow> house \<Rightarrow> error option \<times> house" where
  "createPo coll c vendor picks at' = transact (createPo_tx coll c vendor picks at')"

end
