(* ===== verification/Shelves.thy ===== *)
theory Shelves
  imports Selling Corrections Orders
begin

text \<open>
  What the rest of the writers do to the shelves: an adjustment takes no more than is free, a goods receipt
  only adds, and everything else leaves the stock tables alone.
\<close>

section \<open>Adjustments\<close>

definition adj_start :: "adjDraft \<Rightarrow> nat \<Rightarrow> db \<Rightarrow> db" where
  "adj_start draft n d = (lockBalances (map (Pair (ad_loc draft)) (map fst (adjust_lines draft))) d)
     \<lparr>db_seq := (db_seq d)(K_adj \<mapsto> n + 1)\<rparr>"

definition adj_posted :: "adjDraft \<Rightarrow> string \<Rightarrow> instant \<Rightarrow> db \<Rightarrow> move list" where
  "adj_posted draft i at' d = withUseOnArrival (master_type (loadMaster d)) (adjust_moves draft i at' (adjust_lines draft))"

lemma adjust_shape:
  assumes "writeAdjustment draft at' h = Inr (i, h')"
  obtains n where "db_seq (ho_db h) K_adj = Some n" "i = formatId K_adj n at'" "adjust_lines draft \<noteq> []"
    "map_of (ho_adjs h) i = None"
    "left_line (loadMaster (ho_db h)) []
       (freeAt (postMoves (adj_posted draft i at' (ho_db h)) (adj_start draft n (ho_db h))) (ad_loc draft) (map fst (down_lines (adjust_lines draft))))
       (down_lines (adjust_lines draft)) = None"
    "quiet (postMoves (adj_posted draft i at' (ho_db h)) (adj_start draft n (ho_db h))) (ho_db h')"
    "h' = h\<lparr>ho_db := ho_db h', ho_adjs := ho_adjs h'\<rparr>"
proof -
  obtain shelf :: location and n where n: "db_seq (ho_db h) K_adj = Some n" "i = formatId K_adj n at'" and ne: "adjust_lines draft \<noteq> []"
    and new: "map_of (ho_adjs h) i = None"
    and left: "left_line (loadMaster (ho_db h)) (loc_n shelf)
       (freeAt (postMoves (adj_posted draft i at' (ho_db h)) (adj_start draft n (ho_db h))) (ad_loc draft) (map fst (down_lines (adjust_lines draft))))
       (down_lines (adjust_lines draft)) = None"
    and h': "h' = h\<lparr>ho_db := appendHistory ''adjustment'' i (REASON_LABEL (ad_reason draft)) (userName (ho_db h) (ad_by draft)) at'
         (postMoves (adj_posted draft i at' (ho_db h)) (adj_start draft n (ho_db h))), ho_adjs := ho_adjs h'\<rparr>"
    using assms
    by (auto simp: writeAdjustment_def Let_def allocateId_ok on_db_def insertAdj_def adj_start_def adj_posted_def)
  show ?thesis
  proof (rule that [OF n ne new])
    show "left_line (loadMaster (ho_db h)) [] (freeAt (postMoves (adj_posted draft i at' (ho_db h)) (adj_start draft n (ho_db h)))
       (ad_loc draft) (map fst (down_lines (adjust_lines draft)))) (down_lines (adjust_lines draft)) = None"
      using left by (auto simp: left_line_def split: option.splits)
    show "quiet (postMoves (adj_posted draft i at' (ho_db h)) (adj_start draft n (ho_db h))) (ho_db h')"
      by (subst h') simp
    show "h' = h\<lparr>ho_db := ho_db h', ho_adjs := ho_adjs h'\<rparr>"
      by (subst h', subst (3) h') simp
  qed
qed

lemma adjust_lines_props: "l \<in> set (adjust_lines draft) \<Longrightarrow> is3 (snd l) \<and> snd l \<noteq> 0"
  using is3_get0_foldLines [of "fst l" "snd l" "ad_lines draft"] by (auto simp: adjust_lines_def)

lemma adj_delta_up:
  assumes "\<And>l. l \<in> set ls \<Longrightarrow> is3 (snd l)" and "\<And>l. l \<in> set ls \<Longrightarrow> (ad_loc draft, fst l) = c \<Longrightarrow> 0 \<le> snd l"
  shows "0 \<le> delta_of (withUseOnArrival ty (adjust_moves draft i at' ls)) c"
proof -
  have "delta_of (withUseOnArrival ty (adjust_moves draft i at' ls)) c =
    (\<Sum>m\<leftarrow>adjust_moves draft i at' ls. if mv_cell m = c \<and> \<not> (\<exists>t. ty (mv_it m) = Some t \<and> 0 < mv_qty m \<and> usedOnArrival t (mv_loc m))
             then mv_qty m else 0)"
    by (rule use_on_arrival_delta) (use assms(1) in \<open>auto simp: adjust_moves_def\<close>)
  also have "0 \<le> \<dots>"
    by (rule sum_list_nonneg) (use assms(2) in \<open>auto simp: adjust_moves_def mv_cell_def\<close>)
  finally show ?thesis .
qed

lemma inv_adjust: "inv (ho_db h) \<Longrightarrow> writeAdjustment draft at' h = Inr (i, h') \<Longrightarrow> inv (ho_db h')"
proof (erule adjust_shape)
  fix n
  let ?d = "adj_start draft n (ho_db h)" and ?ms = "adj_posted draft i at' (ho_db h)"
  let ?downs = "down_lines (adjust_lines draft)"
  assume inv: "inv (ho_db h)" and q: "quiet (postMoves ?ms ?d) (ho_db h')"
    and left: "left_line (loadMaster (ho_db h)) [] (freeAt (postMoves ?ms ?d) (ad_loc draft) (map fst ?downs)) ?downs = None"
  have d: "inv ?d" using inv by (simp add: adj_start_def)
  then have ok: "ledger_ok ?d" "resv_ok ?d" by (auto simp: inv_def stock_inv_def)
  have post: "onhand (postMoves ?ms ?d) c = onhand ?d c + delta_of ?ms c" for c
    by (rule onhand_postMoves) (rule is3_onhand [OF ok(1)])
  have "held ?d c \<le> onhand ?d c + delta_of ?ms c" for c
  proof (cases "fst c = ad_loc draft \<and> snd c \<in> set (map fst ?downs)")
    case True
    then have c: "c = (ad_loc draft, snd c)" "snd c \<in> set (map fst ?downs)" by (auto simp: prod_eq_iff)
    have "\<not> freeAt (postMoves ?ms ?d) (ad_loc draft) (map fst ?downs) (snd c) < 0"
      using left c(2) by (auto simp: left_line_def find_None_iff split: option.splits)
    with freeAt_eq [OF ledger_ok_postMoves [OF ok(1)] _ c(2), of ?ms "ad_loc draft"] ok(2) c(1) post [of c]
    show ?thesis by simp
  next
    case False
    have "0 \<le> delta_of ?ms c" unfolding adj_posted_def
      by (rule adj_delta_up) (use False adjust_lines_props in \<open>force simp: down_lines_def\<close>)+
    moreover have "held ?d c \<le> onhand ?d c" using d by (auto simp: inv_def stock_inv_def dest: coveredD)
    ultimately show ?thesis by simp
  qed
  from inv_cover [OF d this] show "inv (ho_db h')" using quiet_inv [OF q] by simp
qed

lemma adj_kinds: "m \<in> set (adj_posted draft i at' d) \<Longrightarrow> mv_kind m \<noteq> Mk_sale"
  unfolding adj_posted_def by (erule use_kinds [rotated]) (auto simp: adjust_moves_def)

lemma move_step_adjust: "writeAdjustment draft at' h = Inr (i, h') \<Longrightarrow> move_step (ho_db h) (ho_db h')"
proof (erule adjust_shape)
  fix n
  assume "quiet (postMoves (adj_posted draft i at' (ho_db h)) (adj_start draft n (ho_db h))) (ho_db h')"
  moreover have "move_step (adj_start draft n (ho_db h)) (postMoves (adj_posted draft i at' (ho_db h)) (adj_start draft n (ho_db h)))"
    by (rule move_step_post) (rule adj_kinds)
  ultimately show "move_step (ho_db h) (ho_db h')"
    by (auto simp: move_step_def adj_start_def dest: quiet_read)
qed

section \<open>Goods receipts\<close>

lemma delta_of_concat: "delta_of (concat (map g xs)) c = (\<Sum>x\<leftarrow>xs. delta_of (g x) c)"
  by (induction xs) simp_all

lemma grn_gain: "0 \<le> delta_of (concat (map (grn_moves by' at') rs)) c"
proof -
  have "0 \<le> delta_of (grn_moves by' at' x) c" for x
    using r3.round_nonneg by (cases x) (auto simp: grn_moves_def Let_def less_imp_le)
  then show ?thesis unfolding delta_of_concat by (intro sum_list_nonneg) auto
qed

lemma insertGrns_rest: "insertGrns rs h = Inr h' \<Longrightarrow> h' = h\<lparr>ho_grns := ho_grns h'\<rparr>"
proof (induction rs arbitrary: h)
  case (Cons r rs)
  then obtain t where "insertGrns rs (h\<lparr>ho_grns := t\<rparr>) = Inr h'" by auto
  from Cons.IH [OF this] show ?case by simp
qed simp

lemma receive_shape:
  assumes "receivePo_tx c i body at' h = Inr h'"
  obtains o' rs where "order_of h i = Some o'" "receive_refusal h i o' body (istDate at') = None"
    "rs = receipts i (length (filter (\<lambda>g. gr_po (snd g) = i) (ho_grns h))) 0 (zip (od_lines o') (vb_lines body))"
    "receipt_ck (map received_line (zip (od_lines o') (vb_lines body)))"
    "quiet (postMoves (concat (map (grn_moves (cl_sub c) at') rs)) (ho_db h)) (ho_db h')"
    "ho_orders h' = update_row (ho_orders h) i (\<lambda>r. r\<lparr>od_lines := map received_line (zip (od_lines o') (vb_lines body)),
       od_status := receiptStatus (map po_line_of (map received_line (zip (od_lines o') (vb_lines body)))), od_receivedAt := Some at'\<rparr>)"
    "ho_bills h' = ho_bills h" "ho_sessions h' = ho_sessions h" "ho_settlements h' = ho_settlements h"
    "ho_qrOrders h' = ho_qrOrders h" "ho_refunds h' = ho_refunds h"
proof -
  obtain o' rs h1 where o': "order_of h i = Some o'" "receive_refusal h i o' body (istDate at') = None"
    and rs: "rs = receipts i (length (filter (\<lambda>g. gr_po (snd g) = i) (ho_grns h))) 0 (zip (od_lines o') (vb_lines body))"
    and ck: "receipt_ck (map received_line (zip (od_lines o') (vb_lines body)))"
    and g: "insertGrns (map (\<lambda>(gid, x). (gid, grn_row i body (cl_sub c) at' x)) rs) h = Inr h1"
    and h': "h' = on_db (emitChanged [Ch_po, Ch_grn, Ch_stock]) (trail ''purchase_order'' i
       (po_word (receiptStatus (map po_line_of (map received_line (zip (od_lines o') (vb_lines body)))))) (cl_sub c) at'
       (update_order i (\<lambda>r. r\<lparr>od_lines := map received_line (zip (od_lines o') (vb_lines body)),
         od_status := receiptStatus (map po_line_of (map received_line (zip (od_lines o') (vb_lines body)))), od_receivedAt := Some at'\<rparr>)
         (on_db (postMoves (concat (map (grn_moves (cl_sub c) at') rs))) h1)))"
    using assms by (auto simp: receivePo_tx_def Let_def split: if_splits)
  from insertGrns_rest [OF g] have "ho_db h1 = ho_db h" "ho_orders h1 = ho_orders h" "ho_bills h1 = ho_bills h"
    "ho_sessions h1 = ho_sessions h" "ho_settlements h1 = ho_settlements h" "ho_qrOrders h1 = ho_qrOrders h" "ho_refunds h1 = ho_refunds h"
    by (metis house.select_convs house.surjective house.update_convs(14))+
  then show ?thesis
    by (intro that [OF o' rs ck]) (simp_all add: h' trail_def update_order_def)
qed

lemma inv_receivePo: "inv (ho_db h) \<Longrightarrow> receivePo_tx c i body at' h = Inr h' \<Longrightarrow> inv (ho_db h')"
  by (erule receive_shape) (simp add: quiet_inv inv_gain grn_gain)

lemma move_step_receivePo: "receivePo_tx c i body at' h = Inr h' \<Longrightarrow> move_step (ho_db h) (ho_db h')"
proof (erule receive_shape)
  fix rs assume q: "quiet (postMoves (concat (map (grn_moves (cl_sub c) at') rs)) (ho_db h)) (ho_db h')"
  have "move_step (ho_db h) (postMoves (concat (map (grn_moves (cl_sub c) at') rs)) (ho_db h))"
    by (rule move_step_post) (auto simp: grn_moves_def Let_def split: prod.splits if_splits)
  with quiet_read [OF q] show "move_step (ho_db h) (ho_db h')" by (simp add: move_step_def)
qed

section \<open>Everything else\<close>

lemma quiet_on_db [simp]: "quiet a (ho_db (trail k b s w at' h)) = quiet a (ho_db h)"
  "quiet a (ho_db (adjReq_trail b s w at' h)) = quiet a (ho_db h)"
  by (simp_all add: trail_def adjReq_trail_def)

lemma db_updates [simp]:
  "ho_db (update_prq i f h) = ho_db h" "ho_db (update_order i g h) = ho_db h" "ho_db (writeLines i ls h) = ho_db h"
  "ho_db (logRateChange ct old new po by' h) = ho_db h" "ho_db (update_adjReq i k h) = ho_db h"
  by (simp_all add: update_prq_def update_order_def writeLines_def logRateChange_def update_adjReq_def)

text \<open>The tables a settlement, a sale or a close is read from.\<close>

definition same_money :: "house \<Rightarrow> house \<Rightarrow> bool" where
  "same_money h h' \<longleftrightarrow> ho_bills h' = ho_bills h \<and> ho_sessions h' = ho_sessions h \<and> ho_settlements h' = ho_settlements h \<and>
     ho_qrOrders h' = ho_qrOrders h \<and> ho_refunds h' = ho_refunds h"

lemma same_money_simps [simp]:
  "same_money h h" "same_money h (on_db f h') = same_money h h'" "same_money h (trail k b s w at' h') = same_money h h'"
  "same_money h (adjReq_trail b s w at' h') = same_money h h'" "same_money h (update_prq i p h') = same_money h h'"
  "same_money h (update_order i g h') = same_money h h'" "same_money h (writeLines i ls h') = same_money h h'"
  "same_money h (update_adjReq i k' h') = same_money h h'" "same_money h (logRateChange ct old new po by' h') = same_money h h'"
  "same_money h (h'\<lparr>ho_db := d\<rparr>) = same_money h h'" "same_money h (h'\<lparr>ho_prqs := ps\<rparr>) = same_money h h'"
  "same_money h (h'\<lparr>ho_orders := os\<rparr>) = same_money h h'" "same_money h (h'\<lparr>ho_adjs := as\<rparr>) = same_money h h'"
  "same_money h (h'\<lparr>ho_adjReqs := rs\<rparr>) = same_money h h'" "same_money h (h'\<lparr>ho_wastage := ws\<rparr>) = same_money h h'"
  "same_money h (h'\<lparr>ho_classTerms := cts\<rparr>) = same_money h h'" "same_money h (h'\<lparr>ho_payerTerms := pt\<rparr>) = same_money h h'"
  "same_money (h\<lparr>ho_db := d\<rparr>) h' = same_money h h'" "same_money (h\<lparr>ho_orders := os\<rparr>) h' = same_money h h'"
  "same_money (h\<lparr>ho_prqs := ps\<rparr>) h' = same_money h h'"
  by (simp_all add: same_money_def trail_def adjReq_trail_def update_prq_def update_order_def writeLines_def update_adjReq_def logRateChange_def)

lemma addOrdered_rest: "addOrdered s xs h = Inr h' \<Longrightarrow> h' = h\<lparr>ho_prqs := ho_prqs h'\<rparr>"
proof (induction xs arbitrary: h)
  case (Cons x xs)
  then obtain h1 where h1: "add_one s x h = Inr h1" "addOrdered s xs h1 = Inr h'" by auto
  then have "\<exists>p. h1 = h\<lparr>ho_prqs := p\<rparr>" by (auto simp: add_one_def Let_def update_prq_def split: option.splits if_splits)
  with Cons.IH [OF h1(2)] show ?case by auto
qed simp

lemma addOrdered_db: "addOrdered s xs h = Inr h' \<Longrightarrow> ho_db h' = ho_db h \<and> same_money h h' \<and> ho_orders h' = ho_orders h"
  by (drule addOrdered_rest, erule ssubst) (simp add: same_money_def)

lemma sync_rest [simp]:
  "ho_db (snd (syncContractRates cs rates po by' h)) = ho_db h"
  "same_money a (snd (syncContractRates cs rates po by' h)) = same_money a h"
  "ho_prqs (snd (syncContractRates cs rates po by' h)) = ho_prqs h"
  "ho_orders (snd (syncContractRates cs rates po by' h)) = ho_orders h"
  by (induction cs rates po by' h rule: syncContractRates.induct)
    (simp_all add: Let_def same_money_def logRateChange_def split: option.splits)

lemma reprice_rest [simp]:
  "ho_db (snd (repriceContract c i o' it rate at' h)) = ho_db h"
  "same_money a (snd (repriceContract c i o' it rate at' h)) = same_money a h"
  "ho_prqs (snd (repriceContract c i o' it rate at' h)) = ho_prqs h"
  "ho_orders (snd (repriceContract c i o' it rate at' h)) = ho_orders h"
  by (simp_all add: repriceContract_def split: option.splits)

lemma quiet_accounts:
  "setClassTerms_tx cls pct limit h = Inr h' \<Longrightarrow> quiet (ho_db h) (ho_db h') \<and> same_money h h'"
  "setPayerTerms_tx p ppct limit h = Inr h' \<Longrightarrow> quiet (ho_db h) (ho_db h') \<and> same_money h h'"
  "record_tx coll c sbody at' h = Inr h' \<Longrightarrow> quiet (ho_db h) (ho_db h')"
  "voidSettlement_tx c i raw at' h = Inr h' \<Longrightarrow> quiet (ho_db h) (ho_db h')"
  "closeRegister_tx c cbody at' h = Inr h' \<Longrightarrow> quiet (ho_db h) (ho_db h')"
  by (auto simp: setClassTerms_tx_def setPayerTerms_tx_def record_tx_def voidSettlement_tx_def closeRegister_tx_def
      Let_def allocateId_ok insertSettlement_def on_db_def split: option.splits)

lemma quiet_corrections:
  "askAdjust_tx c jbody at' h = Inr h' \<Longrightarrow> quiet (ho_db h) (ho_db h') \<and> same_money h h'"
  "cancelAdjReq_tx a i at' h = Inr h' \<Longrightarrow> quiet (ho_db h) (ho_db h') \<and> same_money h h'"
  "rejectAdjReq_tx c i note at' h = Inr h' \<Longrightarrow> quiet (ho_db h) (ho_db h') \<and> same_money h h'"
  "recordWaste_tx c wbody at' h = Inr h' \<Longrightarrow> quiet (ho_db h) (ho_db h') \<and> same_money h h'"
  by (auto simp: askAdjust_tx_def cancelAdjReq_tx_def rejectAdjReq_tx_def recordWaste_tx_def Let_def allocateId_ok
      insertAdjReq_def insertWaste_def split: option.splits if_splits)

lemma quiet_requisitions:
  "createPrq_tx c ls note at' h = Inr h' \<Longrightarrow> quiet (ho_db h) (ho_db h') \<and> same_money h h'"
  "addDirect_tx c ls note at' h = Inr h' \<Longrightarrow> quiet (ho_db h) (ho_db h') \<and> same_money h h'"
  "approvePrq_tx c i ap note at' h = Inr h' \<Longrightarrow> quiet (ho_db h) (ho_db h') \<and> same_money h h'"
  "declinePrq_tx c i note at' h = Inr h' \<Longrightarrow> quiet (ho_db h) (ho_db h') \<and> same_money h h'"
  by (auto simp: createPrq_tx_def addDirect_tx_def approvePrq_tx_def declinePrq_tx_def Let_def allocateId_ok
      insertPrq_def setPrqApprovals_def decidePrq_def split: option.splits if_splits)

lemma quiet_draft:
  "createPo_tx coll c v picks at' h = Inr h' \<Longrightarrow> quiet (ho_db h) (ho_db h') \<and> same_money h h'"
  by (auto simp: createPo_tx_def Let_def allocateId_ok insertOrderPo_def dest!: addOrdered_db)

lemma returnClaims_db: "returnClaims coll xs h = Inr h' \<Longrightarrow> ho_db h' = ho_db h \<and> same_money h h' \<and> ho_orders h' = ho_orders h"
  unfolding returnClaims_def by (rule addOrdered_db)

lemma quiet_line:
  "updateLine_tx coll c i n q rate at' h = Inr h' \<Longrightarrow> quiet (ho_db h) (ho_db h') \<and> same_money h h'"
  by (auto simp: updateLine_tx_def Let_def with_contracts_def dest!: returnClaims_db split: option.splits)

lemma quiet_orders:
  "removeLine_tx coll i n h = Inr h' \<Longrightarrow> quiet (ho_db h) (ho_db h') \<and> same_money h h'"
  "patchPo_tx i vendor eta at' h = Inr h' \<Longrightarrow> quiet (ho_db h) (ho_db h') \<and> same_money h h'"
  "sendPo_tx c i at' h = Inr h' \<Longrightarrow> quiet (ho_db h) (ho_db h') \<and> same_money h h'"
  "cancelPo_tx coll c i reason at' h = Inr h' \<Longrightarrow> quiet (ho_db h) (ho_db h') \<and> same_money h h'"
  "closeShort_tx coll c i reason at' h = Inr h' \<Longrightarrow> quiet (ho_db h) (ho_db h') \<and> same_money h h'"
  unfolding removeLine_tx_def patchPo_tx_def sendPo_tx_def cancelPo_tx_def closeShort_tx_def Let_def patch_vendor_def
  by (auto dest!: returnClaims_db split: option.splits)

end
