(* ===== verification/Refunds.thy ===== *)
theory Refunds
  imports Till
begin

text \<open>
  Money going back to a QR customer: \<open>apps/api/src/lib/refunds.ts\<close>, the one writer of \<open>payment_refunds\<close>
  (\<open>queueRefund\<close> is in \<open>Till\<close>, where a void needs it), with what the worker (\<open>modules/qr/worker.ts\<close>) and the
  gateway's news (\<open>settleRefund\<close> of \<open>modules/qr/service.ts\<close>) write through it. The gateway itself is a
  parameter: what it answered is an argument of the step that records the answer.

  Lemmas: what a move of a refund may change, and that what is owed to whom never does.
\<close>

section \<open>The row and its moves\<close>

definition refund_of :: "house \<Rightarrow> string \<Rightarrow> refundRow option" where
  "refund_of h i = map_of (ho_refunds h) i"

definition update_refund :: "string \<Rightarrow> (refundRow \<Rightarrow> refundRow) \<Rightarrow> house \<Rightarrow> house" where
  "update_refund i f h = h\<lparr>ho_refunds := update_row (ho_refunds h) i f\<rparr>"

definition noRefund :: "string \<Rightarrow> error" where
  "noRefund i = NotFoundError (''There is no refund '' @ i @ ''.'')"

definition refundForUpdate :: "house \<Rightarrow> string \<Rightarrow> error + refundRow" where
  "refundForUpdate h i = (case refund_of h i of None \<Rightarrow> Inl (noRefund i) | Some r \<Rightarrow> Inr r)"

text \<open>The row a move writes: \<open>Sent\<close> keeps the gateway's id, \<open>Processed\<close> stamps when, \<open>Failed\<close> keeps the
  gateway's last answer, and a retry starts from nothing.\<close>

definition moved_refund ::
    "refundStatus \<Rightarrow> string option \<Rightarrow> string option \<Rightarrow> instant \<Rightarrow> refundRow \<Rightarrow> refundRow" where
  "moved_refund to rzp err at' r =
     (let again = (to = Ref_Pending) in
      r\<lparr>rf_status := to,
        rf_rzp := (if again then None else case truthy rzp of Some x \<Rightarrow> Some x | None \<Rightarrow> rf_rzp r),
        rf_processed := (if to = Ref_Processed then Some at' else rf_processed r),
        rf_error := (if again then None else if to = Ref_Failed then (case err of Some e \<Rightarrow> Some e | None \<Rightarrow> rf_error r)
           else rf_error r),
        rf_attempts := (if again then 0 else rf_attempts r),
        rf_next := (if again then at' else rf_next r)\<rparr>)"

text \<open>\<open>payment_refunds_rzp_refund_uq\<close>: no two rows name the same refund of the gateway.\<close>

definition rzp_taken :: "house \<Rightarrow> string \<Rightarrow> string option \<Rightarrow> bool" where
  "rzp_taken h i rzp \<longleftrightarrow> (case truthy rzp of None \<Rightarrow> False
     | Some x \<Rightarrow> list_ex (\<lambda>r. fst r \<noteq> i \<and> rf_rzp (snd r) = Some x) (ho_refunds h))"

definition moveRefund ::
    "string \<Rightarrow> refundStatus \<Rightarrow> string option \<Rightarrow> string option \<Rightarrow> instant \<Rightarrow> house \<Rightarrow> error + house" where
  "moveRefund i to rzp err at' h =
     bindE (refundForUpdate h i) (\<lambda>r.
     unless (assertTransition REFUND_TRANSITIONS refund_word (rf_status r) to (''Refund '' @ i))
     (unless (if to \<noteq> Ref_Pending \<and> rzp_taken h i rzp
        then Some (Internal ''duplicate key value violates unique constraint payment_refunds_rzp_refund_uq'') else None)
       (Inr (update_refund i (moved_refund to rzp err at') h))))"

section \<open>Attempts\<close>

text \<open>1 min, 5 min, 15 min, 1 h, 6 h; the sixth failure is final.\<close>

definition REFUND_BACKOFF_MS :: "int list" where
  "REFUND_BACKOFF_MS = [60000, 5 * 60000, 15 * 60000, 60 * 60000, 6 * 60 * 60000]"

definition REFUND_MAX_ATTEMPTS :: nat where
  "REFUND_MAX_ATTEMPTS = length REFUND_BACKOFF_MS + 1"

definition backoffAfter :: "nat \<Rightarrow> int" where
  "backoffAfter attempts = REFUND_BACKOFF_MS ! (min attempts (length REFUND_BACKOFF_MS) - 1)"

text \<open>The worker's claim, oldest due first. \<open>busy\<close> are the rows another transaction holds, which
  \<open>for update skip locked\<close> passes over; \<open>coll\<close> is the database's order of text.\<close>

definition due_refunds :: "(string \<Rightarrow> string \<Rightarrow> bool) \<Rightarrow> instant \<Rightarrow> nat \<Rightarrow> string list \<Rightarrow> house \<Rightarrow> string list" where
  "due_refunds coll now limit busy h = map fst (take limit
     (stable_sort (\<lambda>a b. rf_next (snd a) < rf_next (snd b) \<or> rf_next (snd a) = rf_next (snd b) \<and> coll (fst a) (fst b))
       (filter (\<lambda>r. rf_status (snd r) = Ref_Pending \<and> rf_next (snd r) \<le> now \<and> \<not> List.member busy (fst r)) (ho_refunds h))))"

definition claimed :: "instant \<Rightarrow> refundRow \<Rightarrow> refundRow" where
  "claimed now r = (let n = rf_attempts r + 1 in r\<lparr>rf_attempts := n, rf_next := now + backoffAfter n\<rparr>)"

definition claimDueRefunds ::
    "(string \<Rightarrow> string \<Rightarrow> bool) \<Rightarrow> instant \<Rightarrow> nat \<Rightarrow> string list \<Rightarrow> house \<Rightarrow> error + house" where
  "claimDueRefunds coll now limit busy h =
     Inr (foldl (\<lambda>h i. update_refund i (claimed now) h) h (due_refunds coll now limit busy h))"

text \<open>A send that did not go through. \<open>counted\<close>: the claim counted the attempt already.\<close>

definition deferRefund :: "string \<Rightarrow> string \<Rightarrow> bool \<Rightarrow> instant \<Rightarrow> bool \<Rightarrow> house \<Rightarrow> error + refundRow \<times> house" where
  "deferRefund i err final at' counted h =
     bindE (refundForUpdate h i) (\<lambda>r.
     (let attempts = (if counted then rf_attempts r else rf_attempts r + 1) in
      if final \<or> REFUND_MAX_ATTEMPTS \<le> attempts
      then unless (assertTransition REFUND_TRANSITIONS refund_word (rf_status r) Ref_Failed (''Refund '' @ i))
        (let f = (\<lambda>r. r\<lparr>rf_status := Ref_Failed, rf_attempts := attempts, rf_error := Some err\<rparr>) in
         Inr (f r, update_refund i f h))
      else (let f = (\<lambda>r. r\<lparr>rf_attempts := attempts, rf_error := Some err,
           rf_next := (if counted then rf_next r else at' + backoffAfter attempts)\<rparr>) in
         Inr (f r, update_refund i f h))))"

section \<open>The worker and the gateway's news\<close>

datatype gwRefundStatus = Gr_pending | Gr_processed | Gr_failed

text \<open>A refund as the gateway reports it, without what no rule reads.\<close>

record gwRefund =
  gf_id :: string
  gf_status :: gwRefundStatus
  gf_rid :: "string option"

definition GATEWAY_FAILED :: string where
  "GATEWAY_FAILED = ''The payment gateway reported that the refund failed''"

text \<open>\<open>sendOne\<close>, once the gateway has the refund: recorded, unless a webhook has recorded it already.\<close>

definition refundSent_tx :: "string \<Rightarrow> gwRefund \<Rightarrow> instant \<Rightarrow> house \<Rightarrow> error + house" where
  "refundSent_tx i g at' h =
     (case refund_of h i of None \<Rightarrow> Inr h
      | Some cur \<Rightarrow> if rf_status cur \<noteq> Ref_Pending then Inr h else
          bindE (moveRefund i Ref_Sent (Some (gf_id g)) None at' h) (\<lambda>h1.
          bindE (case gf_status g of
              Gr_processed \<Rightarrow> moveRefund i Ref_Processed (Some (gf_id g)) None at' h1
            | Gr_failed \<Rightarrow> moveRefund i Ref_Failed (Some (gf_id g)) (Some GATEWAY_FAILED) at' h1
            | Gr_pending \<Rightarrow> Inr h1) (\<lambda>h2.
          Inr (on_db (emitChanged [Ch_qrOrders, Ch_bills]) h2))))"

text \<open>\<open>sendOne\<close>, where the gateway refused or could not be reached; \<open>final\<close> is a refusal it will repeat.\<close>

definition refundUnsent_tx :: "string \<Rightarrow> string \<Rightarrow> bool \<Rightarrow> instant \<Rightarrow> house \<Rightarrow> error + house" where
  "refundUnsent_tx i err final at' h =
     (case refund_of h i of None \<Rightarrow> Inr h
      | Some cur \<Rightarrow> if rf_status cur \<noteq> Ref_Pending then Inr h else
          bindE (deferRefund i err final at' True h) (\<lambda>(next', h1).
          Inr (if rf_status next' = Ref_Failed then on_db (emitChanged [Ch_qrOrders, Ch_bills]) h1 else h1)))"

text \<open>A refund the gateway names: by its own id once it is on file, else by the \<open>notes.rid\<close> of the send.\<close>

definition refundForGateway :: "house \<Rightarrow> string \<Rightarrow> string option \<Rightarrow> (string \<times> refundRow) option" where
  "refundForGateway h rzp rid =
     find (\<lambda>r. rf_rzp (snd r) = Some rzp \<or> truthy rid = Some (fst r)) (ho_refunds h)"

definition settleRefund_tx :: "string \<Rightarrow> string option \<Rightarrow> bool \<Rightarrow> instant \<Rightarrow> house \<Rightarrow> error + house" where
  "settleRefund_tx rzp rid processed at' h =
     (case refundForGateway h rzp rid of None \<Rightarrow> Inr h
      | Some (i, r) \<Rightarrow>
          if rf_status r \<noteq> Ref_Pending \<and> rf_status r \<noteq> Ref_Sent then Inr h
          else if rf_rzp r \<noteq> None \<and> rf_rzp r \<noteq> Some rzp then Inr h
          else bindE (if processed
              then bindE (if rf_status r = Ref_Pending then moveRefund i Ref_Sent (Some rzp) None at' h else Inr h)
                (moveRefund i Ref_Processed (Some rzp) None at')
              else moveRefund i Ref_Failed (Some rzp) (Some GATEWAY_FAILED) at' h) (\<lambda>h1.
            Inr (on_db (emitChanged [Ch_qrOrders, Ch_bills]) h1)))"

text \<open>A manager's retry.\<close>

definition retryRefund_tx :: "string \<Rightarrow> instant \<Rightarrow> house \<Rightarrow> error + house" where
  "retryRefund_tx i at' h =
     bindE (refundForUpdate h i) (\<lambda>r.
     unless (assertRule (rf_status r = Ref_Failed)
       (''Refund '' @ i @ '' is '' @ toLower (refund_word (rf_status r)) @ '' - only a failed refund can be retried''))
     (bindE (moveRefund i Ref_Pending None None at' h) (\<lambda>h1.
       Inr (on_db (emitChanged [Ch_qrOrders, Ch_bills]) h1))))"

end
