(* ===== verification/Qr.thy ===== *)
theory Qr
  imports Refunds Dates
begin

text \<open>
  QR ordering: \<open>apps/api/src/modules/qr\<close> and \<open>lib/system-users.ts\<close>. Each transaction of the service and of
  its worker is one definition here; what happens between two transactions (a call of the payment
  gateway, a random token, a digest) is an argument of the next. A phone's secret and its nonce are only
  ever compared as sha256 digests, so the digest is the argument.

  Lemmas about these steps are in \<open>Hall\<close> (the shelves and the books) and \<open>Purse\<close> (the money).
\<close>

section \<open>Sentences, and the account the server acts as\<close>

definition CODE_GONE :: string where
  "CODE_GONE = ''This QR code is no longer in use - please order at the counter.''"

definition ORDER_GONE :: string where
  "ORDER_GONE = ''There is no such order.''"

definition SYSTEM_QR :: string where "SYSTEM_QR = ''sys-qr''"
definition SYSTEM_QR_NAME :: string where "SYSTEM_QR_NAME = ''QR Orders''"

definition MIN_ORDER_RUPEES :: number where "MIN_ORDER_RUPEES = 1"
definition IP_WINDOW_MS :: int where "IP_WINDOW_MS = 30 * 60000"

definition systemOperator :: "house \<Rightarrow> house" where
  "systemOperator h = (if db_users (ho_db h) SYSTEM_QR \<noteq> None then h
     else on_db (\<lambda>d. d\<lparr>db_users := (db_users d)(SYSTEM_QR \<mapsto> SYSTEM_QR_NAME)\<rparr>) h)"

section \<open>Rows (\<open>repo.ts\<close>)\<close>

definition qrOrder_of :: "house \<Rightarrow> string \<Rightarrow> qrOrderRow option" where
  "qrOrder_of h i = map_of (ho_qrOrders h) i"

definition update_qrOrder :: "string \<Rightarrow> (qrOrderRow \<Rightarrow> qrOrderRow) \<Rightarrow> house \<Rightarrow> house" where
  "update_qrOrder i f h = h\<lparr>ho_qrOrders := update_row (ho_qrOrders h) i f\<rparr>"

definition codeByToken :: "house \<Rightarrow> string \<Rightarrow> (string \<times> qrCodeRow) option" where
  "codeByToken h token = find (\<lambda>c. qc_token (snd c) = token) (ho_codes h)"

definition liveCode :: "house \<Rightarrow> string \<Rightarrow> (string \<times> qrCodeRow) option" where
  "liveCode h token = (case codeByToken h token of None \<Rightarrow> None
     | Some c \<Rightarrow> if qc_active (snd c) then Some c else None)"

definition orderByNonce :: "house \<Rightarrow> string \<Rightarrow> (string \<times> qrOrderRow) option" where
  "orderByNonce h nonce = find (\<lambda>o'. qd_nonce (snd o') = nonce) (ho_qrOrders h)"

definition hoursOf :: "house \<Rightarrow> key \<Rightarrow> orderHoursDay list" where
  "hoursOf h loc = stable_sort (\<lambda>a b. oh_dow a \<le> oh_dow b) (ho_hours h loc)"

definition paused :: "house \<Rightarrow> key \<Rightarrow> bool" where
  "paused h loc = (case ho_paused h loc of Some p \<Rightarrow> p | None \<Rightarrow> False)"

definition pendingForPhone :: "house \<Rightarrow> string \<Rightarrow> instant \<Rightarrow> nat" where
  "pendingForPhone h phone now = length (filter (\<lambda>o'. qd_phone (snd o') = phone \<and> qd_status (snd o') = Qr_Awaiting \<and>
     now < qd_expires (snd o')) (ho_qrOrders h))"

definition pendingForIp :: "house \<Rightarrow> string \<Rightarrow> instant \<Rightarrow> nat" where
  "pendingForIp h ip since = length (filter (\<lambda>o'. qd_ip (snd o') = ip \<and> qd_status (snd o') = Qr_Awaiting \<and>
     since \<le> qd_created (snd o')) (ho_qrOrders h))"

definition insertQrOrder :: "string \<Rightarrow> qrOrderRow \<Rightarrow> house \<Rightarrow> error + house" where
  "insertQrOrder i o' h =
     (if orderByNonce h (qd_nonce o') \<noteq> None
      then Inl (Internal ''duplicate key value violates unique constraint qr_orders_nonce_uq'')
      else bindE (insert_row (ho_qrOrders h) i o') (\<lambda>rs. Inr (h\<lparr>ho_qrOrders := rs\<rparr>)))"

definition refundOfPayment :: "house \<Rightarrow> string \<Rightarrow> string \<Rightarrow> bool" where
  "refundOfPayment h oid payment =
     list_ex (\<lambda>r. rf_order (snd r) = oid \<and> rf_payment (snd r) = payment) (ho_refunds h)"

definition lockOutlet :: "house \<Rightarrow> key \<Rightarrow> error + location" where
  "lockOutlet h loc = (case lockLocation (ho_db h) loc of
       Inl _ \<Rightarrow> Inl (NotFoundError (''There is no outlet '' @ loc @ ''.''))
     | Inr l \<Rightarrow> if loc_type l \<noteq> Outlet_Type then Inl (NotFoundError (''There is no outlet '' @ loc @ ''.'')) else Inr l)"

section \<open>Placing an order\<close>

record qrConfig =
  qf_maxRupees :: number
  qf_ttlMin :: int
  qf_pendingPerIp :: nat

text \<open>The body of \<open>POST /public/qr/:token/orders\<close>, its nonce as stored.\<close>

record placeBody =
  pb_nonce :: string
  pb_name :: string
  pb_phone :: string
  pb_detail :: "string option"
  pb_lines :: "line list"

definition doors_refusal :: "qrConfig \<Rightarrow> location \<Rightarrow> key \<Rightarrow> string \<Rightarrow> string \<Rightarrow> instant \<Rightarrow> house \<Rightarrow> error option" where
  "doors_refusal cfg l loc phone ip now h =
     (let open' = qrOpenAt (hoursOf h loc) now; pending = pendingForPhone h phone now in first_some
      [assertRule (loc_active l) (loc_n l @ '' is closed - please order at the counter.''),
       assertRule (qo_open open') (hoursRefusal (loc_n l) open'),
       assertRule (\<not> paused h loc) (pausedRefusal (loc_n l)),
       assertRule (pending < QR_PENDING_PER_PHONE)
         (''You already have '' @ nat_str pending @ '' unpaid orders - pay for one, or let it lapse, before placing another.''),
       (if qf_pendingPerIp cfg \<le> pendingForIp h ip (now - IP_WINDOW_MS)
        then Some (RateLimitedError ''Too many unpaid orders from this connection - pay for one, or try again in a few minutes.'')
        else None)])"

definition cart_refusal :: "sellable \<Rightarrow> line list \<Rightarrow> error option" where
  "cart_refusal s cart = first_some (map (\<lambda>(it, n). assertRule (n \<le> QR_MAX_QTY)
       (''One order can carry at most 20 of '' @ (case m_items (sv_master s) it of Some i \<Rightarrow> item_n i | None \<Rightarrow> it) @ ''.'')) cart
     @ [assertSellable s cart])"

definition total_refusal :: "qrConfig \<Rightarrow> number \<Rightarrow> error option" where
  "total_refusal cfg tot = first_some
     [assertRule (0 < tot) ''There is nothing to pay for on this order.'',
      assertRule (MIN_ORDER_RUPEES \<le> tot) (''An online payment has to be at least '' @ money MIN_ORDER_RUPEES
        @ '' - this order is '' @ money tot @ ''. Add an item, or order at the counter.''),
      assertRule (tot \<le> qf_maxRupees cfg) (''One QR order can come to at most '' @ money (qf_maxRupees cfg)
        @ '' - this one is '' @ money tot @ ''. Take a few items off, or order at the counter.'')]"

definition quote :: "house \<Rightarrow> key \<Rightarrow> line list \<Rightarrow> billPlan" where
  "quote h loc ls = planBill (loadMaster (ho_db h)) (ho_prices h) loc (cartOf ls) (fst (termsFor h CustomerParty None))"

definition quoted_order ::
    "qrConfig \<Rightarrow> string \<times> qrCodeRow \<Rightarrow> placeBody \<Rightarrow> string \<Rightarrow> string \<Rightarrow> string \<Rightarrow> instant \<Rightarrow> billPlan \<Rightarrow> qrOrderRow" where
  "quoted_order cfg c body phone secret ip now plan =
     \<lparr>qd_status = Qr_Awaiting, qd_loc = qc_loc (snd c), qd_total = round2 (pl_tot plan), qd_payment = None, qd_bill = None,
      qd_paidAt = None, qd_code = fst c, qd_label = qc_label (snd c), qd_mode = qc_mode (snd c),
      qd_spot = (if qc_mode (snd c) = Deliver then (case pb_detail body of Some x \<Rightarrow> x | None \<Rightarrow> []) else []),
      qd_name = pb_name body, qd_phone = phone, qd_tax = round2 (pl_tax plan), qd_disc = round2 (pl_disc plan),
      qd_secret = secret, qd_nonce = pb_nonce body, qd_ip = ip, qd_rzpOrder = None,
      qd_expires = now + qf_ttlMin cfg * 60000, qd_created = now,
      qd_lines = map (\<lambda>l. \<lparr>qi_it = bl_it l, qi_qty = bl_qty l, qi_rate = bl_rate l\<rparr>) (pl_lines plan)\<rparr>"

definition placed_tx ::
    "qrConfig \<Rightarrow> string \<Rightarrow> placeBody \<Rightarrow> string \<Rightarrow> string \<Rightarrow> string \<Rightarrow> instant \<Rightarrow> house \<Rightarrow> error + house" where
  "placed_tx cfg token body phone secret ip now h =
     found (liveCode h token) (NotFoundError CODE_GONE) (\<lambda>c.
     (let loc = qc_loc (snd c) in
      bindE (lockLocation (ho_db h) loc) (\<lambda>l.
      unless (doors_refusal cfg l loc phone ip now h)
     (let s = sellableAt h loc; plan = quote h loc (pb_lines body) in
      unless (cart_refusal s (cartOf (pb_lines body)))
     (unless (total_refusal cfg (round2 (pl_tot plan)))
     (bindE (try_db (allocateId K_qr_order now) h) (\<lambda>(i, h1).
      bindE (insertQrOrder i (quoted_order cfg c body phone secret ip now plan) h1) (\<lambda>h2.
      Inr (on_db (appendHistory ''qr_order'' i ''Awaiting payment'' (pb_name body @ '' (customer)'') now) h2)))))))))"

text \<open>A nonce already used: the order is handed back to the phone that placed it, with a fresh secret.\<close>

definition replay_tx :: "string \<times> qrOrderRow \<Rightarrow> string \<Rightarrow> string \<Rightarrow> instant \<Rightarrow> house \<Rightarrow> error + house" where
  "replay_tx prior code fresh now h =
     (if qd_code (snd prior) \<noteq> code
      then Inl (ConflictError ''This checkout was already used for another order - reload the menu and try again.'')
      else found (qrOrder_of h (fst prior)) (NotFoundError ORDER_GONE) (\<lambda>o'.
        if qd_status o' \<noteq> Qr_Awaiting \<or> qd_expires o' \<le> now
        then Inl (ConflictError (if qd_status o' = Qr_Awaiting \<or> qd_status o' = Qr_Expired
            then ''Order '' @ fst prior @ '' lapsed before it was paid - start a new order.''
            else ''Order '' @ fst prior @ '' has already been placed and paid - open its status page to follow it.''))
        else Inr (update_qrOrder (fst prior) (\<lambda>r. r\<lparr>qd_secret := fresh\<rparr>) h)))"

text \<open>\<open>place\<close>, up to its checkout. Two requests with one nonce at once are decided by the insert, and the
  loser goes the way of the replay; in the order the two commit, the first is a placing and the second
  finds the row.\<close>

definition place_tx ::
    "qrConfig \<Rightarrow> bool \<Rightarrow> string \<Rightarrow> placeBody \<Rightarrow> string \<Rightarrow> string \<Rightarrow> instant \<Rightarrow> house \<Rightarrow> error + house" where
  "place_tx cfg gateway token body secret ip now h =
     found (liveCode h token) (NotFoundError CODE_GONE) (\<lambda>code0.
     unless (if gateway then None else Some (NotReadyError ''Online ordering is not set up yet - order at the counter.''))
     (found (normalizePhone (pb_phone body)) (RuleError (customerPhoneRefusal (pb_phone body))) (\<lambda>phone.
      case orderByNonce h (pb_nonce body) of
        Some prior \<Rightarrow> replay_tx prior (fst code0) secret now h
      | None \<Rightarrow> placed_tx cfg token body phone secret ip now h)))"

text \<open>\<open>checkoutFor\<close>: the gateway's order stored once, or the order lapsed where the gateway refuses to open one.\<close>

definition setRzpOrder_tx :: "string \<Rightarrow> string \<Rightarrow> house \<Rightarrow> error + house" where
  "setRzpOrder_tx i rzp h =
     (if Option.bind (qrOrder_of h i) qd_rzpOrder = None \<and> list_ex (\<lambda>o'. qd_rzpOrder (snd o') = Some rzp) (ho_qrOrders h)
         \<and> qrOrder_of h i \<noteq> None
      then Inl (Internal ''duplicate key value violates unique constraint qr_orders_rzp_order_uq'')
      else Inr (update_qrOrder i (\<lambda>r. if qd_rzpOrder r = None then r\<lparr>qd_rzpOrder := Some rzp\<rparr> else r) h))"

definition lapse_tx :: "string \<Rightarrow> instant \<Rightarrow> house \<Rightarrow> error + house" where
  "lapse_tx i at' h = (case qrOrder_of h i of None \<Rightarrow> Inr h
     | Some cur \<Rightarrow> if qd_status cur = Qr_Awaiting
         then moveQrOrder (i, cur) Qr_Expired SYSTEM_QR_NAME at' (Some ''the payment service refused to open its checkout'') id h
         else Inr h)"

section \<open>A captured payment\<close>

datatype gwPaymentStatus = Gp_created | Gp_authorized | Gp_captured | Gp_refunded | Gp_failed

text \<open>A payment as the gateway reports it (\<open>lib/payments.ts\<close>); amounts in whole paise.\<close>

record gwPayment =
  gp_id :: string
  gp_order :: "string option"
  gp_paise :: int
  gp_currency :: string
  gp_status :: gwPaymentStatus

definition rupees :: "int \<Rightarrow> number" where
  "rupees p = round2 (of_int p / 100)"

definition qr_sale_input :: "string \<Rightarrow> qrOrderRow \<Rightarrow> saleInput" where
  "qr_sale_input i o' = \<lparr>si_loc = qd_loc o', si_operator = SYSTEM_QR, si_lines = map (\<lambda>l. (qi_it l, qi_qty l)) (qd_lines o'),
     si_tender = Online, si_payer = None, si_customer = Some (qd_name o'), si_phone = Some (qd_phone o'), si_source = QrSale,
     si_qrOrder = Some i\<rparr>"

definition line_name :: "house \<Rightarrow> qrLine \<Rightarrow> string" where
  "line_name h l = (case db_items (ho_db h) (qi_it l) of Some i \<Rightarrow> item_n i | None \<Rightarrow> qi_it l)"

definition moved_line :: "billLine list \<Rightarrow> qrLine list \<Rightarrow> qrLine option" where
  "moved_line bls ls = find (\<lambda>l. map_option bl_rate (find (\<lambda>b. bl_it b = qi_it l) bls) \<noteq> Some (qi_rate l)) ls"

text \<open>The savepoint: the sale, unless a price moved since the order was quoted.\<close>

definition qr_sale ::
    "string \<Rightarrow> qrOrderRow \<Rightarrow> instant \<Rightarrow> string list \<Rightarrow> house \<Rightarrow> error + (string \<times> changed list) \<times> house" where
  "qr_sale i o' at' us h =
     bindE (postSale (qr_sale_input i o') at' us h) (\<lambda>((no, ch), h1).
     found (bill_of h1 no) (Internal no) (\<lambda>b.
     (let moved = moved_line (bi_lines b) (qd_lines o') in
      unless (assertRule (moved = None \<and> bi_total b = qd_total o')
        (''the price of '' @ (case moved of Some l \<Rightarrow> line_name h l | None \<Rightarrow> ''the order'') @ '' changed after it was placed''))
        (Inr ((no, ch), h1)))))"

definition mismatch :: "qrOrderRow \<Rightarrow> gwPayment \<Rightarrow> string option" where
  "mismatch o' p = (if gp_currency p \<noteq> ''INR'' \<or> gp_paise p \<noteq> paise (qd_total o') \<or>
        (gp_order p \<noteq> None \<and> gp_order p \<noteq> qd_rzpOrder o')
     then Some (''the payment of '' @ money (rupees (gp_paise p)) @ '' did not match the order's '' @ money (qd_total o'))
     else None)"

text \<open>Which refusals of a sale are thrown on: a Z closing the register this instant, and what is not a refusal.\<close>

definition not_yet :: "error \<Rightarrow> bool" where
  "not_yet e \<longleftrightarrow> e = RegisterClosingError \<or> 500 \<le> status_of e"

text \<open>Why the order cannot be filled, or its bill.\<close>

definition try_sale ::
    "string \<Rightarrow> qrOrderRow \<Rightarrow> gwPayment \<Rightarrow> instant \<Rightarrow> string list \<Rightarrow> house \<Rightarrow> error + (string + (string \<times> changed list) \<times> house)" where
  "try_sale i o' p at' us h =
     (case mismatch o' p of Some why \<Rightarrow> Inr (Inl why)
      | None \<Rightarrow> (case qr_sale i o' at' us h of
           Inr s \<Rightarrow> Inr (Inr s)
         | Inl e \<Rightarrow> if not_yet e then Inl e else Inr (Inl (message_of e))))"

text \<open>\<open>qr_orders_rzp_payment_uq\<close>.\<close>

definition payment_taken :: "house \<Rightarrow> string \<Rightarrow> string \<Rightarrow> error option" where
  "payment_taken h i p = (if list_ex (\<lambda>o'. fst o' \<noteq> i \<and> qd_payment (snd o') = Some p) (ho_qrOrders h)
     then Some (Internal ''duplicate key value violates unique constraint qr_orders_rzp_payment_uq'') else None)"

definition second_capture :: "string \<Rightarrow> gwPayment \<Rightarrow> instant \<Rightarrow> house \<Rightarrow> error + house" where
  "second_capture i p at' h =
     (if refundOfPayment h i (gp_id p) then Inr h
      else bindE (queueRefund i (gp_id p) (rupees (gp_paise p)) Rr_Duplicate None at' h) (\<lambda>h1.
        Inr (on_db (emitChanged [Ch_qrOrders]) h1)))"

definition billed_capture ::
    "string \<Rightarrow> qrOrderRow \<Rightarrow> gwPayment \<Rightarrow> instant \<Rightarrow> string \<Rightarrow> changed list \<Rightarrow> house \<Rightarrow> error + house" where
  "billed_capture i o' p at' no ch h =
     bindE (moveQrOrder (i, o') Qr_Paid SYSTEM_QR_NAME at' None
        (\<lambda>r. r\<lparr>qd_payment := Some (gp_id p), qd_bill := Some no, qd_paidAt := Some at'\<rparr>) h) (\<lambda>h1.
     Inr (on_db (emitChanged (ch @ [Ch_qrOrders])) h1))"

definition refunded_capture ::
    "string \<Rightarrow> qrOrderRow \<Rightarrow> gwPayment \<Rightarrow> instant \<Rightarrow> string \<Rightarrow> house \<Rightarrow> error + house" where
  "refunded_capture i o' p at' why h =
     bindE (moveQrOrder (i, o') Qr_Refunded SYSTEM_QR_NAME at' (Some why) (\<lambda>r. r\<lparr>qd_payment := Some (gp_id p)\<rparr>) h) (\<lambda>h1.
     bindE (queueRefund i (gp_id p) (rupees (gp_paise p)) Rr_Unfulfillable None at' h1) (\<lambda>h2.
     Inr (on_db (emitChanged [Ch_qrOrders]) h2)))"

text \<open>\<open>settleCapture\<close>: the one way a captured payment is settled, whoever reports it.\<close>

definition capture_tx :: "string \<Rightarrow> gwPayment \<Rightarrow> instant \<Rightarrow> string list \<Rightarrow> house \<Rightarrow> error + house" where
  "capture_tx i p at' us h =
     found (qrOrder_of h i) (NotFoundError ORDER_GONE) (\<lambda>o'.
       if qd_payment o' = Some (gp_id p) then Inr h
       else if truthy (qd_payment o') \<noteq> None \<or> (qd_status o' \<noteq> Qr_Awaiting \<and> qd_status o' \<noteq> Qr_Expired)
       then second_capture i p at' h
       else (let h0 = systemOperator h in
         bindE (try_sale i o' p at' us h0) (\<lambda>r.
         unless (payment_taken h0 i (gp_id p))
           (case r of Inr ((no, ch), h1) \<Rightarrow> billed_capture i o' p at' no ch h1
            | Inl why \<Rightarrow> refunded_capture i o' p at' why h0))))"

section \<open>The counter\<close>

definition qrSetStatus_tx :: "actor \<Rightarrow> string \<Rightarrow> qrOrderStatus \<Rightarrow> instant \<Rightarrow> house \<Rightarrow> error + house" where
  "qrSetStatus_tx a i to at' h =
     found (qrOrder_of h i) (NotFoundError (''There is no QR order '' @ i @ ''.'')) (\<lambda>o'.
     unless (if ac_wide a then None else requireLocOf (ac_loc a) (qd_loc o') ''your own counter's QR orders'')
     (unless (assertRule (to \<noteq> Qr_Voided) (''A QR order is voided with its bill - void ''
        @ (case qd_bill o' of Some no \<Rightarrow> no | None \<Rightarrow> ''its bill'') @ '' instead.''))
     (let step = nextQrStep (qd_mode o') (qd_status o') in
      unless (assertRule (step = Some to) (i @ '' is '' @ toLower (qr_word (qd_status o')) @ (case step of
          Some s \<Rightarrow> '' - its next step is '' @ toLower (qr_word s) @ ''.'' | None \<Rightarrow> '' and has no next step.'')))
     (bindE (moveQrOrder (i, o') to (userName (ho_db h) (ac_sub a)) at' None id h) (\<lambda>h1.
        Inr (on_db (emitChanged [Ch_qrOrders]) h1))))))"

definition setPause_tx :: "key \<Rightarrow> bool \<Rightarrow> house \<Rightarrow> error + house" where
  "setPause_tx loc p h =
     bindE (lockOutlet h loc) (\<lambda>l.
     unless (assertRule (loc_active l) (''Refused - '' @ loc_n l @ '' is closed''))
     (unless (assertRule (paused h loc \<noteq> p) (''QR ordering at '' @ loc_n l @ '' is already '' @ (if p then ''paused'' else ''on'')))
       (Inr (on_db (emitChanged [Ch_qrOrders]) (h\<lparr>ho_paused := (ho_paused h)(loc \<mapsto> p)\<rparr>)))))"

section \<open>The super admin's codes and hours\<close>

definition token_taken :: "house \<Rightarrow> string \<Rightarrow> string \<Rightarrow> error option" where
  "token_taken h i token = (if list_ex (\<lambda>c. fst c \<noteq> i \<and> qc_token (snd c) = token) (ho_codes h)
     then Some (Internal ''duplicate key value violates unique constraint qr_codes_token_uq'') else None)"

definition createCode_tx :: "key \<Rightarrow> string \<Rightarrow> qrMode \<Rightarrow> string \<Rightarrow> instant \<Rightarrow> house \<Rightarrow> error + house" where
  "createCode_tx loc label mode token at' h =
     bindE (lockOutlet h loc) (\<lambda>l.
     unless (assertRule (loc_active l) (''Refused - '' @ loc_n l @ '' is closed; reopen it before adding a QR code''))
     (bindE (try_db (allocateId K_qr_code at') h) (\<lambda>(i, h1).
      unless (token_taken h1 i token)
     (bindE (insert_row (ho_codes h1) i \<lparr>qc_loc = loc, qc_label = label, qc_mode = mode, qc_token = token, qc_active = True,
          qc_rotated = None\<rparr>) (\<lambda>rs.
      Inr (on_db (emitChanged [Ch_qrCodes]) (h1\<lparr>ho_codes := rs\<rparr>)))))))"

definition changes :: "'a option \<Rightarrow> 'a \<Rightarrow> bool" where
  "changes new old \<longleftrightarrow> new \<noteq> None \<and> new \<noteq> Some old"

definition updateCode_tx :: "string \<Rightarrow> string option \<Rightarrow> qrMode option \<Rightarrow> bool option \<Rightarrow> house \<Rightarrow> error + house" where
  "updateCode_tx i label mode active h =
     found (map_of (ho_codes h) i) (NotFoundError (''There is no QR code '' @ i @ ''.'')) (\<lambda>c.
     unless (assertRule (changes label (qc_label c) \<or> changes mode (qc_mode c) \<or> changes active (qc_active c))
       (''Nothing to save - '' @ i @ '' already reads that way''))
     (Inr (on_db (emitChanged [Ch_qrCodes]) (h\<lparr>ho_codes := update_row (ho_codes h) i (\<lambda>c. c
        \<lparr>qc_label := (case label of Some x \<Rightarrow> x | None \<Rightarrow> qc_label c), qc_mode := (case mode of Some x \<Rightarrow> x | None \<Rightarrow> qc_mode c),
         qc_active := (case active of Some x \<Rightarrow> x | None \<Rightarrow> qc_active c)\<rparr>)\<rparr>))))"

definition regenerateCode_tx :: "string \<Rightarrow> string \<Rightarrow> instant \<Rightarrow> house \<Rightarrow> error + house" where
  "regenerateCode_tx i token at' h =
     found (map_of (ho_codes h) i) (NotFoundError (''There is no QR code '' @ i @ ''.'')) (\<lambda>c.
     unless (token_taken h i token)
     (Inr (on_db (emitChanged [Ch_qrCodes]) (h\<lparr>ho_codes := update_row (ho_codes h) i
        (\<lambda>c. c\<lparr>qc_token := token, qc_rotated := Some at'\<rparr>)\<rparr>))))"

definition setHours_tx :: "key \<Rightarrow> orderHoursDay list \<Rightarrow> house \<Rightarrow> error + house" where
  "setHours_tx loc days h =
     bindE (lockOutlet h loc) (\<lambda>l.
     unless (assertRule (loc_active l) (''Refused - '' @ loc_n l @ '' is closed; reopen it before setting its QR ordering hours''))
       (Inr (on_db (emitChanged [Ch_qrCodes, Ch_qrOrders])
          (h\<lparr>ho_hours := (ho_hours h)(loc := stable_sort (\<lambda>a b. oh_dow a \<le> oh_dow b) days)\<rparr>))))"

section \<open>The worker's expiry (\<open>worker.ts\<close>), and the deliveries of the webhook\<close>

definition EXPIRE_BATCH :: nat where "EXPIRE_BATCH = 200"
definition REFUND_BATCH :: nat where "REFUND_BATCH = 20"

definition dueToExpire ::
    "(string \<Rightarrow> string \<Rightarrow> bool) \<Rightarrow> instant \<Rightarrow> string list \<Rightarrow> house \<Rightarrow> (string \<times> qrOrderRow) list" where
  "dueToExpire coll now busy h = take EXPIRE_BATCH
     (stable_sort (\<lambda>a b. qd_expires (snd a) < qd_expires (snd b) \<or> qd_expires (snd a) = qd_expires (snd b) \<and> coll (fst a) (fst b))
       (filter (\<lambda>o'. qd_status (snd o') = Qr_Awaiting \<and> qd_expires (snd o') \<le> now \<and> \<not> List.member busy (fst o')) (ho_qrOrders h)))"

fun expire_all :: "instant \<Rightarrow> (string \<times> qrOrderRow) list \<Rightarrow> house \<Rightarrow> error + house" where
  "expire_all now [] h = Inr h"
| "expire_all now (x # xs) h = bindE (moveQrOrder x Qr_Expired SYSTEM_QR_NAME now None id h) (expire_all now xs)"

definition expire_tx :: "(string \<Rightarrow> string \<Rightarrow> bool) \<Rightarrow> instant \<Rightarrow> string list \<Rightarrow> house \<Rightarrow> error + house" where
  "expire_tx coll now busy h = expire_all now (dueToExpire coll now busy h) h"

definition webhookSeen :: "house \<Rightarrow> string \<Rightarrow> bool" where
  "webhookSeen h ev \<longleftrightarrow> List.member (ho_webhooks h) ev"

definition markWebhook_tx :: "string \<Rightarrow> house \<Rightarrow> error + house" where
  "markWebhook_tx ev h = Inr (if webhookSeen h ev then h else h\<lparr>ho_webhooks := ho_webhooks h @ [ev]\<rparr>)"

end
