(* ===== verification/Wire.thy ===== *)
theory Wire
  imports Till Corrections Orders Qr
begin

text \<open>
  The shape a request body must have before a service sees it: the zod schemas of
  \<open>packages/contract/src/schemas/writes.ts\<close> and \<open>receivables.ts\<close>, for the routes of the house. A body
  that fails one is answered 400 by the error handler (\<open>plugins/errors.ts\<close>) and no service runs. A schema
  holds what is shape; what is a rule (a quantity above zero, a reason given) is left to the service.

  Lemmas: what a sale's lines are once they are through.
\<close>

section \<open>Numbers and words\<close>

definition QtySchema :: "number \<Rightarrow> bool" where
  "QtySchema v \<longleftrightarrow> is3 v \<and> v \<le> 100000"

definition SignedQtySchema :: "number \<Rightarrow> bool" where
  "SignedQtySchema v \<longleftrightarrow> is3 v \<and> - 100000 \<le> v \<and> v \<le> 100000"

definition SaleQtySchema :: "number \<Rightarrow> bool" where
  "SaleQtySchema v \<longleftrightarrow> 0 < v \<and> is3 v \<and> v \<le> 10000"

definition RateSchema :: "number \<Rightarrow> bool" where
  "RateSchema v \<longleftrightarrow> 0 \<le> v \<and> v \<le> 1000000 \<and> is2 v"

definition DiscountPctSchema :: "number \<Rightarrow> bool" where
  "DiscountPctSchema v \<longleftrightarrow> is2 v"

definition upTo :: "nat \<Rightarrow> 'a list \<Rightarrow> bool" where
  "upTo n s \<longleftrightarrow> length s \<le> n"

definition between :: "nat \<Rightarrow> nat \<Rightarrow> 'a list \<Rightarrow> bool" where
  "between m n s \<longleftrightarrow> m \<le> length s \<and> length s \<le> n"

definition optionally :: "('a \<Rightarrow> bool) \<Rightarrow> 'a option \<Rightarrow> bool" where
  "optionally ok x = (case x of None \<Rightarrow> True | Some v \<Rightarrow> ok v)"

definition DocId :: "string \<Rightarrow> bool" where
  "DocId i \<longleftrightarrow> between 1 40 i"

definition ReasonSchema :: "string \<Rightarrow> bool" where
  "ReasonSchema s \<longleftrightarrow> upTo 500 s"

definition LineSchema :: "(number \<Rightarrow> bool) \<Rightarrow> line \<Rightarrow> bool" where
  "LineSchema ok l \<longleftrightarrow> between 1 64 (fst l) \<and> ok (snd l)"

definition dateOrNothing :: "string \<Rightarrow> bool" where
  "dateOrNothing s \<longleftrightarrow> s = [] \<or> is_wire_date s"

section \<open>Bodies of the till and the accounts\<close>

definition PayBodySchema :: "payBody \<Rightarrow> bool" where
  "PayBodySchema b \<longleftrightarrow> locKeyOk (yb_loc b) \<and> yb_tender b \<in> set TILL_TENDERS \<and>
     between 1 100 (yb_lines b) \<and> list_all (LineSchema SaleQtySchema) (yb_lines b) \<and>
     optionally (\<lambda>s. upTo 80 s \<and> trim s = s) (yb_customer b) \<and> optionally (upTo 20) (yb_phone b)"

definition RecordSettlementBodySchema :: "settlementBody \<Rightarrow> bool" where
  "RecordSettlementBodySchema b \<longleftrightarrow> between 1 64 (snd (sb_payer b)) \<and> 0 < sb_amount b \<and> sb_amount b \<le> 10000000 \<and>
     upTo 500 (sb_note b)"

definition PayerParamsSchema :: "payerKind \<times> string \<Rightarrow> bool" where
  "PayerParamsSchema p \<longleftrightarrow> between 1 64 (snd p)"

definition CloseRegisterBodySchema :: "closeBody \<Rightarrow> bool" where
  "CloseRegisterBodySchema b \<longleftrightarrow> stockLocOk (cb_loc b) \<and> upTo 500 (cb_note b)"

section \<open>Bodies of the corrections and of buying\<close>

definition RequestLines :: "line list \<Rightarrow> bool" where
  "RequestLines ls \<longleftrightarrow> between 1 50 ls \<and> list_all (LineSchema QtySchema) ls"

definition AdjustmentLines :: "line list \<Rightarrow> bool" where
  "AdjustmentLines ls \<longleftrightarrow> between 1 100 ls \<and> list_all (LineSchema SignedQtySchema) ls"

definition CreateAdjustmentBodySchema :: "adjBody \<Rightarrow> bool" where
  "CreateAdjustmentBodySchema b \<longleftrightarrow> stockLocOk (jb_loc b) \<and> AdjustmentLines (jb_lines b) \<and> upTo 500 (jb_note b)"

definition CreateAdjustmentRequestBodySchema :: "adjBody \<Rightarrow> bool" where
  "CreateAdjustmentRequestBodySchema b \<longleftrightarrow> AdjustmentLines (jb_lines b) \<and> upTo 500 (jb_note b)"

definition CreateWastageBodySchema :: "wasteBody \<Rightarrow> bool" where
  "CreateWastageBodySchema b \<longleftrightarrow> between 1 64 (wb_it b) \<and> QtySchema (wb_qty b) \<and> wb_reason b \<in> set WASTAGE_REASONS \<and>
     upTo 500 (wb_note b)"

definition CreateRequisitionBodySchema :: "line list \<Rightarrow> string \<Rightarrow> bool" where
  "CreateRequisitionBodySchema ls note \<longleftrightarrow> RequestLines ls \<and> upTo 500 note"

definition ApproveRequisitionBodySchema :: "jsnum list \<Rightarrow> string \<Rightarrow> bool" where
  "ApproveRequisitionBodySchema ap note \<longleftrightarrow> between 1 50 ap \<and> upTo 500 note \<and>
     list_all (\<lambda>v. case v of Finite q \<Rightarrow> QtySchema q | _ \<Rightarrow> False) ap"

definition PickSchema :: "pick \<Rightarrow> bool" where
  "PickSchema p \<longleftrightarrow> DocId (pk_prq p) \<and> pk_line p \<le> 49 \<and> QtySchema (pk_qty p) \<and> optionally RateSchema (pk_rate p)"

definition CreatePoBodySchema :: "string \<Rightarrow> pick list \<Rightarrow> bool" where
  "CreatePoBodySchema vendor picks \<longleftrightarrow> DocId vendor \<and> upTo 100 picks \<and> list_all PickSchema picks"

definition UpdatePoLineBodySchema :: "number option \<Rightarrow> number option \<Rightarrow> bool" where
  "UpdatePoLineBodySchema q rate \<longleftrightarrow> optionally QtySchema q \<and> optionally RateSchema rate"

definition PatchPoBodySchema :: "string option \<Rightarrow> string option \<Rightarrow> bool" where
  "PatchPoBodySchema vendor eta \<longleftrightarrow> optionally DocId vendor \<and> optionally is_wire_date eta"

definition ReceiptLineInputSchema :: "receiptInput \<Rightarrow> bool" where
  "ReceiptLineInputSchema r \<longleftrightarrow> QtySchema (ri_recv r) \<and> QtySchema (ri_rejected r) \<and> upTo 60 (ri_batch r) \<and>
     RateSchema (ri_mrp r) \<and> dateOrNothing (ri_mfg r) \<and> dateOrNothing (ri_exp r)"

definition ReceivePoBodySchema :: "receiveBody \<Rightarrow> bool" where
  "ReceivePoBodySchema b \<longleftrightarrow> upTo 60 (vb_dc b) \<and> upTo 60 (vb_invoice b) \<and> dateOrNothing (vb_invDate b) \<and>
     between 1 100 (vb_lines b) \<and> list_all ReceiptLineInputSchema (vb_lines b)"

section \<open>Bodies of QR ordering (\<open>contract/schemas/qr.ts\<close>)\<close>

definition HhMmSchema :: "string \<Rightarrow> bool" where
  "HhMmSchema s \<longleftrightarrow> list_ex (\<lambda>m. s = hhmm (int m)) [0..<1440]"

definition OrderHoursDaySchema :: "orderHoursDay \<Rightarrow> bool" where
  "OrderHoursDaySchema d \<longleftrightarrow> 0 \<le> oh_dow d \<and> oh_dow d \<le> 6 \<and> HhMmSchema (oh_opens d) \<and> HhMmSchema (oh_closes d)"

definition SetOrderHoursBodySchema :: "orderHoursDay list \<Rightarrow> bool" where
  "SetOrderHoursBodySchema days \<longleftrightarrow> upTo 7 days \<and> list_all OrderHoursDaySchema days \<and> distinct (map oh_dow days) \<and>
     list_all (\<lambda>d. oh_opens d < oh_closes d) days"

definition CreateQrOrderBodySchema :: "placeBody \<Rightarrow> bool" where
  "CreateQrOrderBodySchema b \<longleftrightarrow> between 1 80 (pb_name b) \<and> trim (pb_name b) = pb_name b \<and> upTo 20 (pb_phone b) \<and>
     optionally (\<lambda>s. upTo 80 s \<and> trim s = s) (pb_detail b) \<and> between 1 QR_MAX_LINES (pb_lines b) \<and>
     list_all (LineSchema (\<lambda>n. is_integer n \<and> 1 \<le> n \<and> n \<le> QR_MAX_QTY)) (pb_lines b)"

definition qrLabel :: "string \<Rightarrow> bool" where
  "qrLabel s \<longleftrightarrow> between 1 40 s \<and> trim s = s"

definition CreateQrCodeBodySchema :: "key \<Rightarrow> string \<Rightarrow> bool" where
  "CreateQrCodeBodySchema loc label \<longleftrightarrow> locKeyOk loc \<and> qrLabel label"

lemmas wire_defs = QtySchema_def SignedQtySchema_def SaleQtySchema_def RateSchema_def DiscountPctSchema_def upTo_def
  between_def optionally_def DocId_def ReasonSchema_def LineSchema_def dateOrNothing_def RequestLines_def
  AdjustmentLines_def

lemma pay_lines_positive: "PayBodySchema b \<Longrightarrow> l \<in> set (yb_lines b) \<Longrightarrow> 0 < snd l"
  by (auto simp: PayBodySchema_def wire_defs list_all_iff)

lemma order_lines_positive: "CreateQrOrderBodySchema b \<Longrightarrow> l \<in> set (pb_lines b) \<Longrightarrow> 0 \<le> snd l"
  by (fastforce simp: CreateQrOrderBodySchema_def wire_defs list_all_iff)

end
