(* ===== verification/Sales.thy ===== *)
theory Sales
  imports Shelves Wire
begin

text \<open>
  One sale, whichever door it comes through (\<open>postSale\<close> for the till and for a QR capture): what it adds to
  the bills, the register and the ledger, in one piece.
\<close>

definition posted :: "move list \<Rightarrow> move list" where
  "posted ms = map (\<lambda>m. m\<lparr>mv_qty := round3 (mv_qty m)\<rparr>) (filter (\<lambda>m. round3 (mv_qty m) \<noteq> 0) ms)"

lemma db_moves_postMoves: "db_moves (postMoves ms d) = db_moves d @ posted ms"
  by (simp add: postMoves_def posted_def Let_def lockBalances_def)

lemma posted_delta: "(\<Sum>m\<leftarrow>posted ms. if mv_cell m = x then mv_qty m else 0) = delta_of ms x"
  by (induction ms) (auto simp: posted_def mv_cell_def)

lemma write_sale_parts:
  assumes "write_sale input at' s sid payer phone pct plan h = Inr (no, h')"
  shows "\<exists>n. no = formatId K_bill n at' \<and> bill_of h no = None \<and>
    h' = h\<lparr>ho_db := postMoves (sale_moves plan no (si_operator input) at') ((ho_db h)\<lparr>db_seq := (db_seq (ho_db h))(K_bill \<mapsto> n + 1)\<rparr>),
      ho_bills := ho_bills h @ [(no, sale_bill input at' sid payer phone pct plan)]\<rparr>"
  using assms by (rule write_sale_shape) blast

text \<open>The tables only a stock service writes: tickets, requests and what tickets hold.\<close>

definition same_papers :: "db \<Rightarrow> db \<Rightarrow> bool" where
  "same_papers d d' \<longleftrightarrow> db_tickets d' = db_tickets d \<and> db_requests d' = db_requests d \<and> db_resv d' = db_resv d"

lemma sale_shape:
  assumes p: "postSale i at' us h = Inr ((no, ch), h')"
  obtains n sid h1 payer b where
    "sessionFor (si_loc i) (si_operator i) at' us h = Inr (sid, h1)"
    "no = formatId K_bill n at'" "bill_of h no = None" "sale_payer i h = Inr payer"
    "credit_refusal h payer (pl_tot (sale_plan i h payer)) (snd (sale_terms h payer)) = None"
    "bi_session b = Some sid" "bi_void b = None" "bi_tender b = si_tender i" "bi_payer b = payer"
    "bi_total b = round2 (pl_tot (sale_plan i h payer))" "bi_lines b = pl_lines (sale_plan i h payer)"
    "bi_source b = si_source i" "bi_qrOrder b = si_qrOrder i"
    "ho_bills h' = ho_bills h @ [(no, b)]" "ho_sessions h' = ho_sessions h1"
    "ho_settlements h' = ho_settlements h" "ho_qrOrders h' = ho_qrOrders h" "ho_refunds h' = ho_refunds h"
    "db_moves (ho_db h') = db_moves (ho_db h) @ posted (sale_moves (sale_plan i h payer) no (si_operator i) at')"
    "same_papers (ho_db h) (ho_db h')"
proof -
  from p obtain l sid h1 phone payer where
    s: "sessionFor (si_loc i) (si_operator i) at' us h = Inr (sid, h1)" and py: "sale_payer i h1 = Inr payer"
    and cr: "credit_refusal h1 payer (pl_tot (sale_plan i h1 payer)) (snd (sale_terms h1 payer)) = None"
    and w: "write_sale i at' (sellableAt h1 (si_loc i)) sid payer phone (fst (sale_terms h1 payer)) (sale_plan i h1 payer)
       (on_db (lockBalances (map (\<lambda>t. (si_loc i, fst t)) (taken (sale_plan i h1 payer)))) h1) = Inr (no, h')"
    by (rule postSale_shape)
  from write_sale_parts [OF w] obtain n where no: "no = formatId K_bill n at'" and new: "bill_of h1 no = None"
    and h': "h' = h1\<lparr>ho_db := postMoves (sale_moves (sale_plan i h1 payer) no (si_operator i) at')
          ((lockBalances (map (\<lambda>t. (si_loc i, fst t)) (taken (sale_plan i h1 payer))) (ho_db h1))\<lparr>db_seq := (db_seq (ho_db h1))(K_bill \<mapsto> n + 1)\<rparr>),
        ho_bills := ho_bills h1 @ [(no, sale_bill i at' sid payer phone (fst (sale_terms h1 payer)) (sale_plan i h1 payer))]\<rparr>"
    unfolding bill_of_def on_db_sel by (auto simp: lockBalances_def on_db_def)
  obtain ss where h1: "h1 = h\<lparr>ho_sessions := ss\<rparr>"
    using sessionFor_ok [OF s] by (metis house.surjective house.update_convs(4))
  have rest: "ho_db h1 = ho_db h" "ho_bills h1 = ho_bills h" "ho_settlements h1 = ho_settlements h" "ho_prices h1 = ho_prices h"
     "ho_payers h1 = ho_payers h" "ho_classTerms h1 = ho_classTerms h" "ho_payerTerms h1 = ho_payerTerms h"
     "ho_qrOrders h1 = ho_qrOrders h" "ho_refunds h1 = ho_refunds h"
    by (simp_all add: h1)
  have terms: "sale_terms h1 = sale_terms h"
    unfolding sale_terms_def termsFor_def class_terms_def rest by (rule refl)
  have plan: "sale_plan i h1 = sale_plan i h"
    by (simp add: fun_eq_iff sale_plan_def rest terms)
  have out: "outstandingFor h1 = outstandingFor h"
    by (simp add: fun_eq_iff outstandingFor_def charged_def settled_def rest)
  have credit: "credit_refusal h1 = credit_refusal h"
    by (intro ext) (unfold credit_refusal_def out, rule refl)
  have payer: "sale_payer i h1 = sale_payer i h"
    unfolding sale_payer_def rest by (rule refl)
  note eqs = terms plan credit payer rest
  show ?thesis
  proof (rule that)
    show "sessionFor (si_loc i) (si_operator i) at' us h = Inr (sid, h1)" by (rule s)
    show "ho_bills h' = ho_bills h @ [(no, sale_bill i at' sid payer phone (fst (sale_terms h payer)) (sale_plan i h payer))]"
      by (simp add: h' eqs)
    show "db_moves (ho_db h') = db_moves (ho_db h) @ posted (sale_moves (sale_plan i h payer) no (si_operator i) at')"
      by (simp add: h' eqs db_moves_postMoves lockBalances_def)
    show "same_papers (ho_db h) (ho_db h')"
      by (simp add: h' eqs same_papers_def postMoves_def Let_def lockBalances_def)
  qed (use no new py cr in \<open>simp_all add: eqs h' sale_bill_def bill_of_def\<close>)
qed

lemma pay_tx_sale:
  "pay_tx c body at' us h = Inr h' \<longleftrightarrow>
     (\<exists>no ch h1. postSale (till_sale c body) at' us h = Inr ((no, ch), h1) \<and> h' = on_db (emitChanged ch) h1)"
  by (auto simp: pay_tx_def)

lemma till_sale_sel [simp]: "si_loc (till_sale c body) = yb_loc body" "si_operator (till_sale c body) = cl_sub c"
  "si_lines (till_sale c body) = yb_lines body" "si_tender (till_sale c body) = yb_tender body"
  "si_source (till_sale c body) = TillSale" "si_qrOrder (till_sale c body) = None"
  by (simp_all add: till_sale_def)

lemma pay_shape:
  assumes pay: "pay_tx c body at' us h = Inr h'"
  obtains no n sid h1 payer b where
    "sessionFor (yb_loc body) (cl_sub c) at' us h = Inr (sid, h1)"
    "no = formatId K_bill n at'" "bill_of h no = None" "sale_payer (till_sale c body) h = Inr payer"
    "credit_refusal h payer (pl_tot (sale_plan (till_sale c body) h payer)) (snd (sale_terms h payer)) = None"
    "bi_session b = Some sid" "bi_void b = None" "bi_tender b = yb_tender body" "bi_payer b = payer"
    "bi_total b = round2 (pl_tot (sale_plan (till_sale c body) h payer))" "bi_source b = TillSale"
    "ho_bills h' = ho_bills h @ [(no, b)]" "ho_sessions h' = ho_sessions h1"
    "ho_settlements h' = ho_settlements h" "ho_qrOrders h' = ho_qrOrders h" "ho_refunds h' = ho_refunds h"
    "db_moves (ho_db h') = db_moves (ho_db h) @ posted (sale_moves (sale_plan (till_sale c body) h payer) no (cl_sub c) at')"
    "same_papers (ho_db h) (ho_db h')"
proof -
  from pay obtain no ch h3 where p: "postSale (till_sale c body) at' us h = Inr ((no, ch), h3)" and h': "h' = on_db (emitChanged ch) h3"
    by (auto simp: pay_tx_sale)
  from p show ?thesis
  proof (rule sale_shape)
    fix n sid h1 payer b
    assume "same_papers (ho_db h) (ho_db h3)"
    then have "same_papers (ho_db h) (ho_db h')" by (simp add: h' same_papers_def emitChanged_def)
    moreover assume "sessionFor (si_loc (till_sale c body)) (si_operator (till_sale c body)) at' us h = Inr (sid, h1)"
      "no = formatId K_bill n at'" "bill_of h no = None" "sale_payer (till_sale c body) h = Inr payer"
      "credit_refusal h payer (pl_tot (sale_plan (till_sale c body) h payer)) (snd (sale_terms h payer)) = None"
      "bi_session b = Some sid" "bi_void b = None" "bi_tender b = si_tender (till_sale c body)" "bi_payer b = payer"
      "bi_total b = round2 (pl_tot (sale_plan (till_sale c body) h payer))" "bi_source b = si_source (till_sale c body)"
      "ho_bills h3 = ho_bills h @ [(no, b)]" "ho_sessions h3 = ho_sessions h1"
      "ho_settlements h3 = ho_settlements h" "ho_qrOrders h3 = ho_qrOrders h" "ho_refunds h3 = ho_refunds h"
      "db_moves (ho_db h3) = db_moves (ho_db h) @ posted (sale_moves (sale_plan (till_sale c body) h payer) no (si_operator (till_sale c body)) at')"
    ultimately show ?thesis by (intro that [of sid h1 no n payer b]) (simp_all add: h')
  qed
qed

text \<open>A cart of nothing negative stays so when it is folded, and what it moves is a sale's move out.\<close>

lemma cart_nonneg: "(\<And>l. l \<in> set ls \<Longrightarrow> 0 \<le> snd l) \<Longrightarrow> l \<in> set (cartOf ls) \<Longrightarrow> 0 \<le> snd l"
proof -
  assume ls: "\<And>l. l \<in> set ls \<Longrightarrow> 0 \<le> snd l" and "l \<in> set (cartOf ls)"
  then have "snd l = (\<Sum>x\<leftarrow>ls. if fst x = fst l then round3 (snd x) else 0)"
    using foldLines_mem [of "fst l" "snd l" ls] by (simp add: cartOf_def)
  also have "0 \<le> \<dots>" by (rule sum_list_nonneg) (use r3.round_nonneg [OF ls] in auto)
  finally show ?thesis .
qed

lemma sale_out:
  assumes "\<And>l. l \<in> set (si_lines i) \<Longrightarrow> 0 \<le> snd l" "m \<in> set (posted (sale_moves (sale_plan i h payer) no by' at'))"
  shows "sale_move no m" "mv_qty m \<le> 0"
  using assms(2) cart_nonneg [OF assms(1)]
  by (auto simp: posted_def sale_moves_def plan_moves sale_move_def intro!: round3_nonpos)

lemma sale_moves_of:
  assumes "PayBodySchema body" "m \<in> set (posted (sale_moves (sale_plan (till_sale c body) h payer) no by' at'))"
  shows "sale_move no m" "mv_qty m \<le> 0"
  using assms(2) by (rule sale_out [rotated], use pay_lines_positive [OF assms(1)] in \<open>simp add: less_imp_le\<close>)+

end
