(* ===== verification/Phone.thy ===== *)
theory Phone
  imports Sales
begin

text \<open>
  What the transactions of QR ordering leave alone: only a capture that bills the order touches the shelves,
  the bills or the register; every other step writes the QR tables, the trail and the numbers.
\<close>

definition orders_ok :: "house \<Rightarrow> bool" where
  "orders_ok h \<longleftrightarrow> distinct (map fst (ho_qrOrders h)) \<and> distinct (map fst (ho_refunds h)) \<and>
     (\<forall>o' \<in> snd ` set (ho_qrOrders h). \<forall>l \<in> set (qd_lines o'). 0 \<le> qi_qty l)"

definition qr_calm :: "house \<Rightarrow> house \<Rightarrow> bool" where
  "qr_calm h h' \<longleftrightarrow> quiet (ho_db h) (ho_db h') \<and> ho_bills h' = ho_bills h \<and> ho_sessions h' = ho_sessions h \<and>
     ho_settlements h' = ho_settlements h \<and> (orders_ok h \<longrightarrow> orders_ok h')"

lemma qr_calm_refl [simp]: "qr_calm h h"
  by (simp add: qr_calm_def)

lemma qr_calm_trans: "qr_calm a b \<Longrightarrow> qr_calm b c \<Longrightarrow> qr_calm a c"
  by (auto simp: qr_calm_def intro: quiet_trans)

lemma qr_calm_notes [simp]: "qr_calm h (on_db (emitChanged ch) h') = qr_calm h h'"
  "qr_calm h (on_db (appendHistory t b s w at') h') = qr_calm h h'"
  by (simp_all add: qr_calm_def orders_ok_def)

lemma qr_calm_refunds [simp]: "qr_calm h (update_refund i f h') = qr_calm h h'"
  by (simp_all add: qr_calm_def orders_ok_def update_refund_def)

lemma update_row_mem: "r' \<in> snd ` set (update_row t i f) \<Longrightarrow> \<exists>r \<in> snd ` set t. r' = r \<or> r' = f r"
  by (force simp: update_row_def split: if_splits)

lemma lines_update:
  "(\<And>r. qd_lines (f r) = qd_lines r) \<Longrightarrow> orders_ok h \<Longrightarrow> orders_ok (h\<lparr>ho_qrOrders := update_row (ho_qrOrders h) i f\<rparr>)"
  by (auto simp: orders_ok_def dest!: update_row_mem [OF imageI, of _ "ho_qrOrders h" i f])

lemma calm_update_order: "(\<And>r. qd_lines (f r) = qd_lines r) \<Longrightarrow> qr_calm h (update_qrOrder i f h)"
  using lines_update [of f h i] by (simp add: qr_calm_def update_qrOrder_def)

lemma calm_moveQrOrder:
  assumes "moveQrOrder row to who at' note patch h = Inr h'" "\<And>r. qd_lines (patch r) = qd_lines r"
  shows "qr_calm h h'"
proof -
  from moveQrOrder_shape [OF assms(1)] obtain d where d: "quiet (ho_db h) d" and
    h': "h' = h\<lparr>ho_db := d, ho_qrOrders := update_row (ho_qrOrders h) (fst row) (\<lambda>r. patch (r\<lparr>qd_status := to\<rparr>))\<rparr>" by blast
  have "orders_ok (h\<lparr>ho_qrOrders := update_row (ho_qrOrders h) (fst row) (\<lambda>r. patch (r\<lparr>qd_status := to\<rparr>))\<rparr>)"
    if "orders_ok h" using that by (rule lines_update [rotated]) (simp add: assms(2))
  with d show ?thesis by (simp add: qr_calm_def h' orders_ok_def)
qed

lemma calm_queueRefund: "queueRefund oid payment amount reason no at' h = Inr h' \<Longrightarrow> qr_calm h h'"
  by (drule queueRefund_shape) (auto simp: qr_calm_def orders_ok_def map_of_eq_None_iff)

lemma calm_operator: "qr_calm h (systemOperator h)"
  by (simp add: systemOperator_def qr_calm_def orders_ok_def)

section \<open>Refunds\<close>

lemma calm_moveRefund: "moveRefund i to rzp err at' h = Inr h' \<Longrightarrow> qr_calm h h'"
  by (auto simp: moveRefund_def split: if_splits)

lemma calm_deferRefund: "deferRefund i err final at' counted h = Inr (r, h') \<Longrightarrow> qr_calm h h'"
  by (auto simp: deferRefund_def Let_def split: if_splits)

lemma calm_claims: "qr_calm a (foldl (\<lambda>h i. update_refund i (f i) h) h is) = qr_calm a h"
  by (induction "is" arbitrary: h) simp_all

lemma calm_refunds:
  "claimDueRefunds coll now limit busy h = Inr h' \<Longrightarrow> qr_calm h h'"
  "refundSent_tx i g at' h = Inr h' \<Longrightarrow> qr_calm h h'"
  "refundUnsent_tx i err final at' h = Inr h' \<Longrightarrow> qr_calm h h'"
  "settleRefund_tx rzp rid processed at' h = Inr h' \<Longrightarrow> qr_calm h h'"
  "retryRefund_tx i at' h = Inr h' \<Longrightarrow> qr_calm h h'"
proof -
  show "claimDueRefunds coll now limit busy h = Inr h' \<Longrightarrow> qr_calm h h'"
    by (auto simp: claimDueRefunds_def calm_claims)
  show "refundSent_tx i g at' h = Inr h' \<Longrightarrow> qr_calm h h'"
    by (cases "gf_status g") (auto simp: refundSent_tx_def dest!: calm_moveRefund intro: qr_calm_trans split: option.splits if_splits)
  show "refundUnsent_tx i err final at' h = Inr h' \<Longrightarrow> qr_calm h h'"
    by (auto simp: refundUnsent_tx_def dest!: calm_deferRefund split: option.splits if_splits)
  show "retryRefund_tx i at' h = Inr h' \<Longrightarrow> qr_calm h h'"
    by (auto simp: retryRefund_tx_def dest!: calm_moveRefund)
  have two: "qr_calm h b" if "moveRefund i Ref_Sent x y t h = Inr a" "moveRefund i Ref_Processed x y t a = Inr b" for i x y t a b
    using that calm_moveRefund qr_calm_trans by blast
  show "settleRefund_tx rzp rid processed at' h = Inr h' \<Longrightarrow> qr_calm h h'"
    by (auto simp: settleRefund_tx_def split: option.splits if_splits) (blast intro: two calm_moveRefund)+
qed

section \<open>Placing, the counter, the codes\<close>

lemma quote_lines: "pl_lines (quote h loc ls) = map (\<lambda>c. \<lparr>bl_it = fst c, bl_qty = snd c,
     bl_rate = p_p (priceOf (loadMaster (ho_db h)) (ho_prices h) loc (fst c))\<rparr>) (cartOf ls)"
  by (simp add: quote_def planBill_def foldl_bill_lines)

lemma placed_shape:
  assumes "placed_tx cfg token body phone secret ip now h = Inr h'"
  obtains c l i d where "liveCode h token = Some c" "map_of (db_locations (ho_db h)) (qc_loc (snd c)) = Some l"
    "doors_refusal cfg l (qc_loc (snd c)) phone ip now h = None"
    "cart_refusal (sellableAt h (qc_loc (snd c))) (cartOf (pb_lines body)) = None"
    "total_refusal cfg (round2 (pl_tot (quote h (qc_loc (snd c)) (pb_lines body)))) = None"
    "orderByNonce h (pb_nonce body) = None" "qrOrder_of h i = None" "quiet (ho_db h) d"
    "h' = h\<lparr>ho_db := d, ho_qrOrders := ho_qrOrders h @
       [(i, quoted_order cfg c body phone secret ip now (quote h (qc_loc (snd c)) (pb_lines body)))]\<rparr>"
proof -
  from assms obtain c l i h1 h2 where c: "liveCode h token = Some c" "lockLocation (ho_db h) (qc_loc (snd c)) = Inr l"
    "doors_refusal cfg l (qc_loc (snd c)) phone ip now h = None"
    "cart_refusal (sellableAt h (qc_loc (snd c))) (cartOf (pb_lines body)) = None"
    "total_refusal cfg (round2 (pl_tot (quote h (qc_loc (snd c)) (pb_lines body)))) = None"
    and al: "try_db (allocateId K_qr_order now) h = Inr (i, h1)"
    and ins: "insertQrOrder i (quoted_order cfg c body phone secret ip now (quote h (qc_loc (snd c)) (pb_lines body))) h1 = Inr h2"
    and h': "h' = on_db (appendHistory ''qr_order'' i ''Awaiting payment'' (pb_name body @ '' (customer)'') now) h2"
    unfolding placed_tx_def Let_def found_Inr bindE_Inr unless_Inr by (elim exE conjE) (simp split: prod.splits, blast)
  from al obtain q where h1: "h1 = h\<lparr>ho_db := (ho_db h)\<lparr>db_seq := q\<rparr>\<rparr>" by (auto simp: allocateId_ok)
  have nonce: "qd_nonce (quoted_order cfg c body phone secret ip now plan) = pb_nonce body" for plan
    by (simp add: quoted_order_def)
  from ins have ins': "orderByNonce h (pb_nonce body) = None" "qrOrder_of h i = None"
    "h2 = h1\<lparr>ho_qrOrders := ho_qrOrders h @ [(i, quoted_order cfg c body phone secret ip now (quote h (qc_loc (snd c)) (pb_lines body)))]\<rparr>"
    by (auto simp: insertQrOrder_def h1 orderByNonce_def qrOrder_of_def nonce not_None_eq [symmetric] simp del: not_None_eq split: if_splits)
  show ?thesis
  proof (rule that [OF c(1) _ c(3-5) ins'(1,2)])
    show "map_of (db_locations (ho_db h)) (qc_loc (snd c)) = Some l" using c(2) by (simp add: lockLocation_def split: option.splits)
    show "quiet (ho_db h) (ho_db h')" by (simp add: h' ins'(3) h1)
    show "h' = h\<lparr>ho_db := ho_db h', ho_qrOrders := ho_qrOrders h @
       [(i, quoted_order cfg c body phone secret ip now (quote h (qc_loc (snd c)) (pb_lines body)))]\<rparr>"
      by (simp add: h' ins'(3) h1 on_db_def)
  qed
qed

lemma calm_placed:
  assumes "placed_tx cfg token body phone secret ip now h = Inr h'" "CreateQrOrderBodySchema body"
  shows "qr_calm h h'"
  using assms(1)
proof (rule placed_shape)
  fix c i d
  assume d: "quiet (ho_db h) d" "qrOrder_of h i = None" and h': "h' = h\<lparr>ho_db := d, ho_qrOrders := ho_qrOrders h @
       [(i, quoted_order cfg c body phone secret ip now (quote h (qc_loc (snd c)) (pb_lines body)))]\<rparr>"
  have "0 \<le> snd l" if "l \<in> set (cartOf (pb_lines body))" for l
    using that by (rule cart_nonneg [rotated]) (rule order_lines_positive [OF assms(2)])
  then show "qr_calm h h'" using d by (auto simp: qr_calm_def orders_ok_def h' quoted_order_def quote_lines qrOrder_of_def map_of_eq_None_iff)
qed

lemma calm_place: "place_tx cfg gw token body secret ip now h = Inr h' \<Longrightarrow> CreateQrOrderBodySchema body \<Longrightarrow> qr_calm h h'"
proof -
  have "qr_calm h h'" if "replay_tx prior code secret now h = Inr h'" for prior code
    using that by (cases prior) (auto simp: replay_tx_def intro: calm_update_order split: if_splits)
  then show "place_tx cfg gw token body secret ip now h = Inr h' \<Longrightarrow> CreateQrOrderBodySchema body \<Longrightarrow> qr_calm h h'"
    by (auto simp: place_tx_def intro: calm_placed split: option.splits if_splits)
qed

lemma calm_expire_all: "expire_all now xs h = Inr h' \<Longrightarrow> qr_calm h h'"
  by (induction xs arbitrary: h) (auto dest!: calm_moveQrOrder intro: qr_calm_trans)

lemma calm_counter:
  "setRzpOrder_tx i rzp h = Inr h' \<Longrightarrow> qr_calm h h'"
  "lapse_tx i at' h = Inr h' \<Longrightarrow> qr_calm h h'"
  "qrSetStatus_tx a i to at' h = Inr h' \<Longrightarrow> qr_calm h h'"
  "expire_tx coll now busy h = Inr h' \<Longrightarrow> qr_calm h h'"
  "markWebhook_tx ev h = Inr h' \<Longrightarrow> qr_calm h h'"
  by (auto simp: setRzpOrder_tx_def lapse_tx_def qrSetStatus_tx_def expire_tx_def markWebhook_tx_def Let_def
      dest!: calm_moveQrOrder calm_expire_all intro: calm_update_order split: option.splits if_splits)
    (auto simp: qr_calm_def orders_ok_def)

lemma calm_codes:
  "setPause_tx loc p h = Inr h' \<Longrightarrow> qr_calm h h'"
  "createCode_tx loc label mode token at' h = Inr h' \<Longrightarrow> qr_calm h h'"
  "updateCode_tx i label' mode' active h = Inr h' \<Longrightarrow> qr_calm h h'"
  "regenerateCode_tx i token at' h = Inr h' \<Longrightarrow> qr_calm h h'"
  "setHours_tx loc days h = Inr h' \<Longrightarrow> qr_calm h h'"
  by (auto simp: setPause_tx_def createCode_tx_def updateCode_tx_def regenerateCode_tx_def setHours_tx_def allocateId_ok
      qr_calm_def orders_ok_def)

section \<open>A capture\<close>

lemma qr_sale_shape:
  assumes "qr_sale i o' at' us h = Inr ((no, ch), h1)"
  obtains b where "postSale (qr_sale_input i o') at' us h = Inr ((no, ch), h1)" "bill_of h1 no = Some b"
    "moved_line (bi_lines b) (qd_lines o') = None" "bi_total b = qd_total o'"
proof -
  from assms obtain r where r: "postSale (qr_sale_input i o') at' us h = Inr r" by (auto simp: qr_sale_def)
  obtain no' ch' h' where rr: "r = ((no', ch'), h')" by (metis prod.collapse)
  have s: "found (bill_of h' no') (Internal no') (\<lambda>b. let moved = moved_line (bi_lines b) (qd_lines o') in
      unless (assertRule (moved = None \<and> bi_total b = qd_total o')
        (''the price of '' @ (case moved of Some l \<Rightarrow> line_name h l | None \<Rightarrow> ''the order'') @ '' changed after it was placed''))
        (Inr ((no', ch'), h'))) = Inr ((no, ch), h1)"
    using assms unfolding qr_sale_def r rr bindE_def sum.case prod.case .
  obtain b where b: "bill_of h' no' = Some b" "moved_line (bi_lines b) (qd_lines o') = None \<and> bi_total b = qd_total o'"
    and e: "Inr ((no', ch'), h') = (Inr ((no, ch), h1) :: error + (string \<times> changed list) \<times> house)"
    using s unfolding found_Inr Let_def unless_Inr assertRule_None by (elim exE conjE) blast
  from e have "no' = no" "ch' = ch" "h' = h1" by auto
  with b r rr show ?thesis by (intro that [of b]) auto
qed

lemma capture_cases [consumes 1, case_names same again duplicate billed refunded]:
  assumes "capture_tx i p at' us h = Inr h'"
  obtains o' where "qrOrder_of h i = Some o'" "qd_payment o' = Some (gp_id p)" "h' = h"
  | o' where "qrOrder_of h i = Some o'" "refundOfPayment h i (gp_id p)" "h' = h"
  | o' h1 where "qrOrder_of h i = Some o'" "qd_payment o' \<noteq> Some (gp_id p)" "\<not> refundOfPayment h i (gp_id p)"
      "truthy (qd_payment o') \<noteq> None \<or> qd_status o' \<notin> {Qr_Awaiting, Qr_Expired}"
      "queueRefund i (gp_id p) (rupees (gp_paise p)) Rr_Duplicate None at' h = Inr h1" "h' = on_db (emitChanged [Ch_qrOrders]) h1"
  | o' no ch h1 b h2 where "qrOrder_of h i = Some o'" "truthy (qd_payment o') = None" "qd_status o' \<in> {Qr_Awaiting, Qr_Expired}"
      "mismatch o' p = None" "payment_taken (systemOperator h) i (gp_id p) = None"
      "postSale (qr_sale_input i o') at' us (systemOperator h) = Inr ((no, ch), h1)" "bill_of h1 no = Some b"
      "moved_line (bi_lines b) (qd_lines o') = None" "bi_total b = qd_total o'"
      "moveQrOrder (i, o') Qr_Paid SYSTEM_QR_NAME at' None
        (\<lambda>r. r\<lparr>qd_payment := Some (gp_id p), qd_bill := Some no, qd_paidAt := Some at'\<rparr>) h1 = Inr h2"
      "h' = on_db (emitChanged (ch @ [Ch_qrOrders])) h2"
  | o' why h1 h2 where "qrOrder_of h i = Some o'" "truthy (qd_payment o') = None" "qd_status o' \<in> {Qr_Awaiting, Qr_Expired}"
      "payment_taken (systemOperator h) i (gp_id p) = None"
      "moveQrOrder (i, o') Qr_Refunded SYSTEM_QR_NAME at' (Some why) (\<lambda>r. r\<lparr>qd_payment := Some (gp_id p)\<rparr>) (systemOperator h) = Inr h1"
      "queueRefund i (gp_id p) (rupees (gp_paise p)) Rr_Unfulfillable None at' h1 = Inr h2" "h' = on_db (emitChanged [Ch_qrOrders]) h2"
proof -
  from assms obtain o' where o': "qrOrder_of h i = Some o'" by (auto simp: capture_tx_def)
  show ?thesis
  proof (cases "qd_payment o' = Some (gp_id p)")
    case True
    then have "h' = h" using assms by (simp add: capture_tx_def o')
    then show ?thesis by (rule that(1) [OF o' True])
  next
    case new: False
    show ?thesis
    proof (cases "truthy (qd_payment o') \<noteq> None \<or> qd_status o' \<notin> {Qr_Awaiting, Qr_Expired}")
      case True
      with assms o' new have s: "second_capture i p at' h = Inr h'" by (auto simp: capture_tx_def split: if_splits)
      show ?thesis
      proof (cases "refundOfPayment h i (gp_id p)")
        case again: True
        then have "h' = h" using s by (simp add: second_capture_def)
        then show ?thesis by (rule that(2) [OF o' again])
      next
        case False
        with s obtain h1 where "queueRefund i (gp_id p) (rupees (gp_paise p)) Rr_Duplicate None at' h = Inr h1"
          "h' = on_db (emitChanged [Ch_qrOrders]) h1" by (auto simp: second_capture_def)
        then show ?thesis by (rule that(3) [OF o' new False True])
      qed
    next
      case False
      then have first: "truthy (qd_payment o') = None" "qd_status o' \<in> {Qr_Awaiting, Qr_Expired}" by auto
      from assms o' new False obtain r where r: "try_sale i o' p at' us (systemOperator h) = Inr r"
        and taken: "payment_taken (systemOperator h) i (gp_id p) = None"
        and rest: "(case r of Inr ((no, ch), h1) \<Rightarrow> billed_capture i o' p at' no ch h1
            | Inl why \<Rightarrow> refunded_capture i o' p at' why (systemOperator h)) = Inr h'"
        by (auto simp: capture_tx_def Let_def split: if_splits)
      show ?thesis
      proof (cases r)
        case (Inl why)
        with rest obtain h1 h2 where
          "moveQrOrder (i, o') Qr_Refunded SYSTEM_QR_NAME at' (Some why) (\<lambda>r. r\<lparr>qd_payment := Some (gp_id p)\<rparr>) (systemOperator h) = Inr h1"
          "queueRefund i (gp_id p) (rupees (gp_paise p)) Rr_Unfulfillable None at' h1 = Inr h2" "h' = on_db (emitChanged [Ch_qrOrders]) h2"
          by (auto simp: refunded_capture_def)
        then show ?thesis by (rule that(5) [OF o' first taken])
      next
        case (Inr s)
        obtain no ch h1 where s: "s = ((no, ch), h1)" by (metis prod.collapse)
        from r Inr s have m: "mismatch o' p = None" and sale: "qr_sale i o' at' us (systemOperator h) = Inr ((no, ch), h1)"
          by (auto simp: try_sale_def split: option.splits sum.splits if_splits)
        from sale obtain b where b: "postSale (qr_sale_input i o') at' us (systemOperator h) = Inr ((no, ch), h1)" "bill_of h1 no = Some b"
          "moved_line (bi_lines b) (qd_lines o') = None" "bi_total b = qd_total o'" by (rule qr_sale_shape)
        from rest Inr s obtain h2 where "moveQrOrder (i, o') Qr_Paid SYSTEM_QR_NAME at' None
            (\<lambda>r. r\<lparr>qd_payment := Some (gp_id p), qd_bill := Some no, qd_paidAt := Some at'\<rparr>) h1 = Inr h2"
          "h' = on_db (emitChanged (ch @ [Ch_qrOrders])) h2" by (auto simp: billed_capture_def)
        then show ?thesis by (rule that(4) [OF o' first m taken b])
      qed
    qed
  qed
qed

text \<open>A capture is quiet, or it is a sale between two quiet steps.\<close>

lemma capture_parts:
  assumes "capture_tx i p at' us h = Inr h'"
  shows "qr_calm h h' \<or> (\<exists>o' no ch h1. qrOrder_of h i = Some o' \<and> qr_calm h (systemOperator h) \<and>
     postSale (qr_sale_input i o') at' us (systemOperator h) = Inr ((no, ch), h1) \<and> qr_calm h1 h')"
  using assms
proof (cases rule: capture_cases)
  case (duplicate o' h1)
  then show ?thesis by (simp add: calm_queueRefund)
next
  case (billed o' no ch h1 b h2)
  then have "qr_calm h1 h2" by (elim calm_moveQrOrder) simp
  then show ?thesis using billed calm_operator by auto
next
  case (refunded o' why h1 h2)
  then have "qr_calm (systemOperator h) h1" by (elim calm_moveQrOrder) simp
  then show ?thesis using refunded calm_operator calm_queueRefund qr_calm_trans by (metis qr_calm_notes(1))
qed simp_all

lemma qr_sale_lines: "orders_ok h \<Longrightarrow> qrOrder_of h i = Some o' \<Longrightarrow> l \<in> set (si_lines (qr_sale_input i o')) \<Longrightarrow> 0 \<le> snd l"
  unfolding orders_ok_def qrOrder_of_def qr_sale_input_def by (auto dest!: map_of_SomeD)

end
