(* ===== verification/Lifecycle.thy ===== *)
theory Lifecycle
  imports System
begin

text \<open>
  What one step may do to a stock request. Besides the edges of \<open>REQUEST_TRANSITIONS\<close> the code writes
  two steps the table does not list: a redirect takes a request that was sent straight to its ticket
  (\<open>modules/requests/service.ts\<close>), and a cancelled ticket puts its request back where the
  approval left it (\<open>modules/tickets/service.ts\<close>). Every operation keeps what was asked, by whom and for
  which outlet, and a request that is closed, rejected or cancelled stays that way.
\<close>

definition request_edge :: "reqStatus \<Rightarrow> reqStatus \<Rightarrow> bool" where
  "request_edge a b \<longleftrightarrow> canTransition REQUEST_TRANSITIONS a b \<or> a = Req_Sent \<and> b = Req_TicketIssued \<or>
     a = Req_TicketIssued \<and> (b = Req_ManagerApproved \<or> b = Req_PartiallyApproved)"

definition request_kept :: "requestRow \<Rightarrow> requestRow \<Rightarrow> bool" where
  "request_kept r r' \<longleftrightarrow> rq_from r' = rq_from r \<and> rq_by r' = rq_by r \<and> asked_lines r' = asked_lines r \<and>
     request_edge\<^sup>*\<^sup>* (rq_status r) (rq_status r')"

definition request_step :: "db \<Rightarrow> db \<Rightarrow> bool" where
  "request_step d d' \<longleftrightarrow> rows_kept request_kept (request_of d) (request_of d')"

lemma request_kept_refl: "request_kept r r"
  by (simp add: request_kept_def)

lemma request_kept_trans: "request_kept a b \<Longrightarrow> request_kept b c \<Longrightarrow> request_kept a c"
  by (auto simp: request_kept_def)

lemma request_step_same: "db_requests d' = db_requests d \<Longrightarrow> request_step d d'"
  using rows_kept_refl [of request_kept] request_kept_refl by (simp add: request_step_def request_of_def [abs_def])

lemma request_step_refl: "request_step d d"
  by (rule request_step_same) simp

lemma request_step_trans: "request_step a b \<Longrightarrow> request_step b c \<Longrightarrow> request_step a c"
  unfolding request_step_def by (rule rows_kept_trans [of request_kept, OF request_kept_trans])

lemma request_step_cong:
  "db_requests a' = db_requests a \<Longrightarrow> db_requests b' = db_requests b \<Longrightarrow> request_step a b \<Longrightarrow> request_step a' b'"
  by (simp add: request_step_def request_of_def [abs_def])

lemma request_step_update:
  assumes "\<And>r. request_of d i = Some r \<Longrightarrow> request_kept r (f r)"
  shows "request_step d (update_request i f d)"
  unfolding request_step_def
  by (rule rows_keptI) (use assms request_kept_refl in \<open>auto simp: request_of_update\<close>)

lemma settled_stays:
  "request_edge\<^sup>*\<^sup>* a b \<Longrightarrow> REQUEST_TRANSITIONS a = [] \<Longrightarrow> b = a"
  by (induction rule: rtranclp.induct) (auto simp: request_edge_def split: reqStatus.splits)

lemma table_edge: "canTransition REQUEST_TRANSITIONS a b \<Longrightarrow> request_edge\<^sup>*\<^sup>* a b"
  by (rule r_into_rtranclp) (simp add: request_edge_def)

lemma asked_of_lines: "map ql_it ls' = map ql_it ls \<Longrightarrow> map ql_qty ls' = map ql_qty ls \<Longrightarrow>
    map (\<lambda>l. (ql_it l, ql_qty l)) ls' = map (\<lambda>l. (ql_it l, ql_qty l)) ls"
proof (induction ls' arbitrary: ls)
  case (Cons l' ls')
  then show ?case by (cases ls) auto
qed simp

lemma request_step_approvals: "request_step d (setLineApprovals i ds d)"
  unfolding setLineApprovals_def
proof (rule request_step_update)
  fix r show "request_kept r (r\<lparr>rq_lines := approve_lines ds (rq_lines r)\<rparr>)"
    using asked_of_lines [of "approve_lines ds (rq_lines r)" "rq_lines r"]
    by (simp add: request_kept_def asked_lines_def)
qed

lemma requests_prims [simp]:
  "db_requests (update_ticket i f d) = db_requests d" "db_requests (update_pord i g d) = db_requests d"
  "db_requests (update_ask i h d) = db_requests d" "db_requests (appendHistory x b s w at' d) = db_requests d"
  "db_requests (emitChanged ch d) = db_requests d" "db_requests (postMoves ms d) = db_requests d"
  "db_requests (snd (releaseForTicket i at' d)) = db_requests d" "db_requests (lockBalances cs d) = db_requests d"
  "db_requests (countWrongOtp i d) = db_requests d" "db_requests (reopenShopAsk i d) = db_requests d"
  "db_requests (hand_out i t by' at' d) = db_requests d" "db_requests (setOrderStatus i pst d) = db_requests d"
  by (simp_all add: update_ticket_def update_pord_def update_ask_def appendHistory_def emitChanged_def
      countWrongOtp_def reopenShopAsk_def hand_out_def setOrderStatus_def)

lemma request_step_follow:
  assumes "db_requests d' = db_requests d"
  shows "request_step d (follow (linkedRequest d ref) st w who at' d')"
proof -
  have 1: "request_step d' (setRequestStatus ref st d')"
    if "request_of d ref = Some r" "canTransition REQUEST_TRANSITIONS (rq_status r) st" for r
    unfolding setRequestStatus_def
    by (rule request_step_update) (use that assms in \<open>auto simp: request_kept_def asked_lines_def request_of_def intro: table_edge\<close>)
  show ?thesis
  proof (cases "\<exists>r. linkedRequest d ref = Some (ref, rq_status r) \<and> request_of d ref = Some r
      \<and> canTransition REQUEST_TRANSITIONS (rq_status r) st")
    case True
    then obtain r where r: "linkedRequest d ref = Some (ref, rq_status r)" "request_of d ref = Some r"
      "canTransition REQUEST_TRANSITIONS (rq_status r) st" by blast
    show ?thesis by (rule request_step_cong [OF _ _ 1 [OF r(2,3)]]) (use assms r in \<open>simp_all add: follow_def\<close>)
  next
    case False
    then have "follow (linkedRequest d ref) st w who at' d' = d'"
      by (auto simp: follow_def linkedRequest_def split: option.splits if_splits)
    then show ?thesis using assms by (simp add: request_step_same)
  qed
qed

lemma request_step_emit: "request_step d (emitChanged ch d') = request_step d d'"
  by (simp add: request_step_def request_of_def [abs_def])

lemma request_step_handover: "handover_tx c i otp at' d = Inr (d', r) \<Longrightarrow> request_step d d'"
  by (erule handover_tx_shape)
    (elim disjE conjE, simp add: request_step_same, simp add: request_step_emit request_step_follow)

lemma request_step_receive: "receive_tx c i at' d = Inr d' \<Longrightarrow> request_step d d'"
  by (erule receive_tx_shape) (simp add: request_step_emit request_step_follow)

lemma put_back_step:
  assumes "put_back_request (linkedRequest d ref) who at' d1 = Inr d2" "db_requests d1 = db_requests d"
  shows "request_step d d2"
proof (cases "linkedRequest d ref")
  case None
  with assms show ?thesis by (auto simp: put_back_request_def intro: request_step_same)
next
  case (Some l)
  then obtain r where l: "l = (ref, rq_status r)" and r: "request_of d ref = Some r"
    by (auto simp: linkedRequest_def split: if_splits)
  let ?st = "approvedStatus (map (\<lambda>l. (ql_qty l, ql_appr l)) (rq_lines r))"
  have r1: "request_of d1 ref = Some r" using assms(2) r by (simp add: request_of_def)
  have st: "rq_status r = Req_TicketIssued" and d2: "db_requests d2 = db_requests (releaseRequest ref ?st d1)"
    using assms(1) Some l r1 by (auto simp: put_back_request_def Let_def)
  have "request_step d1 (releaseRequest ref ?st d1)"
    unfolding releaseRequest_def
    by (rule request_step_update)
      (use r1 st in \<open>auto simp: request_kept_def asked_lines_def request_edge_def approvedStatus_def intro!: r_into_rtranclp\<close>)
  then show ?thesis by (rule request_step_cong [OF assms(2) [symmetric] d2])
qed

lemma put_back_requests_kept:
  "put_back_order o' who at' d = Inr d' \<Longrightarrow> db_requests d' = db_requests d"
  "put_back_ask a d = Inr d' \<Longrightarrow> db_requests d' = db_requests d"
  unfolding put_back_order_def put_back_ask_def Let_def by (auto split: option.splits)

lemma voidTicket_requests: "db_requests (snd (voidTicket i why who at' d)) = db_requests d"
  by (simp add: voidTicket_def split_beta)

lemma request_step_cancel: "cancel_tx c i raw at' d = Inr d' \<Longrightarrow> request_step d d'"
proof (erule cancel_tx_shape)
  fix t d2 d3 d4
  assume p: "put_back_request (if tk_refType t = Ref_request then linkedRequest d (tk_refId t) else None)
       (userName d (cl_sub c)) at' (snd (voidTicket i (trim raw) (userName d (cl_sub c)) at' d)) = Inr d2"
    "put_back_order (if tk_refType t = Ref_prod_order then linkedProdOrder d (tk_refId t) else None)
       (userName d (cl_sub c)) at' d2 = Inr d3"
    "put_back_ask (if tk_refType t = Ref_shop_ask then linkedShopAsk d (tk_refId t) else None) d3 = Inr d4"
    and d': "\<exists>ch. d' = emitChanged ch d4"
  have "request_step d d2"
  proof (cases "tk_refType t = Ref_request")
    case True
    with p(1) show ?thesis by (intro put_back_step [OF _ voidTicket_requests]) simp
  next
    case False
    with p(1) show ?thesis by (intro request_step_same) (auto simp: put_back_request_def voidTicket_requests)
  qed
  moreover have "db_requests d' = db_requests d2" using p(2,3) d' put_back_requests_kept by auto
  ultimately show "request_step d d'" using request_step_cong [OF refl] by blast
qed

section \<open>The requests service\<close>

lemma request_step_create: "create_tx c rb at' d = Inr d' \<Longrightarrow> request_step d d'"
proof (erule create_tx_shape)
  fix n
  let ?i = "formatId K_req n at'"
  assume none: "request_of d ?i = None"
    and d': "d' = emitChanged [Ch_req] (appendHistory ''request'' ?i ''Request sent'' (userName d (cl_sub c)) at'
       (d\<lparr>db_seq := (db_seq d)(K_req \<mapsto> n + 1), db_requests := db_requests d @ [(?i, new_request c rb at')]\<rparr>))"
  show "request_step d d'"
    using rows_kept_snoc [of "db_requests d" ?i request_kept] none request_kept_refl
    by (simp add: request_step_def request_of_def [abs_def] d')
qed

lemma request_step_own:
  assumes "request_of d i = Some r" "request_kept r (f r)" "db_requests d' = db_requests (update_request i f d)"
  shows "request_step d d'"
  by (rule request_step_cong [OF refl assms(3) request_step_update]) (use assms(1,2) in simp)

lemma request_step_cancelRequest: "cancelRequest_tx a i now d = Inr d' \<Longrightarrow> request_step d d'"
  by (auto simp: cancelRequest_tx_def setRequestStatus_def request_kept_def asked_lines_def
      intro!: request_step_own [where f = "\<lambda>r. r\<lparr>rq_status := Req_Cancelled\<rparr>"] table_edge)

lemma request_step_reject: "reject_tx c i note now d = Inr d' \<Longrightarrow> request_step d d'"
  by (auto simp: reject_tx_def request_kept_def asked_lines_def intro!: table_edge
      request_step_own [where f = "\<lambda>r. r\<lparr>rq_status := Req_Rejected, rq_note := note, rq_approvedBy := Some (cl_sub c)\<rparr>"])

text \<open>Writing what was approved of each line, then the status: the two updates a decision makes.\<close>

lemma request_step_decide:
  assumes "db_requests d0 = db_requests d" "db_requests d' = db_requests (update_request i f (setLineApprovals i ds d0))"
    and "request_of d i = Some r" "\<And>r'. rq_status r' = rq_status r \<Longrightarrow> request_kept r' (f r')"
  shows "request_step d d'"
proof (rule request_step_trans)
  show "request_step d (setLineApprovals i ds d0)"
    by (rule request_step_cong [OF assms(1) [symmetric] refl request_step_approvals])
  have r: "request_of d0 i = Some r" using assms(1,3) by (simp add: request_of_def)
  have "request_step (setLineApprovals i ds d0) (update_request i f (setLineApprovals i ds d0))"
    by (rule request_step_update)
      (use r assms(4) in \<open>auto simp: setLineApprovals_def request_of_update\<close>)
  then show "request_step (setLineApprovals i ds d0) d'" by (rule request_step_cong [OF refl assms(2)])
qed

lemma request_step_approve: "approve_tx c i appr note now d = Inr d' \<Longrightarrow> request_step d d'"
  by (auto simp: approve_tx_def Let_def request_kept_def asked_lines_def
      intro!: request_step_decide [OF refl] table_edge)

lemma writeTicket_requests: "writeTicket draft no d = Inr d' \<Longrightarrow> db_requests d' = db_requests d"
  by (erule writeTicket_shape) simp

lemma request_step_redirect: "redirect_tx coll c i from at' rnd d = Inr d' \<Longrightarrow> request_step d d'"
proof (erule redirect_tx_shape)
  fix r n d3
  assume r: "request_of d i = Some r" "rq_status r = Req_Sent"
    and w: "writeTicket \<lparr>dr_refType = Ref_shop_transfer, dr_refId = i, dr_from = from, dr_to = rq_from r,
       dr_lines = asked_lines r, dr_by = cl_sub c, dr_at = at'\<rparr> (formatId K_tkt n at', nat_str rnd)
       (lockBalances (map (\<lambda>l. (from, fst l)) (asked_lines r)) (d\<lparr>db_seq := (db_seq d)(K_tkt \<mapsto> n + 1)\<rparr>)) = Inr d3"
    and d': "d' = emitChanged [Ch_req, Ch_tkt, Ch_rsv]
       (appendHistory ''request'' i (''Redirected to '' @ loc_name d from) (userName d (cl_sub c)) at'
         (update_request i (ticket_on_request (formatId K_tkt n at') (cl_sub c))
           (setLineApprovals i (map (\<lambda>l. (snd l, 0)) (asked_lines r)) d3)))"
  have "db_requests d3 = db_requests d" using writeTicket_requests [OF w] by simp
  then show "request_step d d'"
    by (rule request_step_decide [OF _ _ r(1)])
      (auto simp: d' r(2) request_kept_def asked_lines_def ticket_on_request_def request_edge_def
        intro!: r_into_rtranclp)
qed

lemma request_step_issue: "issue_tx c i at' rnd d = Inr d' \<Longrightarrow> request_step d d'"
proof (erule issue_tx_shape)
  fix r n d3
  assume r: "request_of d i = Some r" "rq_status r = Req_ManagerApproved \<or> rq_status r = Req_PartiallyApproved"
    and w: "writeTicket \<lparr>dr_refType = Ref_request, dr_refId = i, dr_from = STORE, dr_to = rq_from r,
       dr_lines = approved_fold r, dr_by = cl_sub c, dr_at = at'\<rparr> (formatId K_tkt n at', nat_str rnd)
       (lockBalances (map (\<lambda>l. (STORE, fst l)) (approved_fold r)) (d\<lparr>db_seq := (db_seq d)(K_tkt \<mapsto> n + 1)\<rparr>)) = Inr d3"
    and d': "d' = emitChanged [Ch_req, Ch_tkt, Ch_rsv]
       (appendHistory ''request'' i ''Ticket issued'' (userName d (cl_sub c)) at'
         (update_request i (\<lambda>r. r\<lparr>rq_status := Req_TicketIssued, rq_ticket := Some (formatId K_tkt n at')\<rparr>) d3))"
  have d3: "db_requests d3 = db_requests d" using writeTicket_requests [OF w] by simp
  show "request_step d d'"
    by (rule request_step_own [OF r(1), where f = "\<lambda>r. r\<lparr>rq_status := Req_TicketIssued, rq_ticket := Some (formatId K_tkt n at')\<rparr>"])
      (use r(2) d3 in \<open>auto simp: d' request_kept_def asked_lines_def update_request_def intro!: table_edge\<close>)
qed

lemma request_step_writer:
  assumes "writeTicket draft no d1 = Inr d2" "db_requests d1 = db_requests d" "db_requests d' = db_requests d2"
  shows "request_step d d'"
  using writeTicket_requests [OF assms(1)] assms(2,3) by (simp add: request_step_same)

lemma batch_requests: "writeBatch b d = Inr d' \<Longrightarrow> db_requests d' = db_requests d"
  by (auto simp: writeBatch_def Let_def allocateNumber_def insertBatch_ok split: option.splits)

lemma request_step_others:
  "raise_tx c ob at' d = Inr d' \<Longrightarrow> request_step d d'"
  "setStatus_tx c i st at' d = Inr d' \<Longrightarrow> request_step d d'"
  "ask_tx c ab at' d = Inr d' \<Longrightarrow> request_step d d'"
  "decline_tx c i n d = Inr d' \<Longrightarrow> request_step d d'"
  "makeBatch_tx c bb at' d = Inr d' \<Longrightarrow> request_step d d'"
  by (rule request_step_same,
      auto simp: raise_tx_def setStatus_tx_def ask_tx_def decline_tx_def makeBatch_tx_def Let_def allocateId_ok
        insertOrder_def insertAsk_def dest: batch_requests)+

lemma request_step_writers:
  "transfer_tx c tb at' rnd d = Inr d' \<Longrightarrow> request_step d d'"
  "dispatch_tx c i at' rnd d = Inr d' \<Longrightarrow> request_step d d'"
  "distribute_tx c db at' rnd d = Inr d' \<Longrightarrow> request_step d d'"
  "answer_tx c i g at' rnd d = Inr d' \<Longrightarrow> request_step d d'"
  unfolding transfer_tx_def dispatch_tx_def distribute_tx_def answer_tx_def Let_def
  by (auto simp: allocateTicket_ok intro: request_step_writer)

lemmas request_step_tx = request_step_create request_step_cancelRequest request_step_approve request_step_reject
  request_step_redirect request_step_issue request_step_receive request_step_cancel request_step_others
  request_step_writers

lemma request_step_exec: "request_step d (snd (exec coll op d))"
proof -
  have ho: "request_step d (snd (handover c i otp at' d))" for c i otp at'
    by (auto simp: handover_def intro: request_step_refl request_step_handover split: sum.splits option.splits)
  show ?thesis
    by (cases op; simp add: service_defs; (rule ho | rule keeps_tx, erule request_step_tx, rule request_step_refl))
qed

end
