(* ===== verification/Demo.thy ===== *)
theory Demo
  imports Lifecycle
begin

text \<open>
  A small hospital to run the model on: a central store, a kitchen and two outlets, two items, and the
  opening stock posted. The witnesses of the properties are evaluated on what the services make of it.
\<close>

text \<open>A database before its first document: the books are opened, nothing is promised, nothing asked.\<close>

definition opened :: "db \<Rightarrow> bool" where
  "opened d \<longleftrightarrow> ledger_ok d \<and> (\<forall>c. 0 \<le> onhand d c) \<and> db_resv d = [] \<and> db_tickets d = [] \<and> db_requests d = []"

lemma inv_opened: "opened d \<Longrightarrow> inv d"
  by (auto simp: opened_def inv_def stock_inv_def resv_ok_def tickets_ok_def requests_ok_def ticket_of_def
      request_of_def held_def intro!: coveredI)

lemma inv_reached: "opened d0 \<Longrightarrow> runs (exec coll) d0 d \<Longrightarrow> inv d"
  using rch.runs_safe inv_opened by blast

definition demo_item :: "string \<Rightarrow> itemType \<Rightarrow> item" where
  "demo_item n t = \<lparr>item_code = n, item_n = n, item_u = ''nos'', item_t = t, item_g = ''G'', item_hsn = ''1006'',
     item_gst = 5, item_rl = 0, item_cost = 10, item_mrp = None, item_sl = None, item_dn = None,
     item_active = True, item_src = None\<rparr>"

definition demo_loc :: "string \<Rightarrow> locType \<Rightarrow> location" where
  "demo_loc n t = \<lparr>loc_n = n, loc_type = t, loc_list = None, loc_active = True, loc_par = 0\<rparr>"

definition demo_move :: "key \<Rightarrow> key \<Rightarrow> number \<Rightarrow> move" where
  "demo_move l i q = \<lparr>mv_loc = l, mv_it = i, mv_qty = q, mv_kind = Mk_opening, mv_refType = ''opening'',
     mv_refId = ''day one'', mv_by = None, mv_at = 0, mv_reverses = None\<rparr>"

definition demo :: db where
  "demo = \<lparr>db_items = [''rice'' \<mapsto> demo_item ''Rice'' RAW, ''water'' \<mapsto> demo_item ''Water'' MRP],
     db_locations = [(''store'', demo_loc ''Store'' Store_Type), (''kitchen'', demo_loc ''Kitchen'' Kitchen_Type),
       (''cafe'', demo_loc ''Cafe'' Outlet_Type), (''kiosk'', demo_loc ''Kiosk'' Outlet_Type)],
     db_menu = (\<lambda>_. []), db_overrides = (\<lambda>_. None), db_users = [''u1'' \<mapsto> ''Asha''],
     db_seq = (\<lambda>k. Some (SEQUENCE_START k)),
     db_balances = [(''store'', ''water'') \<mapsto> 10, (''kiosk'', ''water'') \<mapsto> 5, (''store'', ''rice'') \<mapsto> 8],
     db_moves = [demo_move ''store'' ''water'' 10, demo_move ''kiosk'' ''water'' 5, demo_move ''store'' ''rice'' 8],
     db_resv = [], db_requests = [], db_tickets = [], db_pords = [], db_asks = [], db_batches = [],
     db_hist = [], db_notices = []\<rparr>"

definition clerk :: "key \<Rightarrow> claims" where
  "clerk l = \<lparr>cl_sub = ''u1'', cl_role = Counter, cl_loc = l, cl_admin = False, cl_mcp = False\<rparr>"

lemma opened_demo: "opened demo"
  by (auto simp: opened_def demo_def ledger_ok_def onhand_def moved_def demo_move_def mv_cell_def is3_numeral or0_def
      split: option.splits)

text \<open>What the services unfold to on concrete arguments.\<close>

lemmas run_simps = withTransaction_def seq_simps assertRule_def assertTransition_def assertOpen_def Let_def
  lockLocation_def loadItems_def loadLocations_def loadItemTypes_def allocateTicket_def allocateId_def
  allocateNumber_def insert_row_def emitChanged_def appendHistory_def requireLocOf_def update_request_def
  update_ticket_def update_row_def freeAt_def balancesAt_def reservedAt_def
  clerk_def place_defs demo_item_def demo_loc_def request_of_def ticket_of_def

lemma demo_sel [simp]:
  "db_items demo = [''rice'' \<mapsto> demo_item ''Rice'' RAW, ''water'' \<mapsto> demo_item ''Water'' MRP]"
  "db_locations demo = [(''store'', demo_loc ''Store'' Store_Type), (''kitchen'', demo_loc ''Kitchen'' Kitchen_Type),
       (''cafe'', demo_loc ''Cafe'' Outlet_Type), (''kiosk'', demo_loc ''Kiosk'' Outlet_Type)]"
  "db_users demo = [''u1'' \<mapsto> ''Asha'']" "db_seq demo = (\<lambda>k. Some (SEQUENCE_START k))"
  "db_balances demo = [(''store'', ''water'') \<mapsto> 10, (''kiosk'', ''water'') \<mapsto> 5, (''store'', ''rice'') \<mapsto> 8]"
  "db_resv demo = []" "db_requests demo = []" "db_tickets demo = []" "db_pords demo = []" "db_asks demo = []"
  "db_batches demo = []" "db_hist demo = []" "db_notices demo = []" 
  by (simp_all add: demo_def)

lemma lock_present: "\<forall>c \<in> set cs. db_balances d c \<noteq> None \<Longrightarrow> lockBalances cs d = d"
proof -
  assume "\<forall>c \<in> set cs. db_balances d c \<noteq> None"
  then have "(\<lambda>c. if c \<in> set cs \<and> db_balances d c = None then Some 0 else db_balances d c) = db_balances d"
    by (auto simp: fun_eq_iff)
  then show ?thesis by (simp add: lockBalances_def)
qed

lemma demo_digits: "is_digit CHR ''1''" "is_digit CHR ''2''" "is_digit CHR ''3''" "is_digit CHR ''4''"
  "is_digit CHR ''5''" "is_digit CHR ''6''"
  by (simp_all add: is_digit_def)

lemma round3_neg [simp]: "round3 (- numeral n) = - numeral n"
  by (simp add: is3_minus)

abbreviation rid :: string where "rid \<equiv> formatId K_req 913 0"
abbreviation tid :: string where "tid \<equiv> formatId K_tkt 441 0"
abbreviation demo_coll :: "string \<Rightarrow> string \<Rightarrow> bool" where "demo_coll \<equiv> (\<lambda>_ _. True)"

abbreviation demo_row :: "reqStatus \<Rightarrow> string option \<Rightarrow> string option \<Rightarrow> number \<Rightarrow> number option \<Rightarrow> requestRow" where
  "demo_row st t who a sh \<equiv> \<lparr>rq_from = ''cafe'', rq_by = ''u1'', rq_at = 0, rq_status = st, rq_ticket = t,
     rq_note = [], rq_urgent = False, rq_approvedBy = who,
     rq_lines = [\<lparr>ql_it = ''water'', ql_qty = 4, ql_appr = a, ql_short = sh\<rparr>]\<rparr>"

lemma rid_document: "rid \<notin> set NO_DOCUMENT"
  by (simp add: NO_DOCUMENT_def formatId.simps)

definition demo_seq :: "idKind \<Rightarrow> nat option" where
  "demo_seq = (\<lambda>k. Some (SEQUENCE_START k))(K_req \<mapsto> 914)"

text \<open>The cafe asks for four bottles, the manager grants three, the store writes the ticket.\<close>

definition demo1 :: db where
  "demo1 = demo\<lparr>db_seq := demo_seq, db_requests := [(rid, demo_row Req_Sent None None 0 None)],
     db_hist := [\<lparr>hs_type = ''request'', hs_id = rid, hs_status = ''Request sent'', hs_who = ''Asha'', hs_at = 0\<rparr>],
     db_notices := [[Ch_req]]\<rparr>"

lemma demo_asks:
  "exec demo_coll (Op_createRequest (clerk ''cafe'') \<lparr>rb_lines = [(''water'', 4)], rb_note = [], rb_urgent = False\<rparr> 0) demo
   = (None, demo1)"
  by (simp add: createRequest_def create_tx_def run_simps insertRequest_def new_request_def userName_def
     demo1_def demo_seq_def)

lemma demo1_sel [simp]:
  "db_requests demo1 = [(rid, demo_row Req_Sent None None 0 None)]"
  "db_items demo1 = db_items demo" "db_locations demo1 = db_locations demo" "db_users demo1 = db_users demo"
  "db_balances demo1 = db_balances demo" "db_moves demo1 = db_moves demo" "db_resv demo1 = []" "db_tickets demo1 = []"
  "db_seq demo1 = demo_seq" "db_pords demo1 = []" "db_asks demo1 = []"
  by (simp_all add: demo1_def)

lemma demo_free: "freeFor demo1 [''water''] ''water'' 0 = 10"
  by (simp add: freeFor_def openRequests_def committed_def run_simps pg_round3_def held_def)

lemma demo_plan: "approvalOf demo1 (demo_row Req_Sent None None 0 None) [3] =
   \<lparr>ap_lines = [\<lparr>al_it = ''water'', al_qty = 4, al_appr = 3, al_short = 1\<rparr>], ap_st = Req_PartiallyApproved, ap_trimmed = False\<rparr>"
  by (simp add: approvalOf_def planApproval_def demo_free plan_line_def Let_def asked_lines_def asked_def
      approvedStatus_def qty_appr_def)

definition demo2 :: db where
  "demo2 = demo1\<lparr>db_requests := [(rid, demo_row Req_PartiallyApproved None (Some ''u1'') 3 (Some 1))],
     db_hist := db_hist demo1 @ [\<lparr>hs_type = ''request'', hs_id = rid, hs_status = ''Partially approved'',
       hs_who = ''Asha'', hs_at = 0\<rparr>],
     db_notices := db_notices demo1 @ [[Ch_req]]\<rparr>"

lemma demo_approves: "exec demo_coll (Op_approveRequest (clerk ''store'') rid [3] [] 0) demo1 = (None, demo2)"
  by (simp add: approveRequest_def approve_tx_def run_simps demo_plan setLineApprovals_def approve_lines_def userName_def
     demo2_def)

lemma demo2_sel [simp]:
  "db_requests demo2 = [(rid, demo_row Req_PartiallyApproved None (Some ''u1'') 3 (Some 1))]"
  "db_items demo2 = db_items demo" "db_locations demo2 = db_locations demo" "db_users demo2 = db_users demo"
  "db_balances demo2 = db_balances demo" "db_moves demo2 = db_moves demo" "db_resv demo2 = []" "db_tickets demo2 = []"
  "db_seq demo2 = demo_seq"
  by (simp_all add: demo2_def)

lemmas write_simps = writeTicket_def ticket_lines_def insert_ticket_def ticket_row_def otpOk_def text_eval
  hold_row_def reserve_def rv_cell_def lock_present demo_digits foldLines_def fold_line_def held_def
  short_lines_def userName_def

abbreviation demo_ticket :: "ticketRef \<Rightarrow> key \<Rightarrow> number \<Rightarrow> tktStatus \<Rightarrow> ticketRow" where
  "demo_ticket ty from q st \<equiv> \<lparr>tk_refType = ty, tk_refId = rid, tk_from = from, tk_to = ''cafe'', tk_status = st,
     tk_otp = ''123456'', tk_attempts = 0, tk_issuedBy = ''u1'', tk_issuedAt = 0, tk_collectedAt = None,
     tk_receivedAt = None, tk_lines = [(''water'', q)]\<rparr>"

abbreviation demo_hold :: "key \<Rightarrow> number \<Rightarrow> instant option \<Rightarrow> reservation" where
  "demo_hold l q rel \<equiv> \<lparr>rv_loc = l, rv_it = ''water'', rv_qty = q, rv_ticket = tid, rv_released = rel\<rparr>"

definition demo3 :: db where
  "demo3 = demo2\<lparr>db_seq := demo_seq(K_tkt \<mapsto> 442),
     db_tickets := [(tid, demo_ticket Ref_request ''store'' 3 Tkt_Issued)], db_resv := [demo_hold ''store'' 3 None],
     db_requests := [(rid, demo_row Req_TicketIssued (Some tid) (Some ''u1'') 3 (Some 1))],
     db_hist := db_hist demo2 @
       [\<lparr>hs_type = ''ticket'', hs_id = tid, hs_status = ''Issued'', hs_who = ''Asha'', hs_at = 0\<rparr>,
        \<lparr>hs_type = ''request'', hs_id = rid, hs_status = ''Ticket issued'', hs_who = ''Asha'', hs_at = 0\<rparr>],
     db_notices := db_notices demo2 @ [[Ch_req, Ch_tkt, Ch_rsv]]\<rparr>"

lemma demo_tkt_seq [simp]: "demo_seq K_tkt = Some 441"
  by (simp add: demo_seq_def)

lemma demo_issues: "exec demo_coll (Op_issueTicket (clerk ''store'') rid 0 123456) demo2 = (None, demo3)"
  by (simp add: issueTicket_def issue_tx_def run_simps write_simps approved_fold_def demo3_def)

lemma demo3_sel [simp]:
  "db_requests demo3 = [(rid, demo_row Req_TicketIssued (Some tid) (Some ''u1'') 3 (Some 1))]"
  "db_tickets demo3 = [(tid, demo_ticket Ref_request ''store'' 3 Tkt_Issued)]"
  "db_resv demo3 = [demo_hold ''store'' 3 None]"
  "db_items demo3 = db_items demo" "db_locations demo3 = db_locations demo" "db_users demo3 = db_users demo"
  "db_balances demo3 = db_balances demo" "db_moves demo3 = db_moves demo"
  by (simp_all add: demo3_def)

text \<open>The cafe reads out the digits, takes the bottles and signs for them.\<close>

definition demo4 :: db where
  "demo4 = demo3\<lparr>db_moves := db_moves demo @ [\<lparr>mv_loc = ''store'', mv_it = ''water'', mv_qty = - 3,
       mv_kind = Mk_ticket_out, mv_refType = ''ticket'', mv_refId = tid, mv_by = Some ''u1'', mv_at = 1,
       mv_reverses = None\<rparr>],
     db_balances := [(''kiosk'', ''water'') \<mapsto> 5, (''store'', ''rice'') \<mapsto> 8, (''store'', ''water'') \<mapsto> 7],
     db_resv := [demo_hold ''store'' 3 (Some 1)],
     db_tickets := [(tid, (demo_ticket Ref_request ''store'' 3 Tkt_Collected)\<lparr>tk_collectedAt := Some 1\<rparr>)],
     db_requests := [(rid, demo_row Req_Collected (Some tid) (Some ''u1'') 3 (Some 1))],
     db_hist := db_hist demo3 @
       [\<lparr>hs_type = ''ticket'', hs_id = tid, hs_status = ''Handed over'', hs_who = ''Asha'', hs_at = 1\<rparr>,
        \<lparr>hs_type = ''request'', hs_id = rid, hs_status = ''Collected'', hs_who = ''Asha'', hs_at = 1\<rparr>],
     db_notices := db_notices demo3 @ [[Ch_tkt, Ch_req, Ch_rsv, Ch_stock]]\<rparr>"

lemmas handover_simps = handover_def handover_tx_def run_simps write_simps otpMatches_def OTP_ATTEMPTS_def
  postMoves_def out_moves_def ticket_move_def mv_cell_def add_delta_def releaseForTicket_def release_row_def follow_def
  linkedRequest_def setRequestStatus_def rid_document

lemma demo_hands_over: "exec demo_coll (Op_handover (clerk ''store'') tid ''123456'' 1) demo3 = (None, demo4)"
  by (simp add: handover_simps demo4_def)

lemma demo4_sel [simp]:
  "db_requests demo4 = [(rid, demo_row Req_Collected (Some tid) (Some ''u1'') 3 (Some 1))]"
  "db_tickets demo4 = [(tid, (demo_ticket Ref_request ''store'' 3 Tkt_Collected)\<lparr>tk_collectedAt := Some 1\<rparr>)]"
  "db_resv demo4 = [demo_hold ''store'' 3 (Some 1)]"
  "db_items demo4 = db_items demo" "db_locations demo4 = db_locations demo" "db_users demo4 = db_users demo"
  "db_balances demo4 = [(''kiosk'', ''water'') \<mapsto> 5, (''store'', ''rice'') \<mapsto> 8, (''store'', ''water'') \<mapsto> 7]"
  by (simp_all add: demo4_def)

lemma demo_receives: "fst (exec demo_coll (Op_receive (clerk ''cafe'') tid 2) demo4) = None"
  by (simp add: receive'_def receive_tx_def run_simps)

text \<open>The other way: the kiosk covers the request instead, and then calls its ticket off.\<close>

definition demo6 :: db where
  "demo6 = demo1\<lparr>db_seq := demo_seq(K_tkt \<mapsto> 442),
     db_tickets := [(tid, demo_ticket Ref_shop_transfer ''kiosk'' 4 Tkt_Issued)], db_resv := [demo_hold ''kiosk'' 4 None],
     db_requests := [(rid, demo_row Req_TicketIssued (Some tid) (Some ''u1'') 4 (Some 0))],
     db_hist := db_hist demo1 @
       [\<lparr>hs_type = ''ticket'', hs_id = tid, hs_status = ''Issued'', hs_who = ''Asha'', hs_at = 0\<rparr>,
        \<lparr>hs_type = ''request'', hs_id = rid, hs_status = ''Redirected to '' @ loc_name demo1 ''kiosk'',
         hs_who = ''Asha'', hs_at = 0\<rparr>],
     db_notices := db_notices demo1 @ [[Ch_req, Ch_tkt, Ch_rsv]]\<rparr>"

lemma demo_redirects: "exec demo_coll (Op_redirectRequest (clerk ''store'') rid ''kiosk'' 0 123456) demo1 = (None, demo6)"
  by (simp add: redirectRequest_def redirect_tx_def run_simps write_simps asked_lines_def outletKeys_def
      setLineApprovals_def approve_lines_def ticket_on_request_def demo6_def)

lemma demo6_sel [simp]:
  "db_requests demo6 = [(rid, demo_row Req_TicketIssued (Some tid) (Some ''u1'') 4 (Some 0))]"
  "db_tickets demo6 = [(tid, demo_ticket Ref_shop_transfer ''kiosk'' 4 Tkt_Issued)]"
  "db_resv demo6 = [demo_hold ''kiosk'' 4 None]" "db_pords demo6 = []" "db_asks demo6 = []"
  "db_items demo6 = db_items demo" "db_locations demo6 = db_locations demo" "db_users demo6 = db_users demo"
  "db_balances demo6 = db_balances demo"
  by (simp_all add: demo6_def)

lemma demo_reason: "trim ''late'' = ''late''"
  by (simp add: trim_def is_space_def)

lemmas cancel_simps = cancel_def cancel_tx_def voidTicket_def put_back_request_def put_back_order_def put_back_ask_def
  run_simps releaseForTicket_def release_row_def demo_reason

lemma demo_cancels_redirected: "fst (exec demo_coll (Op_cancelTicket (clerk ''kiosk'') tid ''late'' 1) demo6) = None"
  by (simp add: cancel_simps)

lemma demo_cancels: "fst (exec demo_coll (Op_cancelTicket (clerk ''store'') tid ''late'' 1) demo3) = None"
  by (simp add: cancel_simps linkedRequest_def rid_document)

text \<open>What the calls reach.\<close>

lemma runs_next: "runs ex d0 d \<Longrightarrow> ex op d = (e, d') \<Longrightarrow> runs ex d0 d'"
  using runs.call [of ex d0 d op] by simp

lemma demo_reached:
  "runs (exec demo_coll) demo demo1" "runs (exec demo_coll) demo demo2" "runs (exec demo_coll) demo demo3"
  "runs (exec demo_coll) demo demo4" "runs (exec demo_coll) demo demo6"
proof -
  show 1: "runs (exec demo_coll) demo demo1" by (rule runs_next, rule runs.here, rule demo_asks)
  show 2: "runs (exec demo_coll) demo demo2" by (rule runs_next, rule 1, rule demo_approves)
  show 3: "runs (exec demo_coll) demo demo3" by (rule runs_next, rule 2, rule demo_issues)
  show "runs (exec demo_coll) demo demo4" by (rule runs_next, rule 3, rule demo_hands_over)
  show "runs (exec demo_coll) demo demo6" by (rule runs_next, rule 1, rule demo_redirects)
qed

end
