(* ===== verification/Hall.thy ===== *)
theory Hall
  imports Phone Demo
begin

text \<open>
  The whole house as one machine: every writer of the stock, sale, account, correction, buying and QR modules
  is an operation, a call of its service with the arguments of its route. The stock machine of \<open>System\<close>
  is one family of them. QR ordering calls the payment gateway between its transactions, so there each
  transaction is an operation and what the gateway answered is one of its arguments.

  Lemmas: the stock invariant and the sign of a sale's moves hold in every house the services can reach,
  and only a sale ever writes a sale's move.
\<close>

datatype hop =
    Op_stock op
  | Op_pay claims payBody instant "string list"
  | Op_voidBill claims string string instant
  | Op_classTerms billParty number "number option"
  | Op_payerTerms "payerKind \<times> string" "number option" "number option"
  | Op_settle claims settlementBody instant
  | Op_voidSettlement claims string string instant
  | Op_closeRegister claims closeBody instant
  | Op_adjust claims adjBody instant
  | Op_askAdjust claims adjBody instant
  | Op_cancelAdjReq actor string instant
  | Op_approveAdjReq claims string instant
  | Op_rejectAdjReq claims string string instant
  | Op_waste claims wasteBody instant
  | Op_createPrq claims "line list" string instant
  | Op_addDirect claims "line list" string instant
  | Op_approvePrq claims string "jsnum list" string instant
  | Op_declinePrq claims string string instant
  | Op_createPo claims string "pick list" instant
  | Op_updateLine claims string nat "number option" "number option" instant
  | Op_removeLine string nat
  | Op_patchPo string "string option" "string option" instant
  | Op_sendPo claims string instant
  | Op_cancelPo claims string string instant
  | Op_receivePo claims string receiveBody instant
  | Op_closeShort claims string string instant
  | Op_place qrConfig bool string placeBody string string instant
  | Op_setRzp string string
  | Op_lapse string instant
  | Op_capture string gwPayment instant "string list"
  | Op_qrStatus actor string qrOrderStatus instant
  | Op_pause key bool
  | Op_retryRefund string instant
  | Op_createCode key string qrMode string instant
  | Op_updateCode string "string option" "qrMode option" "bool option"
  | Op_regenerateCode string string instant
  | Op_setHours key "orderHoursDay list"
  | Op_expire instant "string list"
  | Op_claimRefunds instant nat "string list"
  | Op_refundSent string gwRefund instant
  | Op_refundUnsent string string bool instant
  | Op_refundNews string "string option" bool instant
  | Op_webhookMark string

definition on_stock :: "(db \<Rightarrow> error option \<times> db) \<Rightarrow> house \<Rightarrow> error option \<times> house" where
  "on_stock f h = (case f (ho_db h) of (e, d) \<Rightarrow> (e, h\<lparr>ho_db := d\<rparr>))"

text \<open>The schema of each route; the service behind it; and the route, which runs the one behind the other.\<close>

fun wire :: "hop \<Rightarrow> bool" where
  "wire (Op_stock op) = True"
| "wire (Op_pay c b t us) = PayBodySchema b"
| "wire (Op_voidBill c no why t) = (DocId no \<and> ReasonSchema why)"
| "wire (Op_classTerms cls p l) = DiscountPctSchema p"
| "wire (Op_payerTerms p pct l) = (PayerParamsSchema p \<and> optionally DiscountPctSchema pct)"
| "wire (Op_settle c b t) = RecordSettlementBodySchema b"
| "wire (Op_voidSettlement c i why t) = (DocId i \<and> ReasonSchema why)"
| "wire (Op_closeRegister c b t) = CloseRegisterBodySchema b"
| "wire (Op_adjust c b t) = CreateAdjustmentBodySchema b"
| "wire (Op_askAdjust c b t) = CreateAdjustmentRequestBodySchema b"
| "wire (Op_cancelAdjReq a i t) = DocId i"
| "wire (Op_approveAdjReq c i t) = DocId i"
| "wire (Op_rejectAdjReq c i n t) = (DocId i \<and> ReasonSchema n)"
| "wire (Op_waste c b t) = CreateWastageBodySchema b"
| "wire (Op_createPrq c ls n t) = CreateRequisitionBodySchema ls n"
| "wire (Op_addDirect c ls n t) = CreateRequisitionBodySchema ls n"
| "wire (Op_approvePrq c i ap n t) = (DocId i \<and> ApproveRequisitionBodySchema ap n)"
| "wire (Op_declinePrq c i n t) = (DocId i \<and> ReasonSchema n)"
| "wire (Op_createPo c v ps t) = CreatePoBodySchema v ps"
| "wire (Op_updateLine c i n q r t) = (DocId i \<and> n \<le> 99 \<and> UpdatePoLineBodySchema q r)"
| "wire (Op_removeLine i n) = (DocId i \<and> n \<le> 99)"
| "wire (Op_patchPo i v eta t) = (DocId i \<and> PatchPoBodySchema v eta)"
| "wire (Op_sendPo c i t) = DocId i"
| "wire (Op_cancelPo c i why t) = (DocId i \<and> ReasonSchema why)"
| "wire (Op_receivePo c i b t) = (DocId i \<and> ReceivePoBodySchema b)"
| "wire (Op_closeShort c i why t) = (DocId i \<and> ReasonSchema why)"
| "wire (Op_place cfg gw token b secret ip t) = CreateQrOrderBodySchema b"
| "wire (Op_capture i p t us) = (gp_id p \<noteq> [])"
| "wire (Op_qrStatus a i to t) = DocId i"
| "wire (Op_pause loc p) = locKeyOk loc"
| "wire (Op_retryRefund i t) = DocId i"
| "wire (Op_createCode loc label m tok t) = CreateQrCodeBodySchema loc label"
| "wire (Op_updateCode i label m act) = (DocId i \<and> optionally qrLabel label)"
| "wire (Op_regenerateCode i tok t) = DocId i"
| "wire (Op_setHours loc days) = (locKeyOk loc \<and> SetOrderHoursBodySchema days)"
| "wire _ = True"

fun serve :: "(string \<Rightarrow> string \<Rightarrow> bool) \<Rightarrow> hop \<Rightarrow> house \<Rightarrow> error option \<times> house" where
  "serve coll (Op_stock op) = on_stock (exec coll op)"
| "serve coll (Op_pay c b t us) = pay c b t us"
| "serve coll (Op_voidBill c no why t) = voidBill c no why t"
| "serve coll (Op_classTerms cls p l) = setClassTerms cls p l"
| "serve coll (Op_payerTerms p pct l) = setPayerTerms p pct l"
| "serve coll (Op_settle c b t) = recordSettlement coll c b t"
| "serve coll (Op_voidSettlement c i why t) = voidSettlement c i why t"
| "serve coll (Op_closeRegister c b t) = closeRegister c b t"
| "serve coll (Op_adjust c b t) = adjust c b t"
| "serve coll (Op_askAdjust c b t) = askAdjust c b t"
| "serve coll (Op_cancelAdjReq a i t) = cancelAdjReq a i t"
| "serve coll (Op_approveAdjReq c i t) = approveAdjReq c i t"
| "serve coll (Op_rejectAdjReq c i n t) = rejectAdjReq c i n t"
| "serve coll (Op_waste c b t) = recordWaste c b t"
| "serve coll (Op_createPrq c ls n t) = createPrq c ls n t"
| "serve coll (Op_addDirect c ls n t) = addDirect c ls n t"
| "serve coll (Op_approvePrq c i ap n t) = approvePrq c i ap n t"
| "serve coll (Op_declinePrq c i n t) = declinePrq c i n t"
| "serve coll (Op_createPo c v ps t) = createPo coll c v ps t"
| "serve coll (Op_updateLine c i n q r t) = updateLine coll c i n q r t"
| "serve coll (Op_removeLine i n) = removeLine coll i n"
| "serve coll (Op_patchPo i v eta t) = patchPo i v eta t"
| "serve coll (Op_sendPo c i t) = sendPo c i t"
| "serve coll (Op_cancelPo c i why t) = cancelPo coll c i why t"
| "serve coll (Op_receivePo c i b t) = receivePo c i b t"
| "serve coll (Op_closeShort c i why t) = closeShort coll c i why t"
| "serve coll (Op_place cfg gw token b secret ip t) = transact (place_tx cfg gw token b secret ip t)"
| "serve coll (Op_setRzp i rzp) = transact (setRzpOrder_tx i rzp)"
| "serve coll (Op_lapse i t) = transact (lapse_tx i t)"
| "serve coll (Op_capture i p t us) = transact (capture_tx i p t us)"
| "serve coll (Op_qrStatus a i to t) = transact (qrSetStatus_tx a i to t)"
| "serve coll (Op_pause loc p) = transact (setPause_tx loc p)"
| "serve coll (Op_retryRefund i t) = transact (retryRefund_tx i t)"
| "serve coll (Op_createCode loc label m tok t) = transact (createCode_tx loc label m tok t)"
| "serve coll (Op_updateCode i label m act) = transact (updateCode_tx i label m act)"
| "serve coll (Op_regenerateCode i tok t) = transact (regenerateCode_tx i tok t)"
| "serve coll (Op_setHours loc days) = transact (setHours_tx loc days)"
| "serve coll (Op_expire t busy) = transact (expire_tx coll t busy)"
| "serve coll (Op_claimRefunds t n busy) = transact (claimDueRefunds coll t n busy)"
| "serve coll (Op_refundSent i g t) = transact (refundSent_tx i g t)"
| "serve coll (Op_refundUnsent i err final t) = transact (refundUnsent_tx i err final t)"
| "serve coll (Op_refundNews rzp note ok t) = transact (settleRefund_tx rzp note ok t)"
| "serve coll (Op_webhookMark ev) = transact (markWebhook_tx ev)"

definition hexec :: "(string \<Rightarrow> string \<Rightarrow> bool) \<Rightarrow> hop \<Rightarrow> house \<Rightarrow> error option \<times> house" where
  "hexec coll op h = (if wire op then serve coll op h
     else (Some (ValidationError ''The request did not match what this endpoint expects.''), h))"

lemma keeps_route: "(wire op \<Longrightarrow> P (snd (serve coll op h))) \<Longrightarrow> P h \<Longrightarrow> P (snd (hexec coll op h))"
  by (simp add: hexec_def)

lemmas house_service_defs = pay_def voidBill_def setClassTerms_def setPayerTerms_def recordSettlement_def
  voidSettlement_def closeRegister_def adjust_def askAdjust_def cancelAdjReq_def approveAdjReq_def
  rejectAdjReq_def recordWaste_def createPrq_def addDirect_def approvePrq_def declinePrq_def createPo_def
  updateLine_def removeLine_def patchPo_def sendPo_def cancelPo_def receivePo_def closeShort_def

lemma runs_stock: "runs (exec coll) d d' \<Longrightarrow> ho_db h = d \<Longrightarrow> runs (hexec coll) h (h\<lparr>ho_db := d'\<rparr>)"
proof (induction arbitrary: h rule: runs.induct)
  case (call d d' op)
  have "hexec coll (Op_stock op) (h\<lparr>ho_db := d'\<rparr>) = (fst (exec coll op d'), h\<lparr>ho_db := snd (exec coll op d')\<rparr>)"
    by (simp add: hexec_def on_stock_def split_beta)
  with runs.call [OF call.IH [OF call(3)], of "Op_stock op"] show ?case by simp
qed (use runs.here in fastforce)

section \<open>The invariant of the shelves\<close>

definition shelves :: "house \<Rightarrow> bool" where
  "shelves h \<longleftrightarrow> inv (ho_db h) \<and> sales_ok (ho_db h)"

lemma shelves_quiet: "quiet (ho_db h) (ho_db h') \<Longrightarrow> shelves h \<Longrightarrow> shelves h'"
  by (simp add: shelves_def quiet_inv sales_ok_def quiet_read)

lemma shelves_step: "inv (ho_db h') \<Longrightarrow> move_step (ho_db h) (ho_db h') \<Longrightarrow> shelves h \<Longrightarrow> shelves h'"
  by (simp add: shelves_def sales_ok_step)

lemmas quiet_tx = quiet_accounts(1,2) [THEN conjunct1] quiet_accounts(3-5) quiet_corrections [THEN conjunct1]
  quiet_requisitions [THEN conjunct1] quiet_draft [THEN conjunct1] quiet_line [THEN conjunct1]
  quiet_orders [THEN conjunct1]

lemma adjust_writes:
  "adjust_tx c body at' h = Inr h' \<Longrightarrow> \<exists>draft i h1. writeAdjustment draft at' h = Inr (i, h1) \<and> quiet (ho_db h1) (ho_db h') \<and> same_money h1 h'"
  "approveAdjReq_tx c i' at' h = Inr h' \<Longrightarrow> \<exists>draft i h1. writeAdjustment draft at' h = Inr (i, h1) \<and> quiet (ho_db h1) (ho_db h') \<and> same_money h1 h'"
  by (auto simp: adjust_tx_def approveAdjReq_tx_def Let_def) (use quiet_refl same_money_simps(1) in blast)+

text \<open>What every writer but the sale, the void and the close leaves alone: the bills, the sessions and the locations.\<close>

definition calm :: "house \<Rightarrow> house \<Rightarrow> bool" where
  "calm h h' \<longleftrightarrow> move_step (ho_db h) (ho_db h') \<and> (inv (ho_db h) \<longrightarrow> inv (ho_db h')) \<and>
     ho_bills h' = ho_bills h \<and> ho_sessions h' = ho_sessions h \<and> (orders_ok h \<longrightarrow> orders_ok h') \<and>
     db_locations (ho_db h') = db_locations (ho_db h)"

lemma calm_refl: "calm h h"
  by (simp add: calm_def move_step_same)

lemma calm_qr: "qr_calm h h' \<Longrightarrow> calm h h'"
  by (auto simp: calm_def qr_calm_def dest: quiet_inv quiet_locations intro!: move_step_same quiet_read(4))

lemma calm_quiet: "quiet (ho_db h) (ho_db h') \<and> same_money h h' \<Longrightarrow> calm h h'"
  by (rule calm_qr) (simp add: qr_calm_def same_money_def orders_ok_def)

lemma adjust_rest: "writeAdjustment draft at' h = Inr (i, h') \<Longrightarrow> same_money h h'"
proof (erule adjust_shape)
  assume h': "h' = h\<lparr>ho_db := ho_db h', ho_adjs := ho_adjs h'\<rparr>"
  show "same_money h h'" by (subst h') simp
qed

lemma adjust_locations: "writeAdjustment draft at' h = Inr (i, h') \<Longrightarrow> db_locations (ho_db h') = db_locations (ho_db h)"
  by (erule adjust_shape) (simp add: quiet_locations adj_start_def)

lemma calm_adjustment:
  assumes "\<exists>draft i h1. writeAdjustment draft at' h = Inr (i, h1) \<and> quiet (ho_db h1) (ho_db h') \<and> same_money h1 h'"
  shows "calm h h'"
proof -
  obtain draft i h1 where w: "writeAdjustment draft at' h = Inr (i, h1)" "quiet (ho_db h1) (ho_db h')" "same_money h1 h'"
    using assms by blast
  have "calm h1 h'" using w(2,3) calm_quiet by blast
  then show ?thesis using inv_adjust [OF _ w(1)] move_step_adjust [OF w(1)] adjust_rest [OF w(1)] adjust_locations [OF w(1)]
    by (auto simp: calm_def same_money_def orders_ok_def intro: move_step_trans)
qed

lemma calm_accounts:
  "record_tx coll c sbody at' h = Inr h' \<Longrightarrow> calm h h'"
  "voidSettlement_tx c i raw at' h = Inr h' \<Longrightarrow> calm h h'"
proof -
  assume a: "record_tx coll c sbody at' h = Inr h'"
  then have "ho_bills h' = ho_bills h \<and> ho_sessions h' = ho_sessions h \<and> ho_qrOrders h' = ho_qrOrders h \<and> ho_refunds h' = ho_refunds h"
    by (auto simp: record_tx_def Let_def insertSettlement_def)
  with quiet_accounts(3) [OF a] show "calm h h'"
    by (auto simp: calm_def orders_ok_def dest: quiet_inv quiet_locations intro!: move_step_same quiet_read(4))
next
  assume a: "voidSettlement_tx c i raw at' h = Inr h'"
  then have "ho_bills h' = ho_bills h \<and> ho_sessions h' = ho_sessions h \<and> ho_qrOrders h' = ho_qrOrders h \<and> ho_refunds h' = ho_refunds h"
    by (auto simp: voidSettlement_tx_def)
  with quiet_accounts(4) [OF a] show "calm h h'"
    by (auto simp: calm_def orders_ok_def dest: quiet_inv quiet_locations intro!: move_step_same quiet_read(4))
qed

lemma calm_receivePo: "receivePo_tx c i body at' h = Inr h' \<Longrightarrow> calm h h'"
proof -
  assume a: "receivePo_tx c i body at' h = Inr h'"
  then have "ho_bills h' = ho_bills h \<and> ho_sessions h' = ho_sessions h \<and> ho_qrOrders h' = ho_qrOrders h \<and> ho_refunds h' = ho_refunds h"
    by (rule receive_shape) simp
  moreover have "db_locations (ho_db h') = db_locations (ho_db h)" using a by (rule receive_shape) (simp add: quiet_locations)
  ultimately show "calm h h'" using move_step_receivePo [OF a] inv_receivePo [OF _ a]
    by (simp add: calm_def orders_ok_def)
qed

lemmas calm_tx = quiet_accounts(1,2) [THEN calm_quiet] calm_accounts quiet_corrections [THEN calm_quiet]
  quiet_requisitions [THEN calm_quiet] quiet_draft [THEN calm_quiet] quiet_line [THEN calm_quiet]
  quiet_orders [THEN calm_quiet] adjust_writes [THEN calm_adjustment] calm_receivePo
  calm_refunds [THEN calm_qr] calm_counter [THEN calm_qr] calm_codes [THEN calm_qr]

lemma calm_stock: "calm h (snd (on_stock (exec coll op) h))"
  using move_step_exec [of "ho_db h" coll op] inv_exec [of "ho_db h" coll op] exec_locations [of coll op "ho_db h"]
  by (simp add: on_stock_def split_beta calm_def orders_ok_def)

fun calls_calm :: "hop \<Rightarrow> bool" where
  "calls_calm (Op_pay _ _ _ _) = False"
| "calls_calm (Op_voidBill _ _ _ _) = False"
| "calls_calm (Op_closeRegister _ _ _) = False"
| "calls_calm (Op_capture _ _ _ _) = False"
| "calls_calm _ = True"

lemma calm_exec: "calls_calm op \<Longrightarrow> calm h (snd (hexec coll op h))"
  by (rule keeps_route, (cases op; simp add: house_service_defs; (rule calm_stock | rule keeps_transact, (erule calm_tx | erule (1) calm_place [THEN calm_qr]), rule calm_refl)), rule calm_refl)

text \<open>And the other four leave the locations alone as well.\<close>

lemma sale_locations: "postSale input at' us h = Inr ((no, ch), h') \<Longrightarrow> db_locations (ho_db h') = db_locations (ho_db h)"
  by (erule postSale_shape, erule write_sale_shape) (auto dest!: sessionFor_db)

lemma capture_locations:
  assumes "capture_tx i p at' us h = Inr h'"
  shows "db_locations (ho_db h') = db_locations (ho_db h)"
  using assms
proof (cases rule: capture_cases)
  case (duplicate o' h1)
  then show ?thesis by (auto dest: queueRefund_shape)
next
  case (billed o' no ch h1 b h2)
  then show ?thesis using sale_locations [OF billed(6)] moveQrOrder_shape [OF billed(10)]
    by (auto simp: systemOperator_def dest: quiet_locations)
next
  case (refunded o' why h1 h2)
  then show ?thesis using moveQrOrder_shape [OF refunded(5)] queueRefund_shape [OF refunded(6)]
    by (auto simp: systemOperator_def dest: quiet_locations)
qed simp_all

lemma hexec_locations: "db_locations (ho_db (snd (hexec coll op h))) = db_locations (ho_db h)"
proof (cases "calls_calm op")
  case True
  then show ?thesis using calm_exec [of op h coll] by (simp add: calm_def)
next
  case False
  have ok: "db_locations (ho_db (snd (transact f h))) = db_locations (ho_db h)"
    if "\<And>h'. f h = Inr h' \<Longrightarrow> db_locations (ho_db h') = db_locations (ho_db h)" for f
    by (rule keeps_transact [where P = "\<lambda>x. db_locations (ho_db x) = db_locations (ho_db h)"]) (use that in auto)
  have pay: "pay_tx c b t us h = Inr h' \<Longrightarrow> db_locations (ho_db h') = db_locations (ho_db h)" for c b t us h'
    unfolding pay_tx_sale by (auto dest!: sale_locations)
  have void: "voidBill_tx c no why t h = Inr h' \<Longrightarrow> db_locations (ho_db h') = db_locations (ho_db h)" for c no why t h'
    by (erule void_shape) (simp add: quiet_locations)
  have "db_locations (ho_db (snd (serve coll op h))) = db_locations (ho_db h)"
    using False by (cases op) (auto simp: house_service_defs intro!: ok dest: pay void capture_locations quiet_accounts(5) quiet_locations)
  then show ?thesis by (simp add: hexec_def)
qed

section \<open>The books: bills, sessions and the moves behind a bill\<close>

text \<open>Every sale's move belongs to a bill, an amount on a bill is a whole number of paise, and keys are keys.\<close>

definition books :: "house \<Rightarrow> bool" where
  "books h \<longleftrightarrow> distinct (map fst (ho_bills h)) \<and> distinct (map fst (ho_sessions h)) \<and>
     (\<forall>m \<in> set (db_moves (ho_db h)). \<forall>no. sale_move no m \<longrightarrow> bill_of h no \<noteq> None) \<and>
     (\<forall>b \<in> snd ` set (ho_bills h). is2 (bi_total b)) \<and> orders_ok h"

definition hinv :: "house \<Rightarrow> bool" where
  "hinv h \<longleftrightarrow> inv (ho_db h) \<and> sales_ok (ho_db h) \<and> books h"

definition session_bills :: "house \<Rightarrow> string \<Rightarrow> billRow list" where
  "session_bills h sid = filter (\<lambda>b. bi_session b = Some sid) (map snd (ho_bills h))"

text \<open>What a step of the house may do to what is already in the books: a bill stays, or is voided; what its
  sale took off the shelves is settled; a closed session and its bills are settled.\<close>

definition kept_bill :: "billRow \<Rightarrow> billRow \<Rightarrow> bool" where
  "kept_bill b b' \<longleftrightarrow> b' = b \<or> (bi_void b = None \<and> (\<exists>v. b' = b\<lparr>bi_void := Some v\<rparr>))"

definition book_step :: "house \<Rightarrow> house \<Rightarrow> bool" where
  "book_step h h' \<longleftrightarrow>
     (\<forall>no b. bill_of h no = Some b \<longrightarrow> (\<exists>b'. bill_of h' no = Some b' \<and> kept_bill b b') \<and>
        (\<forall>c. sold (ho_db h') no c = sold (ho_db h) no c)) \<and>
     (\<forall>sid s. session_of h sid = Some s \<longrightarrow> se_closed s \<noteq> None \<longrightarrow>
        session_of h' sid = Some s \<and> session_bills h' sid = session_bills h sid)"

lemma kept_bill_refl: "kept_bill b b"
  by (simp add: kept_bill_def)

lemma kept_bill_trans: "kept_bill a b \<Longrightarrow> kept_bill b c \<Longrightarrow> kept_bill a c"
  by (auto simp: kept_bill_def)

lemma book_step_refl: "book_step h h"
  by (simp add: book_step_def kept_bill_refl)

lemma book_step_trans: "book_step a b \<Longrightarrow> book_step b c \<Longrightarrow> book_step a c"
proof -
  assume ab: "book_step a b" and bc: "book_step b c"
  have "(\<exists>b'. bill_of c no = Some b' \<and> kept_bill r b') \<and> (\<forall>x. sold (ho_db c) no x = sold (ho_db a) no x)"
    if r: "bill_of a no = Some r" for no r
  proof -
    obtain r1 where r1: "bill_of b no = Some r1" "kept_bill r r1" "\<forall>x. sold (ho_db b) no x = sold (ho_db a) no x"
      using ab r unfolding book_step_def by blast
    then obtain r2 where "bill_of c no = Some r2" "kept_bill r1 r2" "\<forall>x. sold (ho_db c) no x = sold (ho_db b) no x"
      using bc unfolding book_step_def by blast
    with r1 show ?thesis using kept_bill_trans by auto
  qed
  moreover have "session_of c sid = Some s \<and> session_bills c sid = session_bills a sid"
    if s: "session_of a sid = Some s" "se_closed s \<noteq> None" for sid s
  proof -
    have "session_of b sid = Some s" "session_bills b sid = session_bills a sid"
      using ab s unfolding book_step_def by blast+
    then show ?thesis using bc s(2) unfolding book_step_def by auto
  qed
  ultimately show ?thesis unfolding book_step_def by blast
qed

lemma sold_step: "move_step d d' \<Longrightarrow> sold d' no c = sold d no c"
proof -
  assume "move_step d d'"
  then obtain ms where ms: "db_moves d' = db_moves d @ ms" "\<forall>m \<in> set ms. mv_kind m \<noteq> Mk_sale"
    by (auto simp: move_step_def)
  then have "filter (sale_move no) ms = []" by (auto simp: filter_empty_conv sale_move_def)
  then show ?thesis by (simp add: sold_def ms(1))
qed

lemma book_step_calm: "calm h h' \<Longrightarrow> book_step h h'"
  by (simp add: calm_def book_step_def bill_of_def session_of_def session_bills_def kept_bill_refl sold_step)

lemma books_calm: "calm h h' \<Longrightarrow> books h \<Longrightarrow> books h'"
  by (auto simp: calm_def books_def bill_of_def move_step_def sale_move_def)

lemma hinv_calm: "calm h h' \<Longrightarrow> hinv h \<Longrightarrow> hinv h'"
  by (auto simp: hinv_def calm_def intro: sales_ok_step books_calm [unfolded calm_def])

section \<open>The sale\<close>

lemma session_bills_append [simp]:
  "session_bills (h\<lparr>ho_bills := bs @ [(no, b)]\<rparr>) sid =
     session_bills (h\<lparr>ho_bills := bs\<rparr>) sid @ (if bi_session b = Some sid then [b] else [])"
  by (simp add: session_bills_def)

lemma find_sat: "find P xs = Some x \<Longrightarrow> x \<in> set xs \<and> P x"
  by (induction xs) (auto split: if_splits)

lemma open_in_sessions: "openSessionAt h loc = Some (sid, r) \<Longrightarrow> (sid, r) \<in> set (ho_sessions h) \<and> se_closed r = None \<and> se_loc r = loc"
  unfolding openSessionAt_def by (drule find_sat) simp

text \<open>The session a sale is written in was not closed before it.\<close>

lemma sale_session_open:
  assumes "sessionFor loc by' at' us h = Inr (sid, h1)" "distinct (map fst (ho_sessions h))" "session_of h sid = Some s"
  shows "se_closed s = None"
proof -
  have "\<exists>r. openSessionAt h loc = Some (sid, r)" using sessionFor_ok [OF assms(1)] assms(3) by auto
  then obtain r where "(sid, r) \<in> set (ho_sessions h)" "se_closed r = None" using open_in_sessions by blast
  moreover have "(sid, s) \<in> set (ho_sessions h)" using assms(3) by (simp add: session_of_def map_of_SomeD)
  ultimately show ?thesis using assms(2) by (metis eq_key_imp_eq_value)
qed

lemma sessionFor_keeps:
  assumes "sessionFor loc by' at' us h = Inr (sid, h1)" "session_of h x = Some s"
  shows "session_of h1 x = Some s"
  using sessionFor_ok [OF assms(1)] assms(2) by (auto simp: session_of_def map_add_Some_iff split: option.splits)

lemma sale_book_step:
  assumes sale: "postSale i at' us h = Inr ((no, ch), h')" and out: "\<And>l. l \<in> set (si_lines i) \<Longrightarrow> 0 \<le> snd l" and books: "books h"
  shows "book_step h h' \<and> books h' \<and> (sales_ok (ho_db h) \<longrightarrow> sales_ok (ho_db h'))"
  using sale
proof (rule sale_shape)
  fix sid h1 payer b
  let ?ms = "posted (sale_moves (sale_plan i h payer) no (si_operator i) at')"
  assume s: "sessionFor (si_loc i) (si_operator i) at' us h = Inr (sid, h1)" and new: "bill_of h no = None"
    and b: "bi_session b = Some sid" "bi_total b = round2 (pl_tot (sale_plan i h payer))"
    and bills: "ho_bills h' = ho_bills h @ [(no, b)]" and sess: "ho_sessions h' = ho_sessions h1" and qr: "ho_qrOrders h' = ho_qrOrders h" "ho_refunds h' = ho_refunds h"
    and moves: "db_moves (ho_db h') = db_moves (ho_db h) @ ?ms"
  note of_sale = sale_out [OF out]
  have kept: "bill_of h' x = Some r" if "bill_of h x = Some r" for x r
    using that by (simp add: bill_of_def bills map_add_Some_iff)
  have "filter (sale_move x) ?ms = []" if "bill_of h x \<noteq> None" for x
    using that new of_sale(1) by (auto simp: filter_empty_conv sale_move_def)
  then have sold: "sold (ho_db h') x y = sold (ho_db h) x y" if "bill_of h x \<noteq> None" for x y
    using that by (simp add: sold_def moves)
  have sb: "session_bills h' x = session_bills h x" if "session_of h x = Some t" "se_closed t \<noteq> None" for x t
  proof -
    have "x \<noteq> sid" using that sale_session_open [OF s, of t] books by (auto simp: books_def)
    then show ?thesis by (simp add: session_bills_def bills b)
  qed
  have "book_step h h'"
    using kept sold sb sessionFor_keeps [OF s] by (auto simp: book_step_def kept_bill_refl session_of_def sess)
  moreover have "distinct (map fst (ho_sessions h'))"
    using sessionFor_ok [OF s] books by (auto simp: sess books_def session_of_def map_of_eq_None_iff)
  then have "books h'"
    using books new kept of_sale(1) unfolding books_def
    by (auto simp: bills b moves qr orders_ok_def bill_of_def map_of_eq_None_iff map_add_Some_iff sale_move_def)
  moreover have "sales_ok (ho_db h) \<longrightarrow> sales_ok (ho_db h')" using of_sale(2) by (auto simp: sales_ok_def moves)
  ultimately show ?thesis by blast
qed

lemma sale_hinv:
  assumes "hinv h" "postSale i at' us h = Inr ((no, ch), h')" "\<And>l. l \<in> set (si_lines i) \<Longrightarrow> 0 \<le> snd l"
  shows "hinv h' \<and> book_step h h'"
  using sale_book_step [OF assms(2,3)] inv_sale [OF _ assms(2)] assms(1) by (simp add: hinv_def)

lemma pay_hinv:
  assumes "hinv h" "pay_tx c body at' us h = Inr h'" "PayBodySchema body"
  shows "hinv h' \<and> book_step h h'"
proof -
  obtain no ch h1 where s: "postSale (till_sale c body) at' us h = Inr ((no, ch), h1)" and h': "h' = on_db (emitChanged ch) h1"
    using assms(2) unfolding pay_tx_sale by blast
  have "calm h1 h'" by (rule calm_qr) (simp add: h')
  then show ?thesis
    using sale_hinv [OF assms(1) s] pay_lines_positive [OF assms(3)] hinv_calm book_step_calm book_step_trans by (auto simp: less_imp_le)
qed

lemma capture_hinv:
  assumes "hinv h" "capture_tx i p at' us h = Inr h'"
  shows "hinv h' \<and> book_step h h'"
  using capture_parts [OF assms(2)]
proof
  assume "qr_calm h h'"
  then show ?thesis using assms(1) hinv_calm book_step_calm calm_qr by blast
next
  assume "\<exists>o' no ch h1. qrOrder_of h i = Some o' \<and> qr_calm h (systemOperator h) \<and>
     postSale (qr_sale_input i o') at' us (systemOperator h) = Inr ((no, ch), h1) \<and> qr_calm h1 h'"
  then obtain o' no ch h1 where o': "qrOrder_of h i = Some o'" and c: "calm h (systemOperator h)" "calm h1 h'"
    and s: "postSale (qr_sale_input i o') at' us (systemOperator h) = Inr ((no, ch), h1)" using calm_qr by blast
  have "\<And>l. l \<in> set (si_lines (qr_sale_input i o')) \<Longrightarrow> 0 \<le> snd l"
    using qr_sale_lines [OF _ o'] assms(1) by (simp add: hinv_def books_def)
  from sale_hinv [OF hinv_calm [OF c(1) assms(1)] s this]
  show ?thesis using c hinv_calm book_step_calm book_step_trans by blast
qed

section \<open>The void and the close\<close>

lemma filter_update_row:
  assumes "distinct (map fst t)" "map_of t i = Some b" "\<not> P b" "\<And>r. P (f r) = P r"
  shows "filter P (map snd (update_row t i f)) = filter P (map snd t)"
  using assms(1,2)
proof (induction t)
  case (Cons x t)
  show ?case
  proof (cases "fst x = i")
    case True
    then have "i \<notin> fst ` set t" using Cons.prems(1) by simp
    then have "update_row t i f = t" by (induction t) (auto simp: update_row_def)
    moreover have "\<not> P (snd x)" using True Cons.prems(2) assms(3) by (cases x) auto
    ultimately show ?thesis using True assms(4) by (cases x) (simp add: update_row_def)
  next
    case False
    then show ?thesis using Cons by (cases x) (simp add: update_row_def)
  qed
qed simp

lemma void_refusal_facts:
  assumes "void_refusal c no why at' b h = None"
  shows "bi_void b = None" "liveSettlementOf h no = None"
    "\<And>sid s. bi_session b = Some sid \<Longrightarrow> session_of h sid = Some s \<Longrightarrow> se_closed s = None"
  using assms by (auto simp: void_refusal_def holdSession_def first_some_None split: option.splits)

lemma void_move_step: "voidBill_tx c no raw at' h = Inr h' \<Longrightarrow> move_step (ho_db h) (ho_db h')"
proof (erule void_shape)
  assume q: "quiet (postMoves (bill_reversals h no (cl_sub c) at') (ho_db h)) (ho_db h')"
  have "move_step (ho_db h) (postMoves (bill_reversals h no (cl_sub c) at') (ho_db h))"
    by (rule move_step_post) (auto simp: bill_reversals_def reversal_def)
  with quiet_read [OF q] show ?thesis by (simp add: move_step_def)
qed

lemma void_book_step:
  assumes tx: "voidBill_tx c no raw at' h = Inr h'" and books: "books h"
  shows "book_step h h' \<and> books h'"
  using tx
proof (rule void_shape)
  fix b
  let ?f = "\<lambda>b. b\<lparr>bi_void := Some \<lparr>vm_at = at', vm_by = cl_sub c, vm_reason = trim raw\<rparr>\<rparr>"
  assume b: "bill_of h no = Some b" and ok: "void_refusal c no (trim raw) at' b h = None"
    and bills: "ho_bills h' = update_row (ho_bills h) no ?f" and sess: "ho_sessions h' = ho_sessions h"
    and qr: "void_qr (void_order h b) no (bi_total b) at' h h'"
  note facts = void_refusal_facts [OF ok]
  have mv: "move_step (ho_db h) (ho_db h')" by (rule void_move_step [OF tx])
  have kept: "\<exists>b'. bill_of h' x = Some b' \<and> kept_bill r b'" if "bill_of h x = Some r" for x r
    using that b facts(1) by (auto simp: bill_of_def bills kept_bill_def)
  have sb: "session_bills h' x = session_bills h x" if t: "session_of h x = Some t" "se_closed t \<noteq> None" for x t
  proof -
    have "bi_session b \<noteq> Some x" using facts(3) t by auto
    then show ?thesis unfolding session_bills_def bills
      using books b by (intro filter_update_row [of _ _ b]) (auto simp: books_def bill_of_def)
  qed
  have "book_step h h'"
    using kept sold_step [OF mv] sb by (simp add: book_step_def session_of_def sess)
  have "bill_of h' x \<noteq> None \<longleftrightarrow> bill_of h x \<noteq> None" for x
    by (simp add: bill_of_def bills)
  moreover have "\<forall>b \<in> snd ` set (ho_bills h'). is2 (bi_total b)"
    using books by (auto simp: bills books_def update_row_def)
  moreover have "orders_ok h'"
    using qr books lines_update [of "\<lambda>r. r\<lparr>qd_status := Qr_Voided\<rparr>" h]
    by (auto simp: void_qr_def books_def orders_ok_def map_of_eq_None_iff split: option.splits)
  ultimately have "books h'"
    using books mv unfolding books_def move_step_def by (auto simp: bills sess sale_move_def)
  with \<open>book_step h h'\<close> show ?thesis by blast
qed

lemma close_book_step:
  assumes tx: "closeRegister_tx c body at' h = Inr h'" and books: "books h"
  shows "book_step h h' \<and> books h'"
proof -
  obtain sid s z where s: "openSessionAt h (cb_loc body) = Some (sid, s)"
    and sess: "ho_sessions h' = update_row (ho_sessions h) sid (\<lambda>r. r\<lparr>se_closed := Some z\<rparr>)" and bills: "ho_bills h' = ho_bills h"
    and qr: "ho_qrOrders h' = ho_qrOrders h" "ho_refunds h' = ho_refunds h"
    using tx by (auto simp: closeRegister_tx_def takeOpenSession_def openSessionAt_def split: option.splits)
  have q: "quiet (ho_db h) (ho_db h')" by (rule quiet_accounts(5) [OF tx])
  have "session_of h sid = Some s" using open_in_sessions [OF s] books by (simp add: session_of_def books_def)
  then have "session_of h' x = Some t" if "session_of h x = Some t" "se_closed t \<noteq> None" for x t
    using that open_in_sessions [OF s] by (auto simp: session_of_def sess)
  then have "book_step h h'"
    using quiet_read(4) [OF q] by (simp add: book_step_def bill_of_def session_bills_def bills kept_bill_refl sold_def)
  moreover have "bill_of h' = bill_of h" by (simp add: fun_eq_iff bill_of_def bills)
  then have "books h'" using books quiet_read(4) [OF q] by (simp add: books_def bills sess qr orders_ok_def)
  ultimately show ?thesis by blast
qed

section \<open>The whole machine\<close>

lemma hinv_serve: "hinv h \<Longrightarrow> wire op \<Longrightarrow> hinv (snd (serve coll op h)) \<and> book_step h (snd (serve coll op h))"
proof -
  assume h: "hinv h" and w: "wire op"
  then have I: "inv (ho_db h)" "sales_ok (ho_db h)" "books h" by (auto simp: hinv_def)
  show ?thesis
  proof (cases "calls_calm op")
    case True
    then have "calm h (snd (serve coll op h))" using calm_exec [of op h coll] w by (simp add: hexec_def)
    then show ?thesis using hinv_calm book_step_calm h by blast
  next
    case False
    then consider (pay) c b t us where "op = Op_pay c b t us" | (void) c no why t where "op = Op_voidBill c no why t"
      | (close) c b t where "op = Op_closeRegister c b t" | (capture) i p t us where "op = Op_capture i p t us" by (cases op) auto
    then show ?thesis
    proof cases
      case pay
      then show ?thesis using w h pay_hinv [OF h] book_step_refl
        by (auto simp: pay_def intro!: keeps_transact [where P = "\<lambda>h'. hinv h' \<and> book_step h h'"])
    next
      case capture
      then show ?thesis using h capture_hinv [OF h] book_step_refl
        by (auto intro!: keeps_transact [where P = "\<lambda>h'. hinv h' \<and> book_step h h'"])
    next
      case void
      have "hinv h' \<and> book_step h h'" if "voidBill_tx c no why t h = Inr h'" for h'
        using void_book_step [OF that I(3)] inv_voidBill [OF I(1,2) that] sales_ok_step [OF void_move_step [OF that] I(2)]
        by (simp add: hinv_def)
      then show ?thesis using h void book_step_refl
        by (auto simp: voidBill_def intro!: keeps_transact [where P = "\<lambda>h'. hinv h' \<and> book_step h h'"])
    next
      case close
      have "hinv h' \<and> book_step h h'" if tx: "closeRegister_tx c b t h = Inr h'" for h'
        using close_book_step [OF tx I(3)] quiet_inv [OF quiet_accounts(5) [OF tx]] quiet_read(4) [OF quiet_accounts(5) [OF tx]] I
        by (simp add: hinv_def sales_ok_def)
      then show ?thesis using h close book_step_refl
        by (auto simp: closeRegister_def intro!: keeps_transact [where P = "\<lambda>h'. hinv h' \<and> book_step h h'"])
    qed
  qed
qed

lemma hinv_exec: "hinv h \<Longrightarrow> hinv (snd (hexec coll op h)) \<and> book_step h (snd (hexec coll op h))"
  using hinv_serve [of h op coll] by (simp add: hexec_def book_step_refl)

interpretation hall: guarded_machine "hexec coll" hinv for coll
proof
  show "hinv d \<Longrightarrow> hexec coll op d = (None, d') \<Longrightarrow> hinv d'" for d op d'
    using hinv_exec [of d coll op] by simp
  show "hinv d \<Longrightarrow> hexec coll op d = (Some e, d') \<Longrightarrow> hinv d'" for d op e d'
    using hinv_exec [of d coll op] by simp
qed

text \<open>A house on the day it opens: the stock counted in, nothing promised; bills carried over from the books
  before are bills like any other.\<close>

definition dayOne :: "house \<Rightarrow> bool" where
  "dayOne h \<longleftrightarrow> opened (ho_db h) \<and> sales_ok (ho_db h) \<and> books h"

lemma hinv_reached: "dayOne h0 \<Longrightarrow> runs (hexec coll) h0 h \<Longrightarrow> hinv h"
  using hall.runs_safe [of coll h0 h] inv_opened by (simp add: dayOne_def hinv_def)

lemma runs_book_step: "hinv h \<Longrightarrow> runs (hexec coll) h h' \<Longrightarrow> book_step h h'"
  by (rule hall.runs_relates [where rel = book_step]) (auto intro: book_step_refl book_step_trans dest: hinv_exec)

end
