(* ===== verification/Dues.thy ===== *)
theory Dues
  imports Hall
begin

text \<open>
  What an account owes, and how a sale, a payment and a voided payment move it. The balance is a sum over
  the bills that stand less a sum over the payments that stand; the open bills are read another way, off the
  lines of every payment, and the two part company once a payment is voided.
\<close>

lemma round2_shift: "is2 v \<Longrightarrow> round2 (w + v) = round2 w + v"
proof -
  assume "is2 v"
  then obtain k where v: "v = of_int k / 100" by (auto simp: is2_iff)
  show ?thesis unfolding v using r2.round_add_grid [of k w] by (simp add: add.commute)
qed

lemma is2_sum_list: "(\<And>x. x \<in> set xs \<Longrightarrow> is2 (f x)) \<Longrightarrow> is2 (\<Sum>x\<leftarrow>xs. f x)"
  by (induction xs) (auto intro: is2_add)

lemma outstanding_eq: "outstandingFor h k i = max 0 (round2 (charged h k i) - round2 (settled h k i))"
  by (simp add: outstandingFor_def is2_diff)

lemma is2_outstanding [simp]: "is2 (outstandingFor h k i)"
  by (simp add: outstanding_eq is2_max is2_diff)

lemma outstanding_nonneg [simp]: "0 \<le> outstandingFor h k i"
  by (simp add: outstanding_eq)

text \<open>A bill added.\<close>

lemma charged_append:
  "ho_bills h' = ho_bills h @ [(no, b)] \<Longrightarrow> charged h' k i = charged h k i + (if on_account k i b then bi_total b else 0)"
  by (simp add: charged_def)

lemma settled_same: "ho_settlements h' = ho_settlements h \<Longrightarrow> settled h' k i = settled h k i"
  by (simp add: settled_def)

lemma outstanding_sale:
  assumes "ho_bills h' = ho_bills h @ [(no, b)]" "ho_settlements h' = ho_settlements h" "is2 (bi_total b)"
  shows "outstandingFor h' k i = (if on_account k i b
    then max 0 (round2 (charged h k i) - round2 (settled h k i) + bi_total b) else outstandingFor h k i)"
proof (cases "on_account k i b")
  case True
  have c: "round2 (charged h' k i) = round2 (charged h k i) + bi_total b"
    using charged_append [OF assms(1)] True round2_shift [OF assms(3)] by simp
  have "round2 (charged h k i) + bi_total b - round2 (settled h k i) = round2 (charged h k i) - round2 (settled h k i) + bi_total b"
    by simp
  then show ?thesis unfolding outstanding_eq [of h'] c settled_same [OF assms(2)] using True by simp
next
  case False
  then show ?thesis unfolding outstanding_eq charged_append [OF assms(1)] settled_same [OF assms(2)] by simp
qed

lemma sale_payer_ok:
  assumes "sale_payer input h = Inr payer"
  shows "map_option payer_key payer = map_option payer_key (si_payer input)"
    "\<And>k. payerKindForTender (si_tender input) = Some k \<Longrightarrow> \<exists>p. payer = Some p \<and> pr_kind p = k"
proof -
  have who: "si_payer input = None \<and> payer = None \<or> (\<exists>p n. si_payer input = Some p \<and> payer = Some (p\<lparr>pr_name := n\<rparr>))"
  proof (cases "si_payer input")
    case None
    with assms show ?thesis by (simp add: sale_payer_def Let_def)
  next
    case (Some p)
    with assms show ?thesis by (cases "ho_payers h (pr_kind p, pr_id p)") (auto simp: sale_payer_def Let_def split: if_splits)
  qed
  from who show "map_option payer_key payer = map_option payer_key (si_payer input)" by (auto simp: payer_key_def)
  show "\<exists>p. payer = Some p \<and> pr_kind p = k" if "payerKindForTender (si_tender input) = Some k" for k
  proof -
    have "\<exists>q. si_payer input = Some q \<and> pr_kind q = k"
      using assms that unfolding sale_payer_def Let_def unless_Inr by (cases "si_payer input") auto
    then show ?thesis using who by auto
  qed
qed

section \<open>Open bills\<close>

lemma open_mem:
  "(no, t, v) \<in> set (openBillsFor coll h k i) \<longleftrightarrow> (\<exists>b. (no, b) \<in> set (ho_bills h) \<and> on_account k i b \<and> t = bi_at b \<and>
     v = round2 (bi_total b - round2 (lines_on h no)) \<and> 0 < v)"
  by (force simp: openBillsFor_def)

lemma open_cong:
  "ho_bills h' = ho_bills h \<Longrightarrow> (\<And>no. lines_on h' no = lines_on h no) \<Longrightarrow> openBillsFor coll h' k i = openBillsFor coll h k i"
  by (simp add: openBillsFor_def)

lemma lines_on_append:
  "ho_settlements h' = ho_settlements h @ [(j, s)] \<Longrightarrow> lines_on h' no = lines_on h no + total_of no (sl_lines s)"
  by (induction "sl_lines s") (simp_all add: lines_on_def total_of_def sum_list_map_filter' o_def)

lemma total_of_ge:
  assumes "(no, v) \<in> set ls" "\<And>l. l \<in> set ls \<Longrightarrow> 0 \<le> snd l"
  shows "v \<le> total_of no ls"
  using assms
proof (induction ls)
  case (Cons l ls)
  have "0 \<le> total_of no ls" unfolding total_of_def by (rule sum_list_nonneg) (use Cons.prems(2) in auto)
  moreover have "0 \<le> snd l" using Cons.prems(2) [of l] by simp
  ultimately show ?case using Cons by (cases l) (auto intro: add_increasing)
qed simp

lemma is2_owing: "is2 (owing bs)"
  unfolding owing_def by (rule is2_sum_list) (simp add: is2_max)

lemma allocate_grid: "l \<in> set (fst (allocate_loop bs left)) \<Longrightarrow> is2 (snd l)"
  by (induction bs left rule: allocate_loop.induct) (auto simp: Let_def split: if_splits)

lemma plan_lines:
  "l \<in> set (fst (settlement_plan coll h p amount)) \<Longrightarrow> is2 (snd l) \<and> 0 < snd l"
  using allocate_positive [of l _ "round2 amount"] allocate_grid [of l _ "round2 amount"]
  by (simp add: settlement_plan_def allocateSettlement_def)

lemma allocate_whole:
  "fst (allocate_loop bs (owing bs)) = map (\<lambda>b. (ob_no b, round2 (ob_owed b))) (filter (\<lambda>b. 0 < round2 (ob_owed b)) bs)"
proof (induction bs)
  case (Cons b bs)
  show ?case
  proof (cases "round2 (ob_owed b) \<le> 0")
    case True
    then have "owing (b # bs) = owing bs" by (simp add: owing_def)
    moreover have "fst (allocate_loop bs (owing bs)) = []" if "owing bs \<le> 0"
      using allocate_nothing_left [OF that] .
    ultimately show ?thesis using True Cons by (cases "owing bs \<le> 0") (auto simp: Let_def)
  next
    case False
    then have "owing (b # bs) = round2 (ob_owed b) + owing bs" "0 \<le> owing bs" "is2 (owing bs)"
      using owing_nonneg [of bs] is2_owing by (auto simp: owing_def)
    then show ?thesis using False Cons by (simp add: Let_def min_def is2_add is2_diff)
  qed
qed (simp add: owing_def)

section \<open>Payments\<close>

text \<open>A payment that went through: one row, laid over the bills open at that instant.\<close>

lemma record_shape:
  assumes "record_tx coll c body at' h = Inr h'"
  obtains j row where "map_of (ho_settlements h) j = None" "ho_settlements h' = ho_settlements h @ [(j, row)]"
    "ho_bills h' = ho_bills h" "sl_kind row = fst (sb_payer body)" "sl_payer row = snd (sb_payer body)"
    "sl_amount row = round2 (sb_amount body)" "sl_void row = None"
    "sl_lines row = fst (settlement_plan coll h (sb_payer body) (round2 (sb_amount body)))"
    "snd (settlement_plan coll h (sb_payer body) (round2 (sb_amount body))) = 0"
    "round2 (sb_amount body) \<le> outstandingFor h (fst (sb_payer body)) (snd (sb_payer body))"
    "0 < outstandingFor h (fst (sb_payer body)) (snd (sb_payer body))"
  using assms by (auto simp: record_tx_def Let_def insertSettlement_def)

lemma settled_append:
  "ho_settlements h' = ho_settlements h @ [(j, s)] \<Longrightarrow>
   settled h' k i = settled h k i + (if standing k i s then sl_amount s else 0)"
  by (simp add: settled_def)

lemma charged_same: "ho_bills h' = ho_bills h \<Longrightarrow> charged h' k i = charged h k i"
  by (simp add: charged_def)

lemma outstanding_payment:
  assumes "record_tx coll c body at' h = Inr h'"
  shows "outstandingFor h' k i = outstandingFor h k i - (if (k, i) = sb_payer body then round2 (sb_amount body) else 0)"
  using assms
proof (rule record_shape)
  fix j row
  assume a: "ho_settlements h' = ho_settlements h @ [(j, row)]" "ho_bills h' = ho_bills h"
    "sl_kind row = fst (sb_payer body)" "sl_payer row = snd (sb_payer body)" "sl_amount row = round2 (sb_amount body)"
    "sl_void row = None" "round2 (sb_amount body) \<le> outstandingFor h (fst (sb_payer body)) (snd (sb_payer body))"
    "0 < outstandingFor h (fst (sb_payer body)) (snd (sb_payer body))"
  have "round2 (settled h' k i) = round2 (settled h k i) + (if (k, i) = sb_payer body then round2 (sb_amount body) else 0)"
    using a by (cases "sb_payer body") (auto simp: settled_append [OF a(1)] standing_def round2_shift)
  then show ?thesis using a(7,8) charged_same [OF a(2)]
    by (cases "sb_payer body") (auto simp: outstanding_eq split: if_splits)
qed

section \<open>A payment voided again\<close>

lemma update_row_fresh: "map_of t j = None \<Longrightarrow> update_row (t @ [(j, r)]) j f = t @ [(j, f r)]"
  by (induction t) (auto simp: update_row_def split: if_splits)

lemma void_settlement_shape:
  assumes "voidSettlement_tx c j why at' h = Inr h'"
  obtains v where "ho_bills h' = ho_bills h" "ho_settlements h' = update_row (ho_settlements h) j (\<lambda>s. s\<lparr>sl_void := Some v\<rparr>)"
    "ho_payers h' = ho_payers h"
  using assms by (auto simp: voidSettlement_tx_def)

lemma lines_on_voided:
  "ho_settlements h' = update_row (ho_settlements h) j (\<lambda>s. s\<lparr>sl_void := Some v\<rparr>) \<Longrightarrow> lines_on h' no = lines_on h no"
proof -
  have "map (\<lambda>s. sl_lines (snd s)) (update_row t j (\<lambda>s. s\<lparr>sl_void := Some v\<rparr>)) = map (\<lambda>s. sl_lines (snd s)) t"
    for t :: "(string \<times> settlementRow) list"
    by (induction t) (auto simp: update_row_def)
  then show "ho_settlements h' = update_row (ho_settlements h) j (\<lambda>s. s\<lparr>sl_void := Some v\<rparr>) \<Longrightarrow> ?thesis"
    by (simp add: lines_on_def)
qed

text \<open>A payment that covered every open bill and is voided: the balance is back, and no bill is open.\<close>

definition open_total :: "(string \<Rightarrow> string \<Rightarrow> bool) \<Rightarrow> house \<Rightarrow> payerKind \<times> string \<Rightarrow> number" where
  "open_total coll h p = (\<Sum>x\<leftarrow>openBillsFor coll h (fst p) (snd p). snd (snd x))"

lemma plan_of_whole:
  assumes "round2 amount = open_total coll h p" "(no, t, v) \<in> set (openBillsFor coll h (fst p) (snd p))"
  shows "(no, v) \<in> set (fst (settlement_plan coll h p (round2 amount)))"
proof -
  let ?bs = "map (\<lambda>(no, t, v). \<lparr>ob_no = no, ob_at = toISOString t, ob_owed = v\<rparr>) (openBillsFor coll h (fst p) (snd p))"
  let ?sorted = "stable_sort (\<lambda>a b. coll (ob_at a) (ob_at b)) ?bs"
  have grid: "is2 (snd (snd x)) \<and> 0 < snd (snd x)" if "x \<in> set (openBillsFor coll h (fst p) (snd p))" for x
    using that open_mem [of "fst x" "fst (snd x)" "snd (snd x)" coll h "fst p" "snd p"] by auto
  have "owing ?bs = open_total coll h p"
    unfolding owing_def open_total_def
    by (rule arg_cong [where f = sum_list]) (use grid in \<open>fastforce simp: max_absorb2 less_imp_le\<close>)
  moreover have "owing ?sorted = owing ?bs" by (rule owing_perm) simp
  moreover have "round2 (open_total coll h p) = open_total coll h p" using assms(1) by (metis is2_round2 round2_id)
  ultimately have "fst (settlement_plan coll h p (round2 amount))
      = map (\<lambda>b. (ob_no b, round2 (ob_owed b))) (filter (\<lambda>b. 0 < round2 (ob_owed b)) ?sorted)"
    using allocate_whole [of ?sorted] assms(1) by (simp add: settlement_plan_def allocateSettlement_def)
  moreover have "\<lparr>ob_no = no, ob_at = toISOString t, ob_owed = v\<rparr> \<in> set ?sorted" using assms(2) by force
  ultimately show ?thesis using grid [OF assms(2)] by force
qed

lemma voided_payment_locks:
  assumes books: "books h" and pay: "record_tx coll c body at' h = Inr h1"
    and whole: "round2 (sb_amount body) = open_total coll h (sb_payer body)"
    and j: "map_of (ho_settlements h) j = None" and void: "voidSettlement_tx c' j why at'' h1 = Inr h2"
  shows "outstandingFor h2 k i = outstandingFor h k i \<and>
    openBillsFor coll h2 (fst (sb_payer body)) (snd (sb_payer body)) = []"
  using pay
proof (rule record_shape)
  fix j' row
  assume a: "map_of (ho_settlements h) j' = None" "ho_settlements h1 = ho_settlements h @ [(j', row)]"
    "ho_bills h1 = ho_bills h" "sl_lines row = fst (settlement_plan coll h (sb_payer body) (round2 (sb_amount body)))"
  obtain v where v: "ho_bills h2 = ho_bills h1" "ho_settlements h2 = update_row (ho_settlements h1) j (\<lambda>s. s\<lparr>sl_void := Some v\<rparr>)"
    using void by (rule void_settlement_shape)
  have "map_of (ho_settlements h1) j \<noteq> None" using void by (auto simp: voidSettlement_tx_def)
  then have "j = j'" using j a(2) by (auto split: if_splits)
  then have h2: "ho_settlements h2 = ho_settlements h @ [(j, row\<lparr>sl_void := Some v\<rparr>)]" using v(2) a(1,2) update_row_fresh by simp
  have "outstandingFor h2 k i = outstandingFor h k i"
    using charged_same [of h2 h] v(1) a(3) settled_append [OF h2] by (simp add: outstanding_eq standing_def)
  moreover have "\<not> (\<exists>t o'. (no, t, o') \<in> set (openBillsFor coll h2 (fst (sb_payer body)) (snd (sb_payer body))))" for no
  proof
    let ?p = "sb_payer body"
    assume "\<exists>t o'. (no, t, o') \<in> set (openBillsFor coll h2 (fst ?p) (snd ?p))"
    then obtain b where b: "(no, b) \<in> set (ho_bills h)" "on_account (fst ?p) (snd ?p) b"
      and owed: "0 < round2 (bi_total b - round2 (lines_on h2 no))" using v(1) a(3) by (auto simp: open_mem)
    have lines: "lines_on h2 no = lines_on h no + total_of no (sl_lines row)"
      using lines_on_append [OF h2, of no] by simp
    have pos: "is2 (snd l) \<and> 0 \<le> snd l" if "l \<in> set (sl_lines row)" for l
      using that plan_lines [of l coll h ?p "round2 (sb_amount body)"] by (simp add: a(4))
    have t: "is2 (bi_total b)" using books b(1) by (force simp: books_def)
    have g: "is2 (total_of no (sl_lines row))" unfolding total_of_def by (rule is2_sum_list) (use pos in auto)
    have "0 < bi_total b - round2 (lines_on h no) - total_of no (sl_lines row)"
      using owed t g by (simp add: lines round2_shift is2_diff is2_add)
    moreover have "0 \<le> total_of no (sl_lines row)" unfolding total_of_def by (rule sum_list_nonneg) (use pos in auto)
    ultimately have o: "0 < bi_total b - round2 (lines_on h no)" by simp
    then have "(no, bi_at b, bi_total b - round2 (lines_on h no)) \<in> set (openBillsFor coll h (fst ?p) (snd ?p))"
      using b t by (auto simp: open_mem is2_diff)
    from total_of_ge [OF plan_of_whole [OF whole this]] pos a(4)
    show False using \<open>0 < bi_total b - _ - _\<close> by force
  qed
  then have "openBillsFor coll h2 (fst (sb_payer body)) (snd (sb_payer body)) = []"
    by (metis list.set_intros(1) neq_Nil_conv prod_cases3)
  ultimately show ?thesis ..
qed

end
