(* ===== verification/Trading.thy ===== *)
theory Trading
  imports Dues
begin

text \<open>
  Selling, end to end: what a sale takes, what its void gives back whatever happened in between, what the
  account it is posted to may owe, what a payment and its void do to that, and what a Z leaves fixed.
\<close>

section \<open>Lemmas: the moves of a sale, by cell\<close>

lemma picked:
  "(\<Sum>x\<leftarrow>filter (\<lambda>x. \<not> P (fst x)) cs. if a = l \<and> fst x = it then - snd x else (0::number)) =
     (if l = a \<and> \<not> P it then - total_of it cs else 0)"
  by (induction cs) auto

lemma sale_delta:
  assumes "PayBodySchema body"
  shows "delta_of (sale_moves (sale_plan (till_sale c body) h payer) no by' at') (l, it) =
    (if l = yb_loc body \<and> \<not> isMTO (loadMaster (ho_db h)) it then - total_of it (yb_lines body) else 0)"
proof -
  let ?m = "loadMaster (ho_db h)" and ?cart = "cartOf (yb_lines body)"
  have grid: "is3 (snd x)" if "x \<in> set ?cart" for x
    using that is3_get0_foldLines [of "fst x" "snd x" "yb_lines body"] by (simp add: cartOf_def)
  have "delta_of (sale_moves (sale_plan (till_sale c body) h payer) no by' at') (l, it) =
      (\<Sum>x\<leftarrow>filter (\<lambda>x. \<not> isMTO ?m (fst x)) ?cart. if yb_loc body = l \<and> fst x = it then - snd x else 0)"
    unfolding delta_of_def by (rule arg_cong [where f = sum_list])
      (use grid in \<open>auto simp: sale_moves_def plan_moves till_sale_def mv_cell_def is3_minus\<close>)
  also have "\<dots> = (if l = yb_loc body \<and> \<not> isMTO ?m it then - total_of it ?cart else 0)"
    by (rule picked)
  also have "total_of it ?cart = total_of it (yb_lines body)"
    using assms by (subst total_of_distinct) (auto simp: cartOf_def PayBodySchema_def wire_defs list_all_iff intro: get0_foldLines_grid)
  finally show ?thesis .
qed

lemma onhand_posted:
  assumes "ledger_ok d" "ledger_ok d'" "db_moves d' = db_moves d @ posted ms"
  shows "onhand d' x = onhand d x + delta_of ms x"
  using assms posted_delta [of x ms] by (simp add: ledger_cache [symmetric] moved_def ledger_cache)

lemma pay_exec: "hexec coll (Op_pay c body at' us) h = (None, h') \<longleftrightarrow> PayBodySchema body \<and> pay_tx c body at' us h = Inr h'"
  by (simp add: hexec_def pay_def transact_ok)

lemma hinv_ledger: "hinv h \<Longrightarrow> ledger_ok (ho_db h)"
  by (simp add: hinv_def inv_def stock_inv_def)

lemma sessionFor_open:
  assumes "sessionFor loc by' at' us h = Inr (sid, h1)" "distinct (map fst (ho_sessions h))"
  shows "\<exists>s. session_of h1 sid = Some s \<and> se_closed s = None \<and> se_loc s = loc"
  using sessionFor_ok [OF assms(1)]
proof
  assume "(\<exists>r. openSessionAt h loc = Some (sid, r)) \<and> h1 = h"
  then show ?thesis using open_in_sessions [of h loc sid] assms(2) by (auto simp: session_of_def)
qed (auto simp: session_of_def map_add_def)

lemma plan_bills:
  "fst ` set (fst (settlement_plan coll h p v)) \<subseteq> fst ` set (openBillsFor coll h (fst p) (snd p))"
proof -
  have "fst ` set (fst (allocate_loop bs left)) \<subseteq> ob_no ` set bs" for bs left
  proof (induction bs arbitrary: left)
    case (Cons b bs)
    show ?case
      using Cons [of left] Cons [of "round2 (left - round2 (min (round2 (ob_owed b)) left))"] by (auto simp: Let_def)
  qed simp
  then have "fst ` set (fst (settlement_plan coll h p v)) \<subseteq>
      ob_no ` set (map (\<lambda>(no, t, v). \<lparr>ob_no = no, ob_at = toISOString t, ob_owed = v\<rparr>) (openBillsFor coll h (fst p) (snd p)))"
    unfolding settlement_plan_def allocateSettlement_def by (metis set_stable_sort)
  then show ?thesis by (force simp: image_iff)
qed

text \<open>What a register counts is read off the session's own bills.\<close>

lemma sold_by_session:
  assumes "session_bills h' sid = session_bills h sid"
  shows "soldIn h' sid = soldIn h sid" "voidedIn h' sid = voidedIn h sid"
proof -
  have "filter (in_session sid) (map snd (ho_bills a)) = filter (\<lambda>b. bi_void b = None) (session_bills a sid)"
    "filter (\<lambda>b. bi_session b = Some sid \<and> bi_void b \<noteq> None) (map snd (ho_bills a)) =
       filter (\<lambda>b. bi_void b \<noteq> None) (session_bills a sid)" for a
    by (auto simp: session_bills_def in_session_def intro: filter_cong)
  then show "soldIn h' sid = soldIn h sid" "voidedIn h' sid = voidedIn h sid"
    by (simp_all add: soldIn_def voidedIn_def assms)
qed

section \<open>The sale\<close>

text \<open>C12. What a sale does: one new bill, standing, in a session of its outlet that is open; every shelf of
  the outlet is down by exactly what the lines name of it, made-to-order items apart, which have no shelf;
  no other shelf moves, no promise is touched, and every promise is still covered.\<close>

theorem sale_effect:
  assumes "dayOne h0" and "runs (hexec coll) h0 h" and "hexec coll (Op_pay c body at' us) h = (None, h')"
  shows "(\<exists>no b sid s. bill_of h no = None \<and> ho_bills h' = ho_bills h @ [(no, b)] \<and> bi_void b = None \<and>
      bi_session b = Some sid \<and> session_of h' sid = Some s \<and> se_closed s = None \<and> se_loc s = yb_loc body) \<and>
    onhand (ho_db h') (l, it) = onhand (ho_db h) (l, it)
      - (if l = yb_loc body \<and> \<not> isMTO (loadMaster (ho_db h)) it then total_of it (yb_lines body) else 0) \<and>
    held (ho_db h') (l, it) = held (ho_db h) (l, it) \<and> held (ho_db h') (l, it) \<le> onhand (ho_db h') (l, it)"
proof -
  have h: "hinv h" by (rule hinv_reached [OF assms(1,2)])
  have h': "hinv h'" using hinv_exec [OF h, of coll "Op_pay c body at' us"] assms(3) by simp
  have pay: "pay_tx c body at' us h = Inr h'" and wire: "PayBodySchema body" using assms(3) by (auto simp: pay_exec)
  from pay show ?thesis
  proof (rule pay_shape)
    fix no n sid h1 payer b
    assume s: "sessionFor (yb_loc body) (cl_sub c) at' us h = Inr (sid, h1)" and new: "bill_of h no = None"
      and b: "bi_session b = Some sid" "bi_void b = None" "ho_bills h' = ho_bills h @ [(no, b)]"
      and sess: "ho_sessions h' = ho_sessions h1"
      and moves: "db_moves (ho_db h') = db_moves (ho_db h) @ posted (sale_moves (sale_plan (till_sale c body) h payer) no (cl_sub c) at')"
      and papers: "same_papers (ho_db h) (ho_db h')"
    then have hold: "\<And>x. held (ho_db h') x = held (ho_db h) x" by (simp add: same_papers_def held_def)
    have "\<exists>s. session_of h' sid = Some s \<and> se_closed s = None \<and> se_loc s = yb_loc body"
      using sessionFor_open [OF s] h by (simp add: hinv_def books_def session_of_def sess)
    moreover have "held (ho_db h') (l, it) \<le> onhand (ho_db h') (l, it)"
      using h' by (intro coveredD) (simp add: hinv_def inv_def stock_inv_def)
    ultimately show ?thesis
      using new b hold onhand_posted [OF hinv_ledger [OF h] hinv_ledger [OF h'] moves, of "(l, it)"]
      by (auto simp: sale_delta [OF wire])
  qed
qed

section \<open>The void\<close>

text \<open>C13. A void undoes its sale, however late in the day and whatever happened in between: sell, let any
  calls run, void the bill, and every shelf has back exactly what the sale took from it. No promise is
  touched and the bill stays in the books, marked.\<close>

theorem void_gives_back:
  assumes "dayOne h0" and "runs (hexec coll) h0 h" and "hexec coll (Op_pay c body at' us) h = (None, h1)"
    and "bill_of h no = None" and "bill_of h1 no \<noteq> None"
    and "runs (hexec coll) h1 h2" and "hexec coll (Op_voidBill c' no why t) h2 = (None, h3)"
  shows "onhand (ho_db h3) x = onhand (ho_db h2) x + (onhand (ho_db h) x - onhand (ho_db h1) x) \<and>
    held (ho_db h3) x = held (ho_db h2) x \<and>
    (\<exists>b v. bill_of h1 no = Some b \<and> bi_void b = None \<and> bill_of h3 no = Some (b\<lparr>bi_void := Some v\<rparr>))"
proof -
  have h: "hinv h" by (rule hinv_reached [OF assms(1,2)])
  have h1: "hinv h1" using hinv_exec [OF h, of coll "Op_pay c body at' us"] assms(3) by simp
  have h2: "hinv h2" by (rule hall.runs_safe [OF assms(6) h1])
  have void: "voidBill_tx c' no why t h2 = Inr h3"
    using assms(7) by (auto simp: hexec_def voidBill_def transact_ok split: if_splits)
  have pay: "pay_tx c body at' us h = Inr h1" and wire: "PayBodySchema body" using assms(3) by (auto simp: pay_exec)
  obtain n payer b where b: "ho_bills h1 = ho_bills h @ [(no, b)]" "bi_void b = None" and
    moves: "db_moves (ho_db h1) = db_moves (ho_db h) @ posted (sale_moves (sale_plan (till_sale c body) h payer) no (cl_sub c) at')"
    using pay
  proof (rule pay_shape)
    fix no' payer b
    assume "ho_bills h1 = ho_bills h @ [(no', b)]" "bi_void b = None"
      "db_moves (ho_db h1) = db_moves (ho_db h) @ posted (sale_moves (sale_plan (till_sale c body) h payer) no' (cl_sub c) at')"
    moreover from this(1) have "no' = no" using assms(4,5) by (auto simp: bill_of_def split: if_splits)
    ultimately show ?thesis using that by blast
  qed
  let ?ms = "sale_moves (sale_plan (till_sale c body) h payer) no (cl_sub c) at'"
  have "filter (sale_move no) (db_moves (ho_db h)) = []"
    using h assms(4) unfolding hinv_def books_def filter_empty_conv by metis
  moreover have "filter (sale_move no) (posted ?ms) = posted ?ms" using sale_moves_of(1) [OF wire] by (intro filter_True) blast
  ultimately have "sold (ho_db h1) no x = delta_of ?ms x" using posted_delta [of x ?ms] by (simp add: sold_def moves)
  also have "delta_of ?ms x = onhand (ho_db h1) x - onhand (ho_db h) x"
    using onhand_posted [OF hinv_ledger [OF h] hinv_ledger [OF h1] moves] by simp
  finally have took: "sold (ho_db h1) no x = onhand (ho_db h1) x - onhand (ho_db h) x" .
  have r1: "bill_of h1 no = Some b" using assms(4) by (simp add: bill_of_def b map_add_def)
  have step: "book_step h1 h2" by (rule runs_book_step [OF h1 assms(6)])
  then obtain b2 where b2: "bill_of h2 no = Some b2" "kept_bill b b2" and "sold (ho_db h2) no x = sold (ho_db h1) no x"
    using r1 unfolding book_step_def by blast
  then have "onhand (ho_db h3) x = onhand (ho_db h2) x + (onhand (ho_db h) x - onhand (ho_db h1) x) \<and> held (ho_db h3) x = held (ho_db h2) x"
    using void_onhand [OF _ void, of x] h2 took by (simp add: hinv_def)
  moreover have "\<exists>v. bill_of h3 no = Some (b\<lparr>bi_void := Some v\<rparr>)"
    using void
  proof (rule void_shape)
    fix r assume r: "bill_of h2 no = Some r" "void_refusal c' no (trim why) t r h2 = None"
      "ho_bills h3 = update_row (ho_bills h2) no (\<lambda>b. b\<lparr>bi_void := Some \<lparr>vm_at = t, vm_by = cl_sub c', vm_reason = trim why\<rparr>\<rparr>)"
    have "b2 = b" using b2 r(1) void_refusal_facts(1) [OF r(2)] by (auto simp: kept_bill_def)
    then show ?thesis using r b2(1) by (simp add: bill_of_def) blast
  qed
  ultimately show ?thesis using r1 b(2) by blast
qed

section \<open>What an account owes\<close>

text \<open>C14. A credit ceiling holds: any sale posted to an account names its payer, writes one bill, raises what that
  account owes by no more than the bill's total and leaves every other account alone; and where the payer has a
  ceiling, the balance after the sale is inside it.\<close>

theorem credit_ceiling:
  assumes "hexec coll (Op_pay c body at' us) h = (None, h')" and "payerKindForTender (yb_tender body) = Some k"
  shows "\<exists>p no b. yb_payer body = Some p \<and> pr_kind p = k \<and> ho_bills h' = ho_bills h @ [(no, b)] \<and>
    outstandingFor h' k (pr_id p) \<le> max 0 (outstandingFor h k (pr_id p) + bi_total b) \<and>
    (\<forall>k' i. (k', i) \<noteq> (k, pr_id p) \<longrightarrow> outstandingFor h' k' i = outstandingFor h k' i) \<and>
    (\<forall>l. snd (termsFor h (PartyOf k) (Some (k, pr_id p))) = Some l \<and> 0 \<le> l \<longrightarrow> outstandingFor h' k (pr_id p) \<le> l)"
proof -
  have pay: "pay_tx c body at' us h = Inr h'" and wire: "PayBodySchema body" using assms(1) by (auto simp: pay_exec)
  from pay show ?thesis
  proof (rule pay_shape)
    fix no payer b
    let ?tot = "pl_tot (sale_plan (till_sale c body) h payer)"
    assume py: "sale_payer (till_sale c body) h = Inr payer"
      and cr: "credit_refusal h payer ?tot (snd (sale_terms h payer)) = None"
      and b: "bi_void b = None" "bi_tender b = yb_tender body" "bi_payer b = payer" "bi_total b = round2 ?tot"
      and h': "ho_bills h' = ho_bills h @ [(no, b)]" "ho_settlements h' = ho_settlements h"
    have "payerKindForTender (si_tender (till_sale c body)) = Some k" using assms(2) by (simp add: till_sale_def)
    with sale_payer_ok [OF py] obtain q where q: "payer = Some q" "pr_kind q = k" by blast
    with sale_payer_ok(1) [OF py] obtain p where p: "yb_payer body = Some p" "pr_kind p = k" "pr_id p = pr_id q"
      by (cases "yb_payer body") (auto simp: till_sale_def payer_key_def)
    have acc: "on_account k' i b \<longleftrightarrow> (k', i) = (k, pr_id p)" for k' i
      using assms(2) b q p by (auto simp: on_account_def ACCOUNT_TENDERS_def TENDERS_def payerKindForTender_def split: tender.splits)
        (cases "yb_tender body"; simp)+
    note out = outstanding_sale [OF h', of k "pr_id p"]
    let ?owes = "outstandingFor h k (pr_id p)"
    have rise: "outstandingFor h' k (pr_id p) \<le> max 0 (?owes + round2 ?tot)"
      using out b by (auto simp: acc outstanding_eq)
    have "outstandingFor h' k (pr_id p) \<le> l" if "snd (termsFor h (PartyOf k) (Some (k, pr_id p))) = Some l" "0 \<le> l" for l
    proof -
      have "\<not> breachesCredit ?owes ?tot (Some l)"
        using cr that(1) q p by (simp add: credit_refusal_def sale_terms_def partyOf_def payer_key_def Let_def)
      then have "round2 ?tot + ?owes \<le> l"
        using round2_shift [OF is2_outstanding, of ?tot h k "pr_id p"] by (simp add: breachesCredit_def add.commute)
      with rise that(2) show ?thesis by simp
    qed
    moreover have "outstandingFor h' k' i = outstandingFor h k' i" if "(k', i) \<noteq> (k, pr_id p)" for k' i
      using outstanding_sale [OF h', of k' i] that b(4) by (simp only: acc if_False is2_round2)
    ultimately show ?thesis using p h'(1) b(4) rise by (intro exI [of _ p] exI [of _ no] exI [of _ b]) auto
  qed
qed

text \<open>C15. A payment: what the account owes falls by exactly the amount, never below nothing, and no other account
  moves; the payment is laid over open bills line by line, each line more than nothing, and the lines add up
  to the amount.\<close>

theorem payment_effect:
  assumes "hexec coll (Op_settle c body at') h = (None, h')"
  shows "outstandingFor h' k i = outstandingFor h k i - (if (k, i) = sb_payer body then round2 (sb_amount body) else 0) \<and>
    (\<exists>j row. map_of (ho_settlements h) j = None \<and> ho_settlements h' = ho_settlements h @ [(j, row)] \<and>
      (\<Sum>x\<leftarrow>sl_lines row. snd x) = round2 (sb_amount body) \<and> (\<forall>x \<in> set (sl_lines row). 0 < snd x) \<and>
      fst ` set (sl_lines row) \<subseteq> fst ` set (openBillsFor coll h (fst (sb_payer body)) (snd (sb_payer body))))"
proof -
  have rec: "record_tx coll c body at' h = Inr h'"
    using assms by (auto simp: hexec_def recordSettlement_def transact_ok split: if_splits)
  show ?thesis
    using rec
  proof (rule record_shape)
    fix j row
    let ?plan = "settlement_plan coll h (sb_payer body) (round2 (sb_amount body))"
    assume a: "map_of (ho_settlements h) j = None" "ho_settlements h' = ho_settlements h @ [(j, row)]"
      "sl_lines row = fst ?plan" "snd ?plan = 0"
    have "(\<Sum>x\<leftarrow>fst ?plan. snd x) + snd ?plan = round2 (sb_amount body)"
      unfolding settlement_plan_def allocateSettlement_def by (subst allocate_sum) simp_all
    then have "(\<Sum>x\<leftarrow>fst ?plan. snd x) = round2 (sb_amount body)" using a(4) by simp
    moreover have "fst ` set (fst ?plan) \<subseteq> fst ` set (openBillsFor coll h (fst (sb_payer body)) (snd (sb_payer body)))"
      by (rule plan_bills)
    ultimately show ?thesis
      using a outstanding_payment [OF rec, of k i] plan_lines [of _ coll h "sb_payer body" "round2 (sb_amount body)"]
      by (intro conjI exI [of _ j] exI [of _ row]) auto
  qed
qed

text \<open>C10. What goes wrong: a payment that closed every open bill of an account and was then voided leaves the whole
  balance owing again and no bill open for it, so no payment of any amount can be recorded against that
  account any more: the lines of the voided payment still count as settled.\<close>

theorem voided_payment_cannot_be_retaken:
  assumes "dayOne h0" and "runs (hexec coll) h0 h" and "hexec coll (Op_settle c body at') h = (None, h1)"
    and "round2 (sb_amount body) = open_total coll h (sb_payer body)"
    and "map_of (ho_settlements h) j = None" and "hexec coll (Op_voidSettlement c' j why t) h1 = (None, h2)"
    and "sb_payer again = sb_payer body" and "0 < round2 (sb_amount again)"
  shows "outstandingFor h2 (fst (sb_payer body)) (snd (sb_payer body)) = outstandingFor h (fst (sb_payer body)) (snd (sb_payer body)) \<and>
    openBillsFor coll h2 (fst (sb_payer body)) (snd (sb_payer body)) = [] \<and>
    (\<exists>e. hexec coll (Op_settle c'' again t') h2 = (Some e, h2))"
proof -
  have books: "books h" using hinv_reached [OF assms(1,2)] by (simp add: hinv_def)
  have rec: "record_tx coll c body at' h = Inr h1"
    using assms(3) by (auto simp: hexec_def recordSettlement_def transact_ok split: if_splits)
  have void: "voidSettlement_tx c' j why t h1 = Inr h2"
    using assms(6) by (auto simp: hexec_def voidSettlement_def transact_ok split: if_splits)
  note lock = voided_payment_locks [OF books rec assms(4,5) void]
  have "settlement_plan coll h2 (sb_payer again) (round2 (sb_amount again)) = ([], round2 (sb_amount again))"
    using lock assms(7) by (simp add: settlement_plan_def allocateSettlement_def stable_sort_def)
  then have "record_tx coll c'' again t' h2 \<noteq> Inr x" for x using assms(8) by (auto elim!: record_shape)
  then have "\<exists>e. record_tx coll c'' again t' h2 = Inl e" by (cases "record_tx coll c'' again t' h2") auto
  then have "\<exists>e. hexec coll (Op_settle c'' again t') h2 = (Some e, h2)"
    by (auto simp: hexec_def recordSettlement_def transact_def)
  then show ?thesis using lock by blast
qed

section \<open>The Z\<close>

text \<open>C16. A Z stands: once an outlet's register is closed, no call of any service, a void included, changes the
  session it closed or the bills behind it, so the figures printed on the Z are, for ever after, the
  figures those bills add up to.\<close>

theorem z_stands:
  assumes "dayOne h0" and "runs (hexec coll) h0 h" and "hexec coll (Op_closeRegister c body t) h = (None, h1)"
    and "runs (hexec coll) h1 h2"
  shows "\<exists>sid s z. openSessionAt h (cb_loc body) = Some (sid, s) \<and>
    session_of h2 sid = Some (s\<lparr>se_closed := Some z\<rparr>) \<and>
    zc_totals z = buildTotals (soldIn h2 sid) (voidedIn h2 sid) (settledIn h (se_openedAt s) t)"
proof -
  have h: "hinv h" by (rule hinv_reached [OF assms(1,2)])
  have h1: "hinv h1" using hinv_exec [OF h, of coll "Op_closeRegister c body t"] assms(3) by simp
  have tx: "closeRegister_tx c body t h = Inr h1"
    using assms(3) by (auto simp: hexec_def closeRegister_def transact_ok split: if_splits)
  obtain sid s no where s: "openSessionAt h (cb_loc body) = Some (sid, s)"
    and closed: "ho_sessions h1 = update_row (ho_sessions h) sid (\<lambda>r. r\<lparr>se_closed := Some
      \<lparr>zc_no = no, zc_at = t, zc_by = cl_sub c, zc_totals = totalsOf h sid (se_openedAt s) t,
       zc_counted = cb_counted body, zc_note = cb_note body\<rparr>\<rparr>)" and bills: "ho_bills h1 = ho_bills h"
    using tx by (auto simp: closeRegister_tx_def takeOpenSession_def openSessionAt_def split: option.splits)
  then obtain z where z: "zc_totals z = totalsOf h sid (se_openedAt s) t"
    and sess: "ho_sessions h1 = update_row (ho_sessions h) sid (\<lambda>r. r\<lparr>se_closed := Some z\<rparr>)" by force
  have "session_of h sid = Some s" using open_in_sessions [OF s] h by (simp add: session_of_def hinv_def books_def)
  then have s1: "session_of h1 sid = Some (s\<lparr>se_closed := Some z\<rparr>)" by (simp add: session_of_def sess)
  then have "session_of h2 sid = Some (s\<lparr>se_closed := Some z\<rparr>)" and "session_bills h2 sid = session_bills h1 sid"
    using runs_book_step [OF h1 assms(4)] unfolding book_step_def by auto
  moreover have "session_bills h1 sid = session_bills h sid" by (simp add: session_bills_def bills)
  ultimately show ?thesis using s z sold_by_session [of h2 sid h] by (auto simp: totalsOf_def)
qed

end
