(* ===== verification/Custody.thy ===== *)
theory Custody
  imports Trading
begin

text \<open>
  The abstract contract of the shelves: two figures per cell, what is there and what is promised, and six
  things that may happen to them. Every operation of the house, whatever tables it writes, does one of
  the six, and which one is read off its name; so the house refines a machine of a few lines.
\<close>

section \<open>The abstract machine\<close>

type_synonym shelf = "cell \<Rightarrow> number \<times> number"  \<comment> \<open>on hand, held\<close>

datatype deed = Rests | Promises | Frees | HandsOut | Gains | Takes | Counts

inductive shelf_step :: "deed \<Rightarrow> shelf \<Rightarrow> shelf \<Rightarrow> bool" where
  rests: "shelf_step Rests s s"
| promises: "(\<And>c. fst (s' c) = fst (s c)) \<Longrightarrow> (\<And>c. snd (s c) \<le> snd (s' c) \<and> snd (s' c) \<le> fst (s c)) \<Longrightarrow>
    shelf_step Promises s s'"
| frees: "(\<And>c. fst (s' c) = fst (s c)) \<Longrightarrow> (\<And>c. 0 \<le> snd (s' c) \<and> snd (s' c) \<le> snd (s c)) \<Longrightarrow> shelf_step Frees s s'"
| hands_out: "(\<And>c. 0 \<le> snd (s' c) \<and> snd (s' c) \<le> snd (s c)) \<Longrightarrow>
    (\<And>c. fst (s c) - fst (s' c) = snd (s c) - snd (s' c)) \<Longrightarrow> shelf_step HandsOut s s'"
| gains: "(\<And>c. snd (s' c) = snd (s c)) \<Longrightarrow> (\<And>c. fst (s c) \<le> fst (s' c)) \<Longrightarrow> shelf_step Gains s s'"
| takes: "(\<And>c. snd (s' c) = snd (s c)) \<Longrightarrow> (\<And>c. snd (s c) \<le> fst (s' c) \<and> fst (s' c) \<le> fst (s c)) \<Longrightarrow>
    shelf_step Takes s s'"
| counts: "(\<And>c. snd (s' c) = snd (s c)) \<Longrightarrow> (\<And>c. snd (s c) \<le> fst (s' c)) \<Longrightarrow> shelf_step Counts s s'"

inductive_simps shelf_step_simps: "shelf_step Rests s s'" "shelf_step Promises s s'" "shelf_step Frees s s'"
  "shelf_step HandsOut s s'" "shelf_step Gains s s'" "shelf_step Takes s s'" "shelf_step Counts s s'"

text \<open>In the abstract machine a promise is covered at every step, by a line of arithmetic.\<close>

definition sound :: "shelf \<Rightarrow> bool" where
  "sound s \<longleftrightarrow> (\<forall>c. 0 \<le> snd (s c) \<and> snd (s c) \<le> fst (s c))"

lemma shelf_step_cell:
  "shelf_step a s s' \<Longrightarrow> 0 \<le> snd (s c) \<and> snd (s c) \<le> fst (s c) \<Longrightarrow> 0 \<le> snd (s' c) \<and> snd (s' c) \<le> fst (s' c)"
proof (induction rule: shelf_step.induct)
  case (promises s' s) show ?case using promises(1,2) [of c] promises(3) by linarith
next
  case (frees s' s) show ?case using frees(1,2) [of c] frees(3) by linarith
next
  case (hands_out s' s) show ?case using hands_out(1,2) [of c] hands_out(3) by linarith
next
  case (gains s' s) show ?case using gains(1,2) [of c] gains(3) by linarith
next
  case (takes s' s) show ?case using takes(1,2) [of c] takes(3) by linarith
next
  case (counts s' s) show ?case using counts(1,2) [of c] counts(3) by linarith
qed

lemma shelf_step_sound: "shelf_step a s s' \<Longrightarrow> sound s \<Longrightarrow> sound s'"
  unfolding sound_def using shelf_step_cell by blast

section \<open>The house as a shelf\<close>

definition shelf_of :: "house \<Rightarrow> shelf" where
  "shelf_of h = (\<lambda>c. (onhand (ho_db h) c, held (ho_db h) c))"

fun stock_deed :: "op \<Rightarrow> deed" where
  "stock_deed (Op_redirectRequest _ _ _ _ _) = Promises"
| "stock_deed (Op_issueTicket _ _ _ _) = Promises"
| "stock_deed (Op_transfer _ _ _ _) = Promises"
| "stock_deed (Op_dispatch _ _ _ _) = Promises"
| "stock_deed (Op_distribute _ _ _ _) = Promises"
| "stock_deed (Op_answerShopAsk _ _ _ _ _) = Promises"
| "stock_deed (Op_handover _ _ _ _) = HandsOut"
| "stock_deed (Op_receive _ _ _) = Gains"
| "stock_deed (Op_makeBatch _ _ _) = Gains"
| "stock_deed (Op_cancelTicket _ _ _ _) = Frees"
| "stock_deed _ = Rests"

fun deed_of :: "hop \<Rightarrow> deed" where
  "deed_of (Op_stock op) = stock_deed op"
| "deed_of (Op_pay _ _ _ _) = Takes"
| "deed_of (Op_capture _ _ _ _) = Takes"
| "deed_of (Op_voidBill _ _ _ _) = Gains"
| "deed_of (Op_receivePo _ _ _ _) = Gains"
| "deed_of (Op_adjust _ _ _) = Counts"
| "deed_of (Op_approveAdjReq _ _ _) = Counts"
| "deed_of _ = Rests"

text \<open>What a call did: its deed where it was served, nothing where it was refused.\<close>

definition did :: "hop \<Rightarrow> error option \<Rightarrow> deed" where
  "did op r = (if r = None then deed_of op else Rests)"

section \<open>Lemmas: the writers of the stock tables\<close>

lemma resv_prims [simp]:
  "db_resv (update_request i f d) = db_resv d" "db_resv (update_pord i g d) = db_resv d"
  "db_resv (update_ask i h d) = db_resv d" "db_resv (appendHistory x b s w at' d) = db_resv d"
  "db_resv (emitChanged ch d) = db_resv d" "db_resv (setRequestStatus i st d) = db_resv d"
  "db_resv (releaseRequest i st d) = db_resv d" "db_resv (follow l st w who at' d) = db_resv d"
  "db_resv (setOrderStatus i pst d) = db_resv d" "db_resv (setLineApprovals i ds d) = db_resv d"
  by (simp_all add: update_request_def update_pord_def update_ask_def appendHistory_def emitChanged_def
      setRequestStatus_def releaseRequest_def follow_def setOrderStatus_def setLineApprovals_def split: option.splits)

definition promise_step :: "db \<Rightarrow> db \<Rightarrow> bool" where
  "promise_step d d' \<longleftrightarrow> db_moves d' = db_moves d \<and> (\<exists>rs. db_resv d' = db_resv d @ rs)"

lemma promise_step_writer:
  assumes "writeTicket draft no d1 = Inr d2" "db_moves d1 = db_moves d" "db_resv d1 = db_resv d"
    "db_moves d' = db_moves d2" "db_resv d' = db_resv d2"
  shows "promise_step d d'"
  using assms(1) by (rule writeTicket_shape) (use assms in \<open>simp add: promise_step_def\<close>)

lemma promise_step_tx:
  "transfer_tx c tb at' rnd d = Inr d' \<Longrightarrow> promise_step d d'"
  "redirect_tx coll c i from at' rnd d = Inr d' \<Longrightarrow> promise_step d d'"
  "issue_tx c i at' rnd d = Inr d' \<Longrightarrow> promise_step d d'"
  "dispatch_tx c i at' rnd d = Inr d' \<Longrightarrow> promise_step d d'"
  "distribute_tx c db at' rnd d = Inr d' \<Longrightarrow> promise_step d d'"
  "answer_tx c i g at' rnd d = Inr d' \<Longrightarrow> promise_step d d'"
  unfolding transfer_tx_def redirect_tx_def issue_tx_def dispatch_tx_def distribute_tx_def answer_tx_def Let_def
  by (auto simp: allocateTicket_ok intro: promise_step_writer)

definition still_step :: "db \<Rightarrow> db \<Rightarrow> bool" where
  "still_step d d' \<longleftrightarrow> db_moves d' = db_moves d \<and> db_resv d' = db_resv d"

lemma still_step_tx:
  "create_tx c rb at' d = Inr d' \<Longrightarrow> still_step d d'"
  "cancelRequest_tx a i at' d = Inr d' \<Longrightarrow> still_step d d'"
  "approve_tx c i ap n at' d = Inr d' \<Longrightarrow> still_step d d'"
  "reject_tx c i n at' d = Inr d' \<Longrightarrow> still_step d d'"
  "raise_tx c ob at' d = Inr d' \<Longrightarrow> still_step d d'"
  "setStatus_tx c i st at' d = Inr d' \<Longrightarrow> still_step d d'"
  "ask_tx c ab at' d = Inr d' \<Longrightarrow> still_step d d'"
  "decline_tx c i n d = Inr d' \<Longrightarrow> still_step d d'"
  by (auto simp: still_step_def create_tx_def cancelRequest_tx_def approve_tx_def reject_tx_def raise_tx_def setStatus_tx_def
        ask_tx_def decline_tx_def Let_def allocateId_ok insertRequest_def insertOrder_def insertAsk_def)

text \<open>In a sound database the shelf is read off the moves and the reservations.\<close>

lemma still_shelf: "inv d \<Longrightarrow> inv d' \<Longrightarrow> still_step d d' \<Longrightarrow> onhand d' c = onhand d c \<and> held d' c = held d c"
  using ledger_cache [of d c] ledger_cache [of d' c]
  by (simp add: inv_def stock_inv_def still_step_def moved_def held_def)

lemma promise_shelf:
  assumes "inv d" "inv d'" "promise_step d d'"
  shows "onhand d' c = onhand d c \<and> held d c \<le> held d' c"
proof -
  obtain rs where rs: "db_moves d' = db_moves d" "db_resv d' = db_resv d @ rs"
    using assms(3) by (auto simp: promise_step_def)
  have "resv_ok d'" "ledger_ok d" "ledger_ok d'" using assms by (auto simp: inv_def stock_inv_def)
  then have "0 \<le> (\<Sum>r\<leftarrow>filter (open_at c) rs. rv_qty r)"
    by (intro sum_list_nonneg) (auto simp: resv_ok_def rs less_imp_le)
  then show ?thesis
    using ledger_cache [of d c] ledger_cache [of d' c] \<open>ledger_ok d\<close> \<open>ledger_ok d'\<close> by (simp add: moved_def held_def rs)
qed

section \<open>Lemmas: each operation does its deed\<close>

lemma inv_parts: "inv d \<Longrightarrow> stock_inv d \<and> ledger_ok d \<and> resv_ok d \<and> covered d"
  by (simp add: inv_def stock_inv_def)

lemma inv_cell: "inv d \<Longrightarrow> 0 \<le> held d c \<and> held d c \<le> onhand d c"
  using held_nonneg coveredD by (blast dest: inv_parts)

lemma hold_of_nonneg: "resv_ok d \<Longrightarrow> 0 \<le> hold_of d i c"
  unfolding hold_of_def by (rule sum_list_nonneg) (auto simp: resv_ok_def less_imp_le)

lemma handover_deed:
  assumes "inv d" "handover c i otp at' d = (None, d')"
  shows "0 \<le> held d' x \<and> held d' x \<le> held d x \<and> onhand d x - onhand d' x = held d x - held d' x"
proof -
  from assms(2) have tx: "handover_tx c i otp at' d = Inr (d', None)"
    by (auto simp: handover_def split: sum.splits option.splits)
  have s: "stock_inv d" using inv_parts [OF assms(1)] by blast
  have "inv d'" using inv_handover_req [OF assms(1) tx] .
  from tx show ?thesis
  proof (rule handover_tx_shape)
    fix t assume t: "ticket_of d i = Some t" "tk_status t = Tkt_Issued" and
      "otp \<noteq> tk_otp t \<and> d' = countWrongOtp i d \<and> None \<noteq> None \<or> otp = tk_otp t \<and> None = None \<and>
       d' = emitChanged [Ch_tkt, Ch_req, Ch_rsv, Ch_stock]
       (follow (linkedRequest d (tk_refId t)) Req_Collected ''Collected'' (userName d (cl_sub c)) at'
         (appendHistory ''ticket'' i ''Handed over'' (userName d (cl_sub c)) at' (hand_out i t (cl_sub c) at' d)))"
    then have "same_stock (hand_out i t (cl_sub c) at' d) d'" by auto
    from same_stock_read [OF this] show ?thesis
      using inv_cell [OF \<open>inv d'\<close>, of x] onhand_hand_out [OF s t(1), of "cl_sub c" at' x] held_hand_out [OF s t(1), of "cl_sub c" at' x]
        total_of_nonneg [OF tickets_okD(1) [OF stock_invD(4) [OF s] t(1)], of "snd x"] t(2)
      by (auto simp: ticket_holds_def)
  qed
qed

lemma receive_deed: "inv d \<Longrightarrow> receive_tx c i at' d = Inr d' \<Longrightarrow> held d' x = held d x \<and> onhand d x \<le> onhand d' x"
proof (erule receive_tx_shape)
  fix t assume inv: "inv d" and t: "ticket_of d i = Some t" and
    d': "d' = emitChanged [Ch_tkt, Ch_req, Ch_stock]
       (follow (linkedRequest d (tk_refId t)) Req_Closed ''Received'' (userName d (cl_sub c)) at'
         (appendHistory ''ticket'' i ''Received'' (userName d (cl_sub c)) at'
           (update_ticket i (\<lambda>t. t\<lparr>tk_status := Tkt_Received, tk_receivedAt := Some at'\<rparr>)
             (postMoves (withUseOnArrival (loadItemTypes d) (in_moves i t (cl_sub c) at')) d))))"
  let ?p = "postMoves (withUseOnArrival (loadItemTypes d) (in_moves i t (cl_sub c) at')) d"
  have ok: "tickets_ok d" using inv stock_invD(4) by (auto dest: inv_parts)
  have "same_stock (update_ticket i (\<lambda>t. t\<lparr>tk_status := Tkt_Received, tk_receivedAt := Some at'\<rparr>) ?p) d'" by (simp add: d')
  from same_stock_read [OF this] show "held d' x = held d x \<and> onhand d x \<le> onhand d' x"
    using onhand_postMoves [OF is3_onhand, of d "withUseOnArrival (loadItemTypes d) (in_moves i t (cl_sub c) at')" x] inv_parts [OF inv]
      use_in_delta [OF tickets_okD(1) [OF ok t], of d i "cl_sub c" at' x] landed_nonneg [OF tickets_okD(1) [OF ok t], of d x]
    by (simp add: held_def)
qed

lemma cancel_deed: "inv d \<Longrightarrow> cancel_tx c i raw at' d = Inr d' \<Longrightarrow> onhand d' x = onhand d x \<and> held d' x \<le> held d x"
proof (erule cancel_tx_shape)
  fix t d2 d3 d4
  let ?v = "snd (voidTicket i (trim raw) (userName d (cl_sub c)) at' d)"
  assume inv: "inv d" and
    p: "put_back_request (if tk_refType t = Ref_request then linkedRequest d (tk_refId t) else None)
       (userName d (cl_sub c)) at' ?v = Inr d2"
    "put_back_order (if tk_refType t = Ref_prod_order then linkedProdOrder d (tk_refId t) else None)
       (userName d (cl_sub c)) at' d2 = Inr d3"
    "put_back_ask (if tk_refType t = Ref_shop_ask then linkedShopAsk d (tk_refId t) else None) d3 = Inr d4"
    and d': "\<exists>ch. d' = emitChanged ch d4"
  have "same_stock ?v d'"
    using d' put_back_stock(1) [OF p(1)] put_back_stock(2) [OF p(2)] put_back_stock(3) [OF p(3)] same_stock_trans
    by (metis same_stock_prims(5))
  moreover have "same_stock (update_ticket i (\<lambda>t. t\<lparr>tk_status := Tkt_Cancelled\<rparr>) (snd (releaseForTicket i at' d))) ?v"
    by (simp add: voidTicket_def split_beta)
  ultimately show "onhand d' x = onhand d x \<and> held d' x \<le> held d x"
    using held_release [of d i at' x] inv_parts [OF inv] same_stock_read
    by (auto simp: is3_hold_of hold_of_nonneg)
qed

lemma batch_deed:
  assumes "inv d" "makeBatch_tx c body at' d = Inr d'"
  shows "held d' x = held d x \<and> onhand d x \<le> onhand d' x"
proof -
  obtain b d1 where w: "writeBatch b d = Inr d1" and d': "same_stock d1 d'"
    using assms(2) by (auto simp: makeBatch_tx_def Let_def)
  from w obtain n r where d1: "d1 = (if 0 < bd_made b then postMoves [yield_move b (formatId K_batch n (bd_at b))]
        (d\<lparr>db_seq := (db_seq d)(K_batch \<mapsto> n + 1)\<rparr>) else d\<lparr>db_seq := (db_seq d)(K_batch \<mapsto> n + 1)\<rparr>)\<lparr>db_batches := r\<rparr>"
    unfolding writeBatch_def Let_def allocateNumber_def
    by (auto simp: insertBatch_ok cong: if_cong split: option.splits)
  let ?d = "d\<lparr>db_seq := (db_seq d)(K_batch \<mapsto> n + 1)\<rparr>" and ?ms = "[yield_move b (formatId K_batch n (bd_at b))]"
  have "held (postMoves ?ms ?d) x = held d x" "onhand d x \<le> onhand (postMoves ?ms ?d) x" if "0 < bd_made b"
    using that onhand_postMoves [OF is3_onhand, of ?d ?ms x] inv_parts [of ?d] assms(1) r3.round_nonneg [of "bd_made b"]
    by (auto simp: held_def yield_move_def)
  then have "held d1 x = held d x \<and> onhand d x \<le> onhand d1 x" by (simp add: d1 held_def onhand_def)
  then show ?thesis using same_stock_read [OF d'] by simp
qed

section \<open>Lemmas: the services of the house\<close>

lemma papers_quiet: "quiet d d' \<Longrightarrow> same_papers d d'"
  by (simp add: quiet_def same_stock_def same_papers_def)

lemma same_papers_trans: "same_papers a b \<Longrightarrow> same_papers b c \<Longrightarrow> same_papers a c"
  by (simp add: same_papers_def)

lemma papers_post: "quiet (postMoves ms d) d' \<Longrightarrow> same_papers d d'"
  using papers_quiet [of "postMoves ms d" d'] by (simp add: same_papers_def)

lemma papers_held: "same_papers d d' \<Longrightarrow> held d' c = held d c"
  by (simp add: same_papers_def held_def)

lemma papers_adjust: "writeAdjustment draft at' h = Inr (i, h') \<Longrightarrow> same_papers (ho_db h) (ho_db h')"
  by (erule adjust_shape, drule papers_post) (simp add: same_papers_def adj_start_def)

lemma papers_adjustment:
  "\<exists>draft i h1. writeAdjustment draft at' h = Inr (i, h1) \<and> quiet (ho_db h1) (ho_db h') \<and> same_money h1 h' \<Longrightarrow>
   same_papers (ho_db h) (ho_db h')"
  using papers_adjust papers_quiet same_papers_trans by blast

lemma papers_pay: "pay_tx c body at' us h = Inr h' \<Longrightarrow> same_papers (ho_db h) (ho_db h')"
  by (rule pay_shape)

lemma papers_qr: "qr_calm h h' \<Longrightarrow> same_papers (ho_db h) (ho_db h')"
  by (rule papers_quiet) (simp add: qr_calm_def)

lemma papers_sale: "postSale i at' us h = Inr ((no, ch), h') \<Longrightarrow> same_papers (ho_db h) (ho_db h')"
  by (rule sale_shape)

lemma papers_capture: "capture_tx i p at' us h = Inr h' \<Longrightarrow> same_papers (ho_db h) (ho_db h')"
proof -
  assume "capture_tx i p at' us h = Inr h'"
  from capture_parts [OF this] show "same_papers (ho_db h) (ho_db h')"
  proof
    assume "\<exists>o' no ch h1. qrOrder_of h i = Some o' \<and> qr_calm h (systemOperator h) \<and>
       postSale (qr_sale_input i o') at' us (systemOperator h) = Inr ((no, ch), h1) \<and> qr_calm h1 h'"
    then obtain o' no ch h1 where c: "qr_calm h (systemOperator h)" "qr_calm h1 h'"
      and s: "postSale (qr_sale_input i o') at' us (systemOperator h) = Inr ((no, ch), h1)" by blast
    then show ?thesis using papers_qr [OF c(1)] papers_sale [OF s] papers_qr [OF c(2)] by (simp add: same_papers_def)
  qed (rule papers_qr)
qed

lemma papers_void: "voidBill_tx c no raw at' h = Inr h' \<Longrightarrow> same_papers (ho_db h) (ho_db h')"
  by (erule void_shape) (rule papers_post)

lemma papers_receive: "receivePo_tx c i body at' h = Inr h' \<Longrightarrow> same_papers (ho_db h) (ho_db h')"
  by (erule receive_shape) (rule papers_post)

lemma receivePo_deed: "inv (ho_db h) \<Longrightarrow> receivePo_tx c i body at' h = Inr h' \<Longrightarrow> onhand (ho_db h) x \<le> onhand (ho_db h') x"
proof (erule receive_shape)
  fix rs assume inv: "inv (ho_db h)" and q: "quiet (postMoves (concat (map (grn_moves (cl_sub c) at') rs)) (ho_db h)) (ho_db h')"
  show "onhand (ho_db h) x \<le> onhand (ho_db h') x"
    using onhand_postMoves [OF is3_onhand, of "ho_db h" "concat (map (grn_moves (cl_sub c) at') rs)" x] inv_parts [OF inv]
      grn_gain [of "cl_sub c" at' rs x] quiet_read(1) [OF q] by simp
qed

lemma void_deed: "hinv h \<Longrightarrow> voidBill_tx c no raw at' h = Inr h' \<Longrightarrow> onhand (ho_db h) x \<le> onhand (ho_db h') x"
  using void_onhand [of h c no raw at' h' x] sold_nonpos [of "ho_db h" no x] by (simp add: hinv_def)

lemma sale_deed:
  assumes "hinv h" "hinv h'" "postSale i at' us h = Inr ((no, ch), h')" "\<And>l. l \<in> set (si_lines i) \<Longrightarrow> 0 \<le> snd l"
  shows "onhand (ho_db h') x \<le> onhand (ho_db h) x"
  using assms(3)
proof (rule sale_shape)
  fix payer
  let ?ms = "sale_moves (sale_plan i h payer) no (si_operator i) at'"
  assume "db_moves (ho_db h') = db_moves (ho_db h) @ posted ?ms"
  then have "onhand (ho_db h') x = onhand (ho_db h) x + delta_of ?ms x"
    by (rule onhand_posted [OF hinv_ledger [OF assms(1)] hinv_ledger [OF assms(2)]])
  moreover have "delta_of ?ms x \<le> 0"
    unfolding posted_delta [symmetric] by (rule sum_list_nonpos) (use sale_out(2) [OF assms(4)] in auto)
  ultimately show ?thesis by simp
qed

lemma pay_deed:
  assumes "hinv h" "pay_tx c body at' us h = Inr h'" "PayBodySchema body"
  shows "onhand (ho_db h') x \<le> onhand (ho_db h) x"
proof -
  obtain no ch h1 where s: "postSale (till_sale c body) at' us h = Inr ((no, ch), h1)" and h': "h' = on_db (emitChanged ch) h1"
    using assms(2) unfolding pay_tx_sale by blast
  have out: "\<And>l. l \<in> set (si_lines (till_sale c body)) \<Longrightarrow> 0 \<le> snd l"
    using pay_lines_positive [OF assms(3)] by (simp add: less_imp_le)
  show ?thesis using sale_deed [OF assms(1) _ s out, of x] sale_hinv [OF assms(1) s out] by (simp add: h' onhand_def emitChanged_def)
qed

lemma capture_deed:
  assumes "hinv h" "capture_tx i p at' us h = Inr h'"
  shows "onhand (ho_db h') x \<le> onhand (ho_db h) x"
proof -
  have still: "onhand (ho_db b) x = onhand (ho_db a) x" if "qr_calm a b" for a b
    using that quiet_read(1) [of "ho_db a" "ho_db b"] by (simp add: qr_calm_def)
  show ?thesis using capture_parts [OF assms(2)]
  proof
    assume "\<exists>o' no ch h1. qrOrder_of h i = Some o' \<and> qr_calm h (systemOperator h) \<and>
       postSale (qr_sale_input i o') at' us (systemOperator h) = Inr ((no, ch), h1) \<and> qr_calm h1 h'"
    then obtain o' no ch h1 where o': "qrOrder_of h i = Some o'" and c: "qr_calm h (systemOperator h)" "qr_calm h1 h'"
      and s: "postSale (qr_sale_input i o') at' us (systemOperator h) = Inr ((no, ch), h1)" by blast
    have out: "\<And>l. l \<in> set (si_lines (qr_sale_input i o')) \<Longrightarrow> 0 \<le> snd l"
      using qr_sale_lines [OF _ o'] assms(1) by (simp add: hinv_def books_def)
    have h0: "hinv (systemOperator h)" by (rule hinv_calm [OF calm_qr [OF c(1)] assms(1)])
    show ?thesis using sale_deed [OF h0 _ s out, of x] sale_hinv [OF h0 s out] still [OF c(1)] still [OF c(2)] by simp
  qed (simp add: still)
qed

section \<open>The house refines the shelf\<close>

abbreviation cells :: "db \<Rightarrow> shelf" where
  "cells d \<equiv> \<lambda>c. (onhand d c, held d c)"

lemma stock_done:
  assumes d: "inv d" and op: "exec coll op d = (None, d')"
  shows "shelf_step (stock_deed op) (cells d) (cells d')"
proof -
  have d': "inv d'" using inv_exec [OF d, of coll op] op by simp
  have still: "shelf_step Rests (cells d) (cells d')" if "still_step d d'"
    using still_shelf [OF d d' that] by (simp add: shelf_step_simps)
  have promise: "shelf_step Promises (cells d) (cells d')" if "promise_step d d'"
    using promise_shelf [OF d d' that] inv_cell [OF d'] by (simp add: shelf_step_simps)
  have out: "shelf_step HandsOut (cells d) (cells d')" if "handover c i otp at' d = (None, d')" for c i otp at'
    using handover_deed [OF d that] by (simp add: shelf_step_simps)
  have gain: "shelf_step Gains (cells d) (cells d')" if "receive_tx c i at' d = Inr d' \<or> makeBatch_tx c body at' d = Inr d'" for c i at' body
    using that receive_deed [OF d] batch_deed [OF d] by (auto simp: shelf_step_simps)
  have free: "shelf_step Frees (cells d) (cells d')" if "cancel_tx c i raw at' d = Inr d'" for c i raw at'
    using cancel_deed [OF d that] inv_cell [OF d'] by (simp add: shelf_step_simps)
  show ?thesis
    using op by - (cases op; simp add: service_defs withTransaction_ok;
      (erule out | erule gain [OF disjI1] | erule gain [OF disjI2] | erule free | rule still, erule still_step_tx | rule promise, erule promise_step_tx))
qed

lemma house_done:
  assumes h: "hinv h" and w: "wire op" and op: "serve coll op h = (None, h')"
  shows "shelf_step (deed_of op) (cells (ho_db h)) (cells (ho_db h'))"
proof -
  have I: "inv (ho_db h)" using h by (simp add: hinv_def)
  have h': "hinv h'" using hinv_serve [OF h w, of coll] op by simp
  then have I': "inv (ho_db h')" by (simp add: hinv_def)
  have rest: "shelf_step Rests (cells (ho_db h)) (cells (ho_db h'))" if "quiet (ho_db h) (ho_db h')"
    using quiet_read [OF that] by (simp add: shelf_step_simps)
  have count: "shelf_step Counts (cells (ho_db h)) (cells (ho_db h'))" if "same_papers (ho_db h) (ho_db h')"
    using papers_held [OF that] inv_cell [OF I'] by (auto simp: shelf_step_simps)
  have gain: "shelf_step Gains (cells (ho_db h)) (cells (ho_db h'))"
    if "same_papers (ho_db h) (ho_db h')" "\<And>x. onhand (ho_db h) x \<le> onhand (ho_db h') x"
    using that papers_held by (simp add: shelf_step_simps)
  have take: "shelf_step Takes (cells (ho_db h)) (cells (ho_db h'))"
    if "same_papers (ho_db h) (ho_db h')" "\<And>x. onhand (ho_db h') x \<le> onhand (ho_db h) x"
    using papers_held [OF that(1)] inv_cell [OF I'] that(2) by (auto simp: shelf_step_simps)
  have qr: "shelf_step Rests (cells (ho_db h)) (cells (ho_db h'))" if "qr_calm h h'"
    using that rest by (simp add: qr_calm_def)
  have stock: "shelf_step (stock_deed sop) (cells (ho_db h)) (cells (ho_db h'))" if "on_stock (exec coll sop) h = (None, h')" for sop
    using that stock_done [OF I, of coll sop "snd (exec coll sop (ho_db h))"] by (auto simp: on_stock_def split_beta prod_eq_iff)
  show ?thesis
    using op w
    by - (cases op; simp add: house_service_defs transact_ok;
      (erule stock | rule take, erule papers_pay, erule (1) pay_deed [OF h] | rule take, erule papers_capture, erule capture_deed [OF h] | rule gain, erule papers_void, erule void_deed [OF h] |
       rule gain, erule papers_receive, erule receivePo_deed [OF I] | rule qr, (erule calm_refunds | erule calm_counter | erule calm_codes | erule (1) calm_place) |
       rule count, erule adjust_writes [THEN papers_adjustment] |
       rule rest, (drule quiet_accounts quiet_corrections quiet_requisitions quiet_draft quiet_line quiet_orders, blast)))
qed

lemma refused_stock_call:
  assumes "exec coll op d = (Some e, d')"
  shows "d' = d \<or> (\<exists>c i otp at' t. op = Op_handover c i otp at' \<and> ticket_of d i = Some t \<and> otp \<noteq> tk_otp t \<and>
     d' = d\<lparr>db_tickets := update_row (db_tickets d) i (\<lambda>t. t\<lparr>tk_attempts := tk_attempts t + 1\<rparr>)\<rparr>)"
proof (cases "\<exists>c i otp at'. op = Op_handover c i otp at'")
  case True
  then obtain c i otp at' where op: "op = Op_handover c i otp at'" by blast
  show ?thesis
  proof (cases "handover_tx c i otp at' d")
    case (Inl e')
    then show ?thesis using assms op by (simp add: handover_def)
  next
    case (Inr p)
    then obtain d1 r where p: "handover_tx c i otp at' d = Inr (d1, r)" by (cases p) simp
    with assms op have d1: "d1 = d'" and "r \<noteq> None" by (auto simp: handover_def split: option.splits)
    with handover_tx_shape [OF p] obtain t where "ticket_of d i = Some t" "otp \<noteq> tk_otp t" "d1 = countWrongOtp i d"
      by metis
    then show ?thesis using op d1 by (auto simp: countWrongOtp_def update_ticket_def)
  qed
next
  case False
  then have "\<exists>f. exec coll op d = withTransaction f d"
    by (cases op) (auto simp: service_defs)
  then show ?thesis using assms withTransaction_err by metis
qed

lemma refused_shape:
  assumes "hexec coll op h = (Some e, h')"
  shows "h' = h \<or> (\<exists>c i otp at' t. op = Op_stock (Op_handover c i otp at') \<and> ticket_of (ho_db h) i = Some t \<and> otp \<noteq> tk_otp t \<and>
     h' = h\<lparr>ho_db := (ho_db h)\<lparr>db_tickets := update_row (db_tickets (ho_db h)) i (\<lambda>t. t\<lparr>tk_attempts := tk_attempts t + 1\<rparr>)\<rparr>\<rparr>)"
proof (cases "\<exists>sop. op = Op_stock sop")
  case True
  then obtain sop d' where op: "op = Op_stock sop" and "exec coll sop (ho_db h) = (Some e, d')" and h': "h' = h\<lparr>ho_db := d'\<rparr>"
    using assms by (auto simp: hexec_def on_stock_def split: prod.splits)
  from refused_stock_call [OF this(2)] show ?thesis unfolding op h' by auto
next
  case False
  then have "wire op \<Longrightarrow> \<exists>f. serve coll op h = transact f h" by (cases op) (auto simp: house_service_defs)
  then have "h' = h" using assms by (cases "wire op") (auto simp: hexec_def intro: transact_err [OF sym])
  then show ?thesis ..
qed

lemma refused_house: "hexec coll op h = (Some e, h') \<Longrightarrow> shelf_of h' = shelf_of h"
  by (drule refused_shape) (auto simp: shelf_of_def onhand_def held_def)

text \<open>A machine that refines the shelf: every call does the deed its name and outcome say.\<close>

locale shelf_machine = guarded_machine ex safe
  for ex :: "'o \<Rightarrow> 'd \<Rightarrow> error option \<times> 'd" and safe :: "'d \<Rightarrow> bool" +
  fixes view :: "'d \<Rightarrow> shelf" and deed :: "'o \<Rightarrow> error option \<Rightarrow> deed"
  assumes does: "safe d \<Longrightarrow> ex op d = (r, d') \<Longrightarrow> shelf_step (deed op r) (view d) (view d')"
begin

lemma step_sound: "safe d \<Longrightarrow> sound (view d) \<Longrightarrow> sound (view (snd (ex op d)))"
  using does [of d op "fst (ex op d)" "snd (ex op d)"] shelf_step_sound by simp

lemma runs_sound: "runs ex d d' \<Longrightarrow> safe d \<Longrightarrow> sound (view d) \<Longrightarrow> sound (view d')"
  by (induction rule: runs.induct) (auto intro: step_sound runs_safe)

end

interpretation house: shelf_machine "hexec coll" hinv shelf_of did for coll
proof
  show "shelf_step (did op r) (shelf_of h) (shelf_of h')" if h: "hinv h" and op: "hexec coll op h = (r, h')" for h op r h'
  proof (cases r)
    case None
    then have "wire op" "serve coll op h = (None, h')" using op by (auto simp: hexec_def split: if_splits)
    from house_done [OF h this] show ?thesis by (simp add: None did_def shelf_of_def)
  next
    case (Some e)
    with refused_house [of coll op h e h'] op show ?thesis by (simp add: did_def shelf_step_simps)
  qed
qed

lemma dayOne_sound: "dayOne h \<Longrightarrow> sound (shelf_of h)"
  using inv_cell inv_opened by (simp add: dayOne_def sound_def shelf_of_def)

text \<open>The tables of the desks are written by the stock services only.\<close>

lemma house_papers: "(\<nexists>sop. op = Op_stock sop) \<Longrightarrow> same_papers (ho_db h) (ho_db (snd (hexec coll op h)))"
proof (rule keeps_route)
  show refl: "same_papers (ho_db h) (ho_db h)" by (simp add: same_papers_def)
  assume "\<nexists>sop. op = Op_stock sop" "wire op"
  then show "same_papers (ho_db h) (ho_db (snd (serve coll op h)))"
    by - (cases op; simp add: house_service_defs;
      (rule keeps_transact, ((erule papers_pay | erule papers_capture | rule papers_qr, (erule calm_refunds | erule calm_counter | erule calm_codes | erule (1) calm_place) | erule papers_void | erule papers_receive | rule adjust_writes [THEN papers_adjustment], assumption |
        (drule quiet_accounts quiet_corrections quiet_requisitions quiet_draft quiet_line quiet_orders, blast intro: papers_quiet)), rule refl)))
qed

text \<open>C2. The house refines the shelf. Whatever the house has been through, a call that is served does to the
  shelves exactly the kind of thing its name says (a sale takes what is free, a ticket promises, a handover
  takes what was promised with its promise, a receipt, a batch or a void only adds, a call-off only frees,
  an adjustment never counts below a promise, everything else rests), and a refused call does nothing.\<close>

theorem house_refines_shelf:
  assumes "dayOne h0" and "runs (hexec coll) h0 h" and "hexec coll op h = (r, h')"
  shows "shelf_step (did op r) (shelf_of h) (shelf_of h')"
  by (rule house.does [OF hinv_reached [OF assms(1,2)] assms(3)])

end
