(* ===== verification/Shop.thy ===== *)
theory Shop
  imports Custody
begin

text \<open>
  A day at a small hospital, to see the properties of the trading house at work: an outlet with a price list,
  one item on its menu, a doctor with a running account, and the bill the account was carried over with.
\<close>

definition carried :: billRow where
  "carried = \<lparr>bi_loc = ''cafe'', bi_operator = ''u2'', bi_total = 200, bi_tax = 0, bi_at = 0, bi_tender = DoctorCredit,
     bi_session = None, bi_payer = Some \<lparr>pr_kind = PDoctor, pr_id = ''D1'', pr_name = ''Dr Rao''\<rparr>, bi_customer = None,
     bi_phone = None, bi_pct = 0, bi_disc = 0, bi_void = None, bi_source = TillSale, bi_qrOrder = None, bi_lines = []\<rparr>"

definition shop_db :: db where
  "shop_db = demo\<lparr>db_locations := [(''store'', demo_loc ''Store'' Store_Type),
       (''cafe'', (demo_loc ''Cafe'' Outlet_Type)\<lparr>loc_list := Some ''L1''\<rparr>)],
     db_menu := (\<lambda>l. if l = ''cafe'' then [''water''] else []),
     db_balances := [(''cafe'', ''water'') \<mapsto> 10], db_moves := [demo_move ''cafe'' ''water'' 10]\<rparr>"

definition shop :: house where
  "shop = \<lparr>ho_db = shop_db, ho_prices = [''L1'' \<mapsto> [''water'' \<mapsto> 20]], ho_bills = [(''carried'', carried)],
     ho_sessions = [], ho_settlements = [], ho_payers = [(PDoctor, ''D1'') \<mapsto> \<lparr>py_name = ''Dr Rao'', py_active = True\<rparr>],
     ho_classTerms = (\<lambda>_. None), ho_payerTerms = [(PDoctor, ''D1'') \<mapsto> (None, Some 500)], ho_adjs = [], ho_adjReqs = [],
     ho_wastage = [], ho_prqs = [], ho_orders = [], ho_grns = [], ho_vendors = (\<lambda>_. None), ho_contracts = [],
     ho_rateChanges = [], ho_qrOrders = [], ho_refunds = [], ho_codes = [], ho_hours = (\<lambda>_. []),
     ho_paused = (\<lambda>_. None), ho_webhooks = []\<rparr>"

lemma is2_numeral: "is2 (numeral n)"
  unfolding is2_iff by (rule exI [of _ "numeral n * 100"]) simp

lemma dayOne_shop: "dayOne shop"
  by (auto simp: dayOne_def opened_def shop_def shop_db_def demo_def ledger_ok_def onhand_def moved_def demo_move_def
      mv_cell_def or0_def sales_ok_def books_def orders_ok_def sale_move_def carried_def is3_numeral is2_numeral split: option.splits)

definition rao :: payerRef where
  "rao = \<lparr>pr_kind = PDoctor, pr_id = ''D1'', pr_name = ''Dr Rao''\<rparr>"

section \<open>Three bottles on the doctor's account\<close>

definition cart :: payBody where
  "cart = \<lparr>yb_loc = ''cafe'', yb_lines = [(''water'', 3)], yb_tender = DoctorCredit, yb_payer = Some rao,
     yb_customer = None, yb_phone = None\<rparr>"

abbreviation sells :: hop where "sells \<equiv> Op_pay (clerk ''cafe'') cart 5 [''s1'']"

definition cart_plan :: billPlan where
  "cart_plan = \<lparr>pl_lines = [\<lparr>bl_it = ''water'', bl_qty = 3, bl_rate = 20\<rparr>], pl_tot = 60, pl_disc = 0, pl_tax = 20/7,
     pl_moves = [\<lparr>sm_loc = ''cafe'', sm_it = ''water'', sm_qty = - 3\<rparr>]\<rparr>"

abbreviation bno :: string where "bno \<equiv> formatId K_bill 1188 5"

definition rung :: house where
  "rung = shop\<lparr>ho_sessions := [(''s1'', \<lparr>se_loc = ''cafe'', se_openedAt = 5, se_openedBy = ''u1'', se_closed = None\<rparr>)]\<rparr>"

definition sold_db :: db where
  "sold_db = shop_db\<lparr>db_seq := (\<lambda>k. Some (SEQUENCE_START k))(K_bill \<mapsto> 1189),
     db_balances := [(''cafe'', ''water'') \<mapsto> 7],
     db_moves := [demo_move ''cafe'' ''water'' 10,
       \<lparr>mv_loc = ''cafe'', mv_it = ''water'', mv_qty = -3, mv_kind = Mk_sale, mv_refType = ''bill'', mv_refId = bno,
        mv_by = Some ''u1'', mv_at = 5, mv_reverses = None\<rparr>]\<rparr>"

definition rung_bill :: billRow where
  "rung_bill = \<lparr>bi_loc = ''cafe'', bi_operator = ''u1'', bi_total = 60, bi_tax = round2 (20/7), bi_at = 5,
     bi_tender = DoctorCredit, bi_session = Some ''s1'', bi_payer = Some rao, bi_customer = None, bi_phone = None,
     bi_pct = 0, bi_disc = 0, bi_void = None, bi_source = TillSale, bi_qrOrder = None,
     bi_lines = [\<lparr>bl_it = ''water'', bl_qty = 3, bl_rate = 20\<rparr>]\<rparr>"

definition sold_house :: house where
  "sold_house = rung\<lparr>ho_db := sold_db\<lparr>db_notices := [[Ch_stock, Ch_bills, Ch_receivables]]\<rparr>,
     ho_bills := [(''carried'', carried), (bno, rung_bill)]\<rparr>"

lemma till_sel: "si_loc (till_sale c b) = yb_loc b" "si_operator (till_sale c b) = cl_sub c"
  "si_lines (till_sale c b) = yb_lines b" "si_tender (till_sale c b) = yb_tender b"
  "si_customer (till_sale c b) = yb_customer b" "si_phone (till_sale c b) = yb_phone b"
  "si_source (till_sale c b) = TillSale" "si_qrOrder (till_sale c b) = None"
  by (simp_all add: till_sale_def)

lemma clerk_sub: "cl_sub (clerk l) = ''u1''"
  by (simp add: clerk_def)

lemma cart_sel: "yb_loc cart = ''cafe''" "yb_lines cart = [(''water'', 3)]" "yb_tender cart = DoctorCredit"
  "yb_payer cart = Some rao" "yb_customer cart = None" "yb_phone cart = None"
  by (simp_all add: cart_def)

lemma cart_ok: "PayBodySchema cart"
  by code_simp

lemma rung_sel: "ho_db rung = shop_db" "ho_bills rung = [(''carried'', carried)]" "sv_loc (sellableAt rung l) = l"
  by (simp_all add: rung_def shop_def sellableAt_def Let_def)

lemma shop_sel: "db_seq shop_db = (\<lambda>k. Some (SEQUENCE_START k))" "lockBalances [(''cafe'', ''water'')] shop_db = shop_db"
  "on_db (lockBalances [(''cafe'', ''water'')]) rung = rung"
  by (simp_all add: shop_db_def lock_present on_db_def rung_def shop_def)

lemma shop_place: "lockLocation (ho_db shop) ''cafe'' = Inr ((demo_loc ''Cafe'' Outlet_Type)\<lparr>loc_list := Some ''L1''\<rparr>)"
  by (simp add: lockLocation_def shop_def shop_db_def)

lemma shop_session: "sessionFor ''cafe'' ''u1'' 5 [''s1''] shop = Inr (''s1'', rung)"
  by (simp add: sessionFor_def openSessionAt_def session_of_def shop_def rung_def)

lemma shop_payer: "sale_payer (till_sale (clerk ''cafe'') cart) rung = Inr (Some rao)"
  by code_simp

lemma shop_plan: "sale_plan (till_sale (clerk ''cafe'') cart) rung (Some rao) = cart_plan"
  by code_simp

lemma shop_sellable: "assertSellable (sellableAt rung ''cafe'') (cartOf [(''water'', 3)]) = None"
  by code_simp

lemma shop_owes: "outstandingFor rung PDoctor ''D1'' = 200"
  by code_simp

lemma shop_terms: "sale_terms rung (Some rao) = (0, Some 500)"
  by code_simp

lemma shop_credit: "credit_refusal rung (Some rao) 60 (Some 500) = None"
  by (simp add: credit_refusal_def rao_def shop_owes breachesCredit_def assertRule_def is2_numeral)

lemma cart_plan_sel: "taken cart_plan = [(''water'', 3)]" "pl_tot cart_plan = 60"
  by code_simp (simp add: cart_plan_def)

lemma shop_free: "sale_free shop_db ''cafe'' [''water''] ''water'' = 10" "sale_free sold_db ''cafe'' [''water''] ''water'' = 7"
  by code_simp+

lemma bno_new: "bno \<noteq> ''carried''"
  by code_simp

lemma shop_bill: "sale_bill (till_sale (clerk ''cafe'') cart) 5 ''s1'' (Some rao) None 0 cart_plan = rung_bill"
  by (simp add: sale_bill_def cart_plan_def rung_bill_def till_sel cart_sel clerk_sub truthy_def is2_numeral)

lemma shop_posts: "postMoves (sale_moves cart_plan bno ''u1'' 5) (shop_db\<lparr>db_seq := (\<lambda>k. Some (SEQUENCE_START k))(K_bill \<mapsto> 1189)\<rparr>) = sold_db"
  by (simp add: postMoves_def cart_plan_def sale_moves_def foldLines_def fold_line_def mv_cell_def lock_present shop_db_def
      add_delta_def sold_db_def)

lemma shop_write: "write_sale (till_sale (clerk ''cafe'') cart) 5 (sellableAt rung ''cafe'') ''s1'' (Some rao) None 0 cart_plan rung
   = Inr (bno, sold_house\<lparr>ho_db := sold_db\<rparr>)"
  by (simp add: write_sale_def try_db_def rung_sel shop_sel allocateId_def allocateNumber_def seq_simps insertBill_def
      shop_bill rung_bill_def insert_row_def bno_new left_refusal_def cart_plan_sel assertRule_def till_sel clerk_sub on_db_def
      sold_house_def shop_posts shop_free)

lemma shop_told: "on_db (emitChanged [Ch_stock, Ch_bills, Ch_receivables]) (sold_house\<lparr>ho_db := sold_db\<rparr>) = sold_house"
  by (simp add: on_db_def emitChanged_def sold_house_def sold_db_def shop_db_def)

lemma shop_pays: "pay_tx (clerk ''cafe'') cart 5 [''s1''] shop = Inr sold_house"
  by (simp add: pay_tx_def postSale_def till_sel clerk_sub cart_sel shop_session shop_payer shop_plan seq_simps sale_phone_def
      assertRule_def shop_sellable shop_credit shop_terms shop_place assertOpen_def demo_loc_def cart_plan_sel rung_sel shop_sel
      cover_refusal_def shop_free shop_write Let_def shop_told)

lemma shop_sells: "hexec demo_coll sells shop = (None, sold_house)"
  using shop_pays cart_ok by (simp add: pay_exec)

definition elder :: claims where
  "elder = (clerk ''cafe'')\<lparr>cl_sub := ''u2''\<rparr>"

abbreviation strikes :: hop where "strikes \<equiv> Op_voidBill elder bno ''wrong table'' 6"

definition struck :: house where "struck = snd (hexec demo_coll strikes sold_house)"

lemma sold_sel: "bill_of sold_house bno = Some rung_bill" "bill_of shop bno = None" "ho_settlements sold_house = []"
  "session_of sold_house ''s1'' = Some \<lparr>se_loc = ''cafe'', se_openedAt = 5, se_openedBy = ''u1'', se_closed = None\<rparr>"
  "db_locations (ho_db sold_house) = db_locations shop_db"
  using bno_new by (simp_all add: bill_of_def session_of_def sold_house_def rung_def shop_def sold_db_def)

lemma same_day: "istDate 5 = istDate 6"
  by code_simp

lemma wire_void: "wire strikes"
  by code_simp

lemma shop_void: "void_refusal elder bno ''wrong table'' 6 rung_bill sold_house = None"
  using same_day by (simp add: void_refusal_def elder_def rung_bill_def assertRule_def liveSettlementOf_def sold_sel lockLocation_def
      shop_db_def assertOpenThen_def demo_loc_def holdSession_def)

lemma shop_strikes: "hexec demo_coll strikes sold_house = (None, struck)"
proof -
  have "trim ''wrong table'' = ''wrong table''" by code_simp
  then have "\<exists>h. voidBill_tx elder bno ''wrong table'' 6 sold_house = Inr h"
    using shop_void by (simp add: voidBill_tx_def sold_sel seq_simps Let_def void_order_def rung_bill_def void_refund_def)
  then show ?thesis using wire_void by (auto simp: hexec_def voidBill_def transact_def struck_def)
qed

theorem sale_effect_witness:
  "onhand (ho_db sold_house) (''cafe'', ''water'') = onhand (ho_db shop) (''cafe'', ''water'') - 3 \<and>
   (\<exists>no b. ho_bills sold_house = ho_bills shop @ [(no, b)] \<and> bi_void b = None)"
proof -
  have "\<not> isMTO (loadMaster (ho_db shop)) ''water''" by code_simp
  then show ?thesis using sale_effect [OF dayOne_shop runs.here shop_sells, of "''cafe''" "''water''"] by (auto simp: cart_sel)
qed

theorem void_gives_back_witness:
  "onhand (ho_db struck) (''cafe'', ''water'') = onhand (ho_db shop) (''cafe'', ''water'') \<and>
   (\<exists>v. bill_of struck bno = Some (rung_bill\<lparr>bi_void := Some v\<rparr>))"
  using void_gives_back [OF dayOne_shop runs.here shop_sells _ _ runs.here shop_strikes, of "(''cafe'', ''water'')"]
  by (simp add: sold_sel)

theorem credit_ceiling_witness: "outstandingFor sold_house PDoctor ''D1'' \<le> 500"
proof -
  have "snd (termsFor shop (PartyOf PDoctor) (Some (PDoctor, ''D1''))) = Some 500" by code_simp
  then show ?thesis using credit_ceiling [OF shop_sells, of PDoctor]
    by (auto simp: cart_sel rao_def payerKindForTender_def)
qed

section \<open>The carried-over bill, paid, and the payment voided\<close>

definition pays_off :: settlementBody where
  "pays_off = \<lparr>sb_payer = (PDoctor, ''D1''), sb_amount = 200, sb_mode = Mode_UPI, sb_note = []\<rparr>"

abbreviation payid :: string where "payid \<equiv> formatId K_settlement (SEQUENCE_START K_settlement) 5"

definition paid :: house where "paid = snd (hexec demo_coll (Op_settle (clerk ''cafe'') pays_off 5) shop)"
definition unpaid :: house where "unpaid = snd (hexec demo_coll (Op_voidSettlement elder payid ''bounced'' 6) paid)"

lemma shop_open: "openBillsFor demo_coll shop PDoctor ''D1'' = [(''carried'', 0, 200)]"
  by code_simp

lemma shop_plan_of: "settlement_plan demo_coll shop (PDoctor, ''D1'') 200 = ([(''carried'', 200)], 0)"
  by code_simp

lemma shop_owed: "outstandingFor shop PDoctor ''D1'' = 200"
  by code_simp

lemma shop_fields: "ho_payers shop (PDoctor, ''D1'') = Some \<lparr>py_name = ''Dr Rao'', py_active = True\<rparr>"
  "ho_settlements shop = []" "db_seq (ho_db shop) = (\<lambda>k. Some (SEQUENCE_START k))"
  by (simp_all add: shop_def shop_db_def)

definition settlement_row :: settlementRow where
  "settlement_row = \<lparr>sl_kind = PDoctor, sl_payer = ''D1'', sl_name = ''Dr Rao'',
     sl_amount = 200, sl_mode = Mode_UPI, sl_note = trim [], sl_at = 5, sl_by = ''u1'', sl_void = None, sl_lines = [(''carried'', 200)]\<rparr>"

lemma shop_settles: "\<exists>d. record_tx demo_coll (clerk ''cafe'') pays_off 5 shop = Inr (shop\<lparr>ho_settlements := [(payid, settlement_row)], ho_db := d\<rparr>)"
  by (simp add: record_tx_def pays_off_def shop_owed shop_plan_of seq_simps assertRule_def try_db_def allocateId_def
      allocateNumber_def insertSettlement_def insert_row_def shop_fields Let_def is2_numeral clerk_sub on_db_def settlement_row_def) (rule exI, rule refl)

lemma paid_sel: "hexec demo_coll (Op_settle (clerk ''cafe'') pays_off 5) shop = (None, paid)" "ho_settlements paid = [(payid, settlement_row)]"
proof -
  have "wire (Op_settle (clerk ''cafe'') pays_off 5)" by code_simp
  then show "hexec demo_coll (Op_settle (clerk ''cafe'') pays_off 5) shop = (None, paid)" "ho_settlements paid = [(payid, settlement_row)]"
    using shop_settles by (auto simp: hexec_def recordSettlement_def transact_def paid_def)
qed

lemma paid_voids: "hexec demo_coll (Op_voidSettlement elder payid ''bounced'' 6) paid = (None, unpaid)"
proof -
  have "wire (Op_voidSettlement elder payid ''bounced'' 6)" "trim ''bounced'' \<noteq> []" by code_simp+
  then have "\<exists>h. voidSettlement_tx elder payid ''bounced'' 6 paid = Inr h"
    using same_day by (simp add: voidSettlement_tx_def paid_sel settlement_row_def seq_simps assertRule_def)
  then show ?thesis using \<open>wire (Op_voidSettlement elder payid ''bounced'' 6)\<close> by (auto simp: hexec_def voidSettlement_def transact_def unpaid_def)
qed

theorem payment_effect_witness:
  "outstandingFor paid PDoctor ''D1'' = 0 \<and> (\<exists>j row. ho_settlements paid = ho_settlements shop @ [(j, row)])"
  using payment_effect [OF paid_sel(1), of PDoctor "''D1''"] by (auto simp: pays_off_def shop_owed is2_numeral)

theorem voided_payment_cannot_be_retaken_witness:
  "outstandingFor unpaid PDoctor ''D1'' = 200 \<and>
   (\<exists>e. hexec demo_coll (Op_settle (clerk ''cafe'') pays_off 7) unpaid = (Some e, unpaid))"
proof -
  have "open_total demo_coll shop (PDoctor, ''D1'') = 200" by (simp add: open_total_def shop_open)
  then show ?thesis
    using voided_payment_cannot_be_retaken [OF dayOne_shop runs.here paid_sel(1) _ _ paid_voids, of pays_off "clerk ''cafe''" 7]
    by (simp add: pays_off_def is2_numeral shop_owed shop_fields)
qed

section \<open>The register closed\<close>

definition tally :: closeBody where
  "tally = \<lparr>cb_loc = ''cafe'', cb_counted = None, cb_note = []\<rparr>"

definition shut :: house where "shut = snd (hexec demo_coll (Op_closeRegister elder tally 9) sold_house)"

lemma shop_shuts: "hexec demo_coll (Op_closeRegister elder tally 9) sold_house = (None, shut)"
proof -
  have "wire (Op_closeRegister elder tally 9)" by code_simp
  moreover have "\<exists>h. closeRegister_tx elder tally 9 sold_house = Inr h"
    by (simp add: closeRegister_tx_def tally_def lockLocation_def sold_sel shop_db_def seq_simps takeOpenSession_def sold_house_def
        rung_def try_db_def allocateId_def allocateNumber_def sold_db_def)
  ultimately show ?thesis by (auto simp: hexec_def closeRegister_def transact_def shut_def)
qed

theorem z_stands_witness:
  "\<exists>s z. session_of (snd (hexec demo_coll strikes shut)) ''s1'' = Some s \<and> se_closed s = Some z"
proof -
  have "runs (hexec demo_coll) shop sold_house" using runs.call [OF runs.here, of "hexec demo_coll" shop sells] by (simp add: shop_sells)
  from z_stands [OF dayOne_shop this shop_shuts runs.call [OF runs.here, of _ _ strikes]]
  show ?thesis by (auto simp: tally_def openSessionAt_def sold_house_def rung_def)
qed

theorem house_refines_shelf_witness:
  "shelf_step Takes (shelf_of shop) (shelf_of sold_house) \<and> snd (shelf_of sold_house (''cafe'', ''water'')) \<le> 7"
proof -
  have seven: "fst (shelf_of sold_house (''cafe'', ''water'')) = 7"
    by (simp add: shelf_of_def sold_house_def sold_db_def onhand_def)
  have "shelf_step (did sells None) (shelf_of shop) (shelf_of sold_house)"
    by (rule house_refines_shelf [OF dayOne_shop runs.here shop_sells])
  then have "shelf_step Takes (shelf_of shop) (shelf_of sold_house)" by (simp add: did_def)
  moreover from this have "snd (shelf_of sold_house (''cafe'', ''water'')) = snd (shelf_of shop (''cafe'', ''water''))"
    and "snd (shelf_of shop (''cafe'', ''water'')) \<le> fst (shelf_of sold_house (''cafe'', ''water''))"
    unfolding shelf_step_simps by blast+
  ultimately show ?thesis using seven by simp
qed

end
