(* ===== verification/Movement.thy ===== *)
theory Movement
  imports Shop
begin

text \<open>
  The movement of stock, end to end: what holds of every database the services can reach from an opened
  one, and what each ticket operation does there.
\<close>

interpretation any: guarded_machine "hexec coll" "\<lambda>_. True" for coll
  by unfold_locales simp_all

text \<open>A house with the tables of the stock demonstration in it.\<close>

definition at_demo :: "db \<Rightarrow> house" where
  "at_demo d = shop\<lparr>ho_bills := [], ho_db := d\<rparr>"

lemma at_demo_db [simp]: "ho_db (at_demo d) = d"
  by (simp add: at_demo_def)

lemma dayOne_demo: "dayOne (at_demo demo)"
  using opened_demo by (simp add: dayOne_def at_demo_def sales_ok_def books_def orders_ok_def shop_def demo_def demo_move_def sale_move_def)

lemma at_demo_runs: "runs (exec coll) demo d \<Longrightarrow> runs (hexec coll) (at_demo demo) (at_demo d)"
  using runs_stock [of coll demo d "at_demo demo"] by (simp add: at_demo_def)

lemmas demo_house = at_demo_runs [OF demo_reached(3)] at_demo_runs [OF demo_reached(4)]

lemma desk_exec:
  "ticket_step (ho_db h) (ho_db (snd (hexec coll op h)))" "request_step (ho_db h) (ho_db (snd (hexec coll op h)))"
proof -
  have "ticket_step (ho_db h) (ho_db (snd (hexec coll op h))) \<and> request_step (ho_db h) (ho_db (snd (hexec coll op h)))"
  proof (cases "\<exists>sop. op = Op_stock sop")
    case True
    then show ?thesis by (auto simp: hexec_def on_stock_def split_beta ticket_step_exec request_step_exec)
  next
    case False
    with house_papers [of op h coll] show ?thesis
      by (simp add: same_papers_def ticket_step_same request_step_same)
  qed
  then show "ticket_step (ho_db h) (ho_db (snd (hexec coll op h)))" "request_step (ho_db h) (ho_db (snd (hexec coll op h)))" by blast+
qed

lemma runs_tickets: "runs (hexec coll) h h' \<Longrightarrow> ticket_step (ho_db h) (ho_db h')"
  by (rule any.runs_relates [where rel = "\<lambda>h h'. ticket_step (ho_db h) (ho_db h')"])
    (auto intro: ticket_step_refl ticket_step_trans desk_exec)

lemma runs_requests: "runs (hexec coll) h h' \<Longrightarrow> request_step (ho_db h) (ho_db h')"
  by (rule any.runs_relates [where rel = "\<lambda>h h'. request_step (ho_db h) (ho_db h')"])
    (auto intro: request_step_refl request_step_trans desk_exec)

lemma stock_reached: "dayOne h0 \<Longrightarrow> runs (hexec coll) h0 h \<Longrightarrow> stock_inv (ho_db h)"
  using hinv_reached by (simp add: hinv_def inv_def)

lemmas reached = stock_invD [OF stock_reached]

section \<open>What holds in every state the services reach\<close>

text \<open>C1. Nothing is promised that is not there: whatever calls were made since the books were opened,
  in whatever order and with whatever arguments, what tickets hold of an item at a location is never
  more than the ledger shows there, and the ledger never shows less than nothing.\<close>

theorem never_oversold:
  assumes "dayOne h0" and "runs (hexec coll) h0 h"
  shows "0 \<le> held (ho_db h) c \<and> held (ho_db h) c \<le> onhand (ho_db h) c \<and> 0 \<le> onhand (ho_db h) c"
proof -
  have "sound (shelf_of h)"
    by (rule house.runs_sound [OF assms(2) _ dayOne_sound [OF assms(1)]]) (use hinv_reached [OF assms(1) runs.here] in simp)
  then show ?thesis unfolding sound_def shelf_of_def by (metis fst_conv snd_conv order_trans)
qed

theorem never_oversold_witness:
  "held demo3 (''store'', ''water'') = 3 \<and> held demo3 (''store'', ''water'') \<le> onhand demo3 (''store'', ''water'')"
  using never_oversold [OF dayOne_demo demo_house(1), of "(''store'', ''water'')"]
  by (simp add: held_def open_at_def rv_cell_def)

text \<open>C5. The books balance: in every reachable state the cached balance of a cell is the sum of the
  moves posted to it, so recomputing the cache from the ledger changes no figure.\<close>

theorem books_balance:
  assumes "dayOne h0" and "runs (hexec coll) h0 h"
  shows "onhand (ho_db h) c = moved (ho_db h) c \<and> onhand (rebuildBalances (ho_db h)) c = onhand (ho_db h) c"
  using ledger_cache [OF reached(1) [OF assms]] rebuild_noop [OF reached(1) [OF assms]] by blast

theorem books_balance_witness:
  "onhand demo4 (''store'', ''water'') = 7 \<and> moved demo4 (''store'', ''water'') = 7"
  using books_balance [OF dayOne_demo demo_house(2), of "(''store'', ''water'')"]
  by (simp add: onhand_def)

text \<open>C19. A ticket holds its own lines, at the location it is issued from, exactly while it is issued: a
  ticket that was collected, received or cancelled holds nothing.\<close>

theorem ticket_holds_its_lines:
  assumes "dayOne h0" and "runs (hexec coll) h0 h" and "ticket_of (ho_db h) i = Some t"
  shows "hold_of (ho_db h) i (loc, it) =
    (if tk_status t = Tkt_Issued \<and> loc = tk_from t then total_of it (tk_lines t) else 0)"
  using tickets_okD(3) [OF reached(4) [OF assms(1,2)] assms(3), of "(loc, it)"] by (simp add: ticket_holds_def)

theorem ticket_holds_its_lines_witness:
  "hold_of demo3 tid (''store'', ''water'') = 3 \<and> hold_of demo4 tid (''store'', ''water'') = 0"
  using ticket_holds_its_lines [OF dayOne_demo demo_house(1), of tid _ "''store''" "''water''"]
    ticket_holds_its_lines [OF dayOne_demo demo_house(2), of tid _ "''store''" "''water''"]
  by (simp add: ticket_of_def)

section \<open>The hatch\<close>

lemma collect_covered:
  assumes inv: "stock_inv d" and t: "ticket_of d i = Some t" "tk_status t = Tkt_Issued"
  shows "find (\<lambda>l. \<not> 0 \<le> or0 (balancesAt (postMoves (out_moves i t b at') d) (tk_from t) (map fst (tk_lines t)) (fst l)))
           (tk_lines t) = None"
proof -
  have "0 \<le> onhand (postMoves (out_moves i t b at') d) (tk_from t, it)" for it
    using inv_onhand_nonneg [OF inv_hand_out [OF inv t], of b at' "(tk_from t, it)"]
    by (simp add: hand_out_def)
  then show ?thesis by (auto simp: find_None_iff balancesAt_def onhand_def)
qed

lemma handover_right_otp:
  assumes inv: "stock_inv d" and t: "ticket_of d i = Some t" "tk_status t = Tkt_Issued" "tk_attempts t < 5"
    and loc: "cl_loc c = tk_from t"
  shows "\<exists>d'. handover c i (tk_otp t) at' d = (None, d')"
proof -
  have "\<exists>d'. handover_tx c i (tk_otp t) at' d = Inr (d', None)"
    using t loc collect_covered [OF inv t(1,2)]
    by (simp add: handover_tx_def Let_def OTP_ATTEMPTS_def otpMatches_def)
  then show ?thesis by (auto simp: handover_def)
qed

text \<open>C20. A promise is kept: in every reachable state, a ticket that is issued and not locked is handed
  over by the location it is issued from as soon as the collector reads out its digits. The check
  after the moves (\<open>no longer has it\<close>) never fires, because the hold was covered all along.\<close>

theorem issued_ticket_collectable:
  assumes "dayOne h0" and "runs (hexec coll) h0 h" and "ticket_of (ho_db h) i = Some t"
    and "tk_status t = Tkt_Issued" and "tk_attempts t < 5" and "cl_loc c = tk_from t"
  shows "\<exists>d'. handover c i (tk_otp t) at' (ho_db h) = (None, d')"
  by (rule handover_right_otp [OF stock_reached [OF assms(1,2)] assms(3-6)])

theorem issued_ticket_collectable_witness: "\<exists>d'. handover (clerk ''store'') tid ''123456'' 9 demo3 = (None, d')"
  using issued_ticket_collectable [OF dayOne_demo demo_house(1), of tid "demo_ticket Ref_request ''store'' 3 Tkt_Issued"
    "clerk ''store''" 9]
  by (simp add: ticket_of_def clerk_def)

text \<open>C22. Guessing the digits: a wrong code is refused, writes nothing but one more attempt on that
  ticket, and after five of them every code is refused, the right one included, and nothing is written.\<close>

theorem wrong_otp:
  assumes "ticket_of d i = Some t" and "tk_status t = Tkt_Issued" and "cl_loc c = tk_from t"
    and "otp \<noteq> tk_otp t \<or> 5 \<le> tk_attempts t"
  shows "handover c i otp at' d =
    (if 5 \<le> tk_attempts t
     then (Some (RuleError (i @ '' is locked after five wrong codes - cancel it and issue a new one, with fresh digits'')), d)
     else (Some (RuleError (''That OTP does not match '' @ i @ ''. Ask the collector to read it again.'')),
           d\<lparr>db_tickets := update_row (db_tickets d) i (\<lambda>t. t\<lparr>tk_attempts := tk_attempts t + 1\<rparr>)\<rparr>))"
  using assms
  by (auto simp: handover_def handover_tx_def Let_def seq_simps OTP_ATTEMPTS_def otpMatches_def countWrongOtp_def
      update_ticket_def requireLocOf_def assertTransition_def assertRule_def lockedMessage_def)

theorem wrong_otp_witness:
  "fst (handover (clerk ''store'') tid ''000000'' 1 demo3) \<noteq> None \<and>
   db_resv (snd (handover (clerk ''store'') tid ''000000'' 1 demo3)) = db_resv demo3"
  using wrong_otp [of demo3 tid "demo_ticket Ref_request ''store'' 3 Tkt_Issued" "clerk ''store''" "''000000''" 1]
  by (simp add: ticket_of_def clerk_def)

lemma handover_ok_shape:
  assumes "handover c i otp at' d = (None, d')"
  obtains t where "ticket_of d i = Some t" "tk_status t = Tkt_Issued" "cl_loc c = tk_from t" "otp = tk_otp t"
    "same_stock (hand_out i t (cl_sub c) at' d) d'"
proof -
  from assms have tx: "handover_tx c i otp at' d = Inr (d', None)"
    by (auto simp: handover_def split: sum.splits option.splits)
  show ?thesis
  proof (rule handover_tx_shape [OF tx])
    fix t assume t: "ticket_of d i = Some t" "cl_loc c = tk_from t" "tk_status t = Tkt_Issued"
      and d': "otp \<noteq> tk_otp t \<and> d' = countWrongOtp i d \<and> None \<noteq> None \<or>
        otp = tk_otp t \<and> None = None \<and>
        d' = emitChanged [Ch_tkt, Ch_req, Ch_rsv, Ch_stock]
          (follow (linkedRequest d (tk_refId t)) Req_Collected ''Collected'' (userName d (cl_sub c)) at'
            (appendHistory ''ticket'' i ''Handed over'' (userName d (cl_sub c)) at'
              (hand_out i t (cl_sub c) at' d)))"
    show ?thesis by (rule that [OF t(1,3,2)]) (use d' in auto)
  qed
qed

text \<open>C21. What a handover does: it succeeds only with the ticket's own digits, from an issued ticket, at
  the issuing location; the ticket is then collected, its lines have left that location's balance,
  and its hold has left with them, in one step.\<close>

theorem handover_effect:
  assumes "dayOne h0" and "runs (hexec coll) h0 h" and "handover c i otp at' (ho_db h) = (None, d')"
  shows "\<exists>t. ticket_of (ho_db h) i = Some t \<and> tk_status t = Tkt_Issued \<and> otp = tk_otp t \<and> cl_loc c = tk_from t \<and>
    ticket_of d' i = Some (t\<lparr>tk_status := Tkt_Collected, tk_collectedAt := Some at'\<rparr>) \<and>
    (\<forall>loc it. let out = (if loc = tk_from t then total_of it (tk_lines t) else 0) in
       onhand d' (loc, it) = onhand (ho_db h) (loc, it) - out \<and> held d' (loc, it) = held (ho_db h) (loc, it) - out)"
proof (rule handover_ok_shape [OF assms(3)])
  fix t assume t: "ticket_of (ho_db h) i = Some t" "tk_status t = Tkt_Issued" "cl_loc c = tk_from t" "otp = tk_otp t"
    and s: "same_stock (hand_out i t (cl_sub c) at' (ho_db h)) d'"
  note inv = stock_reached [OF assms(1,2)]
  have "ticket_of d' i = ticket_of (hand_out i t (cl_sub c) at' (ho_db h)) i" using s by (simp add: same_stock_def ticket_of_def)
  then have "ticket_of d' i = Some (t\<lparr>tk_status := Tkt_Collected, tk_collectedAt := Some at'\<rparr>)"
    by (simp add: hand_out_def ticket_of_update t)
  with t same_stock_read [OF s] show ?thesis
    by (simp add: Let_def onhand_hand_out [OF inv t(1)] held_hand_out [OF inv t(1)] ticket_holds_def)
qed

theorem handover_effect_witness:
  "onhand demo4 (''store'', ''water'') = 7 \<and> held demo4 (''store'', ''water'') = 0"
  using handover_effect [OF dayOne_demo demo_house(1), of "clerk ''store''" tid "''123456''" 1 demo4] demo_hands_over
  by (auto simp: Let_def ticket_of_def onhand_def held_def open_at_def rv_cell_def)

text \<open>C23. What a receipt does: only the location the ticket is coming to can sign for a collected ticket.
  Its lines land there, except that raw materials and packaging landing at the kitchen are used up as
  they arrive and leave the kitchen's balance where it was; no hold changes.\<close>

theorem receive_effect:
  assumes "dayOne h0" and "runs (hexec coll) h0 h" and "receive' c i at' (ho_db h) = (None, d')"
  shows "\<exists>t. ticket_of (ho_db h) i = Some t \<and> tk_status t = Tkt_Collected \<and> cl_loc c = tk_to t \<and>
    ticket_of d' i = Some (t\<lparr>tk_status := Tkt_Received, tk_receivedAt := Some at'\<rparr>) \<and>
    (\<forall>loc it. held d' (loc, it) = held (ho_db h) (loc, it) \<and> onhand d' (loc, it) = onhand (ho_db h) (loc, it) +
       (if loc = tk_to t \<and> \<not> (\<exists>ty. loadItemTypes (ho_db h) it = Some ty \<and> usedOnArrival ty loc)
        then total_of it (tk_lines t) else 0))"
proof -
  from assms(3) have tx: "receive_tx c i at' (ho_db h) = Inr d'" by (simp add: receive'_def withTransaction_ok)
  note I = reached [OF assms(1,2)]
  show ?thesis
  proof (rule receive_tx_shape [OF tx])
    fix t assume t: "ticket_of (ho_db h) i = Some t" "cl_loc c = tk_to t" "tk_status t = Tkt_Collected"
    let ?p = "postMoves (withUseOnArrival (loadItemTypes (ho_db h)) (in_moves i t (cl_sub c) at')) (ho_db h)"
    let ?u = "update_ticket i (\<lambda>t. t\<lparr>tk_status := Tkt_Received, tk_receivedAt := Some at'\<rparr>) ?p"
    assume d': "d' = emitChanged [Ch_tkt, Ch_req, Ch_stock]
       (follow (linkedRequest (ho_db h) (tk_refId t)) Req_Closed ''Received'' (userName (ho_db h) (cl_sub c)) at'
         (appendHistory ''ticket'' i ''Received'' (userName (ho_db h) (cl_sub c)) at' ?u))"
    have s: "same_stock ?u d'" by (simp add: d')
    have "ticket_of d' i = ticket_of ?u i" using s by (simp add: same_stock_def ticket_of_def)
    then have "ticket_of d' i = Some (t\<lparr>tk_status := Tkt_Received, tk_receivedAt := Some at'\<rparr>)"
      by (simp add: ticket_of_update t)
    moreover have "onhand d' x = onhand (ho_db h) x + landed (ho_db h) t x \<and> held d' x = held (ho_db h) x" for x
      using same_stock_read [OF s] onhand_postMoves [OF is3_onhand [OF I(1)], of _ x]
        use_in_delta [OF tickets_okD(1) [OF I(4) t(1)], of "ho_db h" i "cl_sub c" at' x]
      by (simp add: held_def)
    ultimately show ?thesis using t by (auto simp: landed_def)
  qed
qed

theorem receive_effect_witness:
  "onhand (snd (receive' (clerk ''cafe'') tid 2 demo4)) (''cafe'', ''water'') = 3"
  using receive_effect [OF dayOne_demo demo_house(2), of "clerk ''cafe''" tid 2 "snd (receive' (clerk ''cafe'') tid 2 demo4)"]
    demo_receives
  by (cases "receive' (clerk ''cafe'') tid 2 demo4")
    (auto simp: ticket_of_def loadItemTypes_def usedOnArrival_def onhand_def demo_item_def place_defs)

section \<open>Calling a ticket off\<close>

lemma cancel_row:
  assumes "cancel_tx c i raw at' d = Inr d'" "ticket_of d i = Some t"
  shows "ticket_of d' i = Some (t\<lparr>tk_status := Tkt_Cancelled\<rparr>) \<and> db_resv d' = db_resv (snd (releaseForTicket i at' d)) \<and>
    db_balances d' = db_balances d \<and> db_moves d' = db_moves d"
proof (rule cancel_tx_shape [OF assms(1)])
  fix t' d2 d3 d4
  let ?v = "snd (voidTicket i (trim raw) (userName d (cl_sub c)) at' d)"
  assume p: "put_back_request (if tk_refType t' = Ref_request then linkedRequest d (tk_refId t') else None)
       (userName d (cl_sub c)) at' ?v = Inr d2"
    "put_back_order (if tk_refType t' = Ref_prod_order then linkedProdOrder d (tk_refId t') else None)
       (userName d (cl_sub c)) at' d2 = Inr d3"
    "put_back_ask (if tk_refType t' = Ref_shop_ask then linkedShopAsk d (tk_refId t') else None) d3 = Inr d4"
    and d': "\<exists>ch. d' = emitChanged ch d4"
  have s: "same_stock ?v d'"
    using d' put_back_stock(1) [OF p(1)] put_back_stock(2) [OF p(2)] put_back_stock(3) [OF p(3)] same_stock_trans
    by (metis same_stock_prims(5))
  let ?r = "snd (releaseForTicket i at' d)"
  have v: "same_stock (update_ticket i (\<lambda>t. t\<lparr>tk_status := Tkt_Cancelled\<rparr>) ?r) ?v"
    by (simp add: voidTicket_def split_beta)
  have "ticket_of d' i = map_option (\<lambda>t. t\<lparr>tk_status := Tkt_Cancelled\<rparr>) (ticket_of ?r i)"
    using same_stock_trans [OF v s] by (simp add: same_stock_def ticket_of_def update_ticket_def)
  then have "ticket_of d' i = Some (t\<lparr>tk_status := Tkt_Cancelled\<rparr>)" using assms(2) by simp
  then show ?thesis
    using same_stock_trans [OF v s] by (simp add: same_stock_def update_ticket_def releaseForTicket_def)
qed

lemma request_of_prims [simp]:
  "request_of (appendHistory x b s w at' d) = request_of d" "request_of (emitChanged ch d) = request_of d"
  by (simp_all add: request_of_def fun_eq_iff)

lemma cancel_request_back:
  assumes "cancel_tx c i raw at' d = Inr d'" "ticket_of d i = Some t" "tk_refType t = Ref_request"
    and "tk_refId t \<notin> set NO_DOCUMENT" "request_of d (tk_refId t) = Some r"
  shows "rq_status r = Req_TicketIssued \<and> request_of d' (tk_refId t) =
     Some (r\<lparr>rq_status := approvedStatus (map (\<lambda>l. (ql_qty l, ql_appr l)) (rq_lines r)), rq_ticket := None\<rparr>)"
proof (rule cancel_tx_shape [OF assms(1)])
  fix t' d2 d3 d4
  let ?v = "snd (voidTicket i (trim raw) (userName d (cl_sub c)) at' d)"
  assume "ticket_of d i = Some t'" and
    p: "put_back_request (if tk_refType t' = Ref_request then linkedRequest d (tk_refId t') else None)
       (userName d (cl_sub c)) at' ?v = Inr d2"
    "put_back_order (if tk_refType t' = Ref_prod_order then linkedProdOrder d (tk_refId t') else None)
       (userName d (cl_sub c)) at' d2 = Inr d3"
    "put_back_ask (if tk_refType t' = Ref_shop_ask then linkedShopAsk d (tk_refId t') else None) d3 = Inr d4"
    and d': "\<exists>ch. d' = emitChanged ch d4"
  then have t: "t' = t" using assms(2) by simp
  have v: "request_of ?v (tk_refId t) = Some r"
    using assms(5) voidTicket_requests [of i "trim raw" _ at' d] by (simp add: request_of_def)
  have l: "linkedRequest d (tk_refId t) = Some (tk_refId t, rq_status r)"
    using assms(4,5) by (simp add: linkedRequest_def)
  have "request_of d' (tk_refId t) = request_of d2 (tk_refId t)"
    using p(2,3) d' put_back_requests_kept by (auto simp: request_of_def)
  then show ?thesis
    using p(1) v l assms(3) by (auto simp: t put_back_request_def Let_def releaseRequest_def request_of_update)
qed

lemma cancel_keeps_requests:
  assumes "cancel_tx c i raw at' d = Inr d'" "ticket_of d i = Some t" "tk_refType t \<noteq> Ref_request"
  shows "db_requests d' = db_requests d"
proof (rule cancel_tx_shape [OF assms(1)])
  fix t' d2 d3 d4
  let ?v = "snd (voidTicket i (trim raw) (userName d (cl_sub c)) at' d)"
  assume "ticket_of d i = Some t'" and
    p: "put_back_request (if tk_refType t' = Ref_request then linkedRequest d (tk_refId t') else None)
       (userName d (cl_sub c)) at' ?v = Inr d2"
    "put_back_order (if tk_refType t' = Ref_prod_order then linkedProdOrder d (tk_refId t') else None)
       (userName d (cl_sub c)) at' d2 = Inr d3"
    "put_back_ask (if tk_refType t' = Ref_shop_ask then linkedShopAsk d (tk_refId t') else None) d3 = Inr d4"
    and d': "\<exists>ch. d' = emitChanged ch d4"
  then have "d2 = ?v" using assms(2,3) by (simp add: put_back_request_def)
  moreover have "db_requests d' = db_requests d2" using p(2,3) d' put_back_requests_kept by auto
  ultimately show ?thesis by (simp add: voidTicket_requests)
qed

text \<open>C24. What calling a ticket off does. Any ticket that is called off was issued and is now cancelled, holds nothing
  at any shelf, and no balance and no move has changed. A request it was issued for is free to be issued again, with
  the lines it was approved with: approved if every line had been granted in full, partially approved if some line
  had not. A ticket of any other kind touches no request.\<close>

theorem cancel_effect:
  assumes "dayOne h0" and "runs (hexec coll) h0 h" and "cancel c i why at' (ho_db h) = (None, d')"
    and "ticket_of (ho_db h) i = Some t"
  shows "tk_status t = Tkt_Issued \<and> ticket_of d' i = Some (t\<lparr>tk_status := Tkt_Cancelled\<rparr>) \<and>
    (\<forall>x. hold_of d' i x = 0 \<and> onhand d' x = onhand (ho_db h) x \<and> moved d' x = moved (ho_db h) x) \<and>
    (\<forall>r. tk_refType t = Ref_request \<and> tk_refId t \<notin> set NO_DOCUMENT \<and> request_of (ho_db h) (tk_refId t) = Some r \<longrightarrow>
       request_of d' (tk_refId t) = Some (r\<lparr>rq_ticket := None, rq_status :=
         (if \<forall>l \<in> set (rq_lines r). ql_appr l = ql_qty l then Req_ManagerApproved else Req_PartiallyApproved)\<rparr>)) \<and>
    (tk_refType t \<noteq> Ref_request \<longrightarrow> db_requests d' = db_requests (ho_db h))"
proof -
  from assms(3) have tx: "cancel_tx c i why at' (ho_db h) = Inr d'" by (simp add: cancel_def withTransaction_ok)
  have st: "tk_status t = Tkt_Issued" using cancel_tx_shape [OF tx] assms(4) by (metis option.inject)
  note row = cancel_row [OF tx assms(4)]
  have "stock_inv d'" by (rule inv_cancel_tx [OF stock_reached [OF assms(1,2)] tx])
  then have "hold_of d' i x = 0" for x
    using tickets_okD(3) [OF stock_invD(4)] row by (simp add: ticket_holds_def)
  moreover have "onhand d' x = onhand (ho_db h) x \<and> moved d' x = moved (ho_db h) x" for x
    using row by (simp add: onhand_def moved_def)
  moreover have "request_of d' (tk_refId t) = Some (r\<lparr>rq_ticket := None, rq_status :=
      (if \<forall>l \<in> set (rq_lines r). ql_appr l = ql_qty l then Req_ManagerApproved else Req_PartiallyApproved)\<rparr>)"
    if "tk_refType t = Ref_request" "tk_refId t \<notin> set NO_DOCUMENT" "request_of (ho_db h) (tk_refId t) = Some r" for r
    using cancel_request_back [OF tx assms(4) that] by (simp add: approvedStatus_def list_all_iff)
  ultimately show ?thesis using st row cancel_keeps_requests [OF tx assms(4)] by blast
qed

theorem cancel_effect_witness:
  "\<exists>r. request_of (snd (cancel (clerk ''store'') tid ''late'' 1 demo3)) rid = Some r \<and> rq_ticket r = None \<and>
     rq_status r = Req_PartiallyApproved"
proof -
  have "cancel (clerk ''store'') tid ''late'' 1 demo3 = (None, snd (cancel (clerk ''store'') tid ''late'' 1 demo3))"
    using demo_cancels by (metis exec.simps(9) prod.collapse)
  then show ?thesis
    using cancel_effect [OF dayOne_demo demo_house(1), of "clerk ''store''" tid "''late''" 1
        "snd (cancel (clerk ''store'') tid ''late'' 1 demo3)" "demo_ticket Ref_request ''store'' 3 Tkt_Issued"]
    by (auto simp: ticket_of_def request_of_def rid_document)
qed

lemma redirect_ok_shape:
  assumes "redirect_tx coll c i from at' rnd d = Inr d'"
  obtains r r' n t where "request_of d i = Some r" "request_of d' i = Some r'" "rq_status r' = Req_TicketIssued"
    "db_seq d K_tkt = Some n" "rq_ticket r' = Some (formatId K_tkt n at')" "ticket_of d (formatId K_tkt n at') = None"
    "ticket_of d' (formatId K_tkt n at') = Some t" "tk_refType t = Ref_shop_transfer" "tk_refId t = i"
proof (rule redirect_tx_shape [OF assms])
  fix r n d3
  let ?d2 = "lockBalances (map (\<lambda>l. (from, fst l)) (asked_lines r)) (d\<lparr>db_seq := (db_seq d)(K_tkt \<mapsto> n + 1)\<rparr>)"
  let ?dr = "\<lparr>dr_refType = Ref_shop_transfer, dr_refId = i, dr_from = from, dr_to = rq_from r,
       dr_lines = asked_lines r, dr_by = cl_sub c, dr_at = at'\<rparr>"
  assume r: "request_of d i = Some r" and n: "db_seq d K_tkt = Some n"
    and w: "writeTicket ?dr (formatId K_tkt n at', nat_str rnd) ?d2 = Inr d3"
    and d': "d' = emitChanged [Ch_req, Ch_tkt, Ch_rsv]
       (appendHistory ''request'' i (''Redirected to '' @ loc_name d from) (userName d (cl_sub c)) at'
         (update_request i (ticket_on_request (formatId K_tkt n at') (cl_sub c))
           (setLineApprovals i (map (\<lambda>l. (snd l, 0)) (asked_lines r)) d3)))"
  show ?thesis
  proof (rule writeTicket_shape [OF w])
    assume none: "ticket_of ?d2 (fst (formatId K_tkt n at', nat_str rnd)) = None"
      and ts: "db_tickets d3 = db_tickets ?d2 @ [(fst (formatId K_tkt n at', nat_str rnd), ticket_row ?dr (snd (formatId K_tkt n at', nat_str rnd)))]"
      and rs: "db_requests d3 = db_requests ?d2"
    have d3: "request_of d3 i = Some r" using rs r by (simp add: request_of_def)
    have "request_of d' i = Some (ticket_on_request (formatId K_tkt n at') (cl_sub c)
        (r\<lparr>rq_lines := approve_lines (map (\<lambda>l. (snd l, 0)) (asked_lines r)) (rq_lines r)\<rparr>))"
      using d3 by (simp add: d' setLineApprovals_def request_of_update)
    moreover have fresh: "map_of (db_tickets d) (formatId K_tkt n at') = None" using none by (simp add: ticket_of_def)
    moreover have "ticket_of d' (formatId K_tkt n at') = Some (ticket_row ?dr (nat_str rnd))"
      using ts fresh map_of_snoc [OF fresh, of "ticket_row ?dr (nat_str rnd)" "formatId K_tkt n at'"]
      by (simp add: d' ticket_of_def setLineApprovals_def)
    ultimately show ?thesis
      by (intro that [OF r _ _ n]) (auto simp: ticket_on_request_def ticket_row_def ticket_of_def)
  qed
qed

text \<open>A request whose ticket is out can be moved by nothing but that ticket: every call of its own
  service refuses it.\<close>

lemma ticketed_request_stuck:
  assumes "request_of d i = Some r" "rq_status r = Req_TicketIssued"
  shows "\<exists>e. cancelRequest a i now d = (Some e, d)" "\<exists>e. approveRequest c i appr note now d = (Some e, d)"
    "\<exists>e. rejectRequest c i note now d = (Some e, d)" "\<exists>e. issueTicket c i now rnd d = (Some e, d)"
    "\<exists>e. redirectRequest coll c i from now rnd d = (Some e, d)"
proof -
  have "cancelRequest_tx a i now d \<noteq> Inr d'" "approve_tx c i appr note now d \<noteq> Inr d'"
    "reject_tx c i note now d \<noteq> Inr d'" "issue_tx c i now rnd d \<noteq> Inr d'"
    "redirect_tx coll c i from now rnd d \<noteq> Inr d'" for d'
    using assms plan_status_edge [of "asked_lines r" "map Finite appr" "freeFor d (map fst (asked_lines r))"]
    by (auto simp: cancelRequest_tx_def approve_tx_def reject_tx_def issue_tx_def redirect_tx_def Let_def approvalOf_def)
  moreover have "\<exists>e. withTransaction f d = (Some e, d)" if "\<And>d'. f d \<noteq> Inr d'" for f
    using that by (cases "f d") (auto simp: withTransaction_def)
  ultimately show "\<exists>e. cancelRequest a i now d = (Some e, d)" "\<exists>e. approveRequest c i appr note now d = (Some e, d)"
    "\<exists>e. rejectRequest c i note now d = (Some e, d)" "\<exists>e. issueTicket c i now rnd d = (Some e, d)"
    "\<exists>e. redirectRequest coll c i from now rnd d = (Some e, d)"
    unfolding cancelRequest_def approveRequest_def rejectRequest_def issueTicket_def redirectRequest_def by blast+
qed

text \<open>C11. A request can be stranded. The manager redirects a request to a peer outlet, whose ticket is
  filed as a shop transfer; when that outlet calls the ticket off, nothing puts the request back. It
  stays at \<open>Ticket issued\<close> behind a cancelled ticket, and every call of its own service refuses it,
  whoever makes it: it cannot be cancelled, approved, rejected, issued or redirected again.\<close>

theorem redirected_request_stranded:
  assumes "redirectRequest coll c i from at' rnd d = (None, d1)" and "request_of d1 i = Some r1"
    and "rq_ticket r1 = Some tk" and "cancel c' tk why at2 d1 = (None, d2)"
  shows "request_of d2 i = Some r1 \<and> rq_status r1 = Req_TicketIssued \<and>
    (\<exists>t. ticket_of d2 tk = Some t \<and> tk_status t = Tkt_Cancelled) \<and>
    fst (cancelRequest a i now d2) \<noteq> None \<and> fst (approveRequest c2 i appr note now d2) \<noteq> None \<and>
    fst (rejectRequest c2 i note now d2) \<noteq> None \<and> fst (issueTicket c2 i now rnd2 d2) \<noteq> None \<and>
    fst (redirectRequest coll c2 i from2 now rnd2 d2) \<noteq> None"
proof -
  have tx: "redirect_tx coll c i from at' rnd d = Inr d1" using assms(1) by (simp add: redirectRequest_def withTransaction_ok)
  have ct: "cancel_tx c' tk why at2 d1 = Inr d2" using assms(4) by (simp add: cancel_def withTransaction_ok)
  from tx show ?thesis
  proof (rule redirect_ok_shape)
    fix r r' n t
    assume "request_of d1 i = Some r'" and st: "rq_status r' = Req_TicketIssued"
      and "rq_ticket r' = Some (formatId K_tkt n at')" "ticket_of d1 (formatId K_tkt n at') = Some t"
      and ty: "tk_refType t = Ref_shop_transfer"
    then have e: "r' = r1" "ticket_of d1 tk = Some t" using assms(2,3) by auto
    have rq: "request_of d2 i = Some r1"
      using cancel_keeps_requests [OF ct e(2)] ty assms(2) by (simp add: request_of_def)
    have st1: "rq_status r1 = Req_TicketIssued" using st e(1) by simp
    have t2: "\<exists>t. ticket_of d2 tk = Some t \<and> tk_status t = Tkt_Cancelled" using cancel_row [OF ct e(2)] by simp
    have stuck: "fst (cancelRequest a i now d2) \<noteq> None" "fst (approveRequest c2 i appr note now d2) \<noteq> None"
      "fst (rejectRequest c2 i note now d2) \<noteq> None" "fst (issueTicket c2 i now rnd2 d2) \<noteq> None"
      "fst (redirectRequest coll c2 i from2 now rnd2 d2) \<noteq> None"
      using ticketed_request_stuck [OF rq st1] by (metis fst_conv option.distinct(1))+
    show ?thesis using rq st1 t2 stuck by blast
  qed
qed

theorem redirected_request_stranded_witness:
  "fst (redirectRequest demo_coll (clerk ''store'') rid ''kiosk'' 0 123456 demo1) = None \<and>
   fst (cancel (clerk ''kiosk'') tid ''late'' 1 demo6) = None \<and>
   fst (issueTicket (clerk ''store'') rid 2 123456 (snd (cancel (clerk ''kiosk'') tid ''late'' 1 demo6))) \<noteq> None"
proof -
  have r: "redirectRequest demo_coll (clerk ''store'') rid ''kiosk'' 0 123456 demo1 = (None, demo6)"
    using demo_redirects by simp
  have f: "fst (cancel (clerk ''kiosk'') tid ''late'' 1 demo6) = None" using demo_cancels_redirected by simp
  then have c: "cancel (clerk ''kiosk'') tid ''late'' 1 demo6 = (None, snd (cancel (clerk ''kiosk'') tid ''late'' 1 demo6))"
    by (metis prod.collapse)
  show ?thesis
    using redirected_request_stranded [OF r _ _ c, of _ _ _ "clerk ''store''" "[]" "''''" 123456 "''kiosk''"] r f
    by (simp add: request_of_def)
qed

section \<open>Life cycles\<close>

lemma final_walk: "walks table a b \<Longrightarrow> table a = [] \<Longrightarrow> b = a"
  by (induction rule: walks.induct) auto

lemma ticket_final:
  "walks TICKET_TRANSITIONS Tkt_Received b \<Longrightarrow> b = Tkt_Received"
  "walks TICKET_TRANSITIONS Tkt_Cancelled b \<Longrightarrow> b = Tkt_Cancelled"
  by (auto dest: final_walk)

text \<open>C26. A ticket's life: however long the system runs on, a ticket stays under its number with the
  same lines, the same two ends and the same digits, and its status only moves along
  \<open>TICKET_TRANSITIONS\<close>, so one that was received or cancelled stays so for good.\<close>

theorem ticket_life:
  assumes "runs (hexec coll) h h'" and "ticket_of (ho_db h) i = Some t"
  shows "\<exists>t'. ticket_of (ho_db h') i = Some t' \<and> tk_lines t' = tk_lines t \<and> tk_from t' = tk_from t \<and>
    tk_to t' = tk_to t \<and> tk_otp t' = tk_otp t \<and> walks TICKET_TRANSITIONS (tk_status t) (tk_status t') \<and>
    (tk_status t = Tkt_Received \<or> tk_status t = Tkt_Cancelled \<longrightarrow> tk_status t' = tk_status t)"
proof -
  obtain t' where t': "ticket_of (ho_db h') i = Some t'" "ticket_kept t t'"
    using rows_keptD [OF runs_tickets [OF assms(1), unfolded ticket_step_def] assms(2)] by blast
  have "tk_status t' = tk_status t" if "tk_status t = Tkt_Received \<or> tk_status t = Tkt_Cancelled"
    using that t'(2) ticket_final [of "tk_status t'"] unfolding ticket_kept_def by metis
  then show ?thesis using t' by (auto simp: ticket_kept_def)
qed

theorem ticket_life_witness:
  "\<exists>t'. ticket_of demo4 tid = Some t' \<and> walks TICKET_TRANSITIONS Tkt_Issued (tk_status t')"
proof -
  have "runs (hexec demo_coll) (at_demo demo3) (at_demo demo4)"
    using runs_stock [OF runs_next [where ex = "exec demo_coll", OF runs.here demo_hands_over], of "at_demo demo3"] by (simp add: at_demo_def)
  from ticket_life [OF this, of tid] show ?thesis by (auto simp: ticket_of_def)
qed

text \<open>C27. A request's life: who asked, for which outlet and for what never changes, the status only
  takes the edges of \<open>REQUEST_TRANSITIONS\<close>, the redirect's step straight to a ticket and the step
  back when a ticket is called off, and a request closed, rejected or cancelled stays so for good.\<close>

theorem request_life:
  assumes "runs (hexec coll) h h'" and "request_of (ho_db h) i = Some r"
  shows "\<exists>r'. request_of (ho_db h') i = Some r' \<and> rq_from r' = rq_from r \<and> rq_by r' = rq_by r \<and>
    asked_lines r' = asked_lines r \<and>
    (\<lambda>a b. b \<in> set (REQUEST_TRANSITIONS a) \<or> a = Req_Sent \<and> b = Req_TicketIssued \<or>
       a = Req_TicketIssued \<and> (b = Req_ManagerApproved \<or> b = Req_PartiallyApproved))\<^sup>*\<^sup>* (rq_status r) (rq_status r') \<and>
    (rq_status r \<in> {Req_Closed, Req_Rejected, Req_Cancelled} \<longrightarrow> rq_status r' = rq_status r)"
proof -
  obtain r' where r': "request_of (ho_db h') i = Some r'" "request_kept r r'"
    using rows_keptD [OF runs_requests [OF assms(1), unfolded request_step_def] assms(2)] by blast
  moreover have "rq_status r' = rq_status r" if "rq_status r \<in> {Req_Closed, Req_Rejected, Req_Cancelled}"
    using r'(2) that settled_stays [of "rq_status r" "rq_status r'"] by (auto simp: request_kept_def)
  ultimately show ?thesis by (auto simp: request_kept_def request_edge_def [abs_def])
qed

theorem request_life_witness:
  "\<exists>r'. request_of demo4 rid = Some r' \<and> asked_lines r' = [(''water'', 4)]"
proof -
  have "runs (hexec demo_coll) (at_demo demo3) (at_demo demo4)"
    using runs_stock [OF runs_next [where ex = "exec demo_coll", OF runs.here demo_hands_over], of "at_demo demo3"] by (simp add: at_demo_def)
  from request_life [OF this, of rid] show ?thesis by (auto simp: request_of_def asked_lines_def)
qed

end
