(* ===== verification/Rules.thy ===== *)
theory Rules
  imports Documents Planning
begin

text \<open>
  What the shared rules of \<open>packages/domain\<close> promise their callers: approvals, prices, bills,
  settlements, claims, clocks, permissions and the numbers and keys that are handed out.
  The component lemmas are in the theory of each rule; here they are put together.
\<close>

section \<open>Granting and claiming\<close>

lemma ap_lines_mem:
  "l \<in> set (ap_lines (planApproval lines appr f)) \<Longrightarrow>
   \<exists>i < length lines. l = plan_line appr f (i, lines ! i)"
  by (metis in_set_conv_nth length_planApproval planApproval_nth)

text \<open>C28. An approval grants each line no more than was asked, than was typed and than is free to
  promise, never less than nothing, and what it grants and what it leaves short add up to the ask. It
  is a rejection exactly when nothing at all is granted.\<close>

theorem approval_bounds:
  assumes "\<And>l. l \<in> set lines \<Longrightarrow> 0 \<le> snd l \<and> is3 (snd l)"
  shows "length (ap_lines (planApproval lines appr f)) = length lines \<and>
    (\<forall>i < length lines. let l = ap_lines (planApproval lines appr f) ! i; q = snd (lines ! i) in
       al_it l = fst (lines ! i) \<and> 0 \<le> al_appr l \<and> al_appr l \<le> q \<and>
       al_appr l \<le> max 0 (round3 (asked appr i)) \<and> al_appr l \<le> max 0 (round3 (f (al_it l) i)) \<and>
       al_appr l + al_short l = q) \<and>
    (ap_st (planApproval lines appr f) = Req_Rejected \<longleftrightarrow>
       (\<forall>l \<in> set (ap_lines (planApproval lines appr f)). al_appr l = 0))"
proof (intro conjI allI impI)
  fix i assume i: "i < length lines"
  have q: "0 \<le> snd (snd (i, lines ! i))" "is3 (snd (snd (i, lines ! i)))" using assms [OF nth_mem [OF i]] by simp_all
  show "let l = ap_lines (planApproval lines appr f) ! i; q = snd (lines ! i) in
       al_it l = fst (lines ! i) \<and> 0 \<le> al_appr l \<and> al_appr l \<le> q \<and>
       al_appr l \<le> max 0 (round3 (asked appr i)) \<and> al_appr l \<le> max 0 (round3 (f (al_it l) i)) \<and>
       al_appr l + al_short l = q"
    using plan_line_bounds [OF q, of appr f] by (simp only: Let_def planApproval_nth [OF i] plan_line_sel(1) fst_conv snd_conv)
qed (simp_all add: plan_rejected_iff)

theorem approval_bounds_witness:
  "al_appr (ap_lines (planApproval [(''rice'', 4)] [Finite 9] (\<lambda>_ _. 3)) ! 0) \<le> 4"
  using approval_bounds [of "[(''rice'', 4)]" "[Finite 9]" "\<lambda>_ _. 3"] by (simp add: Let_def)

text \<open>C29. A receipt that falls short gives back claims without losing or inventing any: for every
  requisition line, what is released and what is kept add up to what was claimed; exactly the amount
  given up is released, or everything where less was claimed; and the newest claims go first, so
  older claims survive whole while newer ones cover the release.\<close>

theorem claims_released:
  assumes "claims_ok src" and "is3 give" and "0 \<le> give"
  shows "claim_total k (fst (releaseClaim src give)) + claim_total k (snd (releaseClaim src give)) = claim_total k src \<and>
    (\<Sum>c\<leftarrow>fst (releaseClaim src give). c_qty c) = min give (\<Sum>c\<leftarrow>src. c_qty c) \<and>
    claims_ok (fst (releaseClaim src give)) \<and> claims_ok (snd (releaseClaim src give)) \<and>
    (\<forall>old new. src = old @ new \<and> give \<le> (\<Sum>c\<leftarrow>new. c_qty c) \<longrightarrow> (\<exists>l. snd (releaseClaim src give) = old @ l))"
proof -
  have e: "releaseClaim src give = release_loop (rev src) give"
    using assms(2,3) by (simp add: releaseClaim_def max_def)
  have ok: "claims_ok (rev src)" using assms(1) by (simp add: claims_ok_def)
  have "\<exists>l. snd (releaseClaim src give) = old @ l" if "src = old @ new" "give \<le> (\<Sum>c\<leftarrow>new. c_qty c)" for old new
    using release_newest_first [of "rev new" "rev old" give] ok that assms(2,3)
    by (simp add: releaseClaim_def max_def claims_ok_def sum_list.rev rev_map flip: rev_map)
  moreover have "(\<Sum>c\<leftarrow>rev src. c_qty c) = (\<Sum>c\<leftarrow>src. c_qty c)" by (simp add: rev_map [symmetric] sum_list.rev)
  ultimately show ?thesis
    using release_loop_conserves [OF ok assms(2,3), of k] release_loop_amount [OF ok assms(2,3)]
      release_loop_ok [OF ok assms(2)] by (simp add: e)
qed

theorem claims_released_witness:
  "let src = [\<lparr>c_prq = ''P1'', c_line = 1, c_qty = 5\<rparr>, \<lparr>c_prq = ''P2'', c_line = 1, c_qty = 4\<rparr>]
   in (\<Sum>c\<leftarrow>fst (releaseClaim src 3). c_qty c) = 3"
  using claims_released [of "[\<lparr>c_prq = ''P1'', c_line = 1, c_qty = 5\<rparr>, \<lparr>c_prq = ''P2'', c_line = 1, c_qty = 4\<rparr>]" 3]
  by (simp add: claims_ok_def)

section \<open>Money\<close>

text \<open>The till never charges above the printed price: an item is priced at the outlet's list price or
  at its MRP, whichever is lower, the price is marked capped exactly when the MRP bit, and an item the
  list does not price costs nothing.\<close>

theorem mrp_caps:
  "p_p (priceOf m prices l it) \<le> p_listed (priceOf m prices l it) \<and>
   (p_capped (priceOf m prices l it) \<longleftrightarrow> p_p (priceOf m prices l it) < p_listed (priceOf m prices l it)) \<and>
   (\<forall>i mrp. m_items m it = Some i \<and> item_mrp i = Some mrp \<and> 0 \<le> mrp \<longrightarrow>
      p_p (priceOf m prices l it) = min mrp (p_listed (priceOf m prices l it)))"
  using priceOf_le_listed [of m prices l it] priceOf_capped_iff [of m prices l it]
  by (auto simp: priceOf_def no_price_def split: option.splits bind_splits)

theorem mrp_caps_witness:
  "let m = \<lparr>m_items = [''cola'' \<mapsto> \<lparr>item_code = ''R-1'', item_n = ''Cola'', item_u = ''btl'', item_t = FG, item_g = [],
             item_hsn = [], item_gst = 18, item_rl = 0, item_cost = 10, item_mrp = Some 20, item_sl = None,
             item_dn = None, item_active = True, item_src = None\<rparr>],
           m_locations = [(''cafe'', \<lparr>loc_n = ''Cafe'', loc_type = Outlet_Type, loc_list = Some ''main'', loc_active = True, loc_par = 0\<rparr>)]\<rparr>;
       prices = [''main'' \<mapsto> [''cola'' \<mapsto> 25]]
   in p_p (priceOf m prices ''cafe'' ''cola'') = 20"
proof -
  define i where "i = \<lparr>item_code = ''R-1'', item_n = ''Cola'', item_u = ''btl'', item_t = FG, item_g = [],
     item_hsn = [], item_gst = 18, item_rl = 0, item_cost = 10, item_mrp = Some 20, item_sl = None,
     item_dn = None, item_active = True, item_src = None\<rparr>"
  define m where "m = \<lparr>m_items = [''cola'' \<mapsto> i],
     m_locations = [(''cafe'', \<lparr>loc_n = ''Cafe'', loc_type = Outlet_Type, loc_list = Some ''main'', loc_active = True, loc_par = 0\<rparr>)]\<rparr>"
  have "p_listed (priceOf m [''main'' \<mapsto> [''cola'' \<mapsto> 25]] ''cafe'' ''cola'') = 25"
    by (simp add: m_def i_def priceOf_def)
  moreover have "p_p (priceOf m [''main'' \<mapsto> [''cola'' \<mapsto> 25]] ''cafe'' ''cola'') =
      min 20 (p_listed (priceOf m [''main'' \<mapsto> [''cola'' \<mapsto> 25]] ''cafe'' ''cola''))"
    using mrp_caps [of m "[''main'' \<mapsto> [''cola'' \<mapsto> 25]]" "''cafe''" "''cola''"] by (simp add: m_def i_def)
  ultimately show ?thesis by (simp add: m_def i_def)
qed

lemma foldl_bill_disc: "pl_disc (foldl (bill_step m prices l pct) plan cart) = pl_disc plan +
    (\<Sum>c\<leftarrow>cart. discountOn (p_p (priceOf m prices l (fst c)) * snd c) pct)"
  by (induction cart arbitrary: plan) simp_all

text \<open>Two lines of half a paisa each, all of it off: the discount of each is a whole paisa, and the bill comes to a
  paisa less than nothing.\<close>

lemma sub_paisa_bill:
  "pl_tot (planBill \<lparr>m_items = [''salt'' \<mapsto> i, ''clove'' \<mapsto> i], m_locations = [(''cafe'', c)]\<rparr> prices ''cafe'' [(''salt'', 1/1000), (''clove'', 1/1000)] 100) = - 1 / 100"
  if "item_mrp i = None" "loc_list c = Some ''main''" "prices ''main'' = Some (\<lambda>_. Some 5)"
  using that by (simp add: planBill_def priceOf_def discountOn_def round2_def js_round_def)

text \<open>C31. A bill adds up. Each line of the cart is billed once, in order, at its till price; the discount is each
  line's percentage rounded to the paisa, and total and discount together are the gross of the lines; what leaves
  the shelf is the cart less what is made to order. Where, moreover, every line's gross comes to whole paise and is
  not negative, no GST rate is negative and the discount is between none and all, the GST shown lies inside the
  total. (Where a line comes to less than a paisa it may not: see \<open>sub_paisa_bill\<close>.)\<close>

theorem bill_adds_up:
  "let plan = planBill m prices l cart pct; at_till = (\<lambda>it. p_p (priceOf m prices l it)) in
    map (\<lambda>b. (bl_it b, bl_qty b, bl_rate b)) (pl_lines plan) = map (\<lambda>(it, n). (it, n, at_till it)) cart \<and>
    pl_disc plan = (\<Sum>(it, n)\<leftarrow>cart. round2 (at_till it * n * pct / 100)) \<and>
    pl_tot plan + pl_disc plan = (\<Sum>(it, n)\<leftarrow>cart. at_till it * n) \<and>
    pl_moves plan = map (\<lambda>(it, n). \<lparr>sm_loc = l, sm_it = it, sm_qty = - n\<rparr>) (filter (\<lambda>(it, n). \<not> isMTO m it) cart) \<and>
    ((\<forall>(it, n) \<in> set cart. is2 (at_till it * n) \<and> 0 \<le> at_till it * n) \<and> (\<forall>it. 0 \<le> gstOf m it) \<and> 0 \<le> pct \<and> pct \<le> 100 \<longrightarrow>
       0 \<le> pl_tax plan \<and> pl_tax plan \<le> pl_tot plan)"
proof -
  let ?none = "\<lparr>pl_lines = [], pl_tot = 0, pl_disc = 0, pl_tax = 0, pl_moves = []\<rparr>"
  have "0 \<le> pl_tax (planBill m prices l cart pct) \<and> pl_tax (planBill m prices l cart pct) \<le> pl_tot (planBill m prices l cart pct)"
    if "\<forall>(it, n) \<in> set cart. is2 (p_p (priceOf m prices l it) * n) \<and> 0 \<le> p_p (priceOf m prices l it) * n"
      "\<forall>it. 0 \<le> gstOf m it" "0 \<le> pct" "pct \<le> 100"
    using that unfolding planBill_def by (intro foldl_bill_bounds) (auto simp: validDiscountPct_def MAX_DISCOUNT_PCT_def)
  then show ?thesis using foldl_bill_gross [of m prices l pct ?none cart]
    by (simp add: Let_def planBill_def foldl_bill_lines foldl_bill_disc foldl_bill_moves grossOf_def discountOn_def case_prod_unfold o_def)
qed

text \<open>A carton of milk at 25, two of them, and a loaf at 40, a tenth off: 90 less 9.\<close>

definition milk :: item where
  "milk = \<lparr>item_code = ''R-1'', item_n = ''Milk'', item_u = ''ctn'', item_t = FG, item_g = [], item_hsn = [], item_gst = 5, item_rl = 0,
     item_cost = 10, item_mrp = None, item_sl = None, item_dn = None, item_active = True, item_src = None\<rparr>"

definition dairy :: master where
  "dairy = \<lparr>m_items = [''milk'' \<mapsto> milk, ''loaf'' \<mapsto> milk],
     m_locations = [(''cafe'', \<lparr>loc_n = ''Cafe'', loc_type = Outlet_Type, loc_list = Some ''main'', loc_active = True, loc_par = 0\<rparr>)]\<rparr>"

abbreviation dairy_prices :: prices where "dairy_prices \<equiv> [''main'' \<mapsto> [''milk'' \<mapsto> 25, ''loaf'' \<mapsto> 40]]"

theorem bill_adds_up_witness:
  "let plan = planBill dairy dairy_prices ''cafe'' [(''milk'', 2), (''loaf'', 1)] 10
   in pl_tot plan = 81 \<and> pl_tax plan \<le> 81 \<and> map bl_rate (pl_lines plan) = [25, 40]"
proof -
  have p: "p_p (priceOf dairy dairy_prices ''cafe'' ''milk'') = 25" "p_p (priceOf dairy dairy_prices ''cafe'' ''loaf'') = 40"
    by (simp_all add: dairy_def milk_def priceOf_def)
  have "0 \<le> gstOf dairy it" for it by (simp add: gstOf_def dairy_def milk_def)
  moreover have "round2 5 = 5" "round2 4 = (4 :: number)" "is2 50" "is2 40" by (simp_all add: round2_def js_round_def is2_def)
  ultimately show ?thesis using bill_adds_up [of dairy dairy_prices "''cafe''" "[(''milk'', 2), (''loaf'', 1)]" 10]
    by (auto simp: Let_def p map_eq_conv)
qed

text \<open>C32. A payment laid over open bills: nothing is lost, what is laid plus what is left is the payment;
  something is left only when every bill is paid; every share is more than nothing; and the bills are
  taken in date order, each paid whole before the next is touched, so only the last can stay part paid.\<close>

theorem settlement_allocates:
  assumes "0 \<le> amount"
  shows "(\<Sum>s\<leftarrow>fst (allocateSettlement coll bills amount). snd s) + snd (allocateSettlement coll bills amount) = round2 amount \<and>
    snd (allocateSettlement coll bills amount) = max 0 (round2 amount - owing bills) \<and>
    (\<forall>s \<in> set (fst (allocateSettlement coll bills amount)). 0 < snd s) \<and>
    covers (fst (allocateSettlement coll bills amount)) (stable_sort (\<lambda>a b. coll (ob_at a) (ob_at b)) bills)"
  using allocate_sum [of "round2 amount" "stable_sort (\<lambda>a b. coll (ob_at a) (ob_at b)) bills"]
    allocate_left [of "round2 amount" "stable_sort (\<lambda>a b. coll (ob_at a) (ob_at b)) bills"]
    allocate_positive [of _ "stable_sort (\<lambda>a b. coll (ob_at a) (ob_at b)) bills" "round2 amount"]
    allocate_covers [of "round2 amount" "stable_sort (\<lambda>a b. coll (ob_at a) (ob_at b)) bills"]
    owing_perm [of "stable_sort (\<lambda>a b. coll (ob_at a) (ob_at b)) bills" bills] r2.round_nonneg [OF assms]
  by (simp add: allocateSettlement_def)

theorem settlement_allocates_witness:
  "snd (allocateSettlement (\<le>) [\<lparr>ob_no = ''CF/1'', ob_at = ''2024-01-02'', ob_owed = 50\<rparr>] 80) = 30"
  using settlement_allocates [of 80 "(\<le>)" "[\<lparr>ob_no = ''CF/1'', ob_at = ''2024-01-02'', ob_owed = 50\<rparr>]"]
  by (simp add: owing_def round2_def js_round_def)

text \<open>C33. A quantity shared over its sources in order: one share per source, none below nothing or above
  what the source asks, and together they are the quantity, or everything asked where that is less.\<close>

theorem apportion_shares:
  assumes "\<And>x. x \<in> set asks \<Longrightarrow> is3 x \<and> 0 \<le> x" and "is3 q" and "0 \<le> q"
  shows "length (apportion q asks) = length asks \<and>
    list_all2 (\<lambda>share a. 0 \<le> share \<and> share \<le> a) (apportion q asks) asks \<and>
    sum_list (apportion q asks) = min q (sum_list asks)"
  using apportion_bounds [OF assms(1,2)] apportion_sum [OF assms] by simp

theorem apportion_shares_witness: "sum_list (apportion 5 [2, 9]) = 5"
  using apportion_shares [of "[2, 9]" 5] by simp

text \<open>A row of the stock ledger closes: opening, plus what came in, less what went out, is the closing
  figure, which is the opening balance plus every move of the window.\<close>

theorem ledger_row_closes:
  assumes "is3 before" and "\<forall>q \<in> set moves. is3 q"
  shows "lr_closing (ledgerRow it before moves) = before + sum_list moves \<and>
    lr_opening (ledgerRow it before moves) = before \<and>
    lr_closing (ledgerRow it before moves) =
      lr_opening (ledgerRow it before moves) + lr_recd (ledgerRow it before moves) - lr_issued (ledgerRow it before moves)"
proof -
  have "is3 (\<Sum>q\<leftarrow>moves. max 0 q)" "is3 (\<Sum>q\<leftarrow>moves. max 0 (- q))"
    using assms(2) by (auto intro!: grid_intros)
  then show ?thesis
    using sum_split_sign [of moves] assms(1)
    by (simp add: ledgerRow_def foldl_recd foldl_issued is3_add is3_diff Let_def)
qed

theorem ledger_row_closes_witness: "lr_closing (ledgerRow ''rice'' 10 [5, - 3]) = 12"
  using ledger_row_closes [of 10 "[5, - 3]" "''rice''"] by (simp add: is3_minus)

section \<open>Reading what is typed, and the clock\<close>

lemma normalize_ten: "ten_digits d \<Longrightarrow> normalizePhone d = Some d \<and> normalizePhone (''0'' @ d) = Some d \<and>
    normalizePhone (''91'' @ d) = Some d \<and> normalizePhone (''+91'' @ d) = Some d"
proof -
  assume d: "ten_digits d"
  have noise: "\<not> phone_noise CHR ''0''" "\<not> phone_noise CHR ''9''" "\<not> phone_noise CHR ''1''" "\<not> phone_noise CHR ''+''"
    by (simp_all add: phone_noise_def is_space_def)
  obtain c cs where c: "d = c # cs" "c \<noteq> CHR ''0''" "is_digit c" "length cs = 9"
    using d by (cases d) (auto simp: ten_digits_def)
  have "c \<noteq> CHR ''+''" using c(3) by (auto simp: is_digit_def)
  moreover have "\<not> ten_digits xs" if "length xs = 8" for xs using that by (simp add: ten_digits_def)
  moreover have "cs = y # ys \<longrightarrow> length ys = 8" for y ys using c(4) by auto
  ultimately show ?thesis
    using d filter_phone_clean [OF d] c(2) by (cases cs) (auto simp: normalizePhone_def noise c(1))
qed

text \<open>C34. A phone number normalises to its ten digits: the answer always has ten digits and no leading
  zero, normalising it again changes nothing, and the same number written with +91, 91 or 0 in front
  normalises to the same digits.\<close>

theorem phone_normal:
  "(normalizePhone raw = Some d \<longrightarrow> length d = 10 \<and> list_all is_digit d \<and> hd d \<noteq> CHR ''0'' \<and>
      normalizePhone d = Some d \<and> normalizePhone (''0'' @ d) = Some d \<and>
      normalizePhone (''91'' @ d) = Some d \<and> normalizePhone (''+91'' @ d) = Some d)"
proof
  assume "normalizePhone raw = Some d"
  then have d: "ten_digits d" unfolding normalizePhone_def by (rule first_match_ten)
  with normalize_ten [OF d] show "length d = 10 \<and> list_all is_digit d \<and> hd d \<noteq> CHR ''0'' \<and>
      normalizePhone d = Some d \<and> normalizePhone (''0'' @ d) = Some d \<and>
      normalizePhone (''91'' @ d) = Some d \<and> normalizePhone (''+91'' @ d) = Some d"
    by (simp add: ten_digits_def)
qed

theorem phone_normal_witness: "normalizePhone ''+91 98765-43210'' = Some ''9876543210'' \<and> normalizePhone ''9876543210'' = Some ''9876543210''"
proof -
  have "normalizePhone ''+91 98765-43210'' = Some ''9876543210''"
    by (simp add: normalizePhone_def phone_noise_def is_space_def ten_digits_def is_digit_def)
  then show ?thesis using phone_normal [of "''+91 98765-43210''" "''9876543210''"] by simp
qed

text \<open>C35. QR ordering is open exactly in the day's window: the opening minute is in, the closing minute is
  out, compared as times although the code compares the printed hours and minutes as text.\<close>

theorem qr_window:
  assumes "find (\<lambda>x. oh_dow x = ist_dow now) days = Some \<lparr>oh_dow = dow, oh_opens = hhmm a, oh_closes = hhmm b\<rparr>"
    and "0 \<le> a \<and> a < 1440" and "0 \<le> b \<and> b < 1440"
  shows "qo_open (qrOpenAt days now) \<longleftrightarrow> a \<le> ist_minute now \<and> ist_minute now < b"
proof -
  have c: "clock a" "clock b" "clock (ist_minute now)"
    using assms(2,3) ist_minute_clock by (simp_all add: clock_def)
  show ?thesis
    using assms(1) hhmm_less [OF c(3) c(1)] hhmm_le [OF c(2) c(3)]
    by (auto simp: qrOpenAt_def Let_def not_less not_le)
qed

theorem qr_window_witness:
  "qo_open (qrOpenAt [\<lparr>oh_dow = 4, oh_opens = hhmm 300, oh_closes = hhmm 900\<rparr>] 0) \<longleftrightarrow> 300 \<le> ist_minute 0 \<and> ist_minute 0 < 900"
  using qr_window [of 0 "[\<lparr>oh_dow = 4, oh_opens = hhmm 300, oh_closes = hhmm 900\<rparr>]" 4 300 900]
  by (simp add: ist_dow_def ist_day_def IST_OFFSET_def DAY_MS_def)

end
