(* ===== verification/Desks.thy ===== *)
theory Desks
  imports Documents
begin

text \<open>
  What the shared rules promise about names, numbers, dates and permissions: every number and key that
  is handed out is new, a date names its day, a grant is refused exactly when it does not fit the desk,
  a bigger grant never closes a door, and a refusal names something the desk may be given.
\<close>

section \<open>Numbers, keys and dates\<close>

text \<open>C36. Printed numbers do not collide: two documents of one kind with the same printed number were
  given the same count, whatever day each was raised, so a fresh count always prints a fresh number.\<close>

theorem document_numbers_differ: "formatId k m s = formatId k n t \<longrightarrow> m = n"
  using formatId_inject by blast

theorem document_numbers_differ_witness: "formatId K_tkt 441 0 \<noteq> formatId K_tkt 442 0"
  using document_numbers_differ [of K_tkt 441 0 442 0] by auto

text \<open>What is handed out is new: the next code of an item and the next employee number are in no
  list they were counted from, however the numbers in it are padded or out of order.\<close>

theorem codes_fresh: "nextItemCode t existing \<notin> set existing \<and> nextEmpNo existing \<notin> set existing"
  using nextItemCode_fresh nextEmpNo_fresh by blast

text \<open>C37. A new outlet always gets a key: the search through numbered suffixes ends, the key it gives is
  taken by no location, and while there are fewer than 998 locations it has the shape the contract
  asks of a location key and is none of the reserved ones.\<close>

theorem outlet_key: "\<exists>k. outletKeyFor name taken = Some k \<and> k \<notin> set taken \<and>
   (length taken < 998 \<longrightarrow> k \<noteq> ''quarantine'' \<and> stockLocOk k)"
proof -
  obtain k where k: "outletKeyFor name taken = Some k" using outletKeyFor_some by blast
  with outletKeyFor_shape [OF k] outletKeyFor_valid [OF k] show ?thesis
    by (auto simp: locKeyOk_def QUARANTINE_def)
qed

theorem outlet_key_witness: "\<exists>k. outletKeyFor ''Main Cafe!'' [''main-cafe''] = Some k \<and> stockLocOk k"
  using outlet_key [of "''Main Cafe!''" "[''main-cafe'']"] by auto

lemma civil_bounds: "civil z = (y, m, d) \<Longrightarrow> 1 \<le> m \<and> m \<le> 12 \<and> 1 \<le> d \<and> d \<le> 31"
proof -
  define doe where "doe = day_of_era z"
  obtain n100 n4 n1 doy where p: "era_parts doe = (n100, n4, n1, doy)" by (metis prod_cases4)
  have r: "0 \<le> doy" "doy \<le> 365"
    using era_parts_range [OF day_of_era_range [of z, folded doe_def] p] by simp_all
  define mp where "mp = (5 * doy + 2) div 153"
  have mp: "0 \<le> mp" "mp \<le> 11" using month_inverse r unfolding mp_def by blast+
  have b: "153 * mp \<le> 5 * doy + 2" "5 * doy + 2 < 153 * mp + 153"
    using div_bounds [of 153 "5 * doy + 2"] unfolding mp_def by linarith+
  define q where "q = (153 * mp + 2) div 5"
  have q: "5 * q \<le> 153 * mp + 2" "153 * mp + 2 < 5 * q + 5"
    using div_bounds [of 5 "153 * mp + 2"] unfolding q_def by linarith+
  assume "civil z = (y, m, d)"
  then have "m = (if mp < 10 then mp + 3 else mp - 9)" "d = doy - q + 1"
    using p by (auto simp: civil_def Let_def day_of_year_def mp_def q_def simp flip: doe_def)
  then show ?thesis using mp b q by (auto split: if_splits)
qed

lemma upto_dash: "c \<notin> set xs \<Longrightarrow> c \<notin> set ys \<Longrightarrow> xs @ c # us = ys @ c # vs \<longleftrightarrow> xs = ys \<and> us = vs"
proof (induction xs arbitrary: ys)
  case Nil then show ?case by (cases ys) auto
next
  case (Cons a xs) then show ?case by (cases ys) auto
qed

lemma dash_pad [simp]: "CHR ''-'' \<notin> set (pad n w)"
  using pad_digits [of n w] by (auto simp: is_digit_def)

lemma istDate_civil:
  assumes "case civil (ist_day s) of (y, m, d) \<Rightarrow> 0 \<le> y \<and> 0 \<le> m \<and> 0 \<le> d"
    and "case civil (ist_day t) of (y, m, d) \<Rightarrow> 0 \<le> y \<and> 0 \<le> m \<and> 0 \<le> d"
  shows "istDate s = istDate t \<longleftrightarrow> civil (ist_day s) = civil (ist_day t)"
  using assms by (auto simp: istDate_def upto_dash split: prod.splits)

lemma civil_year: "0 \<le> z \<Longrightarrow> case civil z of (y, m, d) \<Rightarrow> 0 \<le> y"
proof -
  assume z: "0 \<le> z"
  obtain n100 n4 n1 doy where p: "era_parts (day_of_era z) = (n100, n4, n1, doy)" by (metis prod_cases4)
  note r = era_parts_range [OF day_of_era_range p]
  have "0 \<le> (z + 719468) div 146097" using z by (simp add: pos_imp_zdiv_nonneg_iff)
  with r show ?thesis by (simp add: civil_def Let_def year_of_era_def p)
qed
text \<open>The hospital's calendar, from 1970 on: two instants print the same date exactly when they fall
  on the same day in the hospital's zone, the date worked out for a day is a month from 1 to 12 and a
  day from 1 to 31, and counting back from it gives the day again.\<close>

theorem calendar_round_trip:
  assumes "0 \<le> s" and "0 \<le> t"
  shows "(istDate s = istDate t \<longleftrightarrow> ist_midnight s = ist_midnight t) \<and>
   days_of_civil (civil (ist_day t)) = ist_day t \<and>
   (case civil (ist_day t) of (y, m, d) \<Rightarrow> 1 \<le> m \<and> m \<le> 12 \<and> 1 \<le> d \<and> d \<le> 31)"
proof -
  have pos: "0 \<le> ist_day s" "0 \<le> ist_day t"
    using assms by (simp_all add: ist_day_def DAY_MS_def IST_OFFSET_def pos_imp_zdiv_nonneg_iff)
  have "istDate s = istDate t \<longleftrightarrow> civil (ist_day s) = civil (ist_day t)"
    using civil_year [OF pos(1)] civil_year [OF pos(2)] civil_bounds
    by (intro istDate_civil) (fastforce split: prod.splits)+
  moreover have "civil (ist_day s) = civil (ist_day t) \<longleftrightarrow> ist_midnight s = ist_midnight t"
    using civil_inject by (auto simp: ist_midnight_def DAY_MS_def)
  ultimately show ?thesis using days_of_civil_civil civil_bounds by (auto split: prod.splits)
qed

theorem calendar_round_trip_witness:
  "istDate 1756587600000 = istDate 1756664999999 \<and> istDate 1756665000000 \<noteq> istDate 1756664999999"
  using calendar_round_trip [of 1756587600000 1756664999999] calendar_round_trip [of 1756665000000 1756664999999]
  by (simp add: ist_midnight_def ist_day_def DAY_MS_def IST_OFFSET_def)
section \<open>Availability and photos\<close>

text \<open>An item is on sale at an outlet exactly when the kitchen has not switched it off (where it is the
  kitchen's to switch), no one has taken it off at the outlet, and it is either made to order or there
  is at least one to promise; when it is not, there is always a reason, and when it is, there is none.\<close>

theorem on_sale_iff:
  "(av_ok (availOf m stock rsv ovr l it) \<longleftrightarrow>
      \<not> (isOnOff (m_items m it) \<and> truthy (ovr (KITCHEN, it)) \<noteq> None) \<and> truthy (ovr (l, it)) = None \<and>
      (map_option item_t (m_items m it) = Some MTO \<or> 1 \<le> or0 (stock l it) - or0 (rsv (l, it)))) \<and>
   (av_ok (availOf m stock rsv ovr l it) \<longleftrightarrow> av_why (availOf m stock rsv ovr l it) = None)"
  using availOf_iff [of m stock rsv ovr l it] availOf_why [of m stock rsv ovr l it]
  by (simp add: avail_def qty_def resv_def)

section \<open>Who may do what\<close>

lemmas feature_levels = grantable_def fdef_def lv_def both_def ALL_DESKS_def

lemma defaults_fit: "fits desk (snd (DESK_DEFAULTS desk))"
proof -
  have "list_all (\<lambda>f. case perm_f (snd (DESK_DEFAULTS desk)) f of None \<Rightarrow> True | Some l \<Rightarrow> grantable desk f l) feature_keys"
    by (cases desk) (simp_all add: feature_keys_def feature_map_def edit_def view_def feature_levels)
  then have "grantable desk f l" if "perm_f (snd (DESK_DEFAULTS desk)) f = Some l" for f l
    using that feature_keys_all [of f] by (auto simp: list_all_iff split: option.splits)
  moreover have "\<forall>a \<in> set (perm_a (snd (DESK_DEFAULTS desk))).
      (\<forall>ds. ad_desks (ACTIONS a) = Some ds \<longrightarrow> desk \<in> set ds) \<and>
      (\<forall>p. ad_parent (ACTIONS a) = Some p \<longrightarrow> can (snd (DESK_DEFAULTS desk)) p View)"
    by (cases desk) (auto simp: can_view feature_map_def edit_def view_def)
  ultimately show ?thesis by (auto simp: fits_def)
qed

text \<open>C38. A role's permissions are accepted exactly when every feature is one its desk may be given at that
  level, every action is one its desk may hold, and every action's parent feature is at least viewed;
  and the permissions each desk starts with are accepted for it.\<close>

theorem grant_refused_iff:
  "(grantRefusal desk perms = None \<longleftrightarrow>
     (\<forall>f l. perm_f perms f = Some l \<longrightarrow> grantable desk f l) \<and>
     (\<forall>a \<in> set (perm_a perms).
        (\<forall>ds. ad_desks (ACTIONS a) = Some ds \<longrightarrow> desk \<in> set ds) \<and>
        (\<forall>p. ad_parent (ACTIONS a) = Some p \<longrightarrow> perm_f perms p \<noteq> None))) \<and>
   grantRefusal desk (snd (DESK_DEFAULTS desk)) = None"
  using defaults_fit [of desk] by (simp add: grant_fits fits_def can_view)

theorem grant_refused_iff_witness:
  "grantRefusal Counter \<lparr>perm_f = [F_kitchen_stock \<mapsto> View], perm_a = []\<rparr> \<noteq> None"
proof -
  have "\<not> grantable Counter F_kitchen_stock View" by (simp add: feature_levels)
  then show ?thesis
    using grant_refused_iff [of Counter "\<lparr>perm_f = [F_kitchen_stock \<mapsto> View], perm_a = []\<rparr>"] by force
qed

text \<open>C39. Granting more never closes a door: whoever is let through a route with some permissions is let
  through it with any permissions that include them, and a route that names needs lets through exactly
  those who meet one of them.\<close>

theorem more_opens_more:
  "(perm_le p q \<and> (\<exists>w. admits access desk p = Admitted w) \<longrightarrow> (\<exists>w. admits access desk q = Admitted w)) \<and>
   ((\<exists>w. admits (Needs ns) desk p = Admitted w) \<longleftrightarrow>
      (\<exists>n \<in> set ns. case n of NeedF f l \<Rightarrow> can p f l | NeedA a \<Rightarrow> a \<in> set (perm_a p)))"
  using admits_mono [of p q access desk] admit_needs_iff [of desk p ns None]
  by (auto simp: admits_def meets_def split: need.splits)

theorem more_opens_more_witness:
  "\<exists>w. admits (Needs [NeedF F_billing View]) Counter (snd (DESK_DEFAULTS Counter)) = Admitted w"
proof -
  have "can (snd (DESK_DEFAULTS Counter)) F_billing View"
    by (simp add: can_view feature_map_def edit_def view_def)
  then show ?thesis
    using more_opens_more [where ns = "[NeedF F_billing View]" and desk = Counter and p = "snd (DESK_DEFAULTS Counter)"]
    by (auto simp del: DESK_DEFAULTS.simps)
qed

text \<open>C40. A refusal can be acted on: when a route answers 403 rather than \<open>There is nothing here\<close>, its
  sentence is the one of a need the caller does not meet, and an administrator could grant the
  caller's desk exactly that need, by itself, without the grant being refused.\<close>

theorem refusal_names_grantable:
  assumes "admits (Needs ns) desk perms = Refused 403 msg"
  shows "\<exists>n \<in> set ns. \<not> meets perms n \<and>
    msg = (case n of NeedF f l \<Rightarrow> permissionRefusal f | NeedA a \<Rightarrow> ad_refusal (ACTIONS a)) \<and>
    meets (least_for n) n \<and> grantRefusal desk (least_for n) = None"
proof -
  from assms have "admit_needs desk perms ns None = Refused 403 msg" by (simp add: admits_def)
  from admit_needs_refusal [OF this] obtain n where n: "n \<in> set ns" "\<not> meets perms n" "askable desk perms n"
    "msg = sentence n" by blast
  then show ?thesis using askable_fits [OF n(3)] least_meets [of n] grant_fits [of desk "least_for n"]
    by (auto simp: sentence_def)
qed

theorem refusal_names_grantable_witness:
  "grantRefusal Manager (least_for (NeedF F_qr_orders Edit)) = None"
proof -
  have "admits (Needs [NeedF F_qr_orders Edit]) Manager (snd (DESK_DEFAULTS Manager)) = Refused 403 (permissionRefusal F_qr_orders)"
    by (simp add: admits_def can_def feature_map_def edit_def view_def feature_levels)
  from refusal_names_grantable [OF this] show ?thesis by simp
qed

end
