(* ===== verification/Purse.thy ===== *)
theory Purse
  imports Custody
begin

text \<open>
  Where a QR customer's money is. The abstract purse forgets everything but each order's stage, the payment
  and the bill it names, the refunds owed, and the bills; eight things may happen to it. Every operation of
  the house does one of the eight, so what is proved of the purse in a few lines holds of the house: no
  captured payment is lost, billed twice, or both billed and given back.
\<close>

section \<open>The abstract purse\<close>

datatype stage = Waiting | Filled | Returned | Undone

fun stage_of :: "qrOrderStatus \<Rightarrow> stage" where
  "stage_of Qr_Awaiting = Waiting"
| "stage_of Qr_Expired = Waiting"
| "stage_of Qr_Refunded = Returned"
| "stage_of Qr_Voided = Undone"
| "stage_of _ = Filled"

record coin =
  co_stage :: stage
  co_payment :: "string option"
  co_bill :: "string option"
  co_total :: number

record owed =
  ow_order :: string
  ow_bill :: "string option"
  ow_payment :: string
  ow_amount :: number
  ow_reason :: refundReason

record purse =
  pu_orders :: "string \<Rightarrow> coin option"
  pu_owed :: "owed list"
  pu_bills :: "string \<Rightarrow> billRow option"

definition owed_on :: "purse \<Rightarrow> string \<Rightarrow> owed list" where
  "owed_on u q = filter (\<lambda>d. ow_order d = q) (pu_owed u)"

text \<open>A payment is on file with an order when the order names it or a refund of it is owed.\<close>

definition on_file :: "purse \<Rightarrow> string \<Rightarrow> string \<Rightarrow> bool" where
  "on_file u q p \<longleftrightarrow> (\<exists>c. pu_orders u q = Some c \<and> co_payment c = Some p) \<or> p \<in> ow_payment ` set (owed_on u q)"

inductive purse_step :: "purse \<Rightarrow> purse \<Rightarrow> bool" where
  rests: "purse_step u u"
| places: "pu_orders u q = None \<Longrightarrow>
    purse_step u (u\<lparr>pu_orders := (pu_orders u)(q \<mapsto> \<lparr>co_stage = Waiting, co_payment = None, co_bill = None, co_total = v\<rparr>)\<rparr>)"
| fills: "pu_orders u q = Some c \<Longrightarrow> co_stage c = Waiting \<Longrightarrow> p \<noteq> [] \<Longrightarrow> pu_bills u no = None \<Longrightarrow>
    bi_source b = QrSale \<Longrightarrow> bi_qrOrder b = Some q \<Longrightarrow> bi_void b = None \<Longrightarrow> bi_total b = co_total c \<Longrightarrow>
    purse_step u (u\<lparr>pu_orders := (pu_orders u)(q \<mapsto> c\<lparr>co_stage := Filled, co_payment := Some p, co_bill := Some no\<rparr>),
      pu_bills := (pu_bills u)(no \<mapsto> b)\<rparr>)"
| returns: "pu_orders u q = Some c \<Longrightarrow> co_stage c = Waiting \<Longrightarrow> p \<noteq> [] \<Longrightarrow> 0 < v \<Longrightarrow>
    purse_step u (u\<lparr>pu_orders := (pu_orders u)(q \<mapsto> c\<lparr>co_stage := Returned, co_payment := Some p\<rparr>),
      pu_owed := pu_owed u @ [\<lparr>ow_order = q, ow_bill = None, ow_payment = p, ow_amount = v, ow_reason = Rr_Unfulfillable\<rparr>]\<rparr>)"
| repeats: "pu_orders u q = Some c \<Longrightarrow> co_stage c \<noteq> Waiting \<Longrightarrow> \<not> on_file u q p \<Longrightarrow> 0 < v \<Longrightarrow>
    purse_step u (u\<lparr>pu_owed := pu_owed u @ [\<lparr>ow_order = q, ow_bill = None, ow_payment = p, ow_amount = v, ow_reason = Rr_Duplicate\<rparr>]\<rparr>)"
| undoes: "pu_orders u q = Some c \<Longrightarrow> co_stage c = Filled \<Longrightarrow> co_payment c = Some p \<Longrightarrow> co_bill c = Some no \<Longrightarrow>
    pu_bills u no = Some b \<Longrightarrow> 0 < bi_total b \<Longrightarrow>
    purse_step u (u\<lparr>pu_orders := (pu_orders u)(q \<mapsto> c\<lparr>co_stage := Undone\<rparr>),
      pu_owed := pu_owed u @ [\<lparr>ow_order = q, ow_bill = Some no, ow_payment = p, ow_amount = bi_total b, ow_reason = Rr_Void\<rparr>],
      pu_bills := (pu_bills u)(no \<mapsto> b\<lparr>bi_void := Some vm\<rparr>)\<rparr>)"
| rings: "pu_bills u no = None \<Longrightarrow> bi_source b = TillSale \<Longrightarrow> purse_step u (u\<lparr>pu_bills := (pu_bills u)(no \<mapsto> b)\<rparr>)"
| strikes: "pu_bills u no = Some b \<Longrightarrow> bi_source b = TillSale \<Longrightarrow>
    purse_step u (u\<lparr>pu_bills := (pu_bills u)(no \<mapsto> b\<lparr>bi_void := Some vm\<rparr>)\<rparr>)"

section \<open>What holds of a purse\<close>

text \<open>Of one order: nothing yet; a standing bill of what was quoted and no refund of its payment; no bill and
  one refund; a bill voided and one refund of what it came to. Every other refund is of another payment.\<close>

definition coin_ok :: "purse \<Rightarrow> string \<Rightarrow> coin \<Rightarrow> bool" where
  "coin_ok u q c \<longleftrightarrow> distinct (map ow_payment (owed_on u q)) \<and>
     (case co_stage c of
        Waiting \<Rightarrow> co_payment c = None \<and> co_bill c = None \<and> owed_on u q = []
      | Filled \<Rightarrow> (\<exists>p no b. p \<noteq> [] \<and> co_payment c = Some p \<and> co_bill c = Some no \<and> pu_bills u no = Some b \<and>
          bi_source b = QrSale \<and> bi_qrOrder b = Some q \<and> bi_void b = None \<and> bi_total b = co_total c \<and>
          p \<notin> ow_payment ` set (owed_on u q))
      | Returned \<Rightarrow> (\<exists>p. p \<noteq> [] \<and> co_payment c = Some p \<and> co_bill c = None \<and>
          (\<exists>d \<in> set (owed_on u q). ow_payment d = p \<and> ow_reason d = Rr_Unfulfillable))
      | Undone \<Rightarrow> (\<exists>p no b. p \<noteq> [] \<and> co_payment c = Some p \<and> co_bill c = Some no \<and> pu_bills u no = Some b \<and>
          bi_source b = QrSale \<and> bi_qrOrder b = Some q \<and> bi_void b \<noteq> None \<and> bi_total b = co_total c \<and>
          (\<exists>d \<in> set (owed_on u q). ow_payment d = p \<and> ow_reason d = Rr_Void \<and> ow_bill d = Some no \<and> ow_amount d = bi_total b)))"

definition sane :: "purse \<Rightarrow> bool" where
  "sane u \<longleftrightarrow> (\<forall>q c. pu_orders u q = Some c \<longrightarrow> coin_ok u q c) \<and>
     (\<forall>d \<in> set (pu_owed u). pu_orders u (ow_order d) \<noteq> None \<and> 0 < ow_amount d) \<and>
     (\<forall>no b. pu_bills u no = Some b \<longrightarrow> bi_source b = QrSale \<longrightarrow>
        (\<exists>q c. bi_qrOrder b = Some q \<and> pu_orders u q = Some c \<and> co_bill c = Some no))"

lemma saneD:
  assumes "sane u"
  shows "pu_orders u q = Some c \<Longrightarrow> coin_ok u q c"
    and "d \<in> set (pu_owed u) \<Longrightarrow> pu_orders u (ow_order d) \<noteq> None \<and> 0 < ow_amount d"
    and "pu_bills u no = Some b \<Longrightarrow> bi_source b = QrSale \<Longrightarrow> \<exists>q c. bi_qrOrder b = Some q \<and> pu_orders u q = Some c \<and> co_bill c = Some no"
  using assms unfolding sane_def by blast+

lemma owed_on_upd [simp]:
  "owed_on (u\<lparr>pu_orders := os\<rparr>) q = owed_on u q" "owed_on (u\<lparr>pu_bills := bs\<rparr>) q = owed_on u q"
  "owed_on (u\<lparr>pu_owed := ds @ [d]\<rparr>) q = owed_on (u\<lparr>pu_owed := ds\<rparr>) q @ (if ow_order d = q then [d] else [])"
  "owed_on (u\<lparr>pu_owed := pu_owed u\<rparr>) q = owed_on u q"
  by (simp_all add: owed_on_def)

text \<open>An order the step does not touch stays right as long as its refunds and its bill stay.\<close>

lemma coin_ok_other:
  assumes "coin_ok u q c" "owed_on u' q = owed_on u q"
    and "\<And>no b. co_bill c = Some no \<Longrightarrow> pu_bills u no = Some b \<Longrightarrow> bi_qrOrder b = Some q \<Longrightarrow> bi_source b = QrSale \<Longrightarrow> pu_bills u' no = Some b"
  shows "coin_ok u' q c"
proof -
  show ?thesis
  proof (cases "co_stage c")
    case Filled
    with assms(1) obtain p no b where "p \<noteq> [] \<and> co_payment c = Some p \<and> co_bill c = Some no \<and> pu_bills u no = Some b \<and>
      bi_source b = QrSale \<and> bi_qrOrder b = Some q \<and> bi_void b = None \<and> bi_total b = co_total c \<and> p \<notin> ow_payment ` set (owed_on u q)"
      by (auto simp: coin_ok_def)
    moreover from this have "pu_bills u' no = Some b" using assms(3) by blast
    ultimately show ?thesis using assms(1,2) Filled by (auto simp: coin_ok_def)
  next
    case Undone
    with assms(1) obtain p no b where "p \<noteq> [] \<and> co_payment c = Some p \<and> co_bill c = Some no \<and> pu_bills u no = Some b \<and>
      bi_source b = QrSale \<and> bi_qrOrder b = Some q \<and> bi_void b \<noteq> None \<and> bi_total b = co_total c \<and>
      (\<exists>d \<in> set (owed_on u q). ow_payment d = p \<and> ow_reason d = Rr_Void \<and> ow_bill d = Some no \<and> ow_amount d = bi_total b)"
      unfolding coin_ok_def by (simp only: stage.case) blast
    moreover from this have "pu_bills u' no = Some b" using assms(3) by blast
    ultimately show ?thesis using assms(1,2) Undone unfolding coin_ok_def by (simp only: stage.case) blast
  qed (use assms(1,2) in \<open>auto simp: coin_ok_def\<close>)
qed

lemma waiting_nothing: "coin_ok u q c \<Longrightarrow> co_stage c = Waiting \<Longrightarrow> co_payment c = None \<and> co_bill c = None \<and> owed_on u q = []"
  by (simp add: coin_ok_def)

lemma none_owed: "sane u \<Longrightarrow> pu_orders u q = None \<Longrightarrow> owed_on u q = []"
  using saneD(2) [of u] by (fastforce simp: owed_on_def filter_empty_conv)

text \<open>A bill belongs to one order, so a step on one order's bill leaves every other order's alone.\<close>

lemma sane_step: "purse_step u u' \<Longrightarrow> sane u \<Longrightarrow> sane u'"
proof (induction rule: purse_step.induct)
  case (places u q v)
  let ?u = "u\<lparr>pu_orders := (pu_orders u)(q \<mapsto> \<lparr>co_stage = Waiting, co_payment = None, co_bill = None, co_total = v\<rparr>)\<rparr>"
  have "coin_ok ?u x c" if "pu_orders ?u x = Some c" for x c
  proof (cases "x = q")
    case True
    then show ?thesis using that none_owed [OF places(2,1)] by (auto simp: coin_ok_def)
  next
    case False
    then show ?thesis using that saneD(1) [OF places(2), of x c] by (auto elim!: coin_ok_other)
  qed
  moreover have "\<forall>d \<in> set (pu_owed ?u). pu_orders ?u (ow_order d) \<noteq> None \<and> 0 < ow_amount d"
    using saneD(2) [OF places(2)] by auto
  moreover have "\<exists>x c. bi_qrOrder b = Some x \<and> pu_orders ?u x = Some c \<and> co_bill c = Some no"
    if b: "pu_bills ?u no = Some b" "bi_source b = QrSale" for no b
  proof -
    obtain x c where x: "bi_qrOrder b = Some x" "pu_orders u x = Some c" "co_bill c = Some no"
      using saneD(3) [OF places(2), of no b] b by auto
    then have "x \<noteq> q" using places(1) by auto
    then show ?thesis using x by auto
  qed
  ultimately show ?case by (simp add: sane_def)
next
  case (fills u q c p no b)
  let ?c = "c\<lparr>co_stage := Filled, co_payment := Some p, co_bill := Some no\<rparr>"
  let ?u = "u\<lparr>pu_orders := (pu_orders u)(q \<mapsto> ?c), pu_bills := (pu_bills u)(no \<mapsto> b)\<rparr>"
  note old = waiting_nothing [OF saneD(1) [OF fills(9,1)] fills(2)]
  have "coin_ok ?u x k" if "pu_orders ?u x = Some k" for x k
  proof (cases "x = q")
    case True
    then show ?thesis using that old fills by (auto simp: coin_ok_def)
  next
    case False
    with that have "pu_orders u x = Some k" by simp
    from saneD(1) [OF fills(9) this] show ?thesis by (rule coin_ok_other) (use fills(4) in auto)
  qed
  moreover have "\<forall>d \<in> set (pu_owed ?u). pu_orders ?u (ow_order d) \<noteq> None \<and> 0 < ow_amount d"
    using saneD(2) [OF fills(9)] by auto
  moreover have "\<exists>x k. bi_qrOrder b' = Some x \<and> pu_orders ?u x = Some k \<and> co_bill k = Some n"
    if b': "pu_bills ?u n = Some b'" "bi_source b' = QrSale" for n b'
  proof (cases "n = no")
    case True
    then show ?thesis using b' fills(6) by auto
  next
    case False
    then obtain x k where x: "bi_qrOrder b' = Some x" "pu_orders u x = Some k" "co_bill k = Some n"
      using saneD(3) [OF fills(9), of n b'] b' by auto
    then have "x \<noteq> q" using fills(1) old by auto
    then show ?thesis using x by auto
  qed
  ultimately show ?case by (simp add: sane_def)
next
  case (returns u q c p v)
  let ?c = "c\<lparr>co_stage := Returned, co_payment := Some p\<rparr>"
  let ?d = "\<lparr>ow_order = q, ow_bill = None, ow_payment = p, ow_amount = v, ow_reason = Rr_Unfulfillable\<rparr>"
  let ?u = "u\<lparr>pu_orders := (pu_orders u)(q \<mapsto> ?c), pu_owed := pu_owed u @ [?d]\<rparr>"
  note old = waiting_nothing [OF saneD(1) [OF returns(5,1)] returns(2)]
  have "coin_ok ?u x k" if "pu_orders ?u x = Some k" for x k
  proof (cases "x = q")
    case True
    then show ?thesis using that old returns by (auto simp: coin_ok_def owed_on_def)
  next
    case False
    with that have "pu_orders u x = Some k" by simp
    from saneD(1) [OF returns(5) this] show ?thesis by (rule coin_ok_other) (use False in \<open>auto simp: owed_on_def\<close>)
  qed
  moreover have "\<forall>d \<in> set (pu_owed ?u). pu_orders ?u (ow_order d) \<noteq> None \<and> 0 < ow_amount d"
    using saneD(2) [OF returns(5)] returns(4) by auto
  moreover have "\<exists>x k. bi_qrOrder b = Some x \<and> pu_orders ?u x = Some k \<and> co_bill k = Some n"
    if b: "pu_bills ?u n = Some b" "bi_source b = QrSale" for n b
  proof -
    obtain x k where x: "bi_qrOrder b = Some x" "pu_orders u x = Some k" "co_bill k = Some n"
      using saneD(3) [OF returns(5), of n b] b by auto
    then have "x \<noteq> q" using returns(1) old by auto
    then show ?thesis using x by auto
  qed
  ultimately show ?case by (simp add: sane_def)
next
  case (repeats u q c p v)
  let ?d = "\<lparr>ow_order = q, ow_bill = None, ow_payment = p, ow_amount = v, ow_reason = Rr_Duplicate\<rparr>"
  let ?u = "u\<lparr>pu_owed := pu_owed u @ [?d]\<rparr>"
  have "coin_ok ?u x k" if "pu_orders ?u x = Some k" for x k
  proof (cases "x = q")
    case True
    then have "k = c" using that repeats(1) by simp
    with saneD(1) [OF repeats(5,1)] repeats(2,3) True repeats(1) show ?thesis
      unfolding coin_ok_def on_file_def by (cases "co_stage c") (auto simp: owed_on_def)
  next
    case False
    with that have "pu_orders u x = Some k" by simp
    from saneD(1) [OF repeats(5) this] show ?thesis by (rule coin_ok_other) (use False in \<open>auto simp: owed_on_def\<close>)
  qed
  moreover have "\<forall>d \<in> set (pu_owed ?u). pu_orders ?u (ow_order d) \<noteq> None \<and> 0 < ow_amount d"
    using saneD(2) [OF repeats(5)] repeats(1,4) by auto
  ultimately show ?case using saneD(3) [OF repeats(5)] by (simp add: sane_def)
next
  case (undoes u q c p no b vm)
  let ?c = "c\<lparr>co_stage := Undone\<rparr>" and ?b = "b\<lparr>bi_void := Some vm\<rparr>"
  let ?d = "\<lparr>ow_order = q, ow_bill = Some no, ow_payment = p, ow_amount = bi_total b, ow_reason = Rr_Void\<rparr>"
  let ?u = "u\<lparr>pu_orders := (pu_orders u)(q \<mapsto> ?c), pu_owed := pu_owed u @ [?d], pu_bills := (pu_bills u)(no \<mapsto> ?b)\<rparr>"
  note old = saneD(1) [OF undoes(7,1)]
  have q: "bi_source b = QrSale" "bi_qrOrder b = Some q" "p \<noteq> []" "bi_total b = co_total c" "p \<notin> ow_payment ` set (owed_on u q)"
    "distinct (map ow_payment (owed_on u q))"
    using old undoes by (auto simp: coin_ok_def)
  have "coin_ok ?u x k" if "pu_orders ?u x = Some k" for x k
  proof (cases "x = q")
    case True
    then show ?thesis using that q undoes(3,4) by (auto simp: coin_ok_def owed_on_def)
  next
    case False
    with that have "pu_orders u x = Some k" by simp
    from saneD(1) [OF undoes(7) this] show ?thesis
      by (rule coin_ok_other) (use False q undoes(5) in \<open>auto simp: owed_on_def\<close>)
  qed
  moreover have "\<forall>d \<in> set (pu_owed ?u). pu_orders ?u (ow_order d) \<noteq> None \<and> 0 < ow_amount d"
    using saneD(2) [OF undoes(7)] undoes(1,6) by auto
  moreover have "\<exists>x k. bi_qrOrder b' = Some x \<and> pu_orders ?u x = Some k \<and> co_bill k = Some n"
    if b': "pu_bills ?u n = Some b'" "bi_source b' = QrSale" for n b'
  proof (cases "n = no")
    case True
    then show ?thesis using b' q undoes(4) by auto
  next
    case False
    then obtain x k where "bi_qrOrder b' = Some x" "pu_orders u x = Some k" "co_bill k = Some n"
      using saneD(3) [OF undoes(7), of n b'] b' by auto
    then show ?thesis using undoes(1) by (cases "x = q") auto
  qed
  ultimately show ?case by (simp add: sane_def)
next
  case (rings u no b)
  have "coin_ok (u\<lparr>pu_bills := (pu_bills u)(no \<mapsto> b)\<rparr>) x k" if "pu_orders u x = Some k" for x k
    using saneD(1) [OF rings(3) that] by (rule coin_ok_other) (use rings(1) in auto)
  then show ?case using saneD(2,3) [OF rings(3)] rings(2) by (auto simp: sane_def)
next
  case (strikes u no b vm)
  have "coin_ok (u\<lparr>pu_bills := (pu_bills u)(no \<mapsto> b\<lparr>bi_void := Some vm\<rparr>)\<rparr>) x k" if "pu_orders u x = Some k" for x k
    using saneD(1) [OF strikes(3) that] by (rule coin_ok_other) (use strikes(1,2) in auto)
  then show ?case using saneD(2,3) [OF strikes(3)] strikes(2) by (auto simp: sane_def)
qed

text \<open>What is on file stays on file.\<close>

lemma on_file_step: "purse_step u u' \<Longrightarrow> sane u \<Longrightarrow> on_file u q p \<Longrightarrow> on_file u' q p"
proof (induction rule: purse_step.induct)
  case (fills u q' c p' no b)
  then have "co_payment c = None" using waiting_nothing [OF saneD(1)] by blast
  then show ?case using fills by (auto simp: on_file_def)
next
  case (returns u q' c p' v)
  then have "co_payment c = None" using waiting_nothing [OF saneD(1)] by blast
  then show ?case using returns by (auto simp: on_file_def owed_on_def)
qed (auto simp: on_file_def owed_on_def)

section \<open>The house as a purse\<close>

definition coin_of :: "qrOrderRow \<Rightarrow> coin" where
  "coin_of o' = \<lparr>co_stage = stage_of (qd_status o'), co_payment = qd_payment o', co_bill = qd_bill o', co_total = qd_total o'\<rparr>"

definition owed_of :: "refundRow \<Rightarrow> owed" where
  "owed_of r = \<lparr>ow_order = rf_order r, ow_bill = rf_bill r, ow_payment = rf_payment r, ow_amount = rf_amount r, ow_reason = rf_reason r\<rparr>"

definition purse_of :: "house \<Rightarrow> purse" where
  "purse_of h = \<lparr>pu_orders = (\<lambda>q. map_option coin_of (qrOrder_of h q)), pu_owed = map (owed_of \<circ> snd) (ho_refunds h),
     pu_bills = bill_of h\<rparr>"

lemma purse_of_sel [simp]:
  "pu_orders (purse_of h) q = map_option coin_of (qrOrder_of h q)" "pu_owed (purse_of h) = map (owed_of \<circ> snd) (ho_refunds h)"
  "pu_bills (purse_of h) = bill_of h"
  by (simp_all add: purse_of_def)

lemma purse_same:
  "ho_qrOrders h' = ho_qrOrders h \<Longrightarrow> ho_refunds h' = ho_refunds h \<Longrightarrow> ho_bills h' = ho_bills h \<Longrightarrow> purse_of h' = purse_of h"
  by (simp add: purse_of_def fun_eq_iff qrOrder_of_def bill_of_def)

lemma purse_on_db [simp]: "purse_of (on_db f h) = purse_of h"
  by (rule purse_same) simp_all

lemma purse_operator [simp]: "purse_of (systemOperator h) = purse_of h"
  by (simp add: systemOperator_def)

lemma purse_money: "same_money h h' \<Longrightarrow> purse_of h' = purse_of h"
  by (rule purse_same) (simp_all add: same_money_def)

text \<open>A step on one order's row, on one refund's row, and a refund queued.\<close>

lemma purse_update_order:
  assumes "h' = h\<lparr>ho_db := d, ho_qrOrders := update_row (ho_qrOrders h) i f\<rparr>" "qrOrder_of h i = Some o'"
  shows "purse_of h' = (purse_of h)\<lparr>pu_orders := (pu_orders (purse_of h))(i \<mapsto> coin_of (f o'))\<rparr>"
  using assms(2) by (simp add: assms(1) purse_of_def fun_eq_iff qrOrder_of_def bill_of_def)

lemma purse_order_still:
  assumes "h' = h\<lparr>ho_db := d, ho_qrOrders := update_row (ho_qrOrders h) i f\<rparr>"
    and "\<And>o'. qrOrder_of h i = Some o' \<Longrightarrow> coin_of (f o') = coin_of o'"
  shows "purse_of h' = purse_of h"
  using assms(2) by (auto simp: assms(1) purse_of_def fun_eq_iff qrOrder_of_def bill_of_def option.map_comp intro!: option.map_cong)

lemma purse_update_refund:
  assumes "\<And>r. owed_of (f r) = owed_of r"
  shows "purse_of (update_refund i f h) = purse_of h"
proof -
  have "map (owed_of \<circ> snd) (update_row t i f) = map (owed_of \<circ> snd) t" for t
    using assms by (induction t) (auto simp: update_row_def)
  then show ?thesis by (simp add: purse_of_def update_refund_def fun_eq_iff qrOrder_of_def bill_of_def)
qed

lemma purse_queued:
  assumes "queueRefund q p v why no at' h = Inr h'"
  shows "0 < v" and "purse_of h' = (purse_of h)\<lparr>pu_owed := pu_owed (purse_of h) @
    [\<lparr>ow_order = q, ow_bill = no, ow_payment = p, ow_amount = v, ow_reason = why\<rparr>]\<rparr>"
  using queueRefund_shape [OF assms]
  by (auto simp: purse_of_def new_refund_def owed_of_def fun_eq_iff qrOrder_of_def bill_of_def)

section \<open>Steps the purse does not feel\<close>

lemma owed_moved [simp]: "owed_of (moved_refund to rzp err at' r) = owed_of r" "owed_of (claimed now r) = owed_of r"
  by (simp_all add: owed_of_def moved_refund_def claimed_def Let_def)

lemma purse_moveRefund: "moveRefund i to rzp err at' h = Inr h' \<Longrightarrow> purse_of h' = purse_of h"
  by (auto simp: moveRefund_def purse_update_refund split: if_splits)

lemma purse_deferRefund: "deferRefund i err final at' counted h = Inr (r, h') \<Longrightarrow> purse_of h' = purse_of h"
  by (auto simp: deferRefund_def Let_def owed_of_def intro!: purse_update_refund split: if_splits)

lemma purse_claims: "purse_of (foldl (\<lambda>h i. update_refund i (claimed now) h) h is) = purse_of h"
  by (induction "is" arbitrary: h) (simp_all add: purse_update_refund)

lemma purse_refunds:
  "claimDueRefunds coll now limit busy h = Inr h' \<Longrightarrow> purse_of h' = purse_of h"
  "refundSent_tx i g at' h = Inr h' \<Longrightarrow> purse_of h' = purse_of h"
  "refundUnsent_tx i err final at' h = Inr h' \<Longrightarrow> purse_of h' = purse_of h"
  "settleRefund_tx rzp note processed at' h = Inr h' \<Longrightarrow> purse_of h' = purse_of h"
  "retryRefund_tx i at' h = Inr h' \<Longrightarrow> purse_of h' = purse_of h"
proof -
  show "claimDueRefunds coll now limit busy h = Inr h' \<Longrightarrow> purse_of h' = purse_of h"
    by (auto simp: claimDueRefunds_def purse_claims)
  show "refundSent_tx i g at' h = Inr h' \<Longrightarrow> purse_of h' = purse_of h"
    by (cases "gf_status g") (auto simp: refundSent_tx_def dest!: purse_moveRefund split: option.splits if_splits)
  show "refundUnsent_tx i err final at' h = Inr h' \<Longrightarrow> purse_of h' = purse_of h"
    by (auto simp: refundUnsent_tx_def dest!: purse_deferRefund split: option.splits if_splits)
  show "settleRefund_tx rzp note processed at' h = Inr h' \<Longrightarrow> purse_of h' = purse_of h"
    by (auto simp: settleRefund_tx_def dest!: purse_moveRefund split: option.splits if_splits)
  show "retryRefund_tx i at' h = Inr h' \<Longrightarrow> purse_of h' = purse_of h"
    by (auto simp: retryRefund_tx_def dest!: purse_moveRefund)
qed

lemma purse_moveQr:
  assumes "moveQrOrder (i, o') to who at' note patch h = Inr h'" "qrOrder_of h i = Some o'"
  shows "to \<in> set (QR_ORDER_TRANSITIONS (qd_status o'))"
    and "purse_of h' = (purse_of h)\<lparr>pu_orders := (pu_orders (purse_of h))(i \<mapsto> coin_of (patch (o'\<lparr>qd_status := to\<rparr>)))\<rparr>"
    and "qrOrder_of h' x = (if x = i then Some (patch (o'\<lparr>qd_status := to\<rparr>)) else qrOrder_of h x)"
proof -
  from moveQrOrder_shape [OF assms(1)] obtain d where t: "to \<in> set (QR_ORDER_TRANSITIONS (qd_status o'))" and
    h': "h' = h\<lparr>ho_db := d, ho_qrOrders := update_row (ho_qrOrders h) i (\<lambda>r. patch (r\<lparr>qd_status := to\<rparr>))\<rparr>" by auto
  show "to \<in> set (QR_ORDER_TRANSITIONS (qd_status o'))" by (rule t)
  show "purse_of h' = (purse_of h)\<lparr>pu_orders := (pu_orders (purse_of h))(i \<mapsto> coin_of (patch (o'\<lparr>qd_status := to\<rparr>)))\<rparr>"
    by (rule purse_update_order [OF h' assms(2)])
  show "qrOrder_of h' x = (if x = i then Some (patch (o'\<lparr>qd_status := to\<rparr>)) else qrOrder_of h x)"
    using assms(2) by (simp add: h' qrOrder_of_def)
qed

lemma purse_moveQr_still:
  assumes "moveQrOrder (i, o') to who at' note id h = Inr h'" "qrOrder_of h i = Some o'" "stage_of to = stage_of (qd_status o')"
  shows "purse_of h' = purse_of h"
  using purse_moveQr(2) [OF assms(1,2)] assms(2,3) by (simp add: purse_of_def fun_eq_iff coin_of_def)

lemma next_step_filled: "nextQrStep m s = Some t \<Longrightarrow> stage_of s = Filled \<and> stage_of t = Filled"
  by (cases m; cases s) (auto simp: nextQrStep_def)

lemma purse_expire_all:
  assumes "expire_all now xs h = Inr h'" "\<And>x. x \<in> set xs \<Longrightarrow> \<exists>o'. qrOrder_of h (fst x) = Some o' \<and> stage_of (qd_status o') = Waiting"
  shows "purse_of h' = purse_of h"
  using assms
proof (induction xs arbitrary: h)
  case (Cons x xs)
  then obtain h1 where h1: "moveQrOrder x Qr_Expired SYSTEM_QR_NAME now None id h = Inr h1" "expire_all now xs h1 = Inr h'" by auto
  from Cons.prems(2) [of x] obtain o' where o': "qrOrder_of h (fst x) = Some o'" "stage_of (qd_status o') = Waiting" by auto
  from moveQrOrder_shape [OF h1(1)] obtain d where
    s: "h1 = h\<lparr>ho_db := d, ho_qrOrders := update_row (ho_qrOrders h) (fst x) (\<lambda>r. id (r\<lparr>qd_status := Qr_Expired\<rparr>))\<rparr>" by blast
  have "purse_of h1 = purse_of h" by (rule purse_order_still [OF s]) (use o' in \<open>auto simp: coin_of_def\<close>)
  moreover have "purse_of h' = purse_of h1"
  proof (rule Cons.IH [OF h1(2)])
    fix y assume "y \<in> set xs"
    with Cons.prems(2) [of y] show "\<exists>o'. qrOrder_of h1 (fst y) = Some o' \<and> stage_of (qd_status o') = Waiting"
      by (auto simp: s qrOrder_of_def)
  qed
  ultimately show ?case by simp
qed simp

lemma purse_counter:
  "setRzpOrder_tx i rzp h = Inr h' \<Longrightarrow> purse_of h' = purse_of h"
  "lapse_tx i at' h = Inr h' \<Longrightarrow> purse_of h' = purse_of h"
  "qrSetStatus_tx a i to at' h = Inr h' \<Longrightarrow> purse_of h' = purse_of h"
  "markWebhook_tx ev h = Inr h' \<Longrightarrow> purse_of h' = purse_of h"
  "setPause_tx loc pz h = Inr h' \<Longrightarrow> purse_of h' = purse_of h"
  "createCode_tx loc label mode token at' h = Inr h' \<Longrightarrow> purse_of h' = purse_of h"
  "updateCode_tx i label' mode' active h = Inr h' \<Longrightarrow> purse_of h' = purse_of h"
  "regenerateCode_tx i token at' h = Inr h' \<Longrightarrow> purse_of h' = purse_of h"
  "setHours_tx loc days h = Inr h' \<Longrightarrow> purse_of h' = purse_of h"
proof -
  have "update_qrOrder i (\<lambda>r. if qd_rzpOrder r = None then r\<lparr>qd_rzpOrder := Some rzp\<rparr> else r) h = h\<lparr>ho_db := ho_db h,
      ho_qrOrders := update_row (ho_qrOrders h) i (\<lambda>r. if qd_rzpOrder r = None then r\<lparr>qd_rzpOrder := Some rzp\<rparr> else r)\<rparr>"
    by (simp add: update_qrOrder_def)
  then have "purse_of (update_qrOrder i (\<lambda>r. if qd_rzpOrder r = None then r\<lparr>qd_rzpOrder := Some rzp\<rparr> else r) h) = purse_of h"
    by (rule purse_order_still) (simp add: coin_of_def)
  then show "setRzpOrder_tx i rzp h = Inr h' \<Longrightarrow> purse_of h' = purse_of h"
    by (auto simp: setRzpOrder_tx_def split: if_splits)
  show "lapse_tx i at' h = Inr h' \<Longrightarrow> purse_of h' = purse_of h"
    by (auto simp: lapse_tx_def dest: purse_moveQr_still split: option.splits if_splits)
  show "qrSetStatus_tx a i to at' h = Inr h' \<Longrightarrow> purse_of h' = purse_of h"
    by (auto simp: qrSetStatus_tx_def Let_def dest!: next_step_filled dest: purse_moveQr_still)
qed (auto simp: markWebhook_tx_def setPause_tx_def createCode_tx_def updateCode_tx_def regenerateCode_tx_def setHours_tx_def
    allocateId_ok intro!: purse_same split: if_splits)

lemma purse_expire:
  assumes "expire_tx coll now busy h = Inr h'" "orders_ok h"
  shows "purse_of h' = purse_of h"
  using assms(1) unfolding expire_tx_def
proof (rule purse_expire_all)
  fix x assume "x \<in> set (dueToExpire coll now busy h)"
  then have "x \<in> set (ho_qrOrders h)" "qd_status (snd x) = Qr_Awaiting"
    by (auto simp: dueToExpire_def dest!: in_set_takeD)
  then show "\<exists>o'. qrOrder_of h (fst x) = Some o' \<and> stage_of (qd_status o') = Waiting"
    using assms(2) by (intro exI [of _ "snd x"]) (simp add: orders_ok_def qrOrder_of_def)
qed

end
