(* ===== verification/Wallet.thy ===== *)
theory Wallet
  imports Purse
begin

text \<open>
  The house keeps the purse: each operation's step on it, the refinement, and what follows for a customer's
  payment, its refund and the news of it, whatever calls were made in between and in whatever order.
\<close>

section \<open>Placing, selling, voiding, capturing\<close>

definition keeps_purse :: "house \<Rightarrow> house \<Rightarrow> bool" where
  "keeps_purse h h' \<longleftrightarrow> purse_step (purse_of h) (purse_of h')"

lemma keeps_same: "purse_of h' = purse_of h \<Longrightarrow> keeps_purse h h'"
  by (simp add: keeps_purse_def rests)

lemma add_new: "m i = None \<Longrightarrow> [i \<mapsto> r] ++ m = m(i \<mapsto> r)"
  by (auto simp: map_add_def fun_eq_iff split: option.splits)

lemma keeps_place: "place_tx cfg gw token body secret ip now h = Inr h' \<Longrightarrow> keeps_purse h h'"
proof -
  assume a: "place_tx cfg gw token body secret ip now h = Inr h'"
  have replayed: "purse_of h' = purse_of h" if "replay_tx prior code secret now h = Inr h'" for prior code
  proof -
    have "update_qrOrder (fst prior) (\<lambda>r. r\<lparr>qd_secret := secret\<rparr>) h = h\<lparr>ho_db := ho_db h,
        ho_qrOrders := update_row (ho_qrOrders h) (fst prior) (\<lambda>r. r\<lparr>qd_secret := secret\<rparr>)\<rparr>" by (simp add: update_qrOrder_def)
    then have "purse_of (update_qrOrder (fst prior) (\<lambda>r. r\<lparr>qd_secret := secret\<rparr>) h) = purse_of h"
      by (rule purse_order_still) (simp add: coin_of_def)
    then show ?thesis using that by (auto simp: replay_tx_def split: if_splits)
  qed
  have placed: "keeps_purse h h'" if "placed_tx cfg token body phone secret ip now h = Inr h'" for phone
    using that
  proof (rule placed_shape)
    fix c i d
    let ?o = "quoted_order cfg c body phone secret ip now (quote h (qc_loc (snd c)) (pb_lines body))"
    assume new: "qrOrder_of h i = None" and h': "h' = h\<lparr>ho_db := d, ho_qrOrders := ho_qrOrders h @ [(i, ?o)]\<rparr>"
    then have "purse_of h' = (purse_of h)\<lparr>pu_orders := (pu_orders (purse_of h))(i \<mapsto>
        \<lparr>co_stage = Waiting, co_payment = None, co_bill = None, co_total = qd_total ?o\<rparr>)\<rparr>"
      by (simp add: purse_of_def fun_eq_iff qrOrder_of_def bill_of_def add_new)
        (simp add: coin_of_def quoted_order_def)
    moreover have "purse_step (purse_of h) \<dots>" by (rule places) (simp add: new)
    ultimately show ?thesis by (simp add: keeps_purse_def)
  qed
  from a show ?thesis by (auto simp: place_tx_def intro: placed keeps_same replayed split: option.splits if_splits)
qed

text \<open>A sale adds its bill and nothing else the purse sees.\<close>

lemma sale_purse:
  assumes "postSale i at' us h = Inr ((no, ch), h')"
  obtains b where "bill_of h no = None" "bi_source b = si_source i" "bi_qrOrder b = si_qrOrder i" "bi_void b = None"
    "bill_of h' no = Some b" "purse_of h' = (purse_of h)\<lparr>pu_bills := (pu_bills (purse_of h))(no \<mapsto> b)\<rparr>"
    "qrOrder_of h' = qrOrder_of h" "bi_lines b = pl_lines (sale_plan i h (bi_payer b))" "ho_bills h' = ho_bills h @ [(no, b)]"
  using assms
proof (rule sale_shape)
  fix payer b
  assume new: "bill_of h no = None" and b: "bi_source b = si_source i" "bi_qrOrder b = si_qrOrder i" "bi_void b = None"
    "bi_payer b = payer" "bi_lines b = pl_lines (sale_plan i h payer)" and bills: "ho_bills h' = ho_bills h @ [(no, b)]"
    and same: "ho_qrOrders h' = ho_qrOrders h" "ho_refunds h' = ho_refunds h"
  have "bill_of h' x = (if x = no then Some b else bill_of h x)" for x
    using new by (simp add: bill_of_def bills add_new)
  then show ?thesis
    by (intro that [OF new b(1-3)]) (use b bills in \<open>simp_all add: purse_of_def fun_eq_iff qrOrder_of_def same\<close>)
qed

lemma keeps_pay: "pay_tx c body at' us h = Inr h' \<Longrightarrow> keeps_purse h h'"
proof -
  assume "pay_tx c body at' us h = Inr h'"
  then obtain no ch h1 where s: "postSale (till_sale c body) at' us h = Inr ((no, ch), h1)" and h': "h' = on_db (emitChanged ch) h1"
    unfolding pay_tx_sale by blast
  from s show ?thesis
    by (rule sale_purse) (use rings [of "purse_of h" no] in \<open>simp add: keeps_purse_def h'\<close>)
qed

lemma keeps_void:
  assumes "voidBill_tx c no raw at' h = Inr h'" "sane (purse_of h)"
  shows "keeps_purse h h'"
  using assms(1)
proof (rule void_shape)
  fix b
  let ?vm = "\<lparr>vm_at = at', vm_by = cl_sub c, vm_reason = trim raw\<rparr>"
  assume b: "bill_of h no = Some b" and ok: "void_refusal c no (trim raw) at' b h = None"
    and bills: "ho_bills h' = update_row (ho_bills h) no (\<lambda>b. b\<lparr>bi_void := Some ?vm\<rparr>)"
    and v: "void_qr (void_order h b) no (bi_total b) at' h h'"
  have bo: "bill_of h' = (bill_of h)(no \<mapsto> b\<lparr>bi_void := Some ?vm\<rparr>)"
    using b by (auto simp: bill_of_def bills)
  show "keeps_purse h h'"
  proof (cases "bi_source b")
    case TillSale
    then have "ho_qrOrders h' = ho_qrOrders h" "ho_refunds h' = ho_refunds h"
      using v by (simp_all add: void_qr_def void_order_def)
    then have "purse_of h' = (purse_of h)\<lparr>pu_bills := (pu_bills (purse_of h))(no \<mapsto> b\<lparr>bi_void := Some ?vm\<rparr>)\<rparr>"
      by (simp add: purse_of_def bo fun_eq_iff qrOrder_of_def)
    moreover have "purse_step (purse_of h) \<dots>" by (rule strikes) (simp_all add: b TillSale)
    ultimately show ?thesis by (simp add: keeps_purse_def)
  next
    case QrSale
    with saneD(3) [OF assms(2), of no b] b obtain q o' where q: "bi_qrOrder b = Some q" "qrOrder_of h q = Some o'" "qd_bill o' = Some no"
      by (auto simp: coin_of_def)
    have "coin_ok (purse_of h) q (coin_of o')" using saneD(1) [OF assms(2), of q "coin_of o'"] q(2) by simp
    then obtain p where p: "stage_of (qd_status o') = Filled" "qd_payment o' = Some p" "p \<noteq> []"
      using q(3) b void_refusal_facts(1) [OF ok] by (cases "stage_of (qd_status o')") (auto simp: coin_ok_def coin_of_def)
    have ord: "void_order h b = Some (q, o')" using q QrSale by (simp add: void_order_def qrOrder_of_def)
    from v p obtain j where pos: "0 < bi_total b"
      and qs: "ho_qrOrders h' = update_row (ho_qrOrders h) q (\<lambda>r. r\<lparr>qd_status := Qr_Voided\<rparr>)"
      and rs: "ho_refunds h' = ho_refunds h @ [(j, new_refund q p (bi_total b) Rr_Void (Some no) at')]"
      by (auto simp: void_qr_def ord truthy_def)
    have "purse_of h' = (purse_of h)\<lparr>pu_orders := (pu_orders (purse_of h))(q \<mapsto> (coin_of o')\<lparr>co_stage := Undone\<rparr>),
        pu_owed := pu_owed (purse_of h) @ [\<lparr>ow_order = q, ow_bill = Some no, ow_payment = p, ow_amount = bi_total b, ow_reason = Rr_Void\<rparr>],
        pu_bills := (pu_bills (purse_of h))(no \<mapsto> b\<lparr>bi_void := Some ?vm\<rparr>)\<rparr>"
      using q(2) by (auto simp: purse_of_def bo qs rs fun_eq_iff qrOrder_of_def coin_of_def owed_of_def new_refund_def)
    moreover have "purse_step (purse_of h) \<dots>"
      by (rule undoes) (use q p b pos in \<open>simp_all add: coin_of_def\<close>)
    ultimately show ?thesis by (simp add: keeps_purse_def)
  qed
qed

lemma owed_on_of: "owed_on (purse_of h) q = map (owed_of \<circ> snd) (filter (\<lambda>r. rf_order (snd r) = q) (ho_refunds h))"
  by (simp add: owed_on_def filter_map o_def owed_of_def)

lemma refundOfPayment_iff: "refundOfPayment h q p \<longleftrightarrow> p \<in> ow_payment ` set (owed_on (purse_of h) q)"
  by (force simp: refundOfPayment_def owed_on_of list_ex_iff owed_of_def)

lemma keeps_capture:
  assumes "capture_tx i p at' us h = Inr h'" "sane (purse_of h)" "gp_id p \<noteq> []"
  shows "keeps_purse h h' \<and> on_file (purse_of h') i (gp_id p)"
  using assms(1)
proof (cases rule: capture_cases)
  case (same o')
  then show ?thesis by (simp add: keeps_same on_file_def coin_of_def)
next
  case (again o')
  then show ?thesis using refundOfPayment_iff [of h i] by (simp add: keeps_same on_file_def)
next
  case (duplicate o' h1)
  have c: "coin_ok (purse_of h) i (coin_of o')" using saneD(1) [OF assms(2), of i "coin_of o'"] duplicate(1) by simp
  have "stage_of (qd_status o') \<noteq> Waiting"
  proof
    assume w: "stage_of (qd_status o') = Waiting"
    with waiting_nothing [OF c] have "qd_payment o' = None" by (simp add: coin_of_def)
    with duplicate(4) w show False by (cases "qd_status o'") (auto simp: truthy_def)
  qed
  moreover have "\<not> on_file (purse_of h) i (gp_id p)"
    using duplicate(1-3) by (auto simp: on_file_def refundOfPayment_iff coin_of_def)
  ultimately show ?thesis
    using repeats [of "purse_of h" i "coin_of o'" "gp_id p" "rupees (gp_paise p)"] purse_queued [OF duplicate(5)] duplicate(1,6)
    by (simp add: keeps_purse_def coin_of_def on_file_def owed_on_def)
next
  case (billed o' no ch h1 b h2)
  let ?o = "o'\<lparr>qd_status := Qr_Paid, qd_payment := Some (gp_id p), qd_bill := Some no, qd_paidAt := Some at'\<rparr>"
  have w: "stage_of (qd_status o') = Waiting" using billed(3) by auto
  from billed(6) show ?thesis
  proof (rule sale_purse)
    fix b'
    assume new: "bill_of (systemOperator h) no = None" and b': "bi_source b' = si_source (qr_sale_input i o')"
      "bi_qrOrder b' = si_qrOrder (qr_sale_input i o')" "bi_void b' = None" "bill_of h1 no = Some b'"
      and pu: "purse_of h1 = (purse_of (systemOperator h))\<lparr>pu_bills := (pu_bills (purse_of (systemOperator h)))(no \<mapsto> b')\<rparr>"
      and qo: "qrOrder_of h1 = qrOrder_of (systemOperator h)"
    have bb: "b' = b" using b'(4) billed(7) by simp
    have orders: "qrOrder_of (systemOperator h) = qrOrder_of h" "bill_of (systemOperator h) = bill_of h"
      by (simp_all add: fun_eq_iff qrOrder_of_def bill_of_def systemOperator_def)
    have "qrOrder_of h1 i = Some o'" using billed(1) by (simp add: qo orders)
    from purse_moveQr(2) [OF billed(10) this]
    have "purse_of h' = (purse_of h)\<lparr>pu_orders := (pu_orders (purse_of h))(i \<mapsto>
        (coin_of o')\<lparr>co_stage := Filled, co_payment := Some (gp_id p), co_bill := Some no\<rparr>),
        pu_bills := (pu_bills (purse_of h))(no \<mapsto> b)\<rparr>"
      by (simp add: billed(11) pu bb coin_of_def)
    moreover have "purse_step (purse_of h) \<dots>"
      by (rule fills) (use billed(1,9) w assms(3) new b' in \<open>simp_all add: orders bb coin_of_def qr_sale_input_def\<close>)
    ultimately show ?thesis by (simp add: keeps_purse_def on_file_def)
  qed
next
  case (refunded o' why h1 h2)
  have w: "stage_of (qd_status o') = Waiting" using refunded(3) by auto
  have "qrOrder_of (systemOperator h) i = Some o'" using refunded(1) by (simp add: qrOrder_of_def systemOperator_def)
  from purse_moveQr(2) [OF refunded(5) this] purse_queued [OF refunded(6)]
  have "purse_of h' = (purse_of h)\<lparr>pu_orders := (pu_orders (purse_of h))(i \<mapsto>
      (coin_of o')\<lparr>co_stage := Returned, co_payment := Some (gp_id p)\<rparr>),
      pu_owed := pu_owed (purse_of h) @ [\<lparr>ow_order = i, ow_bill = None, ow_payment = gp_id p, ow_amount = rupees (gp_paise p),
         ow_reason = Rr_Unfulfillable\<rparr>]\<rparr>"
    by (simp add: refunded(7) coin_of_def)
  moreover have "purse_step (purse_of h) \<dots>"
    by (rule returns) (use refunded(1) w assms(3) purse_queued(1) [OF refunded(6)] in \<open>simp_all add: coin_of_def\<close>)
  ultimately show ?thesis by (simp add: keeps_purse_def on_file_def)
qed

section \<open>The refinement\<close>

lemma purse_adjustment:
  assumes "\<exists>draft i h1. writeAdjustment draft at' h = Inr (i, h1) \<and> quiet (ho_db h1) (ho_db h') \<and> same_money h1 h'"
  shows "purse_of h' = purse_of h"
  using assms adjust_rest purse_money by metis

lemma purse_papers:
  "record_tx coll c sbody at' h = Inr h' \<Longrightarrow> purse_of h' = purse_of h"
  "voidSettlement_tx c i raw at' h = Inr h' \<Longrightarrow> purse_of h' = purse_of h"
  "closeRegister_tx c cbody at' h = Inr h' \<Longrightarrow> purse_of h' = purse_of h"
  "receivePo_tx c i rbody at' h = Inr h' \<Longrightarrow> purse_of h' = purse_of h"
proof -
  show "record_tx coll c sbody at' h = Inr h' \<Longrightarrow> purse_of h' = purse_of h"
    by (rule purse_same) (auto simp: record_tx_def Let_def insertSettlement_def)
  show "voidSettlement_tx c i raw at' h = Inr h' \<Longrightarrow> purse_of h' = purse_of h"
    by (rule purse_same) (auto simp: voidSettlement_tx_def)
  show "closeRegister_tx c cbody at' h = Inr h' \<Longrightarrow> purse_of h' = purse_of h"
    by (rule purse_same) (auto simp: closeRegister_tx_def takeOpenSession_def openSessionAt_def split: option.splits)
  show "receivePo_tx c i rbody at' h = Inr h' \<Longrightarrow> purse_of h' = purse_of h"
    by (erule receive_shape) (rule purse_same, simp_all)
qed

lemma purse_stock: "purse_of (snd (on_stock f h)) = purse_of h"
  by (rule purse_same) (simp_all add: on_stock_def split_beta)

lemmas purse_quiet = quiet_accounts(1,2) [THEN conjunct2, THEN purse_money] quiet_corrections [THEN conjunct2, THEN purse_money]
  quiet_requisitions [THEN conjunct2, THEN purse_money] quiet_draft [THEN conjunct2, THEN purse_money]
  quiet_line [THEN conjunct2, THEN purse_money] quiet_orders [THEN conjunct2, THEN purse_money]
  adjust_writes [THEN purse_adjustment] purse_papers purse_refunds purse_counter

fun moves_purse :: "hop \<Rightarrow> bool" where
  "moves_purse (Op_pay _ _ _ _) = True"
| "moves_purse (Op_voidBill _ _ _ _) = True"
| "moves_purse (Op_capture _ _ _ _) = True"
| "moves_purse (Op_place _ _ _ _ _ _ _) = True"
| "moves_purse (Op_expire _ _) = True"
| "moves_purse _ = False"

lemma serve_still: "\<not> moves_purse op \<Longrightarrow> purse_of (snd (serve coll op h)) = purse_of h"
  by (cases op; simp add: house_service_defs; (rule purse_stock | rule keeps_transact, erule purse_quiet, rule refl))

lemma keeps_capture': "capture_tx i p at' us h = Inr h' \<Longrightarrow> sane (purse_of h) \<Longrightarrow> gp_id p \<noteq> [] \<Longrightarrow> keeps_purse h h'"
  using keeps_capture by blast

lemma keeps_expire: "expire_tx coll now busy h = Inr h' \<Longrightarrow> orders_ok h \<Longrightarrow> keeps_purse h h'"
  by (intro keeps_same purse_expire)

lemma serve_purse:
  assumes "wire op" "orders_ok h" "sane (purse_of h)"
  shows "keeps_purse h (snd (serve coll op h))"
proof (cases "moves_purse op")
  case False
  then show ?thesis by (intro keeps_same serve_still)
next
  case True
  have ok: "keeps_purse h (snd (transact f h))" if "\<And>h'. f h = Inr h' \<Longrightarrow> keeps_purse h h'" for f
    by (rule keeps_transact) (use that keeps_same in auto)
  from True show ?thesis
    by (cases op) (use assms in \<open>auto simp: house_service_defs intro!: ok
      elim: keeps_pay keeps_void keeps_capture' keeps_place keeps_expire\<close>)
qed

text \<open>A machine that keeps a purse: every step from a sane purse is one of the eight.\<close>

locale purse_machine = guarded_machine ex safe
  for ex :: "'o \<Rightarrow> 'd \<Rightarrow> error option \<times> 'd" and safe :: "'d \<Rightarrow> bool" +
  fixes view :: "'d \<Rightarrow> purse"
  assumes steps: "safe d \<Longrightarrow> sane (view d) \<Longrightarrow> purse_step (view d) (view (snd (ex op d)))"
begin

lemma runs_sane: "runs ex d d' \<Longrightarrow> safe d \<Longrightarrow> sane (view d) \<Longrightarrow> sane (view d')"
  by (induction rule: runs.induct) (auto intro: sane_step steps runs_safe)

lemma runs_simulated: "runs ex d d' \<Longrightarrow> safe d \<Longrightarrow> sane (view d) \<Longrightarrow> purse_step\<^sup>*\<^sup>* (view d) (view d')"
  by (induction rule: runs.induct) (auto intro: rtranclp.rtrancl_into_rtrancl steps runs_safe runs_sane)

lemma runs_on_file: "runs ex d d' \<Longrightarrow> safe d \<Longrightarrow> sane (view d) \<Longrightarrow> on_file (view d) q p \<Longrightarrow> on_file (view d') q p"
  by (induction rule: runs.induct) (auto intro: on_file_step steps runs_safe runs_sane)

end

lemma hexec_purse: "hinv h \<Longrightarrow> sane (purse_of h) \<Longrightarrow> purse_step (purse_of h) (purse_of (snd (hexec coll op h)))"
  using serve_purse [of op h coll] rests [of "purse_of h"] by (simp add: hexec_def hinv_def books_def keeps_purse_def)

interpretation wallet: purse_machine "hexec coll" hinv purse_of for coll
  by unfold_locales (rule hexec_purse)

text \<open>A house that starts with no QR order on its books.\<close>

definition no_qr_yet :: "house \<Rightarrow> bool" where
  "no_qr_yet h \<longleftrightarrow> ho_qrOrders h = [] \<and> ho_refunds h = [] \<and> list_all (\<lambda>b. bi_source (snd b) = TillSale) (ho_bills h)"

lemma sane_start: "no_qr_yet h \<Longrightarrow> sane (purse_of h)"
  by (auto simp: no_qr_yet_def sane_def qrOrder_of_def bill_of_def list_all_iff dest!: map_of_SomeD)

lemma sane_reached: "dayOne h0 \<Longrightarrow> no_qr_yet h0 \<Longrightarrow> runs (hexec coll) h0 h \<Longrightarrow> sane (purse_of h)"
  by (rule wallet.runs_sane) (auto intro: sane_start hinv_reached [OF _ runs.here])

section \<open>What a customer can count on\<close>

definition refunds_of :: "house \<Rightarrow> string \<Rightarrow> refundRow list" where
  "refunds_of h q = filter (\<lambda>r. rf_order r = q) (map snd (ho_refunds h))"

lemma owed_on_refunds: "owed_on (purse_of h) q = map owed_of (refunds_of h q)"
  by (simp add: owed_on_of refunds_of_def filter_map o_def)

lemma coin_ok_house:
  assumes "coin_ok (purse_of h) q (coin_of o')"
  shows "distinct (map rf_payment (refunds_of h q))"
    "stage_of (qd_status o') = Waiting \<Longrightarrow> qd_payment o' = None \<and> qd_bill o' = None \<and> refunds_of h q = []"
    "stage_of (qd_status o') = Filled \<Longrightarrow> \<exists>p no b. qd_payment o' = Some p \<and> qd_bill o' = Some no \<and> bill_of h no = Some b \<and>
       bi_qrOrder b = Some q \<and> bi_void b = None \<and> bi_total b = qd_total o' \<and> (\<forall>r \<in> set (refunds_of h q). rf_payment r \<noteq> p)"
    "stage_of (qd_status o') = Returned \<Longrightarrow> \<exists>p r. qd_payment o' = Some p \<and> qd_bill o' = None \<and> r \<in> set (refunds_of h q) \<and>
       rf_payment r = p \<and> rf_reason r = Rr_Unfulfillable"
    "stage_of (qd_status o') = Undone \<Longrightarrow> \<exists>p no b r. qd_payment o' = Some p \<and> qd_bill o' = Some no \<and> bill_of h no = Some b \<and>
       bi_qrOrder b = Some q \<and> bi_void b \<noteq> None \<and> r \<in> set (refunds_of h q) \<and> rf_payment r = p \<and> rf_reason r = Rr_Void \<and>
       rf_bill r = Some no \<and> rf_amount r = qd_total o'"
  using assms by (auto simp: coin_ok_def owed_on_refunds coin_of_def owed_of_def o_def image_image)

text \<open>A payment on file is settled: its capture is answered and writes nothing.\<close>

lemma capture_filed:
  assumes "on_file (purse_of h) i p" "sane (purse_of h)" "gp_id g = p"
  shows "capture_tx i g at' us h = Inr h"
proof -
  have refunded: "\<exists>o'. qrOrder_of h i = Some o' \<and> stage_of (qd_status o') \<noteq> Waiting" if "refundOfPayment h i p"
  proof -
    from that obtain d where on: "d \<in> set (owed_on (purse_of h) i)" by (auto simp: refundOfPayment_iff)
    then have d: "d \<in> set (pu_owed (purse_of h))" "ow_order d = i" unfolding owed_on_def by auto
    from saneD(2) [OF assms(2) d(1)] d(2) obtain o' where o': "qrOrder_of h i = Some o'" by auto
    from on have "owed_on (purse_of h) i \<noteq> []" by auto
    then have "stage_of (qd_status o') \<noteq> Waiting"
      using saneD(1) [OF assms(2), of i "coin_of o'"] o' by (auto simp: coin_ok_def coin_of_def)
    with o' show ?thesis by blast
  qed
  show ?thesis
  proof (cases "refundOfPayment h i p")
    case True
    with refunded obtain o' where o': "qrOrder_of h i = Some o'" "stage_of (qd_status o') \<noteq> Waiting" by blast
    then have "qd_status o' \<noteq> Qr_Awaiting" "qd_status o' \<noteq> Qr_Expired" by auto
    then show ?thesis using o'(1) True by (simp add: capture_tx_def second_capture_def assms(3))
  next
    case False
    then obtain o' where "qrOrder_of h i = Some o'" "qd_payment o' = Some p"
      using assms(1) by (auto simp: on_file_def refundOfPayment_iff coin_of_def)
    then show ?thesis by (simp add: capture_tx_def assms(3))
  qed
qed

lemma stage_cases:
  "stage_of s = Waiting \<longleftrightarrow> s = Qr_Awaiting \<or> s = Qr_Expired" "stage_of s = Returned \<longleftrightarrow> s = Qr_Refunded"
  "stage_of s = Undone \<longleftrightarrow> s = Qr_Voided"
  "stage_of s = Filled \<longleftrightarrow> s \<in> {Qr_Paid, Qr_Preparing, Qr_Ready, Qr_OutForDelivery, Qr_Collected, Qr_Delivered}"
  by (cases s; simp)+

text \<open>C3. A customer's money is in one place. Whatever has been done in the house, an order is in exactly one of
  four positions: unpaid, with no payment, no bill and no refund on it; filled, with one standing bill of
  exactly what was quoted and no refund of the payment that bought it; given back, with no bill and the
  payment refunded; or voided, its bill struck and the payment refunded to the paisa. No payment is
  refunded twice.\<close>

theorem money_in_one_place:
  assumes "dayOne h0" and "no_qr_yet h0" and "runs (hexec coll) h0 h" and "qrOrder_of h i = Some o'"
  shows "distinct (map rf_payment (refunds_of h i)) \<and>
    (qd_status o' \<in> {Qr_Awaiting, Qr_Expired} \<and> qd_payment o' = None \<and> qd_bill o' = None \<and> refunds_of h i = [] \<or>
     qd_status o' \<in> {Qr_Paid, Qr_Preparing, Qr_Ready, Qr_OutForDelivery, Qr_Collected, Qr_Delivered} \<and>
       (\<exists>p no b. qd_payment o' = Some p \<and> qd_bill o' = Some no \<and> bill_of h no = Some b \<and> bi_qrOrder b = Some i \<and>
         bi_void b = None \<and> bi_total b = qd_total o' \<and> (\<forall>r \<in> set (refunds_of h i). rf_payment r \<noteq> p)) \<or>
     qd_status o' = Qr_Refunded \<and> (\<exists>p r. qd_payment o' = Some p \<and> qd_bill o' = None \<and> r \<in> set (refunds_of h i) \<and>
       rf_payment r = p \<and> rf_reason r = Rr_Unfulfillable) \<or>
     qd_status o' = Qr_Voided \<and> (\<exists>p no b r. qd_payment o' = Some p \<and> qd_bill o' = Some no \<and> bill_of h no = Some b \<and>
       bi_qrOrder b = Some i \<and> bi_void b \<noteq> None \<and> r \<in> set (refunds_of h i) \<and> rf_payment r = p \<and>
       rf_reason r = Rr_Void \<and> rf_bill r = Some no \<and> rf_amount r = qd_total o'))"
proof -
  have "coin_ok (purse_of h) i (coin_of o')"
    using saneD(1) [OF sane_reached [OF assms(1-3)], of i "coin_of o'"] assms(4) by simp
  note ok = coin_ok_house [OF this]
  show ?thesis
    using ok(1) ok(2-5) [unfolded stage_cases] by (cases "qd_status o'") simp_all
qed

text \<open>C4. A capture settles once. Once a captured payment has been settled against an order, by the phone, the
  webhook or the worker, any later report of the same payment is acknowledged and changes nothing at all,
  whatever else the house has done in between: no second bill, no second refund.\<close>

theorem capture_settles_once:
  assumes "dayOne h0" and "no_qr_yet h0" and "runs (hexec coll) h0 h1"
    and "hexec coll (Op_capture i p t us) h1 = (None, h2)" and "runs (hexec coll) h2 h3" and "gp_id p' = gp_id p"
  shows "hexec coll (Op_capture i p' t' us') h3 = (None, h3)"
proof -
  have w: "gp_id p \<noteq> []" and tx: "capture_tx i p t us h1 = Inr h2"
    using assms(4) by (auto simp: hexec_def transact_def split: if_splits sum.splits)
  have s1: "sane (purse_of h1)" by (rule sane_reached [OF assms(1-3)])
  have filed: "on_file (purse_of h2) i (gp_id p)" using keeps_capture [OF tx s1 w] by blast
  have i2: "hinv h2" using hinv_exec [OF hinv_reached [OF assms(1,3)], of coll "Op_capture i p t us"] assms(4) by simp
  have s2: "sane (purse_of h2)" using sane_step [OF _ s1] keeps_capture [OF tx s1 w] by (simp add: keeps_purse_def)
  have f3: "on_file (purse_of h3) i (gp_id p)" by (rule wallet.runs_on_file [OF assms(5) i2 s2 filed])
  have s3: "sane (purse_of h3)" by (rule wallet.runs_sane [OF assms(5) i2 s2])
  have "capture_tx i p' t' us' h3 = Inr h3" by (rule capture_filed [OF f3 s3 assms(6)])
  then show ?thesis using w assms(6) by (simp add: hexec_def transact_def)
qed

end
