(* ===== verification/Payback.thy ===== *)
theory Payback
  imports Wallet
begin

text \<open>
  The life of a refund, whatever the worker, the gateway's news and the managers do to it and in whatever
  order: what is owed to whom never changes, its status walks the table, and a refund that reached the
  customer is never touched again.
\<close>

definition refund_kept :: "refundRow \<Rightarrow> refundRow \<Rightarrow> bool" where
  "refund_kept r r' \<longleftrightarrow> rf_order r' = rf_order r \<and> rf_payment r' = rf_payment r \<and> rf_amount r' = rf_amount r \<and>
     rf_reason r' = rf_reason r \<and> rf_bill r' = rf_bill r \<and> walks REFUND_TRANSITIONS (rf_status r) (rf_status r') \<and>
     (rf_status r = Ref_Processed \<longrightarrow> r' = r)"

definition refund_step :: "house \<Rightarrow> house \<Rightarrow> bool" where
  "refund_step h h' \<longleftrightarrow> rows_kept refund_kept (refund_of h) (refund_of h')"

lemma refund_kept_refl: "refund_kept r r"
  by (simp add: refund_kept_def walks.stay)

lemma refund_kept_trans: "refund_kept a b \<Longrightarrow> refund_kept b c \<Longrightarrow> refund_kept a c"
  by (auto simp: refund_kept_def intro: walks_trans)

lemma refund_step_same: "ho_refunds h' = ho_refunds h \<Longrightarrow> refund_step h h'"
  using rows_kept_refl [of refund_kept] refund_kept_refl by (simp add: refund_step_def refund_of_def [abs_def])

lemma refund_step_refl [simp]: "refund_step h h"
  by (rule refund_step_same) simp

lemma refund_step_trans: "refund_step a b \<Longrightarrow> refund_step b c \<Longrightarrow> refund_step a c"
  unfolding refund_step_def by (rule rows_kept_trans [of refund_kept, OF refund_kept_trans])

lemma refund_step_cong: "ho_refunds b' = ho_refunds b \<Longrightarrow> refund_step a b \<Longrightarrow> refund_step a b'"
  by (simp add: refund_step_def refund_of_def [abs_def])

lemma refund_step_notes [simp]: "refund_step a (on_db f b) = refund_step a b"
  by (auto intro: refund_step_cong [rotated])

lemma refund_of_update: "refund_of (update_refund i f h) x = (if x = i then map_option f (refund_of h i) else refund_of h x)"
  by (simp add: refund_of_def update_refund_def)

lemma refund_step_update:
  assumes "\<And>r. refund_of h i = Some r \<Longrightarrow> refund_kept r (f r)"
  shows "refund_step h (update_refund i f h)"
  unfolding refund_step_def
  by (rule rows_keptI) (use assms refund_kept_refl in \<open>auto simp: refund_of_update\<close>)

lemma refund_step_new:
  assumes "map_of (ho_refunds h) j = None" "ho_refunds h' = ho_refunds h @ [(j, r)]"
  shows "refund_step h h'"
  using rows_kept_snoc [of "ho_refunds h" j refund_kept r] assms refund_kept_refl
  by (simp add: refund_step_def refund_of_def [abs_def])

section \<open>The moves\<close>

lemma moved_kept: "to \<in> set (REFUND_TRANSITIONS (rf_status r)) \<Longrightarrow> refund_kept r (moved_refund to rzp err at' r)"
  by (cases "rf_status r") (auto simp: refund_kept_def moved_refund_def Let_def intro!: walks_step)

lemma step_moveRefund: "moveRefund i to rzp err at' h = Inr h' \<Longrightarrow> refund_step h h'"
  by (auto simp: moveRefund_def refundForUpdate_def intro!: refund_step_update moved_kept split: option.splits if_splits)

lemma step_deferRefund: "deferRefund i err final at' counted h = Inr (r, h') \<Longrightarrow> refund_of h i = Some r0 \<Longrightarrow>
    rf_status r0 = Ref_Pending \<Longrightarrow> refund_step h h'"
  by (auto simp: deferRefund_def refundForUpdate_def Let_def refund_kept_def intro!: refund_step_update walks.stay walks_step
      split: if_splits)

lemma step_claims:
  assumes "\<And>i. i \<in> set is \<Longrightarrow> \<exists>r. refund_of h i = Some r \<and> rf_status r = Ref_Pending"
  shows "refund_step h (foldl (\<lambda>h i. update_refund i (claimed now) h) h is)"
  using assms
proof (induction "is" arbitrary: h)
  case (Cons i "is")
  have "refund_step h (update_refund i (claimed now) h)"
    by (rule refund_step_update) (use Cons.prems [of i] in \<open>auto simp: refund_kept_def claimed_def Let_def intro: walks.stay\<close>)
  moreover have "refund_step (update_refund i (claimed now) h) (foldl (\<lambda>h i. update_refund i (claimed now) h) (update_refund i (claimed now) h) is)"
  proof (rule Cons.IH)
    fix x assume "x \<in> set is"
    then show "\<exists>r. refund_of (update_refund i (claimed now) h) x = Some r \<and> rf_status r = Ref_Pending"
      using Cons.prems [of x] by (auto simp: refund_of_update claimed_def Let_def)
  qed
  ultimately show ?case by (simp add: refund_step_trans)
qed simp

lemma step_claim: "claimDueRefunds coll now limit busy h = Inr h' \<Longrightarrow> orders_ok h \<Longrightarrow> refund_step h h'"
proof -
  assume "claimDueRefunds coll now limit busy h = Inr h'" "orders_ok h"
  moreover have "\<exists>r. refund_of h i = Some r \<and> rf_status r = Ref_Pending" if "i \<in> set (due_refunds coll now limit busy h)" for i
  proof -
    from that obtain r where "(i, r) \<in> set (ho_refunds h)" "rf_status r = Ref_Pending"
      by (auto simp: due_refunds_def dest!: in_set_takeD)
    then show ?thesis using \<open>orders_ok h\<close> by (intro exI [of _ r]) (simp add: orders_ok_def refund_of_def)
  qed
  ultimately show ?thesis by (auto simp: claimDueRefunds_def intro: step_claims)
qed

lemma step_refunds:
  "refundSent_tx i g at' h = Inr h' \<Longrightarrow> refund_step h h'"
  "refundUnsent_tx i err final at' h = Inr h' \<Longrightarrow> refund_step h h'"
  "settleRefund_tx rzp note processed at' h = Inr h' \<Longrightarrow> refund_step h h'"
  "retryRefund_tx i at' h = Inr h' \<Longrightarrow> refund_step h h'"
proof -
  show "refundSent_tx i g at' h = Inr h' \<Longrightarrow> refund_step h h'"
    by (cases "gf_status g") (auto simp: refundSent_tx_def dest!: step_moveRefund intro: refund_step_trans split: option.splits if_splits)
  show "refundUnsent_tx i err final at' h = Inr h' \<Longrightarrow> refund_step h h'"
    by (auto simp: refundUnsent_tx_def dest!: step_deferRefund split: option.splits if_splits)
  show "retryRefund_tx i at' h = Inr h' \<Longrightarrow> refund_step h h'"
    by (auto simp: retryRefund_tx_def dest!: step_moveRefund)
  have two: "refund_step h b" if "moveRefund i Ref_Sent x y t h = Inr a" "moveRefund i Ref_Processed x y t a = Inr b" for i x y t a b
    using that step_moveRefund refund_step_trans by blast
  show "settleRefund_tx rzp note processed at' h = Inr h' \<Longrightarrow> refund_step h h'"
    by (auto simp: settleRefund_tx_def split: option.splits if_splits) (blast intro: two step_moveRefund)+
qed

lemma step_queued: "queueRefund q p v why no at' h = Inr h' \<Longrightarrow> refund_step h h'"
  by (drule queueRefund_shape) (auto intro: refund_step_new)

section \<open>Everything else\<close>

lemma moveQr_refunds: "moveQrOrder row to who at' note patch h = Inr h' \<Longrightarrow> ho_refunds h' = ho_refunds h"
  by (drule moveQrOrder_shape) auto

lemma expire_refunds: "expire_all now xs h = Inr h' \<Longrightarrow> ho_refunds h' = ho_refunds h"
  by (induction xs arbitrary: h) (auto dest!: moveQr_refunds)

lemma refund_step_money: "same_money h h' \<Longrightarrow> refund_step h h'"
  by (rule refund_step_same) (simp add: same_money_def)

lemma step_adjustment:
  assumes "\<exists>draft i h1. writeAdjustment draft at' h = Inr (i, h1) \<and> quiet (ho_db h1) (ho_db h') \<and> same_money h1 h'"
  shows "refund_step h h'"
  using assms adjust_rest refund_step_money refund_step_trans by metis

lemma step_pay: "pay_tx c body at' us h = Inr h' \<Longrightarrow> refund_step h h'"
  by (erule pay_shape) (rule refund_step_same)

lemma step_void: "voidBill_tx c no raw at' h = Inr h' \<Longrightarrow> refund_step h h'"
  by (erule void_shape) (auto simp: void_qr_def intro: refund_step_same refund_step_new split: option.splits)

lemma step_capture: "capture_tx i p at' us h = Inr h' \<Longrightarrow> refund_step h h'"
proof (erule capture_cases)
  fix o' no ch h1 b h2
  assume s: "postSale (qr_sale_input i o') at' us (systemOperator h) = Inr ((no, ch), h1)"
    and m: "moveQrOrder (i, o') Qr_Paid SYSTEM_QR_NAME at' None
        (\<lambda>r. r\<lparr>qd_payment := Some (gp_id p), qd_bill := Some no, qd_paidAt := Some at'\<rparr>) h1 = Inr h2"
    and h': "h' = on_db (emitChanged (ch @ [Ch_qrOrders])) h2"
  from s have "ho_refunds h1 = ho_refunds (systemOperator h)" by (rule sale_shape)
  then show "refund_step h h'"
    using moveQr_refunds [OF m] by (intro refund_step_same) (simp add: h' systemOperator_def)
next
  fix o' why h1 h2
  assume m: "moveQrOrder (i, o') Qr_Refunded SYSTEM_QR_NAME at' (Some why) (\<lambda>r. r\<lparr>qd_payment := Some (gp_id p)\<rparr>) (systemOperator h) = Inr h1"
    and q: "queueRefund i (gp_id p) (rupees (gp_paise p)) Rr_Unfulfillable None at' h1 = Inr h2"
    and h': "h' = on_db (emitChanged [Ch_qrOrders]) h2"
  have "refund_step h h1" using moveQr_refunds [OF m] by (intro refund_step_same) (simp add: systemOperator_def)
  then show "refund_step h h'" using step_queued [OF q] refund_step_trans by (simp add: h')
qed (simp_all add: step_queued)

lemma step_papers:
  "record_tx coll c sbody at' h = Inr h' \<Longrightarrow> refund_step h h'"
  "voidSettlement_tx c i raw at' h = Inr h' \<Longrightarrow> refund_step h h'"
  "closeRegister_tx c cbody at' h = Inr h' \<Longrightarrow> refund_step h h'"
  "receivePo_tx c i rbody at' h = Inr h' \<Longrightarrow> refund_step h h'"
proof -
  show "record_tx coll c sbody at' h = Inr h' \<Longrightarrow> refund_step h h'"
    by (rule refund_step_same) (auto simp: record_tx_def Let_def insertSettlement_def)
  show "voidSettlement_tx c i raw at' h = Inr h' \<Longrightarrow> refund_step h h'"
    by (rule refund_step_same) (auto simp: voidSettlement_tx_def)
  show "closeRegister_tx c cbody at' h = Inr h' \<Longrightarrow> refund_step h h'"
    by (rule refund_step_same) (auto simp: closeRegister_tx_def takeOpenSession_def openSessionAt_def split: option.splits)
  show "receivePo_tx c i rbody at' h = Inr h' \<Longrightarrow> refund_step h h'"
    by (erule receive_shape) (rule refund_step_same)
qed

lemma step_qr:
  "place_tx cfg gw token body secret ip now h = Inr h' \<Longrightarrow> refund_step h h'"
  "setRzpOrder_tx i rzp h = Inr h' \<Longrightarrow> refund_step h h'"
  "lapse_tx i at' h = Inr h' \<Longrightarrow> refund_step h h'"
  "qrSetStatus_tx a i to at' h = Inr h' \<Longrightarrow> refund_step h h'"
  "expire_tx coll now busy h = Inr h' \<Longrightarrow> refund_step h h'"
  "markWebhook_tx ev h = Inr h' \<Longrightarrow> refund_step h h'"
  "setPause_tx loc pz h = Inr h' \<Longrightarrow> refund_step h h'"
  "createCode_tx loc label mode token at' h = Inr h' \<Longrightarrow> refund_step h h'"
  "updateCode_tx i label' mode' active h = Inr h' \<Longrightarrow> refund_step h h'"
  "regenerateCode_tx i token at' h = Inr h' \<Longrightarrow> refund_step h h'"
  "setHours_tx loc days h = Inr h' \<Longrightarrow> refund_step h h'"
proof -
  have "ho_refunds h' = ho_refunds h" if "placed_tx cfg token body phone secret ip now h = Inr h'" for phone
    using that by (rule placed_shape) simp
  moreover have "ho_refunds h' = ho_refunds h" if "replay_tx prior code secret now h = Inr h'" for prior code
    using that by (auto simp: replay_tx_def update_qrOrder_def split: if_splits)
  ultimately show "place_tx cfg gw token body secret ip now h = Inr h' \<Longrightarrow> refund_step h h'"
    by (intro refund_step_same) (auto simp: place_tx_def split: option.splits if_splits)
qed (auto simp: setRzpOrder_tx_def lapse_tx_def qrSetStatus_tx_def expire_tx_def markWebhook_tx_def
    setPause_tx_def createCode_tx_def updateCode_tx_def regenerateCode_tx_def setHours_tx_def allocateId_ok update_qrOrder_def Let_def
    intro!: refund_step_same dest!: moveQr_refunds expire_refunds split: option.splits if_splits)

lemma step_stock: "refund_step h (snd (on_stock f h))"
  by (rule refund_step_same) (simp add: on_stock_def split_beta)

lemmas step_quiet = quiet_accounts(1,2) [THEN conjunct2, THEN refund_step_money] quiet_corrections [THEN conjunct2, THEN refund_step_money]
  quiet_requisitions [THEN conjunct2, THEN refund_step_money] quiet_draft [THEN conjunct2, THEN refund_step_money]
  quiet_line [THEN conjunct2, THEN refund_step_money] quiet_orders [THEN conjunct2, THEN refund_step_money]
  adjust_writes [THEN step_adjustment] step_pay step_void step_capture step_papers step_refunds step_qr

lemma refund_step_exec: "orders_ok h \<Longrightarrow> refund_step h (snd (hexec coll op h))"
  by (rule keeps_route, (cases op; simp add: house_service_defs;
    (rule step_stock | rule keeps_transact, (erule step_quiet | erule (1) step_claim), rule refund_step_refl)), rule refund_step_refl)

lemma runs_refund_step: "hinv h \<Longrightarrow> runs (hexec coll) h h' \<Longrightarrow> refund_step h h'"
  by (rule hall.runs_relates [where rel = refund_step])
    (auto intro: refund_step_trans refund_step_exec simp: hinv_def books_def)

text \<open>C6. A refund is a promise kept. From the moment a refund is on the books, whatever the worker, the gateway's
  news, the managers and everyone else do, it is owed against the same payment of the same order, for the
  same amount and the same reason; its status walks the refund table; and once it reached the customer its
  row is never written again.\<close>

theorem refund_life:
  assumes "dayOne h0" and "runs (hexec coll) h0 h1" and "refund_of h1 i = Some r" and "runs (hexec coll) h1 h2"
  shows "\<exists>r'. refund_of h2 i = Some r' \<and> rf_order r' = rf_order r \<and> rf_payment r' = rf_payment r \<and>
    rf_amount r' = rf_amount r \<and> rf_reason r' = rf_reason r \<and> rf_bill r' = rf_bill r \<and>
    walks REFUND_TRANSITIONS (rf_status r) (rf_status r') \<and> (rf_status r = Ref_Processed \<longrightarrow> r' = r)"
  using rows_keptD [OF runs_refund_step [OF hinv_reached [OF assms(1,2)] assms(4), unfolded refund_step_def] assms(3)]
  unfolding refund_kept_def by blast

end
