(* ===== verification/Gateway.thy ===== *)
theory Gateway
  imports Payback
begin

text \<open>
  The calls that wait for the payment gateway: \<open>place\<close> with its checkout, \<open>verify\<close> and \<open>webhook\<close> of
  \<open>modules/qr/service.ts\<close>, and the passes of \<open>modules/qr/worker.ts\<close>. The gateway (\<open>lib/payments.ts\<close> and the
  service behind it) is a parameter: a record of its calls, each of which answers or throws and may change the
  gateway's own state \<open>'g\<close>. No transaction is open while it is asked, so a service here is a sequence of
  transactions of \<open>Qr\<close> and \<open>Refunds\<close> with calls of the gateway between them.

  Not modelled: the counts a pass reports, the log, and the reading of the webhook's JSON (\<open>paymentOf\<close>): a
  delivery is what was read from it.
\<close>

section \<open>The gateway\<close>

text \<open>What a call threw: a refusal of ours, an error of the gateway with its message and whether it may go
  through next time, or anything else.\<close>

datatype fault = Refused error | GatewayError string bool | Crashed

record 'g gateway =
  gw_createOrder :: "int \<Rightarrow> string \<Rightarrow> 'g \<Rightarrow> (fault + string) \<times> 'g"
  gw_fetchPayment :: "string \<Rightarrow> 'g \<Rightarrow> (fault + gwPayment) \<times> 'g"
  gw_capture :: "string \<Rightarrow> int \<Rightarrow> 'g \<Rightarrow> (fault + gwPayment) \<times> 'g"
  gw_refund :: "string \<Rightarrow> int \<Rightarrow> string \<Rightarrow> 'g \<Rightarrow> (fault + gwRefund) \<times> 'g"
  gw_paymentsOfOrder :: "string \<Rightarrow> 'g \<Rightarrow> (fault + gwPayment list) \<times> 'g"
  gw_fetchRefund :: "string \<Rightarrow> string \<Rightarrow> 'g \<Rightarrow> (fault + gwRefund) \<times> 'g"
  gw_refundsOf :: "string \<Rightarrow> 'g \<Rightarrow> (fault + gwRefund list) \<times> 'g"
  gw_verifyCheckout :: "string \<Rightarrow> string \<Rightarrow> string \<Rightarrow> bool"

definition threw :: "error option \<times> house \<Rightarrow> (fault + unit) \<times> house" where
  "threw r = (case r of (Some e, h) \<Rightarrow> (Inl (Refused e), h) | (None, h) \<Rightarrow> (Inr (), h))"

definition NOT_SET_UP :: string where
  "NOT_SET_UP = ''Online ordering is not set up yet - order at the counter.''"

definition GATEWAY_DOWN :: string where
  "GATEWAY_DOWN = ''We could not reach the payment service - try again in a moment.''"

definition GATEWAY_REFUSED :: string where
  "GATEWAY_REFUSED = ''Online payment is not available right now - please order at the counter.''"

definition VERIFY_LATER :: string where
  "VERIFY_LATER = ''We could not confirm your payment yet - this page will update as soon as it goes through.''"

text \<open>A capture a Z's close put off, as a 503; and a gateway that could not be asked, as one.\<close>

fun notYet :: "string \<Rightarrow> fault \<Rightarrow> fault" where
  "notYet why (Refused RegisterClosingError) = Refused (NotReadyError why)"
| "notYet why f = f"

fun unreached :: "string \<Rightarrow> fault \<Rightarrow> fault" where
  "unreached why (GatewayError _ _) = Refused (NotReadyError why)"
| "unreached why f = f"

section \<open>Placing an order, with its checkout\<close>

definition checkoutFor ::
    "'g gateway \<Rightarrow> string \<Rightarrow> qrOrderRow \<Rightarrow> instant \<Rightarrow> house \<Rightarrow> 'g \<Rightarrow> (fault + string) \<times> house \<times> 'g" where
  "checkoutFor gw i o' at' h g =
     (case truthy (qd_rzpOrder o') of Some rzp \<Rightarrow> (Inr rzp, h, g)
      | None \<Rightarrow> (case gw_createOrder gw (paise (qd_total o')) i g of
          (Inl (GatewayError m True), g1) \<Rightarrow> (Inl (Refused (NotReadyError GATEWAY_DOWN)), h, g1)
        | (Inl (GatewayError m False), g1) \<Rightarrow> (case threw (transact (lapse_tx i at') h) of
              (Inl f, h1) \<Rightarrow> (Inl f, h1, g1)
            | (Inr _, h1) \<Rightarrow> (Inl (Refused (RuleError GATEWAY_REFUSED)), h1, g1))
        | (Inl f, g1) \<Rightarrow> (Inl f, h, g1)
        | (Inr made, g1) \<Rightarrow> (case threw (transact (setRzpOrder_tx i made) h) of
              (Inl f, h1) \<Rightarrow> (Inl f, h1, g1)
            | (Inr _, h1) \<Rightarrow> (Inr (case Option.bind (qrOrder_of h1 i) qd_rzpOrder of Some x \<Rightarrow> x | None \<Rightarrow> made), h1, g1))))"

definition place ::
    "'g gateway option \<Rightarrow> qrConfig \<Rightarrow> string \<Rightarrow> placeBody \<Rightarrow> string \<Rightarrow> string \<Rightarrow> instant \<Rightarrow> house \<Rightarrow> 'g
      \<Rightarrow> (fault + string) \<times> house \<times> 'g" where
  "place gwo cfg token body secret ip now h g =
     (case threw (transact (place_tx cfg (gwo \<noteq> None) token body secret ip now) h) of
        (Inl f, h1) \<Rightarrow> (Inl f, h1, g)
      | (Inr _, h1) \<Rightarrow> (case (gwo, orderByNonce h1 (pb_nonce body)) of
            (Some gw, Some (i, o')) \<Rightarrow> checkoutFor gw i o' now h1 g
          | _ \<Rightarrow> (Inl Crashed, h1, g)))"

section \<open>A payment, taken and settled\<close>

text \<open>\<open>take\<close>: an authorised payment of exactly the order's amount is captured; a capture the gateway refuses is
  read back.\<close>

definition takePayment :: "'g gateway \<Rightarrow> gwPayment \<Rightarrow> number \<Rightarrow> 'g \<Rightarrow> (fault + gwPayment) \<times> 'g" where
  "takePayment gw p tot g =
     (if gp_status p \<noteq> Gp_authorized \<or> gp_paise p \<noteq> paise tot then (Inr p, g)
      else (case gw_capture gw (gp_id p) (gp_paise p) g of
          (Inr q, g1) \<Rightarrow> (Inr q, g1)
        | (Inl (GatewayError m r), g1) \<Rightarrow> (case gw_fetchPayment gw (gp_id p) g1 of
              (Inl f, g2) \<Rightarrow> (Inl f, g2)
            | (Inr now, g2) \<Rightarrow> if gp_status now = Gp_authorized then (Inl (GatewayError m r), g2) else (Inr now, g2))
        | (Inl f, g1) \<Rightarrow> (Inl f, g1)))"

text \<open>When a capture was settled, and the session ids drawn for it.\<close>

type_synonym stamp = "string \<Rightarrow> instant \<times> string list"

definition settleCapture :: "string \<Rightarrow> gwPayment \<Rightarrow> stamp \<Rightarrow> house \<Rightarrow> (fault + unit) \<times> house" where
  "settleCapture i p stamp h = threw (transact (capture_tx i p (fst (stamp (gp_id p))) (snd (stamp (gp_id p)))) h)"

definition settlePayment ::
    "'g gateway \<Rightarrow> string \<Rightarrow> number \<Rightarrow> gwPayment \<Rightarrow> stamp \<Rightarrow> house \<Rightarrow> 'g \<Rightarrow> (fault + unit) \<times> house \<times> 'g" where
  "settlePayment gw i tot p0 stamp h g =
     (case takePayment gw p0 tot g of
        (Inl f, g1) \<Rightarrow> (Inl f, h, g1)
      | (Inr p, g1) \<Rightarrow> if gp_status p = Gp_captured
          then (case settleCapture i p stamp h of (r, h1) \<Rightarrow> (r, h1, g1)) else (Inr (), h, g1))"

section \<open>The phone's verify\<close>

record verifyBody =
  vb_secret :: string
  vb_order :: string
  vb_payment :: string
  vb_signature :: string

definition verify_refusal :: "'g gateway \<Rightarrow> string \<Rightarrow> qrOrderRow \<Rightarrow> verifyBody \<Rightarrow> error option" where
  "verify_refusal gw i o' body = first_some
     [(if truthy (qd_rzpOrder o') = None \<or> qd_rzpOrder o' \<noteq> Some (vb_order body)
       then Some (ValidationError (''This payment is not for order '' @ i @ ''.'')) else None),
      (if gw_verifyCheckout gw (vb_order body) (vb_payment body) (vb_signature body) then None
       else Some (ValidationError ''This payment could not be verified - if money left your account, it will come back.''))]"

definition payment_refusal :: "string \<Rightarrow> qrOrderRow \<Rightarrow> gwPayment \<Rightarrow> error option" where
  "payment_refusal i o' p = first_some
     [(if gp_order p \<noteq> qd_rzpOrder o' then Some (ValidationError (''This payment is not for order '' @ i @ ''.'')) else None),
      assertRule (\<not> (gp_status p = Gp_authorized \<and> gp_paise p \<noteq> paise (qd_total o')))
        ''The payment does not match this order - it will be released back to you.'']"

definition verified ::
    "string \<Rightarrow> gwPayment \<Rightarrow> stamp \<Rightarrow> house \<Rightarrow> (fault + unit) \<times> house" where
  "verified i p stamp h =
     (if gp_status p = Gp_captured then (case settleCapture i p stamp h of
          (Inl f, h1) \<Rightarrow> (Inl (notYet VERIFY_LATER f), h1) | (Inr _, h1) \<Rightarrow> (Inr (), h1))
      else if gp_status p = Gp_refunded then (Inr (), h)
      else (Inl (Refused (RuleError ''The payment did not go through - you have not been charged. Tap Pay to try again.'')), h))"

definition verify ::
    "'g gateway option \<Rightarrow> string \<Rightarrow> verifyBody \<Rightarrow> stamp \<Rightarrow> house \<Rightarrow> 'g \<Rightarrow> (fault + unit) \<times> house \<times> 'g" where
  "verify gwo i body stamp h g =
     (case gwo of None \<Rightarrow> (Inl (Refused (NotReadyError NOT_SET_UP)), h, g)
      | Some gw \<Rightarrow> (case qrOrder_of h i of None \<Rightarrow> (Inl (Refused (NotFoundError ORDER_GONE)), h, g)
        | Some o' \<Rightarrow> if qd_secret o' \<noteq> vb_secret body then (Inl (Refused (NotFoundError ORDER_GONE)), h, g)
          else (case verify_refusal gw i o' body of Some e \<Rightarrow> (Inl (Refused e), h, g)
            | None \<Rightarrow> (case gw_fetchPayment gw (vb_payment body) g of
                (Inl f, g1) \<Rightarrow> (Inl (unreached VERIFY_LATER f), h, g1)
              | (Inr p0, g1) \<Rightarrow> (case payment_refusal i o' p0 of Some e \<Rightarrow> (Inl (Refused e), h, g1)
                | None \<Rightarrow> (case takePayment gw p0 (qd_total o') g1 of
                    (Inl f, g2) \<Rightarrow> (Inl (unreached VERIFY_LATER f), h, g2)
                  | (Inr p, g2) \<Rightarrow> (case verified i p stamp h of (r, h1) \<Rightarrow> (r, h1, g2))))))))"

section \<open>The webhook\<close>

text \<open>A delivery as it was read: whether its signature matched, what is in it, and its event id.\<close>

datatype news = NotJson | PaymentNews "gwPayment option" | RefundNews bool "(string \<times> string option) option" | OtherNews

definition orderByRzpOrder :: "house \<Rightarrow> string \<Rightarrow> (string \<times> qrOrderRow) option" where
  "orderByRzpOrder h rzp = find (\<lambda>o'. qd_rzpOrder (snd o') = Some rzp) (ho_qrOrders h)"

definition payment_news ::
    "'g gateway \<Rightarrow> gwPayment option \<Rightarrow> stamp \<Rightarrow> house \<Rightarrow> 'g \<Rightarrow> (fault + unit) \<times> house \<times> 'g" where
  "payment_news gw p stamp h g =
     (case (p, Option.bind (Option.bind p (\<lambda>p. truthy (gp_order p))) (orderByRzpOrder h)) of
        (Some p, Some (i, o')) \<Rightarrow> if gp_status p = Gp_captured \<or> gp_status p = Gp_authorized
          then (case settlePayment gw i (qd_total o') p stamp h g of
              (Inl f, r) \<Rightarrow> (Inl (unreached ''The payment gateway could not be asked about this payment - deliver this again.''
                (notYet ''The register is being closed - deliver this again.'' f)), r)
            | (Inr _, r) \<Rightarrow> (Inr (), r))
          else (Inr (), h, g)
      | _ \<Rightarrow> (Inr (), h, g))"

definition handle_news ::
    "'g gateway \<Rightarrow> news \<Rightarrow> stamp \<Rightarrow> instant \<Rightarrow> house \<Rightarrow> 'g \<Rightarrow> (fault + unit) \<times> house \<times> 'g" where
  "handle_news gw n stamp at' h g =
     (case n of PaymentNews p \<Rightarrow> payment_news gw p stamp h g
      | RefundNews ok (Some (rzp, note)) \<Rightarrow> (case threw (transact (settleRefund_tx rzp note ok at') h) of (r, h1) \<Rightarrow> (r, h1, g))
      | _ \<Rightarrow> (Inr (), h, g))"

definition webhook ::
    "'g gateway option \<Rightarrow> bool \<Rightarrow> news \<Rightarrow> string option \<Rightarrow> stamp \<Rightarrow> instant \<Rightarrow> house \<Rightarrow> 'g \<Rightarrow> (fault + unit) \<times> house \<times> 'g" where
  "webhook gwo sig n ev stamp at' h g =
     (case gwo of None \<Rightarrow> (Inl (Refused (NotReadyError NOT_SET_UP)), h, g)
      | Some gw \<Rightarrow>
          if \<not> sig then (Inl (Refused (UnauthenticatedError ''The webhook signature does not match.'')), h, g)
          else if n = NotJson then (Inl (Refused (ValidationError ''The webhook body is not JSON.'')), h, g)
          else if (case truthy ev of Some e \<Rightarrow> webhookSeen h e | None \<Rightarrow> False) then (Inr (), h, g)
          else (case handle_news gw n stamp at' h g of
              (Inl f, r) \<Rightarrow> (Inl f, r)
            | (Inr _, h1, g1) \<Rightarrow> (case truthy ev of None \<Rightarrow> (Inr (), h1, g1)
                | Some e \<Rightarrow> (case threw (transact (markWebhook_tx e) h1) of (r, h2) \<Rightarrow> (r, h2, g1)))))"

section \<open>The worker\<close>

definition RECONCILE_EVERY_MS :: int where "RECONCILE_EVERY_MS = 2 * 60000"
definition RECONCILE_BATCH :: nat where "RECONCILE_BATCH = 20"
definition RECONCILE_MIN_AGE_MS :: int where "RECONCILE_MIN_AGE_MS = 2 * 60000"
definition RECONCILE_MAX_AGE_MS :: int where "RECONCILE_MAX_AGE_MS = 48 * 60 * 60000"
definition REFUND_POLL_AFTER_MS :: int where "REFUND_POLL_AFTER_MS = 30 * 60000"

text \<open>\<open>due\<close>: which rows may be asked about now, at most a batch, each put off by half its age. The times are
  the process's own, kept by prefix and id.\<close>

type_synonym asks = "string \<Rightarrow> number option"

definition forgotten :: "string \<Rightarrow> (string \<times> instant) list \<Rightarrow> asks \<Rightarrow> asks" where
  "forgotten pre rows ask = (\<lambda>k. if take (length pre) k = pre \<and> \<not> List.member (map (\<lambda>r. pre @ fst r) rows) k
     then None else ask k)"

definition put_off :: "string \<Rightarrow> instant \<Rightarrow> asks \<Rightarrow> string \<times> instant \<Rightarrow> asks" where
  "put_off pre now ask r = ask(pre @ fst r \<mapsto> of_int now + max (of_int RECONCILE_EVERY_MS) (of_int (now - snd r) / 2))"

definition due :: "string \<Rightarrow> (string \<times> instant) list \<Rightarrow> instant \<Rightarrow> asks \<Rightarrow> string list \<times> asks" where
  "due pre rows now ask =
     (let kept = forgotten pre rows ask;
          out = take RECONCILE_BATCH (filter (\<lambda>r. (case kept (pre @ fst r) of Some t \<Rightarrow> t | None \<Rightarrow> 0) \<le> of_int now) rows)
      in (map fst out, foldl (put_off pre now) kept out))"

definition toReconcile ::
    "(string \<Rightarrow> string \<Rightarrow> bool) \<Rightarrow> instant \<Rightarrow> instant \<Rightarrow> house \<Rightarrow> (string \<times> qrOrderRow) list" where
  "toReconcile coll from to' h = stable_sort
     (\<lambda>a b. qd_created (snd b) < qd_created (snd a) \<or> qd_created (snd b) = qd_created (snd a) \<and> coll (fst b) (fst a))
     (filter (\<lambda>o'. (qd_status (snd o') = Qr_Awaiting \<or> qd_status (snd o') = Qr_Expired) \<and> qd_rzpOrder (snd o') \<noteq> None \<and>
        from \<le> qd_created (snd o') \<and> qd_created (snd o') \<le> to') (ho_qrOrders h))"

fun settle_each ::
    "'g gateway \<Rightarrow> string \<Rightarrow> number \<Rightarrow> stamp \<Rightarrow> gwPayment list \<Rightarrow> house \<Rightarrow> 'g \<Rightarrow> (fault + unit) \<times> house \<times> 'g" where
  "settle_each gw i tot stamp [] h g = (Inr (), h, g)"
| "settle_each gw i tot stamp (p # ps) h g =
     (if gp_status p \<noteq> Gp_captured \<and> gp_status p \<noteq> Gp_authorized then settle_each gw i tot stamp ps h g
      else (case settlePayment gw i tot p stamp h g of
          (Inl f, r) \<Rightarrow> (Inl f, r)
        | (Inr _, h1, g1) \<Rightarrow> settle_each gw i tot stamp ps h1 g1))"

text \<open>One order of the pass; what is thrown is logged, and the order is asked about again later.\<close>

definition reconcile_one :: "'g gateway \<Rightarrow> stamp \<Rightarrow> string \<times> qrOrderRow \<Rightarrow> house \<times> 'g \<Rightarrow> house \<times> 'g" where
  "reconcile_one gw stamp o' s =
     (case gw_paymentsOfOrder gw (case qd_rzpOrder (snd o') of Some x \<Rightarrow> x | None \<Rightarrow> []) (snd s) of
        (Inl _, g1) \<Rightarrow> (fst s, g1)
      | (Inr ps, g1) \<Rightarrow> snd (settle_each gw (fst o') (qd_total (snd o')) stamp ps (fst s) g1))"

definition reconcileOrders ::
    "(string \<Rightarrow> string \<Rightarrow> bool) \<Rightarrow> 'g gateway option \<Rightarrow> stamp \<Rightarrow> instant \<Rightarrow> asks \<Rightarrow> house \<times> 'g \<Rightarrow> asks \<times> house \<times> 'g" where
  "reconcileOrders coll gwo stamp now ask s =
     (case gwo of None \<Rightarrow> (ask, s)
      | Some gw \<Rightarrow> (let rows = toReconcile coll (now - RECONCILE_MAX_AGE_MS) (now - RECONCILE_MIN_AGE_MS) (fst s);
            (ids, ask') = due ''o:'' (map (\<lambda>o'. (fst o', qd_created (snd o'))) rows) now ask
          in (ask', foldl (\<lambda>s o'. reconcile_one gw stamp o' s) s (filter (\<lambda>o'. List.member ids (fst o')) rows))))"

text \<open>Refunds sent a while ago; \<open>since\<close> is each row's \<open>updated_at\<close>, which no rule but this one reads.\<close>

definition sentRefunds ::
    "(string \<Rightarrow> string \<Rightarrow> bool) \<Rightarrow> (string \<Rightarrow> instant) \<Rightarrow> instant \<Rightarrow> house \<Rightarrow> (string \<times> refundRow) list" where
  "sentRefunds coll since before h = stable_sort
     (\<lambda>a b. since (fst a) < since (fst b) \<or> since (fst a) = since (fst b) \<and> coll (fst a) (fst b))
     (filter (\<lambda>r. rf_status (snd r) = Ref_Sent \<and> rf_rzp (snd r) \<noteq> None \<and> since (fst r) \<le> before) (ho_refunds h))"

definition poll_one :: "'g gateway \<Rightarrow> instant \<Rightarrow> string \<times> refundRow \<Rightarrow> house \<times> 'g \<Rightarrow> house \<times> 'g" where
  "poll_one gw at' r s =
     (case gw_fetchRefund gw (rf_payment (snd r)) (case rf_rzp (snd r) of Some x \<Rightarrow> x | None \<Rightarrow> []) (snd s) of
        (Inl _, g1) \<Rightarrow> (fst s, g1)
      | (Inr x, g1) \<Rightarrow> if gf_status x = Gr_pending then (fst s, g1)
          else (snd (transact (settleRefund_tx (gf_id x) (Some (fst r)) (gf_status x = Gr_processed) at') (fst s)), g1))"

definition pollRefunds ::
    "(string \<Rightarrow> string \<Rightarrow> bool) \<Rightarrow> 'g gateway option \<Rightarrow> (string \<Rightarrow> instant) \<Rightarrow> instant \<Rightarrow> asks \<Rightarrow> house \<times> 'g \<Rightarrow> asks \<times> house \<times> 'g" where
  "pollRefunds coll gwo since now ask s =
     (case gwo of None \<Rightarrow> (ask, s)
      | Some gw \<Rightarrow> (let rows = sentRefunds coll since (now - REFUND_POLL_AFTER_MS) (fst s);
            (ids, ask') = due ''r:'' (map (\<lambda>r. (fst r, since (fst r))) rows) now ask
          in (ask', foldl (\<lambda>s r. poll_one gw now r s) s (filter (\<lambda>r. List.member ids (fst r)) rows))))"

text \<open>\<open>sendOne\<close>: a refund the gateway already has under this id, and that did not fail, is not sent again.\<close>

definition already_sent :: "string \<Rightarrow> gwRefund list \<Rightarrow> gwRefund option" where
  "already_sent i xs = find (\<lambda>x. gf_rid x = Some i \<and> gf_status x \<noteq> Gr_failed) xs"

definition ask_refund :: "'g gateway \<Rightarrow> string \<Rightarrow> refundRow \<Rightarrow> 'g \<Rightarrow> (fault + gwRefund) \<times> 'g" where
  "ask_refund gw i r g =
     (case gw_refundsOf gw (rf_payment r) g of
        (Inl f, g1) \<Rightarrow> (Inl f, g1)
      | (Inr xs, g1) \<Rightarrow> (case already_sent i xs of
          Some x \<Rightarrow> (Inr x, g1)
        | None \<Rightarrow> gw_refund gw (rf_payment r) (paise (rf_amount r)) i g1))"

fun unsent_why :: "fault \<Rightarrow> string \<times> bool" where
  "unsent_why (GatewayError m retryable) = (m, \<not> retryable)"
| "unsent_why _ = (''The refund could not be sent'', False)"

definition sendOne :: "'g gateway \<Rightarrow> instant \<Rightarrow> string \<times> refundRow \<Rightarrow> house \<Rightarrow> 'g \<Rightarrow> (fault + unit) \<times> house \<times> 'g" where
  "sendOne gw at' r h g =
     (case ask_refund gw (fst r) (snd r) g of
        (Inl f, g1) \<Rightarrow> (case threw (transact (refundUnsent_tx (fst r) (fst (unsent_why f)) (snd (unsent_why f)) at') h) of
            (x, h1) \<Rightarrow> (x, h1, g1))
      | (Inr x, g1) \<Rightarrow> (case threw (transact (refundSent_tx (fst r) x at') h) of (y, h1) \<Rightarrow> (y, h1, g1)))"

fun send_each :: "'g gateway \<Rightarrow> instant \<Rightarrow> (string \<times> refundRow) list \<Rightarrow> house \<Rightarrow> 'g \<Rightarrow> (fault + unit) \<times> house \<times> 'g" where
  "send_each gw at' [] h g = (Inr (), h, g)"
| "send_each gw at' (r # rs) h g = (case sendOne gw at' r h g of
      (Inl f, s) \<Rightarrow> (Inl f, s) | (Inr _, h1, g1) \<Rightarrow> send_each gw at' rs h1 g1)"

definition sendRefunds ::
    "(string \<Rightarrow> string \<Rightarrow> bool) \<Rightarrow> 'g gateway option \<Rightarrow> instant \<Rightarrow> string list \<Rightarrow> house \<Rightarrow> 'g \<Rightarrow> (fault + unit) \<times> house \<times> 'g" where
  "sendRefunds coll gwo now busy h g =
     (case gwo of None \<Rightarrow> (Inr (), h, g)
      | Some gw \<Rightarrow> (let ids = due_refunds coll now REFUND_BATCH busy h in
          (case threw (transact (claimDueRefunds coll now REFUND_BATCH busy) h) of
             (Inl f, h1) \<Rightarrow> (Inl f, h1, g)
           | (Inr _, h1) \<Rightarrow> send_each gw now (List.map_filter (\<lambda>i. map_option (Pair i) (refund_of h1 i)) ids) h1 g)))"

text \<open>\<open>tick\<close>; \<open>reconcile\<close> says whether this pass reconciles (asked to, or because the interval has passed).\<close>

definition tick ::
    "(string \<Rightarrow> string \<Rightarrow> bool) \<Rightarrow> 'g gateway option \<Rightarrow> stamp \<Rightarrow> (string \<Rightarrow> instant) \<Rightarrow> bool \<Rightarrow> instant \<Rightarrow> string list \<Rightarrow>
      asks \<Rightarrow> house \<Rightarrow> 'g \<Rightarrow> (fault + unit) \<times> asks \<times> house \<times> 'g" where
  "tick coll gwo stamp since reconcile now busy ask h g =
     (case threw (transact (expire_tx coll now busy) h) of
        (Inl f, h1) \<Rightarrow> (Inl f, ask, h1, g)
      | (Inr _, h1) \<Rightarrow>
          (let (ask2, h2, g2) = (if reconcile
             then (let (ask1, s1) = reconcileOrders coll gwo stamp now ask (h1, g) in pollRefunds coll gwo since now ask1 s1)
             else (ask, h1, g)) in
           case sendRefunds coll gwo now busy h2 g2 of (r, s) \<Rightarrow> (r, ask2, s)))"

end
