(* ===== verification/Courier.thy ===== *)
theory Courier
  imports Gateway
begin

text \<open>
  What the phone, the webhook and the worker do is a run of the house: between two calls of the gateway there is
  a transaction of the house, so everything proved of the house's runs holds through them. And what the
  worker asks the gateway for: a refund already there is not asked for again.

  About the gateway two things are taken as its documentation has them: a payment it reports has an id
  (\<open>names_payments\<close>), and the refunds it lists are the refunds it made (\<open>keeps_refunds\<close>).
\<close>

section \<open>Services are runs\<close>

definition names_payments :: "'g gateway \<Rightarrow> bool" where
  "names_payments gw \<longleftrightarrow>
     (\<forall>i g p. fst (gw_fetchPayment gw i g) = Inr p \<longrightarrow> gp_id p \<noteq> []) \<and>
     (\<forall>i v g p. fst (gw_capture gw i v g) = Inr p \<longrightarrow> gp_id p \<noteq> []) \<and>
     (\<forall>i g ps. fst (gw_paymentsOfOrder gw i g) = Inr ps \<longrightarrow> (\<forall>p \<in> set ps. gp_id p \<noteq> []))"

lemma namesD:
  assumes "names_payments gw"
  shows "gw_fetchPayment gw i g = (Inr p, g') \<Longrightarrow> gp_id p \<noteq> []"
    and "gw_capture gw i v g = (Inr p, g') \<Longrightarrow> gp_id p \<noteq> []"
    and "gw_paymentsOfOrder gw i g = (Inr ps, g') \<Longrightarrow> q \<in> set ps \<Longrightarrow> gp_id q \<noteq> []"
  using assms unfolding names_payments_def by (metis fst_conv)+

lemma threw_house [simp]: "snd (threw r) = snd r"
  by (simp add: threw_def split: prod.split option.split)

lemma runs_served: "serve coll op = transact f \<Longrightarrow> wire op \<Longrightarrow> runs (hexec coll) h0 h \<Longrightarrow> runs (hexec coll) h0 (snd (transact f h))"
  using runs.call [of "hexec coll" h0 h op] by (simp add: hexec_def)

lemma runs_services:
  assumes "runs (hexec coll) h0 h"
  shows "CreateQrOrderBodySchema body \<Longrightarrow> runs (hexec coll) h0 (snd (transact (place_tx cfg gw token body secret ip now) h))"
    and "runs (hexec coll) h0 (snd (transact (setRzpOrder_tx i rzp) h))"
    and "runs (hexec coll) h0 (snd (transact (lapse_tx i now) h))"
    and "gp_id p \<noteq> [] \<Longrightarrow> runs (hexec coll) h0 (snd (transact (capture_tx i p now us) h))"
    and "runs (hexec coll) h0 (snd (transact (settleRefund_tx rzp note ok now) h))"
    and "runs (hexec coll) h0 (snd (transact (markWebhook_tx ev) h))"
    and "runs (hexec coll) h0 (snd (transact (expire_tx coll now busy) h))"
    and "runs (hexec coll) h0 (snd (transact (claimDueRefunds coll now n busy) h))"
    and "runs (hexec coll) h0 (snd (transact (refundSent_tx i x now) h))"
    and "runs (hexec coll) h0 (snd (transact (refundUnsent_tx i err final now) h))"
  using runs_served [OF _ _ assms, of "Op_place cfg gw token body secret ip now"] runs_served [OF _ _ assms, of "Op_setRzp i rzp"]
    runs_served [OF _ _ assms, of "Op_lapse i now"] runs_served [OF _ _ assms, of "Op_capture i p now us"]
    runs_served [OF _ _ assms, of "Op_refundNews rzp note ok now"] runs_served [OF _ _ assms, of "Op_webhookMark ev"]
    runs_served [OF _ _ assms, of "Op_expire now busy"] runs_served [OF _ _ assms, of "Op_claimRefunds now n busy"]
    runs_served [OF _ _ assms, of "Op_refundSent i x now"] runs_served [OF _ _ assms, of "Op_refundUnsent i err final now"]
  by simp_all

lemma runs_threw:
  "threw (transact f h) = (r, h1) \<Longrightarrow> runs (hexec coll) h0 (snd (transact f h)) \<Longrightarrow> runs (hexec coll) h0 h1"
  by (metis snd_conv threw_house)

lemma runs_checkout: "runs (hexec coll) h0 h \<Longrightarrow> runs (hexec coll) h0 (fst (snd (checkoutFor gw i o' now h g)))"
  by (auto simp: checkoutFor_def dest!: runs_threw [where coll = coll and ?h0.0 = h0] intro: runs_services split: option.split prod.split sum.split fault.split bool.split)

lemma runs_place:
  assumes "CreateQrOrderBodySchema body" "runs (hexec coll) h0 h"
  shows "runs (hexec coll) h0 (fst (snd (place gwo cfg token body secret ip now h g)))"
  using runs_services(1) [OF assms(2,1)]
  by (auto simp: place_def dest: runs_threw [where coll = coll and ?h0.0 = h0] intro!: runs_checkout
      split: option.split prod.split sum.split)

lemma runs_settle: "gp_id p \<noteq> [] \<Longrightarrow> runs (hexec coll) h0 h \<Longrightarrow> runs (hexec coll) h0 (snd (settleCapture i p stamp h))"
  by (simp add: settleCapture_def runs_services)

lemma take_named: "takePayment gw p tot g = (Inr q, g') \<Longrightarrow> names_payments gw \<Longrightarrow> gp_id p \<noteq> [] \<Longrightarrow> gp_id q \<noteq> []"
  by (auto simp: takePayment_def dest: namesD split: if_splits sum.splits prod.splits fault.splits)

lemma runs_payment:
  assumes "names_payments gw" "gp_id p \<noteq> []" "runs (hexec coll) h0 h"
  shows "runs (hexec coll) h0 (fst (snd (settlePayment gw i tot p stamp h g)))"
proof (cases "takePayment gw p tot g")
  case (Pair r g1)
  then show ?thesis using runs_settle [OF take_named [OF _ assms(1,2)] assms(3)] assms(3)
    by (cases r) (auto simp: settlePayment_def split: prod.split, metis snd_conv)
qed

lemma runs_verified: "gp_id p \<noteq> [] \<Longrightarrow> runs (hexec coll) h0 h \<Longrightarrow> runs (hexec coll) h0 (snd (verified i p stamp h))"
  using runs_settle [of p coll h0 h i stamp] by (auto simp: verified_def split: prod.split sum.split)

lemma runs_verify:
  assumes "\<And>gw. gwo = Some gw \<Longrightarrow> names_payments gw" "runs (hexec coll) h0 h"
  shows "runs (hexec coll) h0 (fst (snd (verify gwo i body stamp h g)))"
proof (cases gwo)
  case (Some gw)
  have "runs (hexec coll) h0 h1" if "gw_fetchPayment gw (vb_payment body) g = (Inr p0, g1)" "takePayment gw p0 tot g1 = (Inr p, g2)"
    "verified i p stamp h = (r, h1)" for p0 g1 tot p g2 r h1
    using runs_verified [of p coll h0 h i stamp] take_named [OF that(2) assms(1) [OF Some] namesD(1) [OF assms(1) [OF Some] that(1)]]
      assms(2) that(3) by simp
  then show ?thesis using assms(2) by (auto simp: verify_def Some split: option.split prod.split sum.split)
qed (simp add: verify_def assms(2))

lemma runs_payment_news:
  assumes "names_payments gw" "\<And>q. p = Some q \<Longrightarrow> gp_id q \<noteq> []" "runs (hexec coll) h0 h"
  shows "runs (hexec coll) h0 (fst (snd (payment_news gw p stamp h g)))"
proof -
  have "runs (hexec coll) h0 h1" if "p = Some q" "settlePayment gw i tot q stamp h g = (r, h1, g1)" for q i tot r h1 g1
    using runs_payment [OF assms(1) assms(2) [OF that(1)] assms(3), of i tot stamp g] that(2) by simp
  then show ?thesis using assms(3) by (auto simp: payment_news_def split: option.split prod.split sum.split)
qed

lemma runs_news:
  assumes "names_payments gw" "\<And>q. n = PaymentNews (Some q) \<Longrightarrow> gp_id q \<noteq> []" "runs (hexec coll) h0 h"
  shows "runs (hexec coll) h0 (fst (snd (handle_news gw n stamp at' h g)))"
proof (cases n)
  case (PaymentNews p)
  then show ?thesis using runs_payment_news [OF assms(1) _ assms(3), of p] assms(2) by (simp add: handle_news_def)
next
  case (RefundNews ok r)
  then show ?thesis using assms(3) runs_services(5) [OF assms(3)]
    by (auto simp: handle_news_def dest: runs_threw [where coll = coll and ?h0.0 = h0] split: option.split prod.split)
qed (simp_all add: handle_news_def assms(3))

lemma runs_webhook:
  assumes "\<And>gw. gwo = Some gw \<Longrightarrow> names_payments gw" "\<And>q. n = PaymentNews (Some q) \<Longrightarrow> gp_id q \<noteq> []" "runs (hexec coll) h0 h"
  shows "runs (hexec coll) h0 (fst (snd (webhook gwo sig n ev stamp at' h g)))"
proof (cases gwo)
  case (Some gw)
  obtain r h1 g1 where n: "handle_news gw n stamp at' h g = (r, h1, g1)" by (metis prod.collapse)
  have h1: "runs (hexec coll) h0 h1"
    using runs_news [where n = n and stamp = stamp and at' = at' and g = g, OF assms(1) [OF Some] assms(2,3)] by (simp add: n)
  then show ?thesis using assms(3) runs_services(6) [OF h1]
    by (auto simp: webhook_def Some n dest: runs_threw [where coll = coll and ?h0.0 = h0] split: option.split prod.split sum.split)
qed (simp add: webhook_def assms(3))

section \<open>The worker's pass is a run\<close>

lemma runs_each:
  assumes "names_payments gw" "\<forall>p \<in> set ps. gp_id p \<noteq> []" "runs (hexec coll) h0 h"
  shows "runs (hexec coll) h0 (fst (snd (settle_each gw i tot stamp ps h g)))"
  using assms(2,3)
proof (induction ps arbitrary: h g)
  case (Cons p ps)
  obtain r h1 g1 where s: "settlePayment gw i tot p stamp h g = (r, h1, g1)" by (metis prod.collapse)
  have "runs (hexec coll) h0 h1" using runs_payment [OF assms(1) _ Cons.prems(2), of p i tot stamp g] Cons.prems(1) by (simp add: s)
  then show ?case using Cons by (cases r) (simp_all add: s)
qed simp

lemma runs_reconcile_one:
  assumes "names_payments gw" "runs (hexec coll) h0 (fst s)"
  shows "runs (hexec coll) h0 (fst (reconcile_one gw stamp o' s))"
  using runs_each [OF assms(1) _ assms(2)] namesD(3) [OF assms(1)] assms(2)
  by (fastforce simp: reconcile_one_def split: prod.split sum.split)

lemma runs_poll_one: "runs (hexec coll) h0 (fst s) \<Longrightarrow> runs (hexec coll) h0 (fst (poll_one gw at' r s))"
  by (auto simp: poll_one_def runs_services split: prod.split sum.split)

lemma foldl_keeps: "(\<And>s x. P s \<Longrightarrow> P (f s x)) \<Longrightarrow> P s \<Longrightarrow> P (foldl f s xs)"
  by (induction xs arbitrary: s) auto

lemma runs_passes:
  assumes "\<And>gw. gwo = Some gw \<Longrightarrow> names_payments gw" "runs (hexec coll) h0 (fst s)"
  shows "runs (hexec coll) h0 (fst (snd (reconcileOrders coll gwo stamp now asks s)))"
    and "runs (hexec coll) h0 (fst (snd (pollRefunds coll gwo since now asks s)))"
proof -
  have "runs (hexec coll) h0 (fst (foldl (\<lambda>s o'. reconcile_one gw stamp o' s) s rows))" if "gwo = Some gw" for gw rows
    by (rule foldl_keeps [of "\<lambda>s. runs (hexec coll) h0 (fst s)"]) (simp_all add: assms that runs_reconcile_one)
  then show "runs (hexec coll) h0 (fst (snd (reconcileOrders coll gwo stamp now asks s)))"
    using assms(2) by (auto simp: reconcileOrders_def Let_def split: option.split prod.split)
  have "runs (hexec coll) h0 (fst (foldl (\<lambda>s r. poll_one gw now r s) s rows))" for gw rows
    by (rule foldl_keeps [of "\<lambda>s. runs (hexec coll) h0 (fst s)"]) (simp_all add: assms runs_poll_one)
  then show "runs (hexec coll) h0 (fst (snd (pollRefunds coll gwo since now asks s)))"
    using assms(2) by (auto simp: pollRefunds_def Let_def split: option.split prod.split)
qed

lemma runs_send_one: "runs (hexec coll) h0 h \<Longrightarrow> runs (hexec coll) h0 (fst (snd (sendOne gw at' r h g)))"
  by (auto simp: sendOne_def runs_services dest: runs_threw [where coll = coll and ?h0.0 = h0] split: prod.split sum.split)

lemma runs_send_each: "runs (hexec coll) h0 h \<Longrightarrow> runs (hexec coll) h0 (fst (snd (send_each gw at' rs h g)))"
proof (induction rs arbitrary: h g)
  case (Cons r rs)
  obtain x h1 g1 where s: "sendOne gw at' r h g = (x, h1, g1)" by (metis prod.collapse)
  have "runs (hexec coll) h0 h1" using runs_send_one [OF Cons.prems, of gw at' r g] by (simp add: s)
  then show ?case using Cons.IH by (cases x) (simp_all add: s)
qed simp

lemma runs_send: "runs (hexec coll) h0 h \<Longrightarrow> runs (hexec coll) h0 (fst (snd (sendRefunds coll gwo now busy h g)))"
  by (auto simp: sendRefunds_def Let_def dest!: runs_threw [where coll = coll and ?h0.0 = h0] intro!: runs_send_each
      intro: runs_services split: option.split prod.split sum.split)

lemma runs_tick:
  assumes "\<And>gw. gwo = Some gw \<Longrightarrow> names_payments gw" "runs (hexec coll) h0 h"
  shows "runs (hexec coll) h0 (fst (snd (snd (tick coll gwo stamp since rec now busy asks h g))))"
proof -
  obtain r h1 where e: "threw (transact (expire_tx coll now busy) h) = (r, h1)" by fastforce
  have h1: "runs (hexec coll) h0 h1" by (rule runs_threw [OF e runs_services(7) [OF assms(2)]])
  obtain a1 s1 where 1: "reconcileOrders coll gwo stamp now asks (h1, g) = (a1, s1)" by (metis prod.collapse)
  obtain a2 h2 g2 where 2: "pollRefunds coll gwo since now a1 s1 = (a2, h2, g2)" by (metis prod.collapse)
  have "runs (hexec coll) h0 (fst s1)" using runs_passes(1) [where gwo = gwo and coll = coll and ?h0.0 = h0 and s = "(h1, g)" and stamp = stamp and now = now and asks = asks, OF assms(1)] h1
    by (simp add: 1)
  from runs_passes(2) [where gwo = gwo and since = since and now = now and asks = a1, OF assms(1) this] have "runs (hexec coll) h0 h2" by (simp add: 2)
  then show ?thesis using h1 runs_send [where coll = coll and ?h0.0 = h0 and gwo = gwo and now = now and busy = busy]
    by (cases r) (auto simp: tick_def e 1 2 split: prod.split, metis fst_conv snd_conv, metis fst_conv snd_conv)
qed

section \<open>A refund is asked for once\<close>

text \<open>\<open>made g p\<close> are the refunds the gateway holds against payment \<open>p\<close>: listing them answers exactly those or
  throws, and asking for one adds at most that one, whether or not the answer comes back.\<close>

definition keeps_refunds :: "'g gateway \<Rightarrow> ('g \<Rightarrow> string \<Rightarrow> gwRefund list) \<Rightarrow> bool" where
  "keeps_refunds gw made \<longleftrightarrow>
     (\<forall>p g. made (snd (gw_refundsOf gw p g)) = made g \<and> (\<forall>xs. fst (gw_refundsOf gw p g) = Inr xs \<longrightarrow> xs = made g p)) \<and>
     (\<forall>p v i g. made (snd (gw_refund gw p v i g)) = made g \<or>
        (\<exists>x. gf_rid x = Some i \<and> made (snd (gw_refund gw p v i g)) = (made g)(p := made g p @ [x])))"

text \<open>The refunds under one id that did not fail: money that went, or is going, to the customer.\<close>

definition standing :: "string \<Rightarrow> gwRefund list \<Rightarrow> gwRefund list" where
  "standing i xs = filter (\<lambda>x. gf_rid x = Some i \<and> gf_status x \<noteq> Gr_failed) xs"

definition paid_once :: "('g \<Rightarrow> string \<Rightarrow> gwRefund list) \<Rightarrow> 'g \<Rightarrow> bool" where
  "paid_once made g \<longleftrightarrow> (\<forall>p i. length (standing i (made g p)) \<le> 1)"

lemma already_none: "already_sent i xs = None \<Longrightarrow> standing i xs = []"
  by (auto simp: already_sent_def standing_def filter_empty_conv find_None_iff)

lemma standing_other: "gf_rid x = Some i \<Longrightarrow> standing j (xs @ [x]) = standing j xs @ (if j = i then standing i [x] else [])"
  by (auto simp: standing_def)

lemma ask_once:
  assumes "keeps_refunds gw made" "paid_once made g"
  shows "paid_once made (snd (ask_refund gw i r g))"
proof -
  obtain x g1 where l: "gw_refundsOf gw (rf_payment r) g = (x, g1)" by fastforce
  have m1: "made g1 = made g" "\<And>xs. x = Inr xs \<Longrightarrow> xs = made g (rf_payment r)"
    using assms(1) l unfolding keeps_refunds_def by (metis fst_conv snd_conv)+
  show ?thesis
  proof (cases "\<exists>xs. x = Inr xs \<and> already_sent i xs = None")
    case False
    then show ?thesis using assms(2) m1(1) by (auto simp: ask_refund_def l paid_once_def split: sum.split option.split)
  next
    case True
    let ?g2 = "snd (gw_refund gw (rf_payment r) (paise (rf_amount r)) i g1)"
    have none: "standing i (made g1 (rf_payment r)) = []" using True m1 already_none by auto
    have "made ?g2 = made g1 \<or> (\<exists>y. gf_rid y = Some i \<and> made ?g2 = (made g1)(rf_payment r := made g1 (rf_payment r) @ [y]))"
      using assms(1) unfolding keeps_refunds_def by blast
    then have "paid_once made ?g2"
    proof
      assume "\<exists>y. gf_rid y = Some i \<and> made ?g2 = (made g1)(rf_payment r := made g1 (rf_payment r) @ [y])"
      then obtain y where y: "gf_rid y = Some i" "made ?g2 = (made g1)(rf_payment r := made g1 (rf_payment r) @ [y])" by blast
      have "length (standing i [y]) \<le> 1" by (simp add: standing_def)
      then show ?thesis using assms(2) none m1(1) by (auto simp: paid_once_def y(2) standing_other [OF y(1)])
    qed (use assms(2) m1(1) in \<open>simp add: paid_once_def\<close>)
    then show ?thesis using True by (auto simp: ask_refund_def l)
  qed
qed

lemma send_one_once:
  assumes "keeps_refunds gw made" "paid_once made g"
  shows "paid_once made (snd (snd (sendOne gw at' r h g)))"
proof -
  have "snd (snd (sendOne gw at' r h g)) = snd (ask_refund gw (fst r) (snd r) g)"
    by (simp add: sendOne_def split: prod.split sum.split)
  then show ?thesis using ask_once [OF assms] by simp
qed

lemma send_each_once: "keeps_refunds gw made \<Longrightarrow> paid_once made g \<Longrightarrow> paid_once made (snd (snd (send_each gw at' rs h g)))"
proof (induction rs arbitrary: h g)
  case (Cons r rs)
  obtain x h1 g1 where s: "sendOne gw at' r h g = (x, h1, g1)" by (metis prod.collapse)
  have "paid_once made g1" using send_one_once [OF Cons.prems, of at' r h] by (simp add: s)
  then show ?case using Cons by (cases x) (simp_all add: s)
qed simp

text \<open>C8. A refund is sent once. However often the worker runs, with the answers of the gateway lost, refused or late
  and refunds retried in between, no payment ever has two refunds under one refund id at the gateway that did
  not fail.\<close>

theorem refund_sent_once:
  assumes "keeps_refunds gw made" and "paid_once made g"
  shows "paid_once made (snd (snd (sendRefunds coll (Some gw) now busy h g)))"
  using assms send_each_once [OF assms]
  by (auto simp: sendRefunds_def Let_def split: prod.split sum.split)

end
