(* ===== verification/Ordering.thy ===== *)
theory Ordering
  imports Courier
begin

text \<open>
  What it takes to place an order from a printed code and what it writes; a late word about a refund that was
  retried; and the figures of the house, which stay on the grids their columns have.
\<close>

section \<open>Placing\<close>

lemma pending_snoc:
  "ho_qrOrders h' = ho_qrOrders h @ [(i, o')] \<Longrightarrow> pendingForPhone h' phone now \<le> pendingForPhone h phone now + 1"
  "ho_qrOrders h' = ho_qrOrders h @ [(i, o')] \<Longrightarrow> pendingForIp h' ip since \<le> pendingForIp h ip since + 1"
  by (simp_all add: pendingForPhone_def pendingForIp_def)

text \<open>C17. What an order needs and what it writes. An order is placed only from a live code, with the gateway set up,
  at an open outlet inside its ordering hours that is not paused, for an amount the gateway takes and the
  hospital allows; it is written as an unpaid order of exactly the quote, to lapse after its window, and it
  moves no stock and raises no bill. After it the phone has at most three unpaid orders and the connection at
  most the configured number.\<close>

theorem order_placed:
  assumes "hexec coll (Op_place cfg gw token body secret ip now) h = (None, h')" and "orderByNonce h (pb_nonce body) = None"
  shows "\<exists>c l phone i o'. gw \<and> liveCode h token = Some c \<and> map_of (db_locations (ho_db h)) (qc_loc (snd c)) = Some l \<and> loc_active l \<and>
    qo_open (qrOpenAt (hoursOf h (qc_loc (snd c))) now) \<and> \<not> paused h (qc_loc (snd c)) \<and>
    normalizePhone (pb_phone body) = Some phone \<and> qrOrder_of h i = None \<and>
    ho_qrOrders h' = ho_qrOrders h @ [(i, o')] \<and> ho_bills h' = ho_bills h \<and> db_moves (ho_db h') = db_moves (ho_db h) \<and>
    qd_status o' = Qr_Awaiting \<and> qd_payment o' = None \<and> qd_bill o' = None \<and> qd_phone o' = phone \<and>
    qd_total o' = round2 (pl_tot (quote h (qc_loc (snd c)) (pb_lines body))) \<and>
    1 \<le> qd_total o' \<and> qd_total o' \<le> qf_maxRupees cfg \<and> qd_expires o' = now + qf_ttlMin cfg * 60000 \<and>
    pendingForPhone h' phone now \<le> 3 \<and> pendingForIp h' ip (now - IP_WINDOW_MS) \<le> qf_pendingPerIp cfg"
proof -
  from assms(1) have "place_tx cfg gw token body secret ip now h = Inr h'"
    by (auto simp: hexec_def transact_def split: if_splits sum.splits)
  then obtain phone where gw: gw and phone: "normalizePhone (pb_phone body) = Some phone"
    and tx: "placed_tx cfg token body phone secret ip now h = Inr h'"
    using assms(2) by (auto simp: place_tx_def split: if_splits)
  from tx show ?thesis
  proof (rule placed_shape)
    fix c :: "string \<times> qrCodeRow" and l i d
    let ?loc = "qc_loc (snd c)" and ?plan = "quote h (qc_loc (snd c)) (pb_lines body)"
    let ?o = "quoted_order cfg c body phone secret ip now ?plan"
    assume c: "liveCode h token = Some c" "map_of (db_locations (ho_db h)) ?loc = Some l"
      and doors: "doors_refusal cfg l ?loc phone ip now h = None" and total: "total_refusal cfg (round2 (pl_tot ?plan)) = None"
      and i: "qrOrder_of h i = None" and q: "quiet (ho_db h) d"
      and h': "h' = h\<lparr>ho_db := d, ho_qrOrders := ho_qrOrders h @ [(i, ?o)]\<rparr>"
    have open': "loc_active l" "qo_open (qrOpenAt (hoursOf h ?loc) now)" "\<not> paused h ?loc"
      and caps: "pendingForPhone h phone now < 3" "pendingForIp h ip (now - IP_WINDOW_MS) < qf_pendingPerIp cfg"
      using doors by (auto simp: doors_refusal_def Let_def first_some_None QR_PENDING_PER_PHONE_def not_le split: if_splits)
    have tot: "1 \<le> qd_total ?o" "qd_total ?o \<le> qf_maxRupees cfg"
      using total by (auto simp: total_refusal_def first_some_None MIN_ORDER_RUPEES_def quoted_order_def)
    have new: "ho_qrOrders h' = ho_qrOrders h @ [(i, ?o)]" by (simp add: h')
    have after: "pendingForPhone h' phone now \<le> 3" "pendingForIp h' ip (now - IP_WINDOW_MS) \<le> qf_pendingPerIp cfg"
      using pending_snoc(1) [OF new, of phone now] pending_snoc(2) [OF new, of ip "now - IP_WINDOW_MS"] caps by linarith+
    show ?thesis
      by (intro exI [of _ c] exI [of _ l] exI [of _ phone] exI [of _ i] exI [of _ ?o])
        (use gw phone c open' tot after i quiet_read(4) [OF q] in \<open>simp add: h' quoted_order_def\<close>)
  qed
qed

section \<open>News of a refund that was retried\<close>

lemma find_key: "find (\<lambda>r. fst r = i) t = map_option (Pair i) (map_of t i)"
  by (induction t) auto

text \<open>C9. A late word fails a retried refund. After a manager puts a failed refund back in the queue, the gateway's
  report that the first attempt failed, delivered again or late and naming the refund in its notes, still
  matches the row and fails it again, although nothing was sent since.\<close>

theorem late_news_fails_the_retry:
  assumes "hexec coll (Op_retryRefund i t1) h1 = (None, h2)" and "rzp \<noteq> []" and "\<forall>r \<in> set (ho_refunds h2). rf_rzp (snd r) \<noteq> Some rzp"
  shows "\<exists>r h3 r'. refund_of h2 i = Some r \<and> rf_status r = Ref_Pending \<and> rf_rzp r = None \<and>
    hexec coll (Op_refundNews rzp (Some i) False t2) h2 = (None, h3) \<and> refund_of h3 i = Some r' \<and>
    rf_status r' = Ref_Failed \<and> rf_rzp r' = Some rzp"
proof -
  from assms(1) have tx: "retryRefund_tx i t1 h1 = Inr h2" and i: "i \<noteq> []"
    by (auto simp: hexec_def transact_def DocId_def between_def split: if_splits sum.splits)
  then obtain r0 where r0: "refund_of h1 i = Some r0" and h2: "h2 = on_db (emitChanged [Ch_qrOrders, Ch_bills]) (update_refund i (moved_refund Ref_Pending None None t1) h1)"
    by (auto simp: retryRefund_tx_def moveRefund_def refundForUpdate_def split: option.splits if_splits)
  let ?r = "moved_refund Ref_Pending None None t1 r0"
  have r: "refund_of h2 i = Some ?r"
    using r0 by (simp add: h2 refund_of_def update_refund_def)
  have "refundForGateway h2 rzp (Some i) = find (\<lambda>r. fst r = i) (ho_refunds h2)"
    unfolding refundForGateway_def by (rule find_cong) (use assms(3) i in \<open>auto simp: truthy_def\<close>)
  then have found: "refundForGateway h2 rzp (Some i) = Some (i, ?r)"
    using r by (simp add: find_key refund_of_def)
  have "\<not> rzp_taken h2 i (Some rzp)"
    using assms(3) by (auto simp: rzp_taken_def truthy_def list_ex_iff)
  then have "settleRefund_tx rzp (Some i) False t2 h2 = Inr (on_db (emitChanged [Ch_qrOrders, Ch_bills])
      (update_refund i (moved_refund Ref_Failed (Some rzp) (Some GATEWAY_FAILED) t2) h2))"
    using r by (simp add: settleRefund_tx_def found moveRefund_def refundForUpdate_def moved_refund_def assertTransition_def)
  then have "hexec coll (Op_refundNews rzp (Some i) False t2) h2 = (None, on_db (emitChanged [Ch_qrOrders, Ch_bills])
      (update_refund i (moved_refund Ref_Failed (Some rzp) (Some GATEWAY_FAILED) t2) h2))"
    by (simp add: hexec_def transact_def)
  moreover have "refund_of (on_db f (update_refund i g h2)) i = Some (g ?r)" for f g
    using r by (simp add: refund_of_def update_refund_def)
  moreover have "rf_status ?r = Ref_Pending" "rf_rzp ?r = None"
    "rf_status (moved_refund Ref_Failed (Some rzp) (Some GATEWAY_FAILED) t2 ?r) = Ref_Failed"
    "rf_rzp (moved_refund Ref_Failed (Some rzp) (Some GATEWAY_FAILED) t2 ?r) = Some rzp"
    using assms(2) by (simp_all add: moved_refund_def truthy_def)
  ultimately show ?thesis using r by blast
qed

section \<open>Figures\<close>

lemma is3_sum: "(\<And>x. x \<in> set xs \<Longrightarrow> is3 (f x)) \<Longrightarrow> is3 (\<Sum>x\<leftarrow>xs. f x)"
  by (induction xs) (auto intro: is3_add simp: is3_def)

text \<open>C18. Every figure is of its column's type. In every state the house reaches, what is on a shelf, what is promised
  from it, every movement and every line of a ticket is a whole number of thousandths, no movement is zero, no
  promise or ticket line is zero or less, and every bill comes to a whole number of paise.\<close>

theorem figures_on_grid:
  assumes "dayOne h0" and "runs (hexec coll) h0 h"
  shows "(\<forall>c. is3 (onhand (ho_db h) c) \<and> is3 (held (ho_db h) c)) \<and>
    (\<forall>m \<in> set (db_moves (ho_db h)). is3 (mv_qty m) \<and> mv_qty m \<noteq> 0) \<and>
    (\<forall>r \<in> set (db_resv (ho_db h)). is3 (rv_qty r) \<and> 0 < rv_qty r) \<and>
    (\<forall>i t. ticket_of (ho_db h) i = Some t \<longrightarrow> (\<forall>l \<in> set (tk_lines t). is3 (snd l) \<and> 0 < snd l)) \<and>
    (\<forall>no b. bill_of h no = Some b \<longrightarrow> is2 (bi_total b))"
proof -
  from hinv_reached [OF assms] have l: "ledger_ok (ho_db h)" "resv_ok (ho_db h)" "tickets_ok (ho_db h)"
    and b: "\<forall>b \<in> snd ` set (ho_bills h). is2 (bi_total b)"
    by (auto simp: hinv_def inv_def stock_inv_def books_def)
  have "is3 (moved (ho_db h) c)" "is3 (held (ho_db h) c)" for c
    using l(1,2) by (auto simp: moved_def held_def ledger_ok_def resv_ok_def intro!: is3_sum)
  moreover have "is2 (bi_total r)" if "bill_of h no = Some r" for no r
    using b that by (force simp: bill_of_def dest!: map_of_SomeD)
  ultimately show ?thesis using l by (auto simp: ledger_ok_def resv_ok_def tickets_ok_def lines_ok_def)
qed

end
