(* ===== verification/Vouched.thy ===== *)
theory Vouched
  imports Courier
begin

text \<open>
  No money without proof. What the books say came in over the gateway is what the gateway holds as captured, to the
  paisa, and what they say goes back is what came in: through the phone's verify, the webhook, the worker's passes
  and every desk of the house, in any order, with the gateway's own doings in between.

  About the gateway: a payment it reports as captured it holds (\<open>honest\<close>), and what it holds it goes on holding,
  whatever it is asked. A delivery whose signature matches tells the truth; one whose signature does not may say
  anything.
\<close>

section \<open>Vouched books\<close>

text \<open>\<open>V\<close> is what the gateway holds: the captured amount of a payment, in paise.\<close>

definition vouched :: "(string \<Rightarrow> int option) \<Rightarrow> purse \<Rightarrow> bool" where
  "vouched V u \<longleftrightarrow>
     (\<forall>q c p. pu_orders u q = Some c \<longrightarrow> co_payment c = Some p \<longrightarrow>
        V p \<noteq> None \<and> (co_bill c \<noteq> None \<longrightarrow> V p = Some (paise (co_total c)))) \<and>
     (\<forall>d \<in> set (pu_owed u). V (ow_payment d) = Some (paise (ow_amount d)))"

lemma vouchedD:
  assumes "vouched V u"
  shows "pu_orders u q = Some c \<Longrightarrow> co_payment c = Some p \<Longrightarrow> V p \<noteq> None"
    and "pu_orders u q = Some c \<Longrightarrow> co_payment c = Some p \<Longrightarrow> co_bill c = Some no \<Longrightarrow> V p = Some (paise (co_total c))"
    and "d \<in> set (pu_owed u) \<Longrightarrow> V (ow_payment d) = Some (paise (ow_amount d))"
  using assms unfolding vouched_def by blast+

lemma vouched_more: "vouched V u \<Longrightarrow> (\<And>p v. V p = Some v \<Longrightarrow> V' p = Some v) \<Longrightarrow> vouched V' u"
  unfolding vouched_def by (metis option.distinct(1) option.exhaust)

lemma paise_rupees: "paise (rupees v) = v"
proof -
  have "is2 (of_int v / 100)" unfolding is2_iff by (rule exI [of _ v]) simp
  then have "rupees v = of_int v / 100" by (simp add: rupees_def)
  then show ?thesis by (simp add: paise_def js_round_def)
qed

text \<open>A step that puts no payment on file keeps the books vouched: what it gives back was taken.\<close>

definition no_new_payment :: "purse \<Rightarrow> purse \<Rightarrow> bool" where
  "no_new_payment u u' \<longleftrightarrow> (\<forall>q p. on_file u' q p \<longrightarrow> on_file u q p)"

lemma no_newD: "no_new_payment u u' \<Longrightarrow> on_file u' q p \<Longrightarrow> on_file u q p"
  by (simp add: no_new_payment_def)

lemma vouched_step:
  assumes "purse_step u u'" "sane u" "no_new_payment u u'" "vouched V u"
  shows "vouched V u'"
  using assms
proof (induction rule: purse_step.induct)
  case (places u q v)
  then show ?case by (auto simp: vouched_def)
next
  case (fills u q c p no b)
  have "on_file u q p" by (rule no_newD [OF fills.prems(2)]) (simp add: on_file_def)
  moreover have "\<not> on_file u q p"
    using waiting_nothing [OF saneD(1) [OF fills.prems(1) fills.hyps(1)] fills.hyps(2)] fills.hyps(1) by (auto simp: on_file_def)
  ultimately show ?case by blast
next
  case (returns u q c p v)
  have "on_file u q p" by (rule no_newD [OF returns.prems(2)]) (simp add: on_file_def)
  moreover have "\<not> on_file u q p"
    using waiting_nothing [OF saneD(1) [OF returns.prems(1) returns.hyps(1)] returns.hyps(2)] returns.hyps(1) by (auto simp: on_file_def)
  ultimately show ?case by blast
next
  case (repeats u q c p v)
  have "on_file u q p" by (rule no_newD [OF repeats.prems(2)]) (simp add: on_file_def owed_on_def)
  with repeats show ?case by blast
next
  case (undoes u q c p no b vm)
  have "bi_total b = co_total c"
    using saneD(1) [OF undoes.prems(1) undoes.hyps(1)] undoes.hyps by (auto simp: coin_ok_def)
  moreover have "V p = Some (paise (co_total c))" by (rule vouchedD(2) [OF undoes.prems(3) undoes.hyps(1,3,4)])
  ultimately show ?case using undoes by (auto simp: vouched_def)
qed (auto simp: vouched_def)

text \<open>A capture of what the gateway holds keeps them vouched too.\<close>

lemma vouched_capture:
  assumes "capture_tx i p at' us h = Inr h'" "sane (purse_of h)" "vouched V (purse_of h)" "V (gp_id p) = Some (gp_paise p)"
  shows "vouched V (purse_of h')"
  using assms(1)
proof (cases rule: capture_cases)
  case (duplicate o' h1)
  then show ?thesis using purse_queued(2) [OF duplicate(5)] assms(3,4) by (auto simp: vouched_def paise_rupees)
next
  case (billed o' no ch h1 b h2)
  from billed(6) show ?thesis
  proof (rule sale_purse)
    fix b'
    assume pu: "purse_of h1 = (purse_of (systemOperator h))\<lparr>pu_bills := (pu_bills (purse_of (systemOperator h)))(no \<mapsto> b')\<rparr>"
      and qo: "qrOrder_of h1 = qrOrder_of (systemOperator h)"
    have o1: "qrOrder_of h1 i = Some o'" using billed(1) by (simp add: qo qrOrder_of_def systemOperator_def)
    have "gp_paise p = paise (qd_total o')" using billed(4) by (auto simp: mismatch_def split: if_splits)
    then show ?thesis
      using purse_moveQr(2) [OF billed(10) o1] assms(3,4) by (auto simp: billed(11) pu vouched_def coin_of_def)
  qed
next
  case (refunded o' why h1 h2)
  have so: "qrOrder_of (systemOperator h) i = Some o'" using refunded(1) by (simp add: qrOrder_of_def systemOperator_def)
  have "stage_of (qd_status o') = Waiting" using refunded(3) by auto
  then have "qd_bill o' = None"
    using waiting_nothing [OF saneD(1) [OF assms(2), of i "coin_of o'"]] refunded(1) by (simp add: coin_of_def)
  then show ?thesis using purse_moveQr(2) [OF refunded(5) so] purse_queued(2) [OF refunded(6)] assms(3,4)
    by (auto simp: refunded(7) vouched_def coin_of_def paise_rupees)
qed (use assms(3) in simp_all)

section \<open>The desks take no payment\<close>

lemma no_new_same: "purse_of h' = purse_of h \<Longrightarrow> no_new_payment (purse_of h) (purse_of h')"
  by (simp add: no_new_payment_def)

lemma no_new_place: "place_tx cfg gw token body secret ip now h = Inr h' \<Longrightarrow> no_new_payment (purse_of h) (purse_of h')"
proof -
  assume a: "place_tx cfg gw token body secret ip now h = Inr h'"
  have replayed: "purse_of h' = purse_of h" if "replay_tx prior code secret now h = Inr h'" for prior code
  proof -
    have "update_qrOrder (fst prior) (\<lambda>r. r\<lparr>qd_secret := secret\<rparr>) h = h\<lparr>ho_db := ho_db h,
        ho_qrOrders := update_row (ho_qrOrders h) (fst prior) (\<lambda>r. r\<lparr>qd_secret := secret\<rparr>)\<rparr>" by (simp add: update_qrOrder_def)
    then have "purse_of (update_qrOrder (fst prior) (\<lambda>r. r\<lparr>qd_secret := secret\<rparr>) h) = purse_of h"
      by (rule purse_order_still) (simp add: coin_of_def)
    then show ?thesis using that by (auto simp: replay_tx_def split: if_splits)
  qed
  have placed: "no_new_payment (purse_of h) (purse_of h')" if "placed_tx cfg token body phone secret ip now h = Inr h'" for phone
    using that
  proof (rule placed_shape)
    fix c i d
    let ?o = "quoted_order cfg c body phone secret ip now (quote h (qc_loc (snd c)) (pb_lines body))"
    assume "qrOrder_of h i = None" and "h' = h\<lparr>ho_db := d, ho_qrOrders := ho_qrOrders h @ [(i, ?o)]\<rparr>"
    then show ?thesis
      by (auto simp: no_new_payment_def on_file_def owed_on_def qrOrder_of_def coin_of_def quoted_order_def map_add_Some_iff)
  qed
  from a show ?thesis by (auto simp: place_tx_def intro: placed no_new_same replayed split: option.splits if_splits)
qed

lemma no_new_pay: "pay_tx c body at' us h = Inr h' \<Longrightarrow> no_new_payment (purse_of h) (purse_of h')"
proof -
  assume "pay_tx c body at' us h = Inr h'"
  then obtain no ch h1 where s: "postSale (till_sale c body) at' us h = Inr ((no, ch), h1)" and h': "h' = on_db (emitChanged ch) h1"
    unfolding pay_tx_sale by blast
  from s show ?thesis by (rule sale_purse) (simp add: h' no_new_payment_def on_file_def)
qed

lemma no_new_void: "voidBill_tx c no raw at' h = Inr h' \<Longrightarrow> no_new_payment (purse_of h) (purse_of h')"
proof (erule void_shape)
  fix b
  assume v: "void_qr (void_order h b) no (bi_total b) at' h h'"
  show "no_new_payment (purse_of h) (purse_of h')"
  proof (cases "Option.bind (void_order h b) (\<lambda>q. truthy (qd_payment (snd q)))")
    case None
    then have "ho_qrOrders h' = ho_qrOrders h" "ho_refunds h' = ho_refunds h" using v by (simp_all add: void_qr_def)
    then show ?thesis by (simp add: no_new_payment_def on_file_def owed_on_def qrOrder_of_def)
  next
    case (Some p)
    then obtain q o' where ord: "void_order h b = Some (q, o')" and p: "qd_payment o' = Some p"
      by (auto simp: bind_eq_Some_conv truthy_def split: option.splits if_splits)
    then have o': "qrOrder_of h q = Some o'" by (auto simp: void_order_def qrOrder_of_def bind_eq_Some_conv split: if_splits)
    from v Some ord obtain j where
      qs: "ho_qrOrders h' = update_row (ho_qrOrders h) q (\<lambda>r. r\<lparr>qd_status := Qr_Voided\<rparr>)"
      and rs: "ho_refunds h' = ho_refunds h @ [(j, new_refund q p (bi_total b) Rr_Void (Some no) at')]"
      by (auto simp: void_qr_def)
    show ?thesis using o' p
      by (auto simp: no_new_payment_def on_file_def owed_on_def qs rs qrOrder_of_def coin_of_def owed_of_def new_refund_def split: if_splits)
  qed
qed

fun takes_capture :: "hop \<Rightarrow> bool" where
  "takes_capture (Op_capture _ _ _ _) = True"
| "takes_capture _ = False"

lemma no_new_hexec:
  assumes "\<not> takes_capture op" "orders_ok h"
  shows "no_new_payment (purse_of h) (purse_of (snd (hexec coll op h)))"
proof -
  have ok: "no_new_payment (purse_of h) (purse_of (snd (transact f h)))"
    if "\<And>h'. f h = Inr h' \<Longrightarrow> no_new_payment (purse_of h) (purse_of h')" for f
    by (rule keeps_transact [where P = "\<lambda>x. no_new_payment (purse_of h) (purse_of x)"]) (use that no_new_same in auto)
  have "no_new_payment (purse_of h) (purse_of (snd (serve coll op h)))"
  proof (cases "moves_purse op")
    case False
    then show ?thesis by (intro no_new_same serve_still)
  next
    case True
    then show ?thesis
      by (cases op) (use assms in \<open>auto simp: house_service_defs intro!: ok
        elim: no_new_pay no_new_void no_new_place intro: no_new_same purse_expire\<close>)
  qed
  then show ?thesis by (simp add: hexec_def no_new_same)
qed

section \<open>The services\<close>

definition grows :: "('g \<Rightarrow> string \<Rightarrow> int option) \<Rightarrow> 'g \<Rightarrow> 'g \<Rightarrow> bool" where
  "grows bank g g' \<longleftrightarrow> (\<forall>p v. bank g p = Some v \<longrightarrow> bank g' p = Some v)"

text \<open>A report of a payment names it, and where it says captured, the gateway holds it.\<close>

definition tells :: "('g \<Rightarrow> string \<Rightarrow> int option) \<Rightarrow> 'g \<Rightarrow> gwPayment \<Rightarrow> bool" where
  "tells bank g p \<longleftrightarrow> gp_id p \<noteq> [] \<and> (gp_status p = Gp_captured \<longrightarrow> bank g (gp_id p) = Some (gp_paise p))"

definition honest :: "'g gateway \<Rightarrow> ('g \<Rightarrow> string \<Rightarrow> int option) \<Rightarrow> bool" where
  "honest gw bank \<longleftrightarrow>
     (\<forall>v i g. grows bank g (snd (gw_createOrder gw v i g))) \<and>
     (\<forall>i g. grows bank g (snd (gw_fetchPayment gw i g)) \<and>
        (\<forall>p. fst (gw_fetchPayment gw i g) = Inr p \<longrightarrow> tells bank (snd (gw_fetchPayment gw i g)) p)) \<and>
     (\<forall>i v g. grows bank g (snd (gw_capture gw i v g)) \<and>
        (\<forall>p. fst (gw_capture gw i v g) = Inr p \<longrightarrow> tells bank (snd (gw_capture gw i v g)) p)) \<and>
     (\<forall>i g. grows bank g (snd (gw_paymentsOfOrder gw i g)) \<and>
        (\<forall>ps. fst (gw_paymentsOfOrder gw i g) = Inr ps \<longrightarrow> (\<forall>p \<in> set ps. tells bank (snd (gw_paymentsOfOrder gw i g)) p))) \<and>
     (\<forall>p v i g. grows bank g (snd (gw_refund gw p v i g))) \<and>
     (\<forall>p i g. grows bank g (snd (gw_fetchRefund gw p i g))) \<and>
     (\<forall>p g. grows bank g (snd (gw_refundsOf gw p g)))"

lemma grows_refl [simp]: "grows bank g g"
  and grows_trans: "grows bank g g1 \<Longrightarrow> grows bank g1 g2 \<Longrightarrow> grows bank g g2"
  by (simp_all add: grows_def)

lemma tells_grows: "tells bank g p \<Longrightarrow> grows bank g g' \<Longrightarrow> tells bank g' p"
  by (auto simp: tells_def grows_def)

lemma honestD:
  assumes "honest gw bank"
  shows "gw_createOrder gw v i g = (r1, g') \<Longrightarrow> grows bank g g'"
    and "gw_fetchPayment gw j g = (r2, g') \<Longrightarrow> grows bank g g'" "gw_fetchPayment gw j g = (Inr p, g') \<Longrightarrow> tells bank g' p"
    and "gw_capture gw j w g = (r3, g') \<Longrightarrow> grows bank g g'" "gw_capture gw j w g = (Inr p, g') \<Longrightarrow> tells bank g' p"
    and "gw_paymentsOfOrder gw j g = (r4, g') \<Longrightarrow> grows bank g g'"
    and "gw_paymentsOfOrder gw j g = (Inr ps, g') \<Longrightarrow> q \<in> set ps \<Longrightarrow> tells bank g' q"
    and "gw_refund gw j w k g = (r5, g') \<Longrightarrow> grows bank g g'" "gw_fetchRefund gw j k g = (r6, g') \<Longrightarrow> grows bank g g'"
    and "gw_refundsOf gw j g = (r7, g') \<Longrightarrow> grows bank g g'"
  using assms unfolding honest_def by (metis fst_conv snd_conv)+

lemma honest_names: "honest gw bank \<Longrightarrow> names_payments gw"
  unfolding honest_def names_payments_def tells_def by blast

lemma take_told:
  assumes "takePayment gw p tot g = (r, g')" "honest gw bank" "tells bank g p"
  shows "grows bank g g' \<and> (\<forall>q. r = Inr q \<longrightarrow> tells bank g' q)"
proof (cases "gp_status p \<noteq> Gp_authorized \<or> gp_paise p \<noteq> paise tot")
  case True
  with assms show ?thesis by (auto simp: takePayment_def)
next
  case False
  then have due: "gp_status p = Gp_authorized" "gp_paise p = paise tot" by auto
  obtain c g1 where c: "gw_capture gw (gp_id p) (paise tot) g = (c, g1)" by fastforce
  note c1 = honestD(4) [OF assms(2) c] honestD(5) [OF assms(2), of "gp_id p" "paise tot" g _ g1]
  obtain f g2 where f: "gw_fetchPayment gw (gp_id p) g1 = (f, g2)" by fastforce
  note f1 = honestD(2) [OF assms(2) f] honestD(3) [OF assms(2), of "gp_id p" g1 _ g2]
  show ?thesis using assms(1) due c1 f1 grows_trans [OF c1(1) f1(1)]
    by (auto simp: takePayment_def c f split: sum.splits fault.splits if_splits)
qed

text \<open>A house that opened clean, is a run of its operations, and whose books the gateway vouches for.\<close>

definition proved :: "(string \<Rightarrow> string \<Rightarrow> bool) \<Rightarrow> ('g \<Rightarrow> string \<Rightarrow> int option) \<Rightarrow> house \<Rightarrow> house \<Rightarrow> 'g \<Rightarrow> bool" where
  "proved coll bank h0 h g \<longleftrightarrow> dayOne h0 \<and> no_qr_yet h0 \<and> runs (hexec coll) h0 h \<and> vouched (bank g) (purse_of h)"

lemma proved_sane: "proved coll bank h0 h g \<Longrightarrow> sane (purse_of h)"
  unfolding proved_def by (blast intro: sane_reached)

lemma proved_orders: "proved coll bank h0 h g \<Longrightarrow> orders_ok h"
  using hinv_reached [of h0 coll h] by (simp add: proved_def hinv_def books_def)

lemma proved_grows: "proved coll bank h0 h g \<Longrightarrow> grows bank g g' \<Longrightarrow> proved coll bank h0 h g'"
  by (auto simp: proved_def grows_def elim: vouched_more)

lemma proved_desk:
  assumes "proved coll bank h0 h g" "\<not> takes_capture op"
  shows "proved coll bank h0 (snd (hexec coll op h)) g"
proof -
  have i: "hinv h" using assms(1) hinv_reached by (auto simp: proved_def)
  have "vouched (bank g) (purse_of (snd (hexec coll op h)))"
    using vouched_step [OF hexec_purse [OF i proved_sane [OF assms(1)]] proved_sane [OF assms(1)]
      no_new_hexec [OF assms(2) proved_orders [OF assms(1)]]] assms(1) by (simp add: proved_def)
  then show ?thesis using assms(1) by (auto simp: proved_def intro: runs.call)
qed

lemma proved_tx:
  assumes "proved coll bank h0 h g" "serve coll op = transact f" "wire op" "\<not> takes_capture op"
  shows "proved coll bank h0 (snd (transact f h)) g"
  using proved_desk [OF assms(1,4)] assms(2,3) by (simp add: hexec_def)

lemma proved_services:
  assumes "proved coll bank h0 h g"
  shows "CreateQrOrderBodySchema body \<Longrightarrow> proved coll bank h0 (snd (transact (place_tx cfg b token body secret ip now) h)) g"
    and "proved coll bank h0 (snd (transact (setRzpOrder_tx i rzp) h)) g"
    and "proved coll bank h0 (snd (transact (lapse_tx i now) h)) g"
    and "proved coll bank h0 (snd (transact (settleRefund_tx rzp note ok now) h)) g"
    and "proved coll bank h0 (snd (transact (markWebhook_tx ev) h)) g"
    and "proved coll bank h0 (snd (transact (expire_tx coll now busy) h)) g"
    and "proved coll bank h0 (snd (transact (claimDueRefunds coll now n busy) h)) g"
    and "proved coll bank h0 (snd (transact (refundSent_tx i x now) h)) g"
    and "proved coll bank h0 (snd (transact (refundUnsent_tx i err final now) h)) g"
  using proved_tx [OF assms, of "Op_place cfg b token body secret ip now"] proved_tx [OF assms, of "Op_setRzp i rzp"]
    proved_tx [OF assms, of "Op_lapse i now"] proved_tx [OF assms, of "Op_refundNews rzp note ok now"]
    proved_tx [OF assms, of "Op_webhookMark ev"] proved_tx [OF assms, of "Op_expire now busy"]
    proved_tx [OF assms, of "Op_claimRefunds now n busy"] proved_tx [OF assms, of "Op_refundSent i x now"]
    proved_tx [OF assms, of "Op_refundUnsent i err final now"]
  by simp_all

lemma proved_settle:
  assumes "proved coll bank h0 h g" "tells bank g p" "gp_status p = Gp_captured"
  shows "proved coll bank h0 (snd (settleCapture i p stamp h)) g"
proof -
  have p: "gp_id p \<noteq> []" "bank g (gp_id p) = Some (gp_paise p)" using assms(2,3) by (simp_all add: tells_def)
  have "vouched (bank g) (purse_of (snd (transact (capture_tx i p t us) h)))" for t us
    by (rule keeps_transact [where P = "\<lambda>x. vouched (bank g) (purse_of x)"])
      (use assms(1) p vouched_capture [OF _ proved_sane [OF assms(1)]] in \<open>auto simp: proved_def\<close>)
  then show ?thesis using assms(1) runs_settle [OF p(1), of coll h0 h i stamp] by (simp add: proved_def settleCapture_def)
qed

lemma proved_threw: "threw (transact f h) = (r, h1) \<Longrightarrow> proved coll bank h0 (snd (transact f h)) g \<Longrightarrow> proved coll bank h0 h1 g"
  by (metis snd_conv threw_house)

abbreviation proved_after where
  "proved_after coll bank h0 s \<equiv> proved coll bank h0 (fst s) (snd s)"

lemma proved_checkout:
  assumes "proved coll bank h0 h g" "honest gw bank"
  shows "proved_after coll bank h0 (snd (checkoutFor gw i o' at' h g))"
proof -
  obtain c g1 where c: "gw_createOrder gw (paise (qd_total o')) i g = (c, g1)" by fastforce
  have 1: "proved coll bank h0 h g1" using proved_grows [OF assms(1) honestD(1) [OF assms(2) c]] .
  show ?thesis using assms(1) 1
    by (auto simp: checkoutFor_def c dest!: proved_threw [where coll = coll and bank = bank and ?h0.0 = h0 and g = g1]
        intro: proved_services split: option.split prod.split sum.split fault.split bool.split)
qed

lemma proved_place:
  assumes "proved coll bank h0 h g" "\<And>gw. gwo = Some gw \<Longrightarrow> honest gw bank" "CreateQrOrderBodySchema body"
  shows "proved_after coll bank h0 (snd (place gwo cfg token body secret ip now h g))"
proof -
  obtain r h1 where t: "threw (transact (place_tx cfg (gwo \<noteq> None) token body secret ip now) h) = (r, h1)" by fastforce
  have h1: "proved coll bank h0 h1 g" by (rule proved_threw [OF t proved_services(1) [OF assms(1,3)]])
  then show ?thesis using assms(2) unfolding place_def t by (auto intro!: proved_checkout split: option.split sum.split)
qed

lemma proved_payment:
  assumes "proved coll bank h0 h g" "honest gw bank" "tells bank g p"
  shows "proved_after coll bank h0 (snd (settlePayment gw i tot p stamp h g))"
proof -
  obtain r g1 where t: "takePayment gw p tot g = (r, g1)" by fastforce
  note told = take_told [OF t assms(2,3)]
  have 1: "proved coll bank h0 h g1" using proved_grows [OF assms(1)] told by blast
  show ?thesis
  proof (cases r)
    case (Inr q)
    with told have q: "tells bank g1 q" by blast
    obtain x h1 where s: "settleCapture i q stamp h = (x, h1)" by fastforce
    show ?thesis using 1 proved_settle [OF 1 q, of i stamp] by (simp add: settlePayment_def t Inr s)
  qed (use 1 in \<open>simp add: settlePayment_def t\<close>)
qed

lemma proved_verified:
  assumes "proved coll bank h0 h g" "tells bank g p"
  shows "proved coll bank h0 (snd (verified i p stamp h)) g"
  using proved_settle [OF assms, of i stamp] assms(1) by (auto simp: verified_def split: prod.split sum.split)

lemma proved_verify:
  assumes "proved coll bank h0 h g" "\<And>gw. gwo = Some gw \<Longrightarrow> honest gw bank"
  shows "proved_after coll bank h0 (snd (verify gwo i body stamp h g))"
proof (cases gwo)
  case (Some gw)
  note ok = assms(2) [OF Some]
  show ?thesis
  proof (cases "qrOrder_of h i")
    case o': (Some o')
    obtain x g1 where f: "gw_fetchPayment gw (vb_payment body) g = (x, g1)" by fastforce
    have 1: "proved coll bank h0 h g1" using proved_grows [OF assms(1) honestD(2) [OF ok f]] .
    show ?thesis
    proof (cases x)
      case (Inr p0)
      obtain y g2 where t: "takePayment gw p0 (qd_total o') g1 = (y, g2)" by fastforce
      note told = take_told [OF t ok honestD(3) [OF ok f [unfolded Inr]]]
      have 2: "proved coll bank h0 h g2" using proved_grows [OF 1] told by blast
      have 3: "proved coll bank h0 (snd (verified i p stamp h)) g2" if "y = Inr p" for p
        using proved_verified [OF 2, of p i stamp] told that by blast
      show ?thesis using assms(1) 1 2 3
        by (cases y) (auto simp: verify_def Some o' f Inr t split: option.split prod.split)
    qed (use assms(1) 1 in \<open>simp add: verify_def Some o' f split: option.split\<close>)
  qed (simp add: verify_def Some assms(1))
qed (simp add: verify_def assms(1))

text \<open>A delivery tells the truth when the payment in it does.\<close>

definition told :: "('g \<Rightarrow> string \<Rightarrow> int option) \<Rightarrow> 'g \<Rightarrow> news \<Rightarrow> bool" where
  "told bank g n \<longleftrightarrow> (\<forall>p. n = PaymentNews (Some p) \<longrightarrow> tells bank g p)"

lemma proved_payment_news:
  assumes "proved coll bank h0 h g" "honest gw bank" "\<And>q. p = Some q \<Longrightarrow> tells bank g q"
  shows "proved_after coll bank h0 (snd (payment_news gw p stamp h g))"
proof -
  have "proved coll bank h0 h1 g1" if "p = Some q" "settlePayment gw i tot q stamp h g = (r, h1, g1)" for q i tot r h1 g1
    using proved_payment [OF assms(1,2) assms(3) [OF that(1)], of i tot stamp] that(2) by simp
  then show ?thesis using assms(1) by (auto simp: payment_news_def split: option.split prod.split sum.split)
qed

lemma proved_news:
  assumes "proved coll bank h0 h g" "honest gw bank" "told bank g n"
  shows "proved_after coll bank h0 (snd (handle_news gw n stamp at' h g))"
proof (cases n)
  case (PaymentNews p)
  then show ?thesis using proved_payment_news [OF assms(1,2), of p stamp] assms(3) by (simp add: handle_news_def told_def)
next
  case (RefundNews ok r)
  then show ?thesis using assms(1)
    by (auto simp: handle_news_def dest!: proved_threw [where coll = coll and bank = bank and ?h0.0 = h0 and g = g]
        intro: proved_services split: option.split prod.split)
qed (simp_all add: handle_news_def assms(1))

lemma proved_webhook:
  assumes "proved coll bank h0 h g" "\<And>gw. gwo = Some gw \<Longrightarrow> honest gw bank" "sig \<Longrightarrow> told bank g n"
  shows "proved_after coll bank h0 (snd (webhook gwo sig n ev stamp at' h g))"
proof (cases "\<exists>gw. gwo = Some gw \<and> sig")
  case True
  then obtain gw where gw: "gwo = Some gw" and sig by blast
  obtain r h1 g1 where n: "handle_news gw n stamp at' h g = (r, h1, g1)" by (metis prod.collapse)
  have 1: "proved coll bank h0 h1 g1"
    using proved_news [OF assms(1) assms(2) [OF gw] assms(3) [OF \<open>sig\<close>], of stamp at'] by (simp add: n)
  obtain x h2 where m: "threw (transact (markWebhook_tx (the (truthy ev))) h1) = (x, h2)" by fastforce
  have 2: "proved coll bank h0 h2 g1" by (rule proved_threw [OF m proved_services(5) [OF 1]])
  show ?thesis using assms(1) 1 2 m \<open>sig\<close> by (auto simp: webhook_def gw n split: option.split sum.split)
next
  case False
  with assms(1) show ?thesis by (auto simp: webhook_def split: option.split)
qed

section \<open>The worker\<close>

lemma proved_each:
  assumes "honest gw bank" "\<forall>p \<in> set ps. tells bank g p" "proved coll bank h0 h g"
  shows "proved_after coll bank h0 (snd (settle_each gw i tot stamp ps h g))"
  using assms(2,3)
proof (induction ps arbitrary: h g)
  case (Cons p ps)
  obtain r h1 g1 where s: "settlePayment gw i tot p stamp h g = (r, h1, g1)" by (metis prod.collapse)
  have 1: "proved coll bank h0 h1 g1" using proved_payment [OF Cons.prems(2) assms(1), of p i tot stamp] Cons.prems(1) by (simp add: s)
  obtain t g2 where t: "takePayment gw p tot g = (t, g2)" by fastforce
  have "grows bank g g2" using take_told [OF t assms(1)] Cons.prems(1) by simp
  moreover have "g1 = g2" using s by (auto simp: settlePayment_def t split: sum.splits if_splits prod.splits)
  ultimately have "\<forall>q \<in> set ps. tells bank g1 q" using Cons.prems(1) tells_grows by fastforce
  then show ?case using Cons.IH 1 Cons.prems by (cases r) (auto simp: s)
qed simp

lemma proved_reconcile_one:
  assumes "honest gw bank" "proved_after coll bank h0 s"
  shows "proved_after coll bank h0 (reconcile_one gw stamp o' s)"
proof -
  obtain r g1 where p: "gw_paymentsOfOrder gw (case qd_rzpOrder (snd o') of Some x \<Rightarrow> x | None \<Rightarrow> []) (snd s) = (r, g1)" by fastforce
  have 1: "proved coll bank h0 (fst s) g1" using proved_grows [OF assms(2) honestD(6) [OF assms(1) p]] .
  show ?thesis
  proof (cases r)
    case (Inr ps)
    have "\<forall>q \<in> set ps. tells bank g1 q" using honestD(7) [OF assms(1) p [unfolded Inr]] by blast
    from proved_each [OF assms(1) this 1] show ?thesis by (simp add: reconcile_one_def p Inr)
  qed (simp add: reconcile_one_def p 1)
qed

lemma proved_poll_one:
  assumes "honest gw bank" "proved_after coll bank h0 s"
  shows "proved_after coll bank h0 (poll_one gw at' r s)"
proof -
  obtain x g1 where p: "gw_fetchRefund gw (rf_payment (snd r)) (case rf_rzp (snd r) of Some x \<Rightarrow> x | None \<Rightarrow> []) (snd s) = (x, g1)" by fastforce
  have 1: "proved coll bank h0 (fst s) g1" using proved_grows [OF assms(2) honestD(9) [OF assms(1) p]] .
  then show ?thesis by (auto simp: poll_one_def p proved_services split: sum.split)
qed

lemma proved_passes:
  assumes "\<And>gw. gwo = Some gw \<Longrightarrow> honest gw bank" "proved_after coll bank h0 s"
  shows "proved_after coll bank h0 (snd (reconcileOrders coll gwo stamp now asks s))"
    and "proved_after coll bank h0 (snd (pollRefunds coll gwo since now asks s))"
proof -
  have "proved_after coll bank h0 (foldl (\<lambda>s o'. reconcile_one gw stamp o' s) s rows)" if "gwo = Some gw" for gw rows
    by (rule foldl_keeps [of "proved_after coll bank h0"]) (simp_all add: assms that proved_reconcile_one)
  then show "proved_after coll bank h0 (snd (reconcileOrders coll gwo stamp now asks s))"
    using assms(2) by (auto simp: reconcileOrders_def Let_def split: option.split prod.split)
  have "proved_after coll bank h0 (foldl (\<lambda>s r. poll_one gw now r s) s rows)" if "gwo = Some gw" for gw rows
    by (rule foldl_keeps [of "proved_after coll bank h0"]) (simp_all add: assms that proved_poll_one)
  then show "proved_after coll bank h0 (snd (pollRefunds coll gwo since now asks s))"
    using assms(2) by (auto simp: pollRefunds_def Let_def split: option.split prod.split)
qed

lemma proved_send_one:
  assumes "honest gw bank" "proved coll bank h0 h g"
  shows "proved_after coll bank h0 (snd (sendOne gw at' r h g))"
proof -
  obtain x g1 where a: "ask_refund gw (fst r) (snd r) g = (x, g1)" by fastforce
  obtain l g2 where l: "gw_refundsOf gw (rf_payment (snd r)) g = (l, g2)" by fastforce
  obtain y g3 where y: "gw_refund gw (rf_payment (snd r)) (paise (rf_amount (snd r))) (fst r) g2 = (y, g3)" by fastforce
  have "grows bank g g1" using a honestD(10) [OF assms(1) l] grows_trans [OF honestD(10) [OF assms(1) l] honestD(8) [OF assms(1) y]]
    by (auto simp: ask_refund_def l y split: sum.splits option.splits)
  then have 1: "proved coll bank h0 h g1" by (rule proved_grows [OF assms(2)])
  show ?thesis
    by (auto simp: sendOne_def a dest!: proved_threw [where coll = coll and bank = bank and ?h0.0 = h0 and g = g1]
        intro: proved_services [OF 1] split: prod.split sum.split)
qed

lemma proved_send_each:
  "honest gw bank \<Longrightarrow> proved coll bank h0 h g \<Longrightarrow> proved_after coll bank h0 (snd (send_each gw at' rs h g))"
proof (induction rs arbitrary: h g)
  case (Cons r rs)
  obtain x h1 g1 where s: "sendOne gw at' r h g = (x, h1, g1)" by (metis prod.collapse)
  have "proved coll bank h0 h1 g1" using proved_send_one [OF Cons.prems, of at' r] by (simp add: s)
  then show ?case using Cons.IH Cons.prems(1) by (cases x) (simp_all add: s)
qed simp

lemma proved_send:
  assumes "\<And>gw. gwo = Some gw \<Longrightarrow> honest gw bank" "proved coll bank h0 h g"
  shows "proved_after coll bank h0 (snd (sendRefunds coll gwo now busy h g))"
proof (cases gwo)
  case (Some gw)
  obtain r h1 where t: "threw (transact (claimDueRefunds coll now REFUND_BATCH busy) h) = (r, h1)" by fastforce
  have 1: "proved coll bank h0 h1 g" by (rule proved_threw [OF t proved_services(7) [OF assms(2)]])
  then show ?thesis using proved_send_each [OF assms(1) [OF Some] 1]
    by (auto simp: sendRefunds_def Some Let_def t split: sum.split)
qed (simp add: sendRefunds_def assms(2))

lemma proved_tick:
  assumes "\<And>gw. gwo = Some gw \<Longrightarrow> honest gw bank" "proved coll bank h0 h g"
  shows "proved_after coll bank h0 (snd (snd (tick coll gwo stamp since rec now busy asks h g)))"
proof -
  obtain r h1 where e: "threw (transact (expire_tx coll now busy) h) = (r, h1)" by fastforce
  have h1: "proved coll bank h0 h1 g" by (rule proved_threw [OF e proved_services(6) [OF assms(2)]])
  obtain a1 h2 g2 where 1: "reconcileOrders coll gwo stamp now asks (h1, g) = (a1, h2, g2)" by (metis prod.collapse)
  obtain a2 h3 g3 where 2: "pollRefunds coll gwo since now a1 (h2, g2) = (a2, h3, g3)" by (metis prod.collapse)
  have p1: "proved coll bank h0 h2 g2" using proved_passes(1) [where gwo = gwo and bank = bank and coll = coll and ?h0.0 = h0 and s = "(h1, g)" and stamp = stamp
      and now = now and asks = asks, OF assms(1)] h1 by (simp add: 1)
  have p2: "proved coll bank h0 h3 g3" using proved_passes(2) [where gwo = gwo and bank = bank and coll = coll and ?h0.0 = h0 and s = "(h2, g2)" and since = since
      and now = now and asks = a1, OF assms(1)] p1 by (simp add: 2)
  note s = proved_send [where gwo = gwo and bank = bank and now = now and busy = busy, OF assms(1) h1]
    proved_send [where gwo = gwo and bank = bank and now = now and busy = busy, OF assms(1) p2]
  show ?thesis using h1 s by (cases r) (auto simp: tick_def e 1 2 split: prod.split)
qed

section \<open>Everything together\<close>

text \<open>The house in service: its desks, the four services, and the gateway's own doings, in any order. A delivery may
  be forged; its signature then does not match.\<close>

inductive in_service :: "(string \<Rightarrow> string \<Rightarrow> bool) \<Rightarrow> 'g gateway option \<Rightarrow> ('g \<Rightarrow> string \<Rightarrow> int option) \<Rightarrow> house \<times> 'g \<Rightarrow> house \<times> 'g \<Rightarrow> bool"
  for coll gwo bank s0 where
  opens: "in_service coll gwo bank s0 s0"
| desk: "in_service coll gwo bank s0 (h, g) \<Longrightarrow> \<not> takes_capture op \<Longrightarrow> in_service coll gwo bank s0 (snd (hexec coll op h), g)"
| gateway: "in_service coll gwo bank s0 (h, g) \<Longrightarrow> grows bank g g' \<Longrightarrow> in_service coll gwo bank s0 (h, g')"
| places: "in_service coll gwo bank s0 (h, g) \<Longrightarrow> CreateQrOrderBodySchema body \<Longrightarrow>
    in_service coll gwo bank s0 (snd (place gwo cfg token body secret ip now h g))"
| verifies: "in_service coll gwo bank s0 (h, g) \<Longrightarrow> in_service coll gwo bank s0 (snd (verify gwo i vb stamp h g))"
| hooks: "in_service coll gwo bank s0 (h, g) \<Longrightarrow> (sig \<Longrightarrow> told bank g n) \<Longrightarrow>
    in_service coll gwo bank s0 (snd (webhook gwo sig n ev stamp now h g))"
| ticks: "in_service coll gwo bank s0 (h, g) \<Longrightarrow>
    in_service coll gwo bank s0 (snd (snd (tick coll gwo stamp since rec now busy asks h g)))"

lemma in_service_proved:
  assumes "in_service coll gwo bank s0 s" "\<And>gw. gwo = Some gw \<Longrightarrow> honest gw bank" "proved_after coll bank (fst s0) s0"
  shows "proved_after coll bank (fst s0) s"
  using assms(1)
proof (induction rule: in_service.induct)
  case opens
  show ?case by (rule assms(3))
next
  case (desk h g op)
  then show ?case by (simp add: proved_desk)
next
  case (gateway h g g')
  then show ?case by (auto intro: proved_grows)
next
  case (places h g body cfg token secret ip now)
  then show ?case using proved_place [OF _ assms(2)] by simp
next
  case (verifies h g i vb stamp)
  then show ?case using proved_verify [OF _ assms(2)] by simp
next
  case (hooks h g sig n ev stamp now)
  then show ?case using proved_webhook [OF _ assms(2)] by simp
next
  case (ticks h g stamp since rec now busy asks)
  then show ?case using proved_tick [OF assms(2)] by simp
qed

lemma vouched_start: "no_qr_yet h \<Longrightarrow> vouched V (purse_of h)"
  by (auto simp: no_qr_yet_def vouched_def qrOrder_of_def)

text \<open>C7. No money without proof. Whatever the phones, the webhook, the worker and every desk do, in any order, with the
  gateway refusing, losing answers and moving on by itself, and with forged deliveries among the real ones: the
  house is in a state a run of its operations reaches; a payment an order names is one the gateway holds as
  captured, and where a bill was written for it, captured for exactly that order's total; every refund on the books
  is of a payment the gateway holds, for exactly what was captured. And a verify without the order's secret, for
  another checkout than the order's, or without the gateway's signature over it is refused with nothing asked and
  nothing written.\<close>

theorem no_money_without_proof:
  assumes "dayOne h0" and "no_qr_yet h0" and "\<forall>gw. gwo = Some gw \<longrightarrow> honest gw bank"
    and "in_service coll gwo bank (h0, g0) (h, g)"
  shows "runs (hexec coll) h0 h \<and>
    (\<forall>i o' p. qrOrder_of h i = Some o' \<and> qd_payment o' = Some p \<longrightarrow>
       bank g p \<noteq> None \<and> (qd_bill o' \<noteq> None \<longrightarrow> bank g p = Some (paise (qd_total o')))) \<and>
    (\<forall>r \<in> snd ` set (ho_refunds h). bank g (rf_payment r) = Some (paise (rf_amount r))) \<and>
    (\<forall>gw i o' vb stamp. gwo = Some gw \<and> qrOrder_of h i = Some o' \<and> (qd_secret o' \<noteq> vb_secret vb \<or>
         qd_rzpOrder o' \<noteq> Some (vb_order vb) \<or> \<not> gw_verifyCheckout gw (vb_order vb) (vb_payment vb) (vb_signature vb)) \<longrightarrow>
       (\<exists>e. verify gwo i vb stamp h g = (Inl e, h, g)))"
proof (intro conjI allI ballI impI)
  have "proved_after coll bank (fst (h0, g0)) (h, g)"
    by (rule in_service_proved [OF assms(4)]) (use assms(1-3) in \<open>simp_all add: proved_def vouched_start runs.here\<close>)
  then have p: "runs (hexec coll) h0 h" "vouched (bank g) (purse_of h)" by (simp_all add: proved_def)
  show "runs (hexec coll) h0 h" by (rule p(1))
  show "bank g (rf_payment r) = Some (paise (rf_amount r))" if "r \<in> snd ` set (ho_refunds h)" for r
    using vouchedD(3) [OF p(2), of "owed_of r"] that by (auto simp: owed_of_def image_image)
  fix i o' x assume o': "qrOrder_of h i = Some o' \<and> qd_payment o' = Some x"
  then have c: "pu_orders (purse_of h) i = Some (coin_of o')" "co_payment (coin_of o') = Some x" by (simp_all add: coin_of_def)
  show "bank g x \<noteq> None" by (rule vouchedD(1) [OF p(2) c])
  show "bank g x = Some (paise (qd_total o'))" if "qd_bill o' \<noteq> None"
    using vouchedD(2) [OF p(2) c] that by (auto simp: coin_of_def)
next
  fix gw and i o' and vb :: verifyBody and stamp
  assume "gwo = Some gw \<and> qrOrder_of h i = Some o' \<and> (qd_secret o' \<noteq> vb_secret vb \<or>
     qd_rzpOrder o' \<noteq> Some (vb_order vb) \<or> \<not> gw_verifyCheckout gw (vb_order vb) (vb_payment vb) (vb_signature vb))"
  then show "\<exists>e. verify gwo i vb stamp h g = (Inl e, h, g)"
    by (auto simp: verify_def verify_refusal_def split: option.split if_splits)
qed

end
