(* ===== verification/Ward.thy ===== *)
theory Ward
  imports Ordering Shop Vouched
begin

text \<open>
  A code beside a bed, to see the properties of QR ordering at work: two bottles of water ordered from it, paid
  for in a currency the hospital does not take, the refund refused by the gateway and put back by a manager.
\<close>

section \<open>The order\<close>

definition ward :: house where
  "ward = shop\<lparr>ho_codes := [(''Q1'', \<lparr>qc_loc = ''cafe'', qc_label = ''Bed 4'', qc_mode = Deliver, qc_token = ''tok'',
       qc_active = True, qc_rotated = None\<rparr>)],
     ho_hours := (\<lambda>_. [\<lparr>oh_dow = 4, oh_opens = ''00:00'', oh_closes = ''23:00''\<rparr>])\<rparr>"

definition wants :: placeBody where
  "wants = \<lparr>pb_nonce = ''n1'', pb_name = ''Asha'', pb_phone = ''9876543210'', pb_detail = Some ''Bed 4'', pb_lines = [(''water'', 2)]\<rparr>"

definition cfg :: qrConfig where
  "cfg = \<lparr>qf_maxRupees = 5000, qf_ttlMin = 20, qf_pendingPerIp = 5\<rparr>"

abbreviation bed :: "string \<times> qrCodeRow" where
  "bed \<equiv> (''Q1'', \<lparr>qc_loc = ''cafe'', qc_label = ''Bed 4'', qc_mode = Deliver, qc_token = ''tok'', qc_active = True, qc_rotated = None\<rparr>)"

definition qid :: string where "qid = formatId K_qr_order 1 5"

definition two_bottles :: billPlan where
  "two_bottles = \<lparr>pl_lines = [\<lparr>bl_it = ''water'', bl_qty = 2, bl_rate = 20\<rparr>], pl_tot = 40, pl_disc = 0, pl_tax = 40/21,
     pl_moves = [\<lparr>sm_loc = ''cafe'', sm_it = ''water'', sm_qty = - 2\<rparr>]\<rparr>"

definition bed_order :: qrOrderRow where
  "bed_order = quoted_order cfg bed wants ''9876543210'' ''s'' ''ip'' 5 two_bottles"

lemma dayOne_ward: "dayOne ward"
  using dayOne_shop by (auto simp: ward_def dayOne_def books_def orders_ok_def bill_of_def intro: map_of_SomeD)

lemma ward_clean: "no_qr_yet ward"
  by (simp add: no_qr_yet_def ward_def shop_def carried_def)

lemma ward_sel: "ho_db ward = shop_db" "ho_qrOrders ward = []" "ho_refunds ward = []"
  by (simp_all add: ward_def shop_def)

lemma ward_wire: "CreateQrOrderBodySchema wants"
  by code_simp

lemma ward_doors: "doors_refusal cfg ((demo_loc ''Cafe'' Outlet_Type)\<lparr>loc_list := Some ''L1''\<rparr>) ''cafe'' ''9876543210'' ''ip'' 5 ward = None"
  by code_simp

lemma ward_cart: "cart_refusal (sellableAt ward ''cafe'') (cartOf [(''water'', 2)]) = None"
  by code_simp

lemma ward_quote: "quote ward ''cafe'' [(''water'', 2)] = two_bottles"
  by code_simp

lemma ward_phone: "normalizePhone ''9876543210'' = Some ''9876543210''"
  by code_simp

lemma ward_total: "total_refusal cfg (round2 40) = None"
  using is2_numeral [of "num.Bit0 (num.Bit0 (num.Bit0 (num.Bit1 (num.Bit0 num.One))))"]
  by (simp add: total_refusal_def assertRule_def cfg_def MIN_ORDER_RUPEES_def is2_def)

lemma ward_places: "\<exists>d. place_tx cfg True ''tok'' wants ''s'' ''ip'' 5 ward = Inr (ward\<lparr>ho_db := d, ho_qrOrders := [(qid, bed_order)]\<rparr>)"
proof -
  have code: "liveCode ward ''tok'' = Some bed" by (simp add: liveCode_def codeByToken_def ward_def)
  have loc: "lockLocation shop_db ''cafe'' = Inr ((demo_loc ''Cafe'' Outlet_Type)\<lparr>loc_list := Some ''L1''\<rparr>)"
    by (simp add: lockLocation_def ward_sel shop_db_def)
  have body: "pb_phone wants = ''9876543210''" "pb_lines wants = [(''water'', 2)]" "pb_nonce wants = ''n1''" "pl_tot two_bottles = 40"
    by (simp_all add: wants_def two_bottles_def)
  have new: "orderByNonce ward ''n1'' = None" by (simp add: orderByNonce_def ward_sel)
  have seq: "db_seq shop_db K_qr_order = Some 1" by (simp add: shop_sel)
  have nonce: "qd_nonce (quoted_order q c b p x ip now plan) = pb_nonce b" for q c b p x ip now plan by (simp add: quoted_order_def)
  show ?thesis
    by (simp add: place_tx_def placed_tx_def code loc body new ward_phone ward_doors ward_cart ward_quote ward_total seq_simps
        Let_def try_db_def allocateId_def allocateNumber_def seq insertQrOrder_def insert_row_def orderByNonce_def ward_sel on_db_def
        bed_order_def qid_def nonce) (rule exI, rule house.equality, simp_all)
qed

abbreviation orders :: hop where "orders \<equiv> Op_place cfg True ''tok'' wants ''s'' ''ip'' 5"

definition ordered :: house where "ordered = snd (hexec demo_coll orders ward)"

lemma ward_orders: "hexec demo_coll orders ward = (None, ordered)"
  and ordered_sel: "ho_qrOrders ordered = [(qid, bed_order)]" "ho_refunds ordered = []"
proof -
  obtain d where "place_tx cfg True ''tok'' wants ''s'' ''ip'' 5 ward = Inr (ward\<lparr>ho_db := d, ho_qrOrders := [(qid, bed_order)]\<rparr>)"
    using ward_places by blast
  then have h: "hexec demo_coll orders ward = (None, ward\<lparr>ho_db := d, ho_qrOrders := [(qid, bed_order)]\<rparr>)"
    using ward_wire by (simp add: hexec_def transact_def)
  then show "hexec demo_coll orders ward = (None, ordered)" "ho_qrOrders ordered = [(qid, bed_order)]" "ho_refunds ordered = []"
    by (simp_all add: ordered_def ward_sel)
qed

lemma runs_ordered: "runs (hexec demo_coll) ward ordered"
  using runs.call [OF runs.here, of "hexec demo_coll" ward orders] by (simp add: ward_orders)

section \<open>A payment in the wrong currency, given back\<close>

definition dollars :: gwPayment where
  "dollars = \<lparr>gp_id = ''pay1'', gp_order = None, gp_paise = 4000, gp_currency = ''USD'', gp_status = Gp_captured\<rparr>"

abbreviation captures :: hop where "captures \<equiv> Op_capture qid dollars 6 [''s1'']"
definition rfid :: string where "rfid = qid @ ''-R'' @ nat_str 1"

definition owed_row :: refundRow where
  "owed_row = new_refund qid ''pay1'' 40 Rr_Unfulfillable None 6"

definition sentback :: house where "sentback = snd (hexec demo_coll captures ordered)"

lemma order_sel: "qd_status bed_order = Qr_Awaiting" "qd_payment bed_order = None" "qd_secret bed_order = ''s''"
  by (simp_all add: bed_order_def quoted_order_def)

lemma wrong_currency:
  assumes h: "ho_qrOrders h = [(qid, o')]" "ho_refunds h = []" and o': "qd_status o' = Qr_Awaiting" "qd_payment o' = None"
    and p: "gp_id p = ''pay1''" "gp_currency p = ''USD''" "gp_paise p = 4000"
  shows "\<exists>d. capture_tx qid p 6 [''s1''] h = Inr (h\<lparr>ho_db := d,
    ho_qrOrders := [(qid, o'\<lparr>qd_status := Qr_Refunded, qd_payment := Some ''pay1''\<rparr>)], ho_refunds := [(rfid, owed_row)]\<rparr>)"
proof -
  have r: "rupees 4000 = 40"
    using is2_numeral [of "num.Bit0 (num.Bit0 (num.Bit0 (num.Bit1 (num.Bit0 num.One))))"] by (simp add: rupees_def is2_def)
  have q: "qrOrder_of h qid = Some o'" by (simp add: qrOrder_of_def h)
  obtain d where so: "systemOperator h = h\<lparr>ho_db := d\<rparr>"
    by (cases "db_users (ho_db h) SYSTEM_QR = None") (auto simp: systemOperator_def on_db_def intro: that [of "ho_db h"])
  have sale: "try_sale qid o' p 6 [''s1''] x = Inr (Inl (''the payment of '' @ money 40 @ '' did not match the order's ''
      @ money (qd_total o')))" for x
    by (simp add: try_sale_def mismatch_def p r)
  show ?thesis
    by (simp add: capture_tx_def q o' p truthy_def so sale seq_simps payment_taken_def h refunded_capture_def
        moveQrOrder_def assertTransition_def queueRefund_def rfid_def r insert_row_def update_row_def on_db_def owed_row_def
        new_refund_def Let_def) (rule exI, rule house.equality, simp_all)
qed

lemma ordered_captures: "\<exists>d. capture_tx qid dollars 6 [''s1''] ordered = Inr (ordered\<lparr>ho_db := d,
    ho_qrOrders := [(qid, bed_order\<lparr>qd_status := Qr_Refunded, qd_payment := Some ''pay1''\<rparr>)], ho_refunds := [(rfid, owed_row)]\<rparr>)"
  by (rule wrong_currency) (simp_all add: ordered_sel order_sel dollars_def)

lemma captured: "hexec demo_coll captures ordered = (None, sentback)"
  and back_sel: "ho_qrOrders sentback = [(qid, bed_order\<lparr>qd_status := Qr_Refunded, qd_payment := Some ''pay1''\<rparr>)]"
    "ho_refunds sentback = [(rfid, owed_row)]"
proof -
  obtain d where "capture_tx qid dollars 6 [''s1''] ordered = Inr (ordered\<lparr>ho_db := d,
    ho_qrOrders := [(qid, bed_order\<lparr>qd_status := Qr_Refunded, qd_payment := Some ''pay1''\<rparr>)], ho_refunds := [(rfid, owed_row)]\<rparr>)"
    using ordered_captures by blast
  then have h: "hexec demo_coll captures ordered = (None, ordered\<lparr>ho_db := d,
    ho_qrOrders := [(qid, bed_order\<lparr>qd_status := Qr_Refunded, qd_payment := Some ''pay1''\<rparr>)], ho_refunds := [(rfid, owed_row)]\<rparr>)"
    by (simp add: hexec_def transact_def dollars_def)
  then show "hexec demo_coll captures ordered = (None, sentback)"
    "ho_qrOrders sentback = [(qid, bed_order\<lparr>qd_status := Qr_Refunded, qd_payment := Some ''pay1''\<rparr>)]"
    "ho_refunds sentback = [(rfid, owed_row)]"
    by (simp_all add: sentback_def)
qed

lemma runs_back: "runs (hexec demo_coll) ward sentback"
  using runs.call [OF runs_ordered, of captures] by (simp add: captured)

section \<open>The refund, refused and put back\<close>

definition failed :: house where "failed = snd (hexec demo_coll (Op_refundUnsent rfid ''refused'' True 7) sentback)"
definition again :: house where "again = snd (hexec demo_coll (Op_retryRefund rfid 8) failed)"

lemma unsent: "hexec demo_coll (Op_refundUnsent rfid ''refused'' True 7) sentback = (None, failed)"
  and failed_sel: "ho_refunds failed = [(rfid, owed_row\<lparr>rf_status := Ref_Failed, rf_error := Some ''refused''\<rparr>)]"
  by (simp_all add: failed_def hexec_def transact_def refundUnsent_tx_def refund_of_def back_sel deferRefund_def refundForUpdate_def
      seq_simps assertTransition_def update_refund_def update_row_def owed_row_def new_refund_def Let_def)

lemma retried: "hexec demo_coll (Op_retryRefund rfid 8) failed = (None, again)"
  and again_sel: "ho_refunds again = [(rfid, owed_row\<lparr>rf_status := Ref_Pending, rf_next := 8\<rparr>)]"
proof -
  have w: "wire (Op_retryRefund rfid 8)" by code_simp
  show "hexec demo_coll (Op_retryRefund rfid 8) failed = (None, again)"
    "ho_refunds again = [(rfid, owed_row\<lparr>rf_status := Ref_Pending, rf_next := 8\<rparr>)]"
    using w by (simp_all add: again_def hexec_def transact_def retryRefund_tx_def refund_of_def failed_sel refundForUpdate_def
      seq_simps assertRule_def moveRefund_def assertTransition_def update_refund_def update_row_def moved_refund_def owed_row_def
      new_refund_def Let_def)
qed

lemma runs_again: "runs (hexec demo_coll) sentback again"
  using runs.call [OF runs.call [OF runs.here, of _ _ "Op_refundUnsent rfid ''refused'' True 7"], of "hexec demo_coll" sentback "Op_retryRefund rfid 8"]
  by (simp add: unsent retried)

section \<open>The properties at work\<close>

theorem order_placed_witness:
  "\<exists>i o'. ho_qrOrders ordered = ho_qrOrders ward @ [(i, o')] \<and> qd_status o' = Qr_Awaiting \<and> qd_total o' = round2 40 \<and>
     pendingForPhone ordered ''9876543210'' 5 \<le> 3"
proof -
  have "orderByNonce ward (pb_nonce wants) = None" by (simp add: orderByNonce_def ward_sel)
  from order_placed [OF ward_orders this]
  show ?thesis by (auto simp: wants_def ward_phone liveCode_def codeByToken_def ward_def ward_quote [unfolded ward_def] two_bottles_def)
qed

theorem money_in_one_place_witness:
  "\<exists>r \<in> set (refunds_of sentback qid). rf_payment r = ''pay1'' \<and> rf_reason r = Rr_Unfulfillable"
  using money_in_one_place [OF dayOne_ward ward_clean runs_back, of qid "bed_order\<lparr>qd_status := Qr_Refunded, qd_payment := Some ''pay1''\<rparr>"]
  by (auto simp: qrOrder_of_def back_sel)

theorem capture_settles_once_witness:
  "hexec demo_coll (Op_capture qid dollars 9 [''s2'']) again = (None, again)"
  using capture_settles_once [OF dayOne_ward ward_clean runs_ordered captured runs_again, of dollars 9 "[''s2'']"] by simp

theorem refund_life_witness:
  "\<exists>r. refund_of again rfid = Some r \<and> rf_amount r = 40 \<and> rf_payment r = ''pay1''"
  using refund_life [OF dayOne_ward runs_back _ runs_again, of rfid owed_row]
  by (auto simp: refund_of_def back_sel owed_row_def new_refund_def)

theorem late_news_fails_the_retry_witness:
  "\<exists>h r. hexec demo_coll (Op_refundNews ''x1'' (Some rfid) False 9) again = (None, h) \<and> refund_of h rfid = Some r \<and>
     rf_status r = Ref_Failed"
  using late_news_fails_the_retry [OF retried, of "''x1''" 9] by (auto simp: again_sel owed_row_def new_refund_def)

theorem figures_on_grid_witness:
  "is3 (onhand (ho_db sold_house) (''cafe'', ''water'')) \<and> is2 (bi_total rung_bill)"
proof -
  have "runs (hexec demo_coll) shop sold_house" using runs.call [OF runs.here, of "hexec demo_coll" shop sells] by (simp add: shop_sells)
  from figures_on_grid [OF dayOne_shop this] show ?thesis using sold_sel(1) by blast
qed

section \<open>A gateway whose answers are lost\<close>

text \<open>It books every refund it is asked for, and the answer never comes back.\<close>

definition lossy :: "(string \<Rightarrow> gwRefund list) gateway" where
  "lossy = \<lparr>gw_createOrder = (\<lambda>v i g. (Inr ''order1'', g)), gw_fetchPayment = (\<lambda>p g. (Inr dollars, g)),
     gw_capture = (\<lambda>p v g. (Inr dollars, g)),
     gw_refund = (\<lambda>p v i g. (Inl (GatewayError ''timeout'' True), g(p := g p @ [\<lparr>gf_id = ''x1'', gf_status = Gr_pending, gf_rid = Some i\<rparr>]))),
     gw_paymentsOfOrder = (\<lambda>i g. (Inr [dollars], g)), gw_fetchRefund = (\<lambda>p i g. (Inl Crashed, g)),
     gw_refundsOf = (\<lambda>p g. (Inr (g p), g)), gw_verifyCheckout = (\<lambda>o' p s. True)\<rparr>"

lemma lossy_named: "names_payments lossy"
  by (simp add: names_payments_def lossy_def dollars_def)

lemma lossy_keeps: "keeps_refunds lossy (\<lambda>g. g)"
  by (simp add: keeps_refunds_def lossy_def) (metis gwRefund.select_convs(3))

definition sent_once :: "string \<Rightarrow> gwRefund list" where
  "sent_once = snd (snd (sendRefunds demo_coll (Some lossy) 8 [] again (\<lambda>_. [])))"

lemma sent_once_is: "length (standing rfid (sent_once ''pay1'')) = 1"
  by (simp add: sent_once_def sendRefunds_def Let_def due_refunds_def again_sel owed_row_def new_refund_def stable_sort_def
      REFUND_BATCH_def claimDueRefunds_def transact_def threw_def update_refund_def update_row_def claimed_def refund_of_def
      map_filter_def sendOne_def ask_refund_def lossy_def already_sent_def standing_def split: prod.split sum.split)

theorem refund_sent_once_witness:
  "length (standing rfid (snd (snd (sendRefunds demo_coll (Some lossy) 90000 [] again sent_once)) ''pay1'')) \<le> 1 \<and>
   length (standing rfid (sent_once ''pay1'')) = 1"
proof -
  have "paid_once (\<lambda>g. g) sent_once"
    using refund_sent_once [OF lossy_keeps, of "\<lambda>_. []" demo_coll 8 "[]" again] by (simp add: sent_once_def paid_once_def standing_def)
  from refund_sent_once [OF lossy_keeps this, of demo_coll 90000 "[]" again] show ?thesis
    using sent_once_is by (simp add: paid_once_def)
qed

section \<open>An honest gateway\<close>

text \<open>It holds one payment, in dollars, for the order's checkout, and tells of nothing else. Its signature is
  \<open>sig\<close>.\<close>

definition paid_up :: gwPayment where "paid_up = dollars\<lparr>gp_order := Some ''order1''\<rparr>"

definition truthful :: "unit gateway" where
  "truthful = \<lparr>gw_createOrder = (\<lambda>v i g. (Inr ''order1'', g)), gw_fetchPayment = (\<lambda>p g. (Inr paid_up, g)),
     gw_capture = (\<lambda>p v g. (Inr paid_up, g)), gw_refund = (\<lambda>p v i g. (Inl Crashed, g)),
     gw_paymentsOfOrder = (\<lambda>i g. (Inr [paid_up], g)), gw_fetchRefund = (\<lambda>p i g. (Inl Crashed, g)),
     gw_refundsOf = (\<lambda>p g. (Inr [], g)), gw_verifyCheckout = (\<lambda>o' p s. s = ''sig'')\<rparr>"

definition holdings :: "unit \<Rightarrow> string \<Rightarrow> int option" where
  "holdings = (\<lambda>_. [''pay1'' \<mapsto> 4000])"

lemma truthful_honest: "honest truthful holdings"
  by (simp add: honest_def truthful_def grows_def tells_def holdings_def paid_up_def dollars_def)

abbreviation checkout :: "string \<Rightarrow> verifyBody" where
  "checkout s \<equiv> \<lparr>vb_secret = ''s'', vb_order = ''order1'', vb_payment = ''pay1'', vb_signature = s\<rparr>"

abbreviation at_six :: stamp where "at_six \<equiv> (\<lambda>_. (6, [''s1'']))"

abbreviation tags :: hop where "tags \<equiv> Op_setRzp qid ''order1''"

definition tagged :: house where "tagged = snd (hexec demo_coll tags ordered)"

lemma tagged_sel: "ho_qrOrders tagged = [(qid, bed_order\<lparr>qd_rzpOrder := Some ''order1''\<rparr>)]" "ho_refunds tagged = []"
proof -
  have "qd_rzpOrder bed_order = None" by (simp add: bed_order_def quoted_order_def)
  then show "ho_qrOrders tagged = [(qid, bed_order\<lparr>qd_rzpOrder := Some ''order1''\<rparr>)]" "ho_refunds tagged = []"
    by (simp_all add: tagged_def hexec_def transact_def setRzpOrder_tx_def qrOrder_of_def ordered_sel update_qrOrder_def update_row_def)
qed

definition verified_bed :: house where "verified_bed = fst (snd (verify (Some truthful) qid (checkout ''sig'') at_six tagged ()))"

lemma verified_sel: "ho_refunds verified_bed = [(rfid, owed_row)]"
  "qrOrder_of verified_bed qid = Some (bed_order\<lparr>qd_rzpOrder := Some ''order1'', qd_status := Qr_Refunded, qd_payment := Some ''pay1''\<rparr>)"
proof -
  obtain d where c: "capture_tx qid paid_up 6 [''s1''] tagged = Inr (tagged\<lparr>ho_db := d, ho_qrOrders := [(qid,
      bed_order\<lparr>qd_rzpOrder := Some ''order1'', qd_status := Qr_Refunded, qd_payment := Some ''pay1''\<rparr>)], ho_refunds := [(rfid, owed_row)]\<rparr>)"
    using wrong_currency [of tagged _ paid_up] by (auto simp: tagged_sel order_sel paid_up_def dollars_def)
  have p: "gp_status paid_up = Gp_captured" "gp_order paid_up = Some ''order1''" by (simp_all add: paid_up_def dollars_def)
  show "ho_refunds verified_bed = [(rfid, owed_row)]"
    "qrOrder_of verified_bed qid = Some (bed_order\<lparr>qd_rzpOrder := Some ''order1'', qd_status := Qr_Refunded, qd_payment := Some ''pay1''\<rparr>)"
    by (simp_all add: verified_bed_def verify_def qrOrder_of_def tagged_sel order_sel verify_refusal_def truthy_def truthful_def
        payment_refusal_def assertRule_def p takePayment_def verified_def settleCapture_def c transact_def threw_def)
qed

theorem no_money_without_proof_witness:
  "holdings () ''pay1'' = Some (paise (rf_amount owed_row)) \<and>
   (\<exists>e. verify (Some truthful) qid (checkout ''forged'') at_six verified_bed () = (Inl e, verified_bed, ()))"
proof -
  have "in_service demo_coll (Some truthful) holdings (ward, ()) (ordered, ())"
    using in_service.desk [OF in_service.opens, of orders demo_coll "Some truthful" holdings ward "()"] by (simp add: ward_orders)
  from in_service.desk [OF this, of tags] have "in_service demo_coll (Some truthful) holdings (ward, ()) (tagged, ())"
    by (simp add: tagged_def)
  note in_service.verifies [OF this, of qid "checkout ''sig''" at_six]
  moreover have "snd (verify (Some truthful) qid (checkout ''sig'') at_six tagged ()) = (verified_bed, ())"
    by (simp add: verified_bed_def prod_eq_iff)
  ultimately have s: "in_service demo_coll (Some truthful) holdings (ward, ()) (verified_bed, ())" by simp
  note N = no_money_without_proof [OF dayOne_ward ward_clean _ s, simplified, OF truthful_honest]
  show ?thesis using N verified_sel by (auto simp: owed_row_def new_refund_def truthful_def)
qed

end
