(* ===== verification/Hospital.thy ===== *)
theory Hospital
  imports House
begin

text \<open>
  The tables of the offices around the house: the accounts, roles, postings and admin log of \<open>master.ts\<close>, the
  sessions of \<open>infra.ts\<close>, the shifts of \<open>sales.ts\<close>, the support desk and product requests of \<open>ops.ts\<close>, and the
  columns of vendors, contracts and locations that only the master desks read. A \<open>hospital\<close> keeps the house as
  one of its fields, and the services that keep the master (\<open>People\<close>, \<open>Premises\<close>, \<open>Signin\<close>, \<open>Shifts\<close>,
  \<open>Front\<close>, \<open>Masters\<close>) are functions of the whole.

  An account's name is the house's (\<open>db_users\<close>), where every service reads it. A posting is an entry of its
  account's list, which the cascade of \<open>user_postings\<close> deletes with it. The account the server keeps for itself
  (\<open>lib/system-users.ts\<close>, which nobody signs in as) has neither role nor posting and stays the house's. What the offices announce is kept beside
  what the house announces.
\<close>

section \<open>Rows\<close>

datatype slice = Sl_tickets | Sl_productReqs | Sl_ovr | Sl_shifts | Sl_vendors | Sl_contracts | Sl_roles
  | Sl_outlets | Sl_locations | Sl_payers | Sl_roster

record roleRow =
  ro_name :: string
  ro_desk :: role
  ro_perms :: permissions
  ro_active :: bool
  ro_ever :: bool
  ro_version :: nat

record account =
  us_emp :: string
  us_email :: string
  us_desk :: role
  us_role :: "string option"
  us_label :: string
  us_loc :: key
  us_colour :: string
  us_phone :: string
  us_hash :: string
  us_mustChange :: bool
  us_active :: bool
  us_admin :: bool
  us_system :: bool
  us_posts :: "key list"

record token =
  tn_user :: string
  tn_family :: string
  tn_hash :: string
  tn_expires :: instant
  tn_used :: "instant option"
  tn_revoked :: "instant option"
  tn_loc :: "key option"
  tn_created :: instant

record adminLine =
  al_actor :: string
  al_action :: string
  al_target :: "string option"
  al_name :: string

record placeCard =
  pl_code :: string
  pl_floor :: string
  pl_cc :: string

record shiftTotals =
  st_count :: nat
  st_gross :: number
  st_discount :: number
  st_nett :: number
  st_tax :: number
  st_tenders :: "(tender \<times> number \<times> nat) list"
  st_collected :: number
  st_credit :: number
  st_voidAmount :: number
  st_voidBills :: nat

record shiftRow =
  sh_user :: string
  sh_loc :: key
  sh_opened :: instant
  sh_closed :: "(instant \<times> shiftTotals \<times> bool) option"

datatype topic = T_SignIn | T_Screen | T_Number | T_Printing | T_Slow | T_Training | T_Feature | T_Other
datatype priority = Low | Normal | Urgent
datatype sender = FromUser | FromSupport

record message =
  mg_id :: string
  mg_from :: sender
  mg_who :: string
  mg_at :: instant
  mg_body :: string

record supportRow =
  sp_topic :: topic
  sp_subject :: string
  sp_priority :: priority
  sp_status :: ticketStatus
  sp_by :: string
  sp_role :: role
  sp_loc :: key
  sp_at :: instant
  sp_screen :: string
  sp_rating :: "nat option"
  sp_messages :: "message list"

record wishRow =
  wi_name :: string
  wi_why :: string
  wi_loc :: key
  wi_by :: string
  wi_at :: instant
  wi_status :: productReqStatus
  wi_note :: "string option"
  wi_item :: "key option"

text \<open>The columns of a vendor that only its own desk reads; the name, the lead time and the switch are the
  house's.\<close>

record vendorSheet =
  vs_gstin :: string
  vs_contact :: string
  vs_phone :: string
  vs_terms :: string
  vs_groups :: "string list"

record hospital =
  hp_house :: house
  hp_roles :: "(string \<times> roleRow) list"
  hp_accounts :: "(string \<times> account) list"
  hp_userSeq :: "nat option"
  hp_tokens :: "token list"
  hp_log :: "adminLine list"
  hp_places :: "(key \<times> placeCard) list"
  hp_shifts :: "(string \<times> shiftRow) list"
  hp_support :: "(string \<times> supportRow) list"
  hp_wishes :: "(string \<times> wishRow) list"
  hp_vendors :: "(string \<times> vendorSheet) list"
  hp_moq :: "string \<Rightarrow> number option"
  hp_notices :: "slice list list"

section \<open>Reading and stepping\<close>

definition hp_db :: "hospital \<Rightarrow> db" where "hp_db s = ho_db (hp_house s)"

definition account_of :: "hospital \<Rightarrow> string \<Rightarrow> account option" where
  "account_of s i = map_of (hp_accounts s) i"

definition role_of :: "hospital \<Rightarrow> string \<Rightarrow> roleRow option" where
  "role_of s i = map_of (hp_roles s) i"

definition on_house :: "(house \<Rightarrow> house) \<Rightarrow> hospital \<Rightarrow> hospital" where
  "on_house f s = s\<lparr>hp_house := f (hp_house s)\<rparr>"

definition update_account :: "string \<Rightarrow> (account \<Rightarrow> account) \<Rightarrow> hospital \<Rightarrow> hospital" where
  "update_account i f s = s\<lparr>hp_accounts := update_row (hp_accounts s) i f\<rparr>"

definition update_role :: "string \<Rightarrow> (roleRow \<Rightarrow> roleRow) \<Rightarrow> hospital \<Rightarrow> hospital" where
  "update_role i f s = s\<lparr>hp_roles := update_row (hp_roles s) i f\<rparr>"

text \<open>\<open>allocateId\<close> and \<open>emitChanged\<close> from a service of the offices.\<close>

definition officeId :: "idKind \<Rightarrow> instant \<Rightarrow> hospital \<Rightarrow> error + string \<times> hospital" where
  "officeId kind at' s = bindE (try_db (allocateId kind at') (hp_house s)) (\<lambda>(i, h). Inr (i, s\<lparr>hp_house := h\<rparr>))"

definition announce :: "slice list \<Rightarrow> hospital \<Rightarrow> hospital" where
  "announce ch s = (if uniq ch = [] then s else s\<lparr>hp_notices := hp_notices s @ [uniq ch]\<rparr>)"

text \<open>\<open>withTransaction\<close> over the whole hospital.\<close>

definition commit :: "(hospital \<Rightarrow> error + hospital) \<Rightarrow> hospital \<Rightarrow> error option \<times> hospital" where
  "commit f s = (case f s of Inl e \<Rightarrow> (Some e, s) | Inr s' \<Rightarrow> (None, s'))"

lemma commit_ok: "commit f s = (None, s') \<longleftrightarrow> f s = Inr s'"
  by (auto simp: commit_def split: sum.splits)

lemma commit_err: "commit f s = (Some e, s') \<Longrightarrow> s' = s"
  by (auto simp: commit_def split: sum.splits)

lemma keeps_commit: "(\<And>s'. f s = Inr s' \<Longrightarrow> P s') \<Longrightarrow> P s \<Longrightarrow> P (snd (commit f s))"
  by (auto simp: commit_def split: sum.splits)

lemma announce_sel [simp]: "hp_house (announce ch s) = hp_house s" "hp_roles (announce ch s) = hp_roles s"
  "hp_accounts (announce ch s) = hp_accounts s" "hp_tokens (announce ch s) = hp_tokens s"
  "hp_shifts (announce ch s) = hp_shifts s" "hp_support (announce ch s) = hp_support s"
  "hp_wishes (announce ch s) = hp_wishes s" "hp_vendors (announce ch s) = hp_vendors s"
  "hp_places (announce ch s) = hp_places s" "hp_userSeq (announce ch s) = hp_userSeq s"
  "hp_log (announce ch s) = hp_log s" "hp_moq (announce ch s) = hp_moq s" "hp_db (announce ch s) = hp_db s"
  by (simp_all add: announce_def hp_db_def)

lemma officeId_Inr: "officeId kind at' s = Inr (i, s') \<longleftrightarrow>
  (\<exists>d. allocateId kind at' (hp_db s) = Inr (i, d) \<and> s' = s\<lparr>hp_house := (hp_house s)\<lparr>ho_db := d\<rparr>\<rparr>)"
  by (auto simp: officeId_def hp_db_def)

lemma allocateId_master:
  assumes "allocateId kind at' d = Inr (i, d')"
  shows "db_locations d' = db_locations d" "db_users d' = db_users d" "db_items d' = db_items d"
    "db_balances d' = db_balances d" "db_moves d' = db_moves d"
  using assms by (auto simp: allocateId_def allocateNumber_def split: sum.splits option.splits)

lemma officeId_sel:
  assumes "officeId kind at' s = Inr (i, s')"
  shows "hp_roles s' = hp_roles s" "hp_accounts s' = hp_accounts s" "hp_tokens s' = hp_tokens s"
    "hp_shifts s' = hp_shifts s" "hp_support s' = hp_support s" "hp_wishes s' = hp_wishes s"
    "hp_vendors s' = hp_vendors s" "hp_places s' = hp_places s" "hp_userSeq s' = hp_userSeq s"
    "hp_log s' = hp_log s" "hp_moq s' = hp_moq s" "db_locations (hp_db s') = db_locations (hp_db s)"
    "db_users (hp_db s') = db_users (hp_db s)" "ho_bills (hp_house s') = ho_bills (hp_house s)"
    "ho_contracts (hp_house s') = ho_contracts (hp_house s)" "ho_vendors (hp_house s') = ho_vendors (hp_house s)"
  using assms by (auto simp: officeId_Inr hp_db_def dest: allocateId_master)

end
