(* ===== verification/People.thy ===== *)
theory People
  imports Hospital
begin

text \<open>
  Roles and the accounts that hold them: \<open>apps/api/src/modules/roles\<close>, \<open>lib/users-admin.ts\<close>, the account half of
  \<open>modules/admin/service.ts\<close> and \<open>lib/access.ts\<close>. A role is a name, a desk and permissions; an account holds one
  unless it is the super admin or the server's own. What an account may do is read off its role at every
  request (\<open>loadAccess\<close>).

  The clock, the temporary password and the password hash are arguments; ids and employee numbers sort by their
  characters. The unique index on role names and the foreign keys are the refusals of the statements they guard.
\<close>

section \<open>Roles (\<open>modules/roles\<close>)\<close>

text \<open>\<open>holding(id)\<close>: active, and not the super admin.\<close>

definition holding :: "string \<Rightarrow> account \<Rightarrow> bool" where
  "holding i u \<longleftrightarrow> us_role u = Some i \<and> us_active u \<and> \<not> us_admin u"

definition role_holders :: "hospital \<Rightarrow> string \<Rightarrow> (string \<times> string) list" where
  "role_holders s i = stable_sort (\<lambda>a b. snd a \<le> snd b)
     (map (\<lambda>(k, u). (userName (hp_db s) k, us_emp u)) (filter (\<lambda>(k, u). holding i u) (hp_accounts s)))"

definition nameAll :: "(string \<times> string) list \<Rightarrow> string" where
  "nameAll people =
     (let named = map (\<lambda>(n, e). n @ '' ('' @ e @ '')'') (take 5 people); more = length people - length named in
      if 0 < more then join '', '' named @ '' and '' @ nat_str more @ '' more'' else and_list named)"

definition samePerms :: "permissions \<Rightarrow> permissions \<Rightarrow> bool" where
  "samePerms a b \<longleftrightarrow> list_all (\<lambda>f. perm_f a f = perm_f b f) feature_keys \<and>
     list_all (\<lambda>x. count_list (perm_a a) x = count_list (perm_a b) x) (perm_a a @ perm_a b)"

definition namedLike :: "hospital \<Rightarrow> string \<Rightarrow> (string \<times> roleRow) option" where
  "namedLike s name = find (\<lambda>r. toLower (ro_name (snd r)) = toLower name) (hp_roles s)"

definition roleTaken :: "string \<Rightarrow> error" where
  "roleTaken name = ConflictError (''Refused - a role named '' @ name @ '' already exists'')"

definition refuseTaken :: "hospital \<Rightarrow> string \<Rightarrow> string option \<Rightarrow> error option" where
  "refuseTaken s name self = (case namedLike s name of None \<Rightarrow> None
     | Some r \<Rightarrow> if Some (fst r) \<noteq> self then Some (roleTaken name) else None)"

definition refuseGrant :: "role \<Rightarrow> permissions \<Rightarrow> error option" where
  "refuseGrant desk perms = map_option RuleError (grantRefusal desk perms)"

text \<open>\<open>roles_name_uq\<close>, and the rows of \<open>users\<close> that point at a role and its desk.\<close>

definition role_clash :: "hospital \<Rightarrow> string \<Rightarrow> string option \<Rightarrow> bool" where
  "role_clash s name self = list_ex (\<lambda>r. toLower (ro_name (snd r)) = toLower name \<and> Some (fst r) \<noteq> self) (hp_roles s)"

definition role_referenced :: "hospital \<Rightarrow> string \<Rightarrow> bool" where
  "role_referenced s i = list_ex (\<lambda>u. us_role (snd u) = Some i) (hp_accounts s)"

definition foreign_key :: error where
  "foreign_key = Internal ''update or delete violates foreign key constraint''"

definition logAction :: "string \<Rightarrow> string \<Rightarrow> string option \<Rightarrow> string \<Rightarrow> hospital \<Rightarrow> hospital" where
  "logAction actor' action' target name s = s\<lparr>hp_log := hp_log s @
     [\<lparr>al_actor = actor', al_action = action', al_target = target, al_name = name\<rparr>]\<rparr>"

definition noRole :: "string \<Rightarrow> error" where
  "noRole i = NotFoundError (''There is no role '' @ i @ ''.'')"

definition insertRole :: "string \<Rightarrow> roleRow \<Rightarrow> hospital \<Rightarrow> error + hospital" where
  "insertRole i r s =
     (if role_clash s (ro_name r) None then Inl (roleTaken (ro_name r))
      else bindE (insert_row (hp_roles s) i r) (\<lambda>t. Inr (s\<lparr>hp_roles := t\<rparr>)))"

definition createRole_tx ::
    "claims \<Rightarrow> string \<Rightarrow> role \<Rightarrow> permissions \<Rightarrow> instant \<Rightarrow> hospital \<Rightarrow> error + hospital" where
  "createRole_tx c name desk perms at' s =
     unless (refuseTaken s name None)
     (unless (refuseGrant desk perms)
     (bindE (officeId K_role at' s) (\<lambda>(i, s1).
      bindE (insertRole i \<lparr>ro_name = name, ro_desk = desk, ro_perms = perms, ro_active = True, ro_ever = False,
        ro_version = 1\<rparr> s1) (\<lambda>s2.
      Inr (announce [Sl_roles] (logAction (cl_sub c) ''role_create'' None name s2))))))"

text \<open>\<open>rolesRepo.update\<close> bumps the version; \<open>relabel\<close> carries a rename to every account on the role.\<close>

definition writeRole :: "string \<Rightarrow> (roleRow \<Rightarrow> roleRow) \<Rightarrow> hospital \<Rightarrow> hospital" where
  "writeRole i f s = update_role i (\<lambda>r. (f r)\<lparr>ro_version := ro_version r + 1\<rparr>) s"

definition relabel :: "string \<Rightarrow> string \<Rightarrow> hospital \<Rightarrow> hospital" where
  "relabel i name s = s\<lparr>hp_accounts := map (\<lambda>(k, u). (k, if us_role u = Some i then u\<lparr>us_label := name\<rparr> else u))
     (hp_accounts s)\<rparr>"

definition updateRole_tx ::
    "claims \<Rightarrow> string \<Rightarrow> string option \<Rightarrow> role option \<Rightarrow> permissions option \<Rightarrow> hospital \<Rightarrow> error + hospital" where
  "updateRole_tx c i name' desk' perms' s =
     found (role_of s i) (noRole i) (\<lambda>row.
     let name = (case name' of Some n \<Rightarrow> n | None \<Rightarrow> ro_name row);
         desk = (case desk' of Some d \<Rightarrow> d | None \<Rightarrow> ro_desk row);
         perms = (case perms' of Some p \<Rightarrow> p | None \<Rightarrow> ro_perms row);
         renamed = (name \<noteq> ro_name row); shifted = (desk \<noteq> ro_desk row);
         regranted = (\<not> samePerms perms (ro_perms row))
     in if \<not> renamed \<and> \<not> shifted \<and> \<not> regranted
        then Inl (RuleError (''Nothing to save - '' @ ro_name row @ '' already reads that way''))
        else if shifted \<and> ro_ever row
        then Inl (RuleError (''Refused - '' @ ro_name row @ '' has been given to staff, so its desk can no longer change. Create a new role for the other desk instead.''))
        else unless (if renamed then refuseTaken s name (Some i) else None)
          (unless (refuseGrant desk perms)
          (if role_clash s name (Some i) then Inl (roleTaken name)
           else if shifted \<and> role_referenced s i then Inl foreign_key
           else
             (let s1 = writeRole i (\<lambda>r. r\<lparr>ro_name := name, ro_desk := desk, ro_perms := perms\<rparr>) s;
                  s2 = (if renamed then relabel i name s1 else s1)
              in Inr (announce [Sl_roles] (logAction (cl_sub c) ''role_update'' None name s2))))))"

definition deactivateRole_tx :: "claims \<Rightarrow> string \<Rightarrow> hospital \<Rightarrow> error + hospital" where
  "deactivateRole_tx c i s =
     found (role_of s i) (noRole i) (\<lambda>row. let held' = role_holders s i in
     if \<not> ro_active row then Inl (RuleError (ro_name row @ '' is already deactivated''))
     else if held' \<noteq> [] then Inl (RuleError (''Refused - '' @ ro_name row @ '' is still held by '' @ nameAll held' @ ''. Move ''
       @ (if length held' = 1 then ''them'' else ''each of them'') @ '' to another role first.''))
     else Inr (announce [Sl_roles] (logAction (cl_sub c) ''role_deactivate'' None (ro_name row)
       (writeRole i (\<lambda>r. r\<lparr>ro_active := False\<rparr>) s))))"

definition reactivateRole_tx :: "claims \<Rightarrow> string \<Rightarrow> hospital \<Rightarrow> error + hospital" where
  "reactivateRole_tx c i s =
     found (role_of s i) (noRole i) (\<lambda>row.
     if ro_active row then Inl (RuleError (ro_name row @ '' is already active''))
     else Inr (announce [Sl_roles] (logAction (cl_sub c) ''role_reactivate'' None (ro_name row)
       (writeRole i (\<lambda>r. r\<lparr>ro_active := True\<rparr>) s))))"

definition removeRole_tx :: "claims \<Rightarrow> string \<Rightarrow> hospital \<Rightarrow> error + hospital" where
  "removeRole_tx c i s =
     found (role_of s i) (noRole i) (\<lambda>row.
     if ro_ever row then Inl (RuleError (''Refused - '' @ ro_name row @ '' has been given to staff, so it can only be deactivated, never deleted''))
     else if role_referenced s i then Inl foreign_key
     else Inr (announce [Sl_roles] (logAction (cl_sub c) ''role_delete'' None (ro_name row)
       (s\<lparr>hp_roles := filter (\<lambda>r. fst r \<noteq> i) (hp_roles s)\<rparr>))))"

section \<open>Accounts (\<open>lib/users-admin.ts\<close>)\<close>

definition MIN_PASSWORD_LENGTH :: nat where "MIN_PASSWORD_LENGTH = 10"

definition PALETTE :: "string list" where
  "PALETTE = [''#B45309'', ''#7C3AED'', ''#0F766E'', ''#15803D'', ''#BE123C'', ''#475569'', ''#1D4ED8'', ''#9333EA'',
     ''#0E7490'', ''#C2410C'']"

definition checkPassword :: "string \<Rightarrow> error option" where
  "checkPassword p = (if length p < MIN_PASSWORD_LENGTH
     then Some (ValidationError (''password must be at least '' @ nat_str MIN_PASSWORD_LENGTH @ '' characters'')) else None)"

fun PLACE :: "role \<Rightarrow> string" where
  "PLACE Prod = ''the Central Kitchen''"
| "PLACE StoreDesk = ''the Central Store''"
| "PLACE Buyer = ''the Central Store''"
| "PLACE Counter = ''an open outlet''"
| "PLACE Manager = ''an open outlet''"

definition checkPairing :: "hospital \<Rightarrow> role \<Rightarrow> string \<Rightarrow> key \<Rightarrow> error option" where
  "checkPairing s desk name loc =
     (case lockLocation (hp_db s) loc of
        Inl e \<Rightarrow> Some (ValidationError (''unknown location \"'' @ loc @ ''\"''))
      | Inr l \<Rightarrow> if worksAt desk loc (Some l) then None
          else Some (ValidationError (name @ '' works at '' @ PLACE desk @
            (if atOutlet desk \<and> loc_type l = Outlet_Type \<and> \<not> loc_active l
             then '' - '' @ loc_n l @ '' is closed'' else '', not at '' @ loc_n l))))"

datatype rolePick = PickId string | PickDesk role

text \<open>The desk as the enum spells it.\<close>

fun desk_key :: "role \<Rightarrow> string" where
  "desk_key Counter = ''counter''" | "desk_key Manager = ''manager''" | "desk_key StoreDesk = ''store''"
| "desk_key Prod = ''prod''" | "desk_key Buyer = ''buyer''"

definition lowest_active :: "hospital \<Rightarrow> role \<Rightarrow> (string \<times> roleRow) option" where
  "lowest_active s desk = (case stable_sort (\<lambda>a b. fst a \<le> fst b)
     (filter (\<lambda>r. ro_desk (snd r) = desk \<and> ro_active (snd r)) (hp_roles s)) of [] \<Rightarrow> None | r # _ \<Rightarrow> Some r)"

definition takeRole :: "hospital \<Rightarrow> rolePick \<Rightarrow> error + string \<times> roleRow" where
  "takeRole s pick =
     found (case pick of PickId i \<Rightarrow> map_option (Pair i) (role_of s i) | PickDesk d \<Rightarrow> lowest_active s d)
       (ValidationError (case pick of PickId i \<Rightarrow> ''unknown role \"'' @ i @ ''\"''
          | PickDesk d \<Rightarrow> ''no active role works at the '' @ desk_key d @ '' desk''))
       (\<lambda>r. if \<not> ro_active (snd r)
          then Inl (RuleError (''Refused - '' @ ro_name (snd r) @ '' is deactivated, so it can't be given to anybody''))
          else Inr r)"

definition markAssigned :: "string \<Rightarrow> hospital \<Rightarrow> hospital" where
  "markAssigned i s = update_role i (\<lambda>r. r\<lparr>ro_ever := True\<rparr>) s"

text \<open>An account by its number; a system account reads as unknown.\<close>

definition byEmp :: "hospital \<Rightarrow> string \<Rightarrow> error + string \<times> account" where
  "byEmp s emp = found (find (\<lambda>u. us_emp (snd u) = emp \<and> \<not> us_system (snd u)) (hp_accounts s))
     (ValidationError (''no user with employee number '' @ emp)) Inr"

definition revokeAll :: "string \<Rightarrow> instant \<Rightarrow> hospital \<Rightarrow> hospital" where
  "revokeAll i at' s = s\<lparr>hp_tokens := map (\<lambda>t. if tn_user t = i \<and> tn_revoked t = None
     then t\<lparr>tn_revoked := Some at'\<rparr> else t) (hp_tokens s)\<rparr>"

definition user_number :: "string \<Rightarrow> nat" where
  "user_number i = (case digits_after ''u'' i of Some ds \<Rightarrow> str_nat ds | None \<Rightarrow> 0)"

definition allocateUserNumber :: "hospital \<Rightarrow> nat \<times> hospital" where
  "allocateUserNumber s =
     (let next' = (case hp_userSeq s of Some n \<Rightarrow> n | None \<Rightarrow> 1);
          n = max next' (foldl max 0 (map (user_number \<circ> fst) (hp_accounts s)) + 1)
      in (n, s\<lparr>hp_userSeq := Some (n + 1)\<rparr>))"

record newUser =
  nu_emp :: "string option"
  nu_name :: string
  nu_email :: string
  nu_loc :: key
  nu_phone :: "string option"
  nu_colour :: "string option"

definition account_for :: "newUser \<Rightarrow> string \<Rightarrow> string \<times> roleRow \<Rightarrow> nat \<Rightarrow> string \<Rightarrow> account" where
  "account_for b emp r n hash = \<lparr>us_emp = emp, us_email = nu_email b, us_desk = ro_desk (snd r), us_role = Some (fst r),
     us_label = ro_name (snd r), us_loc = nu_loc b,
     us_colour = (case nu_colour b of Some c \<Rightarrow> c | None \<Rightarrow> PALETTE ! (n mod length PALETTE)),
     us_phone = (case nu_phone b of Some p \<Rightarrow> p | None \<Rightarrow> ''''), us_hash = hash, us_mustChange = True, us_active = True,
     us_admin = False, us_system = False, us_posts = [nu_loc b]\<rparr>"

definition insertAccount :: "string \<Rightarrow> string \<Rightarrow> account \<Rightarrow> hospital \<Rightarrow> error + hospital" where
  "insertAccount i name u s = bindE (insert_row (hp_accounts s) i u) (\<lambda>t.
     Inr (on_house (on_db (\<lambda>d. d\<lparr>db_users := (db_users d)(i \<mapsto> name)\<rparr>)) (s\<lparr>hp_accounts := t\<rparr>)))"

definition createUserTx ::
    "rolePick \<Rightarrow> newUser \<Rightarrow> string \<Rightarrow> string \<Rightarrow> hospital \<Rightarrow> error + (string \<times> string) \<times> hospital" where
  "createUserTx pick b password hash s =
     unless (checkPassword password)
     (bindE (takeRole s pick) (\<lambda>r.
      unless (checkPairing s (ro_desk (snd r)) (ro_name (snd r)) (nu_loc b))
      (let (n, s1) = allocateUserNumber s;
           emp = (case nu_emp b of Some e \<Rightarrow> e | None \<Rightarrow> nextEmpNo (map (us_emp \<circ> snd) (hp_accounts s)));
           i = ''u'' @ nat_str n
       in if List.member (map (us_emp \<circ> snd) (hp_accounts s)) emp
          then Inl (ConflictError (''employee '' @ emp @ '' already exists''))
          else bindE (insertAccount i (nu_name b) (account_for b emp r n hash) s1) (\<lambda>s2.
            Inr ((i, emp), markAssigned (fst r) s2)))))"

definition resetPasswordTx :: "string \<Rightarrow> string \<Rightarrow> string \<Rightarrow> instant \<Rightarrow> hospital \<Rightarrow> error + hospital" where
  "resetPasswordTx emp temporary hash at' s =
     unless (checkPassword temporary)
     (bindE (byEmp s emp) (\<lambda>(i, u). Inr (revokeAll i at'
        (update_account i (\<lambda>u. u\<lparr>us_hash := hash, us_mustChange := True\<rparr>) s))))"

definition deactivateUserTx :: "string \<Rightarrow> instant \<Rightarrow> hospital \<Rightarrow> error + hospital" where
  "deactivateUserTx emp at' s =
     bindE (byEmp s emp) (\<lambda>(i, u). Inr (revokeAll i at' (update_account i (\<lambda>u. u\<lparr>us_active := False\<rparr>) s)))"

definition reactivateUserTx :: "string \<Rightarrow> hospital \<Rightarrow> error + hospital" where
  "reactivateUserTx emp s =
     bindE (byEmp s emp) (\<lambda>(i, u).
     let role = Option.bind (us_role u) (role_of s);
         name = (case role of Some r \<Rightarrow> ro_name r | None \<Rightarrow> us_label u) in
     unless (if us_admin u then None else
        (case role of
           Some r \<Rightarrow> if \<not> ro_active r then Some (RuleError (''Refused - '' @ userName (hp_db s) i @ '''s role, '' @ ro_name r
             @ '', is deactivated. Give them an active role first'')) else checkPairing s (us_desk u) name (us_loc u)
         | None \<Rightarrow> checkPairing s (us_desk u) name (us_loc u)))
     (Inr (update_account i (\<lambda>u. u\<lparr>us_active := True\<rparr>) s)))"

text \<open>The rows that name an account and do not go with it. \<open>elsewhere\<close> stands for the \<open>updated_by\<close> columns of the
  settings and of the availability switches, which the tables here leave out.\<close>

definition in_ledger :: "db \<Rightarrow> string \<Rightarrow> bool" where
  "in_ledger d i \<longleftrightarrow> list_ex (\<lambda>m. mv_by m = Some i) (db_moves d) \<or>
     list_ex (\<lambda>r. rq_by (snd r) = i \<or> rq_approvedBy (snd r) = Some i) (db_requests d) \<or>
     list_ex (\<lambda>t. tk_issuedBy (snd t) = i) (db_tickets d) \<or> list_ex (\<lambda>a. sa_by (snd a) = i) (db_asks d) \<or>
     list_ex (\<lambda>p. pd_by (snd p) = i) (db_pords d) \<or> list_ex (\<lambda>b. bt_by (snd b) = i) (db_batches d)"

definition voided_by :: "string \<Rightarrow> voidMark option \<Rightarrow> bool" where
  "voided_by i v \<longleftrightarrow> map_option vm_by v = Some i"

definition in_trade :: "house \<Rightarrow> string \<Rightarrow> bool" where
  "in_trade h i \<longleftrightarrow> list_ex (\<lambda>b. bi_operator (snd b) = i \<or> voided_by i (bi_void (snd b))) (ho_bills h) \<or>
     list_ex (\<lambda>z. se_openedBy (snd z) = i \<or> map_option zc_by (se_closed (snd z)) = Some i) (ho_sessions h) \<or>
     list_ex (\<lambda>p. sl_by (snd p) = i \<or> voided_by i (sl_void (snd p))) (ho_settlements h) \<or>
     list_ex (\<lambda>a. aj_by (snd a) = i) (ho_adjs h) \<or>
     list_ex (\<lambda>a. ar_by (snd a) = i \<or> ar_approvedBy (snd a) = Some i) (ho_adjReqs h) \<or>
     list_ex (\<lambda>w. ws_by (snd w) = i) (ho_wastage h) \<or>
     list_ex (\<lambda>q. pq_by (snd q) = i \<or> pq_approvedBy (snd q) = Some i) (ho_prqs h) \<or>
     list_ex (\<lambda>g. gr_by (snd g) = i) (ho_grns h) \<or> list_ex (\<lambda>r. rc_by r = i) (ho_rateChanges h)"

definition in_history :: "(string \<Rightarrow> bool) \<Rightarrow> hospital \<Rightarrow> string \<Rightarrow> bool" where
  "in_history elsewhere s i \<longleftrightarrow> in_ledger (hp_db s) i \<or> in_trade (hp_house s) i \<or>
     list_ex (\<lambda>t. sp_by (snd t) = i) (hp_support s) \<or> list_ex (\<lambda>w. wi_by (snd w) = i) (hp_wishes s) \<or>
     list_ex (\<lambda>l. al_actor l = i) (hp_log s) \<or> elsewhere i"

text \<open>The delete drops sessions and shifts first; its own line in the admin log keeps the name and loses the id.\<close>

definition deleteUserTx :: "(string \<Rightarrow> bool) \<Rightarrow> string \<Rightarrow> account \<Rightarrow> hospital \<Rightarrow> error + hospital" where
  "deleteUserTx elsewhere i u s =
     (if in_history elsewhere s i
      then Inl (RuleError (''Refused - '' @ userName (hp_db s) i @ '' ('' @ us_emp u @ '') has records in the hospital's history, so the account can only be deactivated, never deleted''))
      else Inr (on_house (on_db (\<lambda>d. d\<lparr>db_users := (db_users d)(i := None)\<rparr>))
        (s\<lparr>hp_tokens := filter (\<lambda>t. tn_user t \<noteq> i) (hp_tokens s),
           hp_shifts := filter (\<lambda>x. sh_user (snd x) \<noteq> i) (hp_shifts s),
           hp_accounts := filter (\<lambda>a. fst a \<noteq> i) (hp_accounts s),
           hp_log := map (\<lambda>l. if al_target l = Some i then l\<lparr>al_target := None\<rparr> else l) (hp_log s)\<rparr>)))"

definition give_role :: "string \<times> roleRow \<Rightarrow> key \<Rightarrow> account \<Rightarrow> account" where
  "give_role r loc u = u\<lparr>us_desk := ro_desk (snd r), us_role := Some (fst r), us_label := ro_name (snd r), us_loc := loc\<rparr>"

definition updateUserRoleLocTx :: "string \<Rightarrow> rolePick \<Rightarrow> key \<Rightarrow> instant \<Rightarrow> hospital \<Rightarrow> error + hospital" where
  "updateUserRoleLocTx emp pick loc at' s =
     bindE (takeRole s pick) (\<lambda>r.
     unless (checkPairing s (ro_desk (snd r)) (ro_name (snd r)) loc)
     (bindE (byEmp s emp) (\<lambda>(i, u).
      let s1 = markAssigned (fst r) (update_account i (give_role r loc) s) in
      Inr (if ro_desk (snd r) = us_desk u \<and> loc = us_loc u then s1
           else revokeAll i at' (update_account i (\<lambda>u. u\<lparr>us_posts := [loc]\<rparr>) s1)))))"

definition setUserPostingsTx :: "string \<Rightarrow> key list \<Rightarrow> instant \<Rightarrow> hospital \<Rightarrow> error + hospital" where
  "setUserPostingsTx emp locs at' s =
     bindE (byEmp s emp) (\<lambda>(i, u). let wanted = sort (uniq locs) in
     if wanted = [] then Inl (ValidationError (us_emp u @ '' needs at least one posting''))
     else if \<not> List.member wanted (us_loc u)
     then Inl (ValidationError (''the postings must include '' @ us_emp u @ '''s own location \"'' @ us_loc u @ ''\"''))
     else unless (first_some (map (checkPairing s (us_desk u) (us_label u)) wanted))
       (Inr (revokeAll i at' (update_account i (\<lambda>u. u\<lparr>us_posts := wanted\<rparr>) s))))"

text \<open>The command line's one door in or out of admin status.\<close>

definition setAdmin_tx :: "string \<Rightarrow> bool \<Rightarrow> hospital \<Rightarrow> error + hospital" where
  "setAdmin_tx emp on s =
     bindE (byEmp s emp) (\<lambda>(i, u).
     if on then Inr (update_account i (\<lambda>u. u\<lparr>us_admin := True, us_role := None\<rparr>) s)
     else if us_role u \<noteq> None then Inr (update_account i (\<lambda>u. u\<lparr>us_admin := False\<rparr>) s)
     else bindE (takeRole s (PickDesk (us_desk u))) (\<lambda>r.
       Inr (markAssigned (fst r) (update_account i
         (\<lambda>u. u\<lparr>us_admin := False, us_role := Some (fst r), us_label := ro_name (snd r)\<rparr>) s))))"

section \<open>The account page (\<open>modules/admin\<close>)\<close>

definition byId :: "hospital \<Rightarrow> string \<Rightarrow> error + account" where
  "byId s i = found (account_of s i) (NotFoundError (''There is no account '' @ i @ ''.''))
     (\<lambda>u. if us_system u then Inl (NotFoundError (''There is no account '' @ i @ ''.'')) else Inr u)"

definition refuseSelf :: "claims \<Rightarrow> string \<Rightarrow> string \<Rightarrow> error option" where
  "refuseSelf c i what = (if cl_sub c = i then Some (RuleError (''You cannot '' @ what @ '' your own account from here.'')) else None)"

definition superAdmin :: "hospital \<Rightarrow> string \<Rightarrow> account \<Rightarrow> string \<Rightarrow> error option" where
  "superAdmin s i u why = (if us_admin u
     then Some (RuleError (''Refused - '' @ userName (hp_db s) i @ '' ('' @ us_emp u @ '') is a super admin, and a super admin '' @ why)) else None)"

definition createAccount_tx ::
    "claims \<Rightarrow> string \<Rightarrow> newUser \<Rightarrow> string \<Rightarrow> string \<Rightarrow> hospital \<Rightarrow> error + hospital" where
  "createAccount_tx c roleId b password hash s =
     bindE (createUserTx (PickId roleId) (b\<lparr>nu_emp := None, nu_colour := None\<rparr>) password hash s) (\<lambda>((i, emp), s1).
     Inr (announce [Sl_roles] (logAction (cl_sub c) ''create'' (Some i) (nu_name b) s1)))"

definition resetAccount_tx :: "claims \<Rightarrow> string \<Rightarrow> string \<Rightarrow> string \<Rightarrow> instant \<Rightarrow> hospital \<Rightarrow> error + hospital" where
  "resetAccount_tx c i temporary hash at' s =
     bindE (byId s i) (\<lambda>u. bindE (resetPasswordTx (us_emp u) temporary hash at' s) (\<lambda>s1.
     Inr (logAction (cl_sub c) ''reset_password'' (Some i) (userName (hp_db s) i) s1)))"

definition deactivateAccount_tx :: "claims \<Rightarrow> string \<Rightarrow> instant \<Rightarrow> hospital \<Rightarrow> error + hospital" where
  "deactivateAccount_tx c i at' s =
     unless (refuseSelf c i ''deactivate'')
     (bindE (byId s i) (\<lambda>u. bindE (deactivateUserTx (us_emp u) at' s) (\<lambda>s1.
      Inr (announce [Sl_roles] (logAction (cl_sub c) ''deactivate'' (Some i) (userName (hp_db s) i) s1)))))"

definition reactivateAccount_tx :: "claims \<Rightarrow> string \<Rightarrow> hospital \<Rightarrow> error + hospital" where
  "reactivateAccount_tx c i s =
     bindE (byId s i) (\<lambda>u. bindE (reactivateUserTx (us_emp u) s) (\<lambda>s1.
     Inr (announce [Sl_roles] (logAction (cl_sub c) ''reactivate'' (Some i) (userName (hp_db s) i) s1))))"

definition updateRoleLoc_tx :: "claims \<Rightarrow> string \<Rightarrow> string \<Rightarrow> key \<Rightarrow> instant \<Rightarrow> hospital \<Rightarrow> error + hospital" where
  "updateRoleLoc_tx c i roleId loc at' s =
     unless (refuseSelf c i ''change the role or location of'')
     (bindE (byId s i) (\<lambda>u.
      unless (superAdmin s i u ''has no role or location to change'')
      (bindE (updateUserRoleLocTx (us_emp u) (PickId roleId) loc at' s) (\<lambda>s1.
       Inr (announce [Sl_roles] (logAction (cl_sub c) ''update_role_loc'' (Some i) (userName (hp_db s) i) s1))))))"

definition setPostings_tx :: "claims \<Rightarrow> string \<Rightarrow> key list \<Rightarrow> instant \<Rightarrow> hospital \<Rightarrow> error + hospital" where
  "setPostings_tx c i locs at' s =
     unless (refuseSelf c i ''change the postings of'')
     (bindE (byId s i) (\<lambda>u.
      unless (superAdmin s i u ''has no postings to change'')
      (bindE (setUserPostingsTx (us_emp u) locs at' s) (\<lambda>s1.
       Inr (logAction (cl_sub c) ''update_postings'' (Some i) (userName (hp_db s) i) s1)))))"

definition removeAccount_tx :: "(string \<Rightarrow> bool) \<Rightarrow> claims \<Rightarrow> string \<Rightarrow> hospital \<Rightarrow> error + hospital" where
  "removeAccount_tx elsewhere c i s =
     unless (refuseSelf c i ''delete'')
     (bindE (byId s i) (\<lambda>u.
      unless (superAdmin s i u ''account is never deleted'')
      (unless (if us_active u then Some (RuleError (''Deactivate '' @ userName (hp_db s) i @ '' ('' @ us_emp u
          @ '') before deleting the account'')) else None)
      (bindE (deleteUserTx elsewhere i u s) (\<lambda>s1.
       Inr (logAction (cl_sub c) ''delete'' None (userName (hp_db s) i) s1))))))"

section \<open>What an account may do (\<open>lib/access.ts\<close>)\<close>

definition loadAccess :: "hospital \<Rightarrow> string \<Rightarrow> roleAccess option" where
  "loadAccess s i = Option.bind (account_of s i) (\<lambda>u. Option.bind (Option.bind (us_role u) (role_of s)) (\<lambda>r.
     if us_active u then Some \<lparr>ra_desk = ro_desk r, ra_perms = ro_perms r, ra_active = ro_active r\<rparr> else None))"

end
