(* ===== verification/Shifts.thy ===== *)
theory Shifts
  imports Hospital Register
begin

text \<open>
  A counter operator's shift: \<open>apps/api/src/lib/shifts.ts\<close> and \<open>modules/shifts\<close>. It opens at the sign-in, closes by
  Close Shift or by a sign-in at another counter, and stores what the operator billed there between the two
  instants. \<open>listShifts\<close> is who may read whose.

  Lemmas: the report is the operator's own standing bills at that counter in the window, to the rupee and to the
  bill; nobody has two shifts open.
\<close>

section \<open>The figures\<close>

definition on_shift :: "string \<Rightarrow> key \<Rightarrow> instant \<Rightarrow> instant \<Rightarrow> billRow \<Rightarrow> bool" where
  "on_shift uid loc from to b \<longleftrightarrow> bi_operator b = uid \<and> bi_loc b = loc \<and> from \<le> bi_at b \<and> bi_at b \<le> to"

definition shift_bills :: "house \<Rightarrow> string \<Rightarrow> key \<Rightarrow> instant \<Rightarrow> instant \<Rightarrow> bool \<Rightarrow> billRow list" where
  "shift_bills h uid loc from to standing' =
     filter (\<lambda>b. on_shift uid loc from to b \<and> (bi_void b = None) = standing') (map snd (ho_bills h))"

definition tender_line :: "billRow list \<Rightarrow> tender \<Rightarrow> tender \<times> number \<times> nat" where
  "tender_line bs t = (let ts = filter (\<lambda>b. bi_tender b = t) bs in (t, round2 (\<Sum>b\<leftarrow>ts. bi_total b), length ts))"

definition shiftTotals_of :: "house \<Rightarrow> string \<Rightarrow> key \<Rightarrow> instant \<Rightarrow> instant \<Rightarrow> shiftTotals" where
  "shiftTotals_of h uid loc from to =
     (let bs = shift_bills h uid loc from to True; vs = shift_bills h uid loc from to False;
          groups = uniq (map bi_tender bs);
          per = (\<lambda>f. map (\<lambda>t. round2 (\<Sum>b\<leftarrow>filter (\<lambda>b. bi_tender b = t) bs. f b)) groups);
          tenders = map (tender_line bs) (uniq (TILL_TENDERS @ groups));
          isCredit = (\<lambda>t. List.member ACCOUNT_TENDERS t);
          collected = round2 (sum_list (map (fst \<circ> snd) (filter (\<lambda>l. \<not> isCredit (fst l)) tenders)));
          credit = round2 (sum_list (map (fst \<circ> snd) (filter (\<lambda>l. isCredit (fst l)) tenders)));
          nett = round2 (collected + credit);
          discount = round2 (sum_list (per bi_disc))
      in \<lparr>st_count = sum_list (map (\<lambda>t. length (filter (\<lambda>b. bi_tender b = t) bs)) groups),
          st_gross = round2 (nett + discount), st_discount = discount, st_nett = nett,
          st_tax = round2 (sum_list (per bi_tax)), st_tenders = tenders, st_collected = collected, st_credit = credit,
          st_voidAmount = round2 (\<Sum>b\<leftarrow>vs. bi_total b), st_voidBills = length vs\<rparr>)"

section \<open>The row\<close>

definition openShiftOf :: "hospital \<Rightarrow> string \<Rightarrow> (string \<times> shiftRow) option" where
  "openShiftOf s uid = find (\<lambda>r. sh_user (snd r) = uid \<and> sh_closed (snd r) = None) (hp_shifts s)"

definition closeShiftRow :: "string \<times> shiftRow \<Rightarrow> instant \<Rightarrow> bool \<Rightarrow> hospital \<Rightarrow> shiftTotals \<times> hospital" where
  "closeShiftRow r at' auto' s =
     (let totals = shiftTotals_of (hp_house s) (sh_user (snd r)) (sh_loc (snd r)) (sh_opened (snd r)) at' in
      (totals, s\<lparr>hp_shifts := update_row (hp_shifts s) (fst r) (\<lambda>x. x\<lparr>sh_closed := Some (at', totals, auto')\<rparr>)\<rparr>))"

text \<open>The insert, with the partial unique index on the open shift of a person.\<close>

definition insertShift :: "string \<Rightarrow> shiftRow \<Rightarrow> hospital \<Rightarrow> error + hospital" where
  "insertShift i r s =
     (if openShiftOf s (sh_user r) \<noteq> None then Inl (Internal ''shifts_one_open_per_user'')
      else bindE (insert_row (hp_shifts s) i r) (\<lambda>t. Inr (s\<lparr>hp_shifts := t\<rparr>)))"

definition startShift :: "string \<Rightarrow> key \<Rightarrow> instant \<Rightarrow> hospital \<Rightarrow> error + hospital" where
  "startShift uid loc at' s =
     (let opened = openShiftOf s uid in
      if map_option (sh_loc \<circ> snd) opened = Some loc then Inr s
      else
        (let s1 = (case opened of Some r \<Rightarrow> snd (closeShiftRow r at' True s) | None \<Rightarrow> s) in
         bindE (officeId K_shift at' s1) (\<lambda>(i, s2).
         bindE (insertShift i \<lparr>sh_user = uid, sh_loc = loc, sh_opened = at', sh_closed = None\<rparr> s2) (\<lambda>s3.
         Inr (if opened \<noteq> None then announce [Sl_shifts] s3 else s3)))))"

section \<open>The service (\<open>modules/shifts\<close>)\<close>

definition currentShift :: "claims \<Rightarrow> instant \<Rightarrow> hospital \<Rightarrow> (string \<times> shiftTotals) option" where
  "currentShift c now s = (case openShiftOf s (cl_sub c) of None \<Rightarrow> None
     | Some r \<Rightarrow> if sh_loc (snd r) \<noteq> cl_loc c then None
         else Some (fst r, shiftTotals_of (hp_house s) (sh_user (snd r)) (sh_loc (snd r)) (sh_opened (snd r)) now))"

definition closeShift_tx :: "claims \<Rightarrow> instant \<Rightarrow> hospital \<Rightarrow> error + hospital" where
  "closeShift_tx c at' s =
     found (openShiftOf s (cl_sub c))
       (RuleError ''Refused - you have no open shift to close; sign in again at your counter to start one.'') (\<lambda>r.
     unless (assertRule (sh_loc (snd r) = cl_loc c)
       (''Refused - your open shift is at '' @ loc_name (hp_db s) (sh_loc (snd r)) @ '', not '' @ loc_name (hp_db s) (cl_loc c)
        @ ''; close it there, or sign in here to start one.''))
     (Inr (announce [Sl_shifts] (snd (closeShiftRow r at' False s)))))"

text \<open>Closed shifts since an instant, newest first, at most 500.\<close>

definition closed_at :: "shiftRow \<Rightarrow> instant option" where
  "closed_at r = map_option fst (sh_closed r)"

definition closedSince :: "hospital \<Rightarrow> instant \<Rightarrow> key option \<Rightarrow> string option \<Rightarrow> (string \<times> shiftRow) list" where
  "closedSince s since loc uid =
     take 500 (stable_sort (\<lambda>a b. the (closed_at (snd b)) \<le> the (closed_at (snd a)))
       (filter (\<lambda>r. (case closed_at (snd r) of Some t \<Rightarrow> since \<le> t | None \<Rightarrow> False) \<and>
          (case loc of Some k \<Rightarrow> sh_loc (snd r) = k | None \<Rightarrow> True) \<and>
          (case uid of Some u \<Rightarrow> sh_user (snd r) = u | None \<Rightarrow> True)) (hp_shifts s)))"

definition listShifts :: "actor \<Rightarrow> nat \<Rightarrow> key option \<Rightarrow> instant \<Rightarrow> hospital \<Rightarrow> (string \<times> shiftRow) list" where
  "listShifts a days loc now s =
     (let every' = can (ac_perms a) F_shift_reports View; since = now - int days * 86400000 in
      if \<not> every' \<and> ac_role a \<noteq> Counter then []
      else if every' then closedSince s since loc None else closedSince s since None (Some (ac_sub a)))"

section \<open>The report is the bills\<close>

lemma set_uniq [simp]: "set (uniq xs) = set xs"
  by (induction xs rule: uniq.induct) auto

lemma distinct_uniq [simp]: "distinct (uniq xs)"
  by (induction xs rule: uniq.induct) auto

lemma sum_one: "distinct gs \<Longrightarrow> x \<in> set gs \<Longrightarrow> (\<Sum>g\<leftarrow>gs. if x = g then v else 0) = (v :: 'b :: comm_monoid_add)"
proof (induction gs)
  case (Cons g gs)
  show ?case
  proof (cases "x = g")
    case True
    with Cons.prems have "(\<Sum>h\<leftarrow>gs. if x = h then v else 0) = 0" by (induction gs) auto
    with True show ?thesis by simp
  qed (use Cons in auto)
qed simp

lemma sum_zeros: "(\<Sum>x\<leftarrow>xs. 0) = (0 :: 'b :: comm_monoid_add)"
  by (induction xs) auto

lemma sum_groups:
  fixes f :: "'a \<Rightarrow> 'b :: comm_monoid_add"
  assumes "distinct gs" "\<And>b. b \<in> set bs \<Longrightarrow> k b \<in> set gs"
  shows "(\<Sum>g\<leftarrow>gs. \<Sum>b\<leftarrow>filter (\<lambda>b. k b = g) bs. f b) = (\<Sum>b\<leftarrow>bs. f b)"
  using assms(2)
proof (induction bs)
  case (Cons b bs)
  have "(\<Sum>g\<leftarrow>gs. \<Sum>x\<leftarrow>filter (\<lambda>b. k b = g) (b # bs). f x) =
      (\<Sum>g\<leftarrow>gs. (if k b = g then f b else 0) + (\<Sum>x\<leftarrow>filter (\<lambda>b. k b = g) bs. f x))"
    by (rule arg_cong [where f = sum_list]) auto
  also have "\<dots> = (\<Sum>g\<leftarrow>gs. if k b = g then f b else 0) + (\<Sum>g\<leftarrow>gs. \<Sum>x\<leftarrow>filter (\<lambda>b. k b = g) bs. f x)"
    by (simp add: sum_list_addf)
  finally show ?case using Cons sum_one [OF assms(1), of "k b" "f b"] by simp
qed (simp add: sum_zeros)

lemma sum_parts: "(\<Sum>x\<leftarrow>filter P xs. f x) + (\<Sum>x\<leftarrow>filter (\<lambda>x. \<not> P x) xs. f x) = (\<Sum>x\<leftarrow>xs. f x :: 'b :: comm_monoid_add)"
  by (induction xs) (auto simp: ac_simps)

lemma is2_sum [grid_intros]: "(\<And>x. x \<in> set xs \<Longrightarrow> is2 (f x)) \<Longrightarrow> is2 (\<Sum>x\<leftarrow>xs. f x)"
  by (induction xs) (auto intro: grid_intros)

definition money_ok :: "billRow list \<Rightarrow> bool" where
  "money_ok bs \<longleftrightarrow> (\<forall>b \<in> set bs. is2 (bi_total b) \<and> is2 (bi_disc b) \<and> is2 (bi_tax b))"

lemma shift_figures_eq:
  fixes h :: house and uid :: string and loc :: key and "from" :: instant and to :: instant
  defines "bs \<equiv> shift_bills h uid loc from to True" and "r \<equiv> shiftTotals_of h uid loc from to"
  assumes ok: "money_ok (map snd (ho_bills h))"
  shows "st_nett r = (\<Sum>b\<leftarrow>bs. bi_total b)" "st_collected r + st_credit r = st_nett r"
    "(\<Sum>l\<leftarrow>st_tenders r. fst (snd l)) = st_nett r" "st_count r = length bs"
    "st_discount r = (\<Sum>b\<leftarrow>bs. bi_disc b)" "st_tax r = (\<Sum>b\<leftarrow>bs. bi_tax b)"
    "st_gross r = st_nett r + st_discount r"
proof -
  let ?g = "uniq (map bi_tender bs)" and ?t = "uniq (TILL_TENDERS @ uniq (map bi_tender bs))"
  have m: "is2 (bi_total b)" "is2 (bi_disc b)" "is2 (bi_tax b)" if "b \<in> set bs" for b
    using that ok by (auto simp: money_ok_def bs_def shift_bills_def)
  have line: "round2 (\<Sum>b\<leftarrow>filter (\<lambda>b. bi_tender b = t) bs. bi_total b) = (\<Sum>b\<leftarrow>filter (\<lambda>b. bi_tender b = t) bs. bi_total b)" for t
    by (rule round2_id, rule is2_sum) (simp add: m)
  have amt: "fst (snd (tender_line bs t)) = (\<Sum>b\<leftarrow>filter (\<lambda>b. bi_tender b = t) bs. bi_total b)" for t
    by (simp add: tender_line_def Let_def line)
  have i2: "is2 (\<Sum>l\<leftarrow>filter P (map (tender_line bs) ?t). fst (snd l))" for P
    by (rule is2_sum) (auto simp: amt intro!: is2_sum m)
  have sums: "(\<Sum>l\<leftarrow>map (tender_line bs) ?t. fst (snd l)) = (\<Sum>b\<leftarrow>bs. bi_total b)"
    using sum_groups [of ?t bs bi_tender bi_total] by (simp add: o_def amt)
  have grp: "sum_list (map (\<lambda>t. round2 (\<Sum>b\<leftarrow>filter (\<lambda>b. bi_tender b = t) bs. f b)) ?g) = (\<Sum>b\<leftarrow>bs. f b)"
    if "\<And>b. b \<in> set bs \<Longrightarrow> is2 (f b)" for f
  proof -
    have "round2 (\<Sum>b\<leftarrow>filter (\<lambda>b. bi_tender b = t) bs. f b) = (\<Sum>b\<leftarrow>filter (\<lambda>b. bi_tender b = t) bs. f b)" for t
      by (rule round2_id, rule is2_sum) (simp add: that)
    then show ?thesis using sum_groups [of ?g bs bi_tender f] by simp
  qed
  note sel = r_def bs_def shiftTotals_of_def Let_def shiftTotals.simps o_def
  have tn: "st_tenders r = map (tender_line bs) ?t" unfolding sel by (rule refl)
  have coll0: "st_collected r = round2 (\<Sum>l\<leftarrow>filter (\<lambda>l. \<not> List.member ACCOUNT_TENDERS (fst l)) (map (tender_line bs) ?t). fst (snd l))"
    and cred0: "st_credit r = round2 (\<Sum>l\<leftarrow>filter (\<lambda>l. List.member ACCOUNT_TENDERS (fst l)) (map (tender_line bs) ?t). fst (snd l))"
    and nett0: "st_nett r = round2 (st_collected r + st_credit r)" and gross0: "st_gross r = round2 (st_nett r + st_discount r)"
    and count0: "st_count r = sum_list (map (\<lambda>t. length (filter (\<lambda>b. bi_tender b = t) bs)) ?g)"
    and disc0: "st_discount r = round2 (sum_list (map (\<lambda>t. round2 (\<Sum>b\<leftarrow>filter (\<lambda>b. bi_tender b = t) bs. bi_disc b)) ?g))"
    and tax0: "st_tax r = round2 (sum_list (map (\<lambda>t. round2 (\<Sum>b\<leftarrow>filter (\<lambda>b. bi_tender b = t) bs. bi_tax b)) ?g))"
    unfolding sel by (rule refl)+
  have coll: "st_collected r = (\<Sum>l\<leftarrow>filter (\<lambda>l. \<not> List.member ACCOUNT_TENDERS (fst l)) (map (tender_line bs) ?t). fst (snd l))"
    and cred: "st_credit r = (\<Sum>l\<leftarrow>filter (\<lambda>l. List.member ACCOUNT_TENDERS (fst l)) (map (tender_line bs) ?t). fst (snd l))"
    unfolding coll0 cred0 by (rule round2_id, rule i2)+
  have cc: "st_collected r + st_credit r = (\<Sum>b\<leftarrow>bs. bi_total b)"
    unfolding coll cred using sum_parts [where P = "\<lambda>l. List.member ACCOUNT_TENDERS (fst l)" and f = "fst \<circ> snd" and xs = "map (tender_line bs) ?t"]
    by (simp only: o_def sums [symmetric] add.commute)
  show nett: "st_nett r = (\<Sum>b\<leftarrow>bs. bi_total b)" unfolding nett0 cc by (rule round2_id, rule is2_sum, rule m)
  show "st_collected r + st_credit r = st_nett r" unfolding cc nett by (rule refl)
  show "(\<Sum>l\<leftarrow>st_tenders r. fst (snd l)) = st_nett r" unfolding tn sums nett by (rule refl)
  show "st_count r = length bs"
    unfolding count0 using sum_groups [of ?g bs bi_tender "\<lambda>_. 1 :: nat"] by (simp add: sum_list_triv)
  show d: "st_discount r = (\<Sum>b\<leftarrow>bs. bi_disc b)"
    unfolding disc0 using grp [of bi_disc] m by (simp add: is2_sum)
  show "st_tax r = (\<Sum>b\<leftarrow>bs. bi_tax b)"
    unfolding tax0 using grp [of bi_tax] m by (simp add: is2_sum)
  show "st_gross r = st_nett r + st_discount r"
    unfolding gross0 nett d by (intro round2_id grid_intros m)
qed

section \<open>One open shift a person\<close>

definition open_shift :: "string \<Rightarrow> string \<times> shiftRow \<Rightarrow> bool" where
  "open_shift uid r \<longleftrightarrow> sh_user (snd r) = uid \<and> sh_closed (snd r) = None"

definition one_shift :: "(string \<times> shiftRow) list \<Rightarrow> bool" where
  "one_shift xs \<longleftrightarrow> (\<forall>uid. length (filter (open_shift uid) xs) \<le> 1)"

lemma openShiftOf_find: "openShiftOf s uid = find (open_shift uid) (hp_shifts s)"
  by (simp add: openShiftOf_def open_shift_def [abs_def])

lemma length_filter_map: "(\<And>x. P (g x) \<Longrightarrow> Q x) \<Longrightarrow> length (filter P (map g xs)) \<le> length (filter Q xs)"
  by (induction xs) (auto simp: le_SucI)

lemma one_shift_close: "one_shift xs \<Longrightarrow> one_shift (update_row xs i (\<lambda>x. x\<lparr>sh_closed := Some z\<rparr>))"
proof (unfold one_shift_def, intro allI)
  fix uid assume one: "\<forall>uid. length (filter (open_shift uid) xs) \<le> 1"
  have "length (filter (open_shift uid) (update_row xs i (\<lambda>x. x\<lparr>sh_closed := Some z\<rparr>))) \<le> length (filter (open_shift uid) xs)"
    unfolding update_row_def by (rule length_filter_map) (auto simp: open_shift_def split: if_splits)
  then show "length (filter (open_shift uid) (update_row xs i (\<lambda>x. x\<lparr>sh_closed := Some z\<rparr>))) \<le> 1"
    using one order_trans by blast
qed

lemma length_filter_filter: "length (filter Q (filter P xs)) \<le> length (filter Q xs)"
  by (induction xs) (auto simp: le_SucI)

lemma one_shift_filter: "one_shift xs \<Longrightarrow> one_shift (filter P xs)"
  unfolding one_shift_def using length_filter_filter order_trans by blast

lemma insertShift_one:
  assumes "insertShift i r s = Inr s'" "one_shift (hp_shifts s)"
  shows "one_shift (hp_shifts s')"
proof (cases "openShiftOf s (sh_user r)")
  case None
  then have s': "s' = s\<lparr>hp_shifts := hp_shifts s @ [(i, r)]\<rparr>" using assms(1) by (auto simp: insertShift_def)
  have "filter (open_shift (sh_user r)) (hp_shifts s) = []"
    using None by (auto simp: openShiftOf_find find_None_iff filter_empty_conv)
  with assms(2) show ?thesis by (auto simp: s' one_shift_def open_shift_def)
qed (use assms(1) in \<open>simp add: insertShift_def\<close>)

lemma closeShiftRow_sel:
  "hp_shifts (snd (closeShiftRow r t a s)) = update_row (hp_shifts s) (fst r) (\<lambda>x. x\<lparr>sh_closed := Some (t, fst (closeShiftRow r t a s), a)\<rparr>)"
  "hp_house (snd (closeShiftRow r t a s)) = hp_house s" "hp_accounts (snd (closeShiftRow r t a s)) = hp_accounts s"
  "hp_roles (snd (closeShiftRow r t a s)) = hp_roles s" "hp_tokens (snd (closeShiftRow r t a s)) = hp_tokens s"
  "hp_support (snd (closeShiftRow r t a s)) = hp_support s" "hp_wishes (snd (closeShiftRow r t a s)) = hp_wishes s"
  "hp_vendors (snd (closeShiftRow r t a s)) = hp_vendors s"
  by (simp_all add: closeShiftRow_def Let_def)

lemma startShift_frame:
  assumes "startShift uid loc t s = Inr s'"
  shows "hp_roles s' = hp_roles s" "hp_accounts s' = hp_accounts s" "hp_tokens s' = hp_tokens s"
    "hp_support s' = hp_support s" "hp_wishes s' = hp_wishes s" "hp_vendors s' = hp_vendors s"
    "db_locations (hp_db s') = db_locations (hp_db s)" "db_users (hp_db s') = db_users (hp_db s)"
    "ho_contracts (hp_house s') = ho_contracts (hp_house s)"
    "one_shift (hp_shifts s) \<Longrightarrow> one_shift (hp_shifts s')"
proof -
  define s1 where "s1 = (case openShiftOf s uid of Some r \<Rightarrow> snd (closeShiftRow r t True s) | None \<Rightarrow> s)"
  consider (same) "s' = s" | (new) i s2 s3 where
      "officeId K_shift t s1 = Inr (i, s2)"
      "insertShift i \<lparr>sh_user = uid, sh_loc = loc, sh_opened = t, sh_closed = None\<rparr> s2 = Inr s3"
      "s' = s3 \<or> s' = announce [Sl_shifts] s3"
    using assms unfolding startShift_def Let_def s1_def [symmetric]
    by (cases "map_option (sh_loc \<circ> snd) (openShiftOf s uid) = Some loc"; cases "openShiftOf s uid = None") auto
  then have "hp_roles s' = hp_roles s \<and> hp_accounts s' = hp_accounts s \<and> hp_tokens s' = hp_tokens s \<and>
    hp_support s' = hp_support s \<and> hp_wishes s' = hp_wishes s \<and> hp_vendors s' = hp_vendors s \<and>
    db_locations (hp_db s') = db_locations (hp_db s) \<and> db_users (hp_db s') = db_users (hp_db s) \<and>
    ho_contracts (hp_house s') = ho_contracts (hp_house s) \<and> (one_shift (hp_shifts s) \<longrightarrow> one_shift (hp_shifts s'))"
  proof cases
    case new
    note id = officeId_sel [OF new(1)]
    have one: "one_shift (hp_shifts s1)" if "one_shift (hp_shifts s)"
      using that by (auto simp: s1_def closeShiftRow_sel one_shift_close split: option.splits)
    have ins: "one_shift (hp_shifts s3)" if "one_shift (hp_shifts s)"
      using insertShift_one [OF new(2)] one that id by simp
    have f3: "hp_roles s3 = hp_roles s2" "hp_accounts s3 = hp_accounts s2" "hp_tokens s3 = hp_tokens s2"
      "hp_support s3 = hp_support s2" "hp_wishes s3 = hp_wishes s2" "hp_vendors s3 = hp_vendors s2" "hp_house s3 = hp_house s2"
      using new(2) by (auto simp: insertShift_def split: if_splits)
    have f1: "hp_roles s1 = hp_roles s" "hp_accounts s1 = hp_accounts s" "hp_tokens s1 = hp_tokens s"
      "hp_support s1 = hp_support s" "hp_wishes s1 = hp_wishes s" "hp_vendors s1 = hp_vendors s" "hp_house s1 = hp_house s"
      by (auto simp: s1_def closeShiftRow_sel split: option.splits)
    show ?thesis using new(3) f1 f3 id ins by (auto simp: hp_db_def)
  qed auto
  then show "hp_roles s' = hp_roles s" "hp_accounts s' = hp_accounts s" "hp_tokens s' = hp_tokens s"
    "hp_support s' = hp_support s" "hp_wishes s' = hp_wishes s" "hp_vendors s' = hp_vendors s"
    "db_locations (hp_db s') = db_locations (hp_db s)" "db_users (hp_db s') = db_users (hp_db s)"
    "ho_contracts (hp_house s') = ho_contracts (hp_house s)"
    "one_shift (hp_shifts s) \<Longrightarrow> one_shift (hp_shifts s')" by blast+
qed

lemma closeShift_frame:
  assumes "closeShift_tx c t s = Inr s'"
  shows "hp_house s' = hp_house s" "hp_roles s' = hp_roles s" "hp_accounts s' = hp_accounts s" "hp_tokens s' = hp_tokens s"
    "hp_support s' = hp_support s" "hp_wishes s' = hp_wishes s" "hp_vendors s' = hp_vendors s"
    "one_shift (hp_shifts s) \<Longrightarrow> one_shift (hp_shifts s')"
  using assms by (auto simp: closeShift_tx_def closeShiftRow_sel intro: one_shift_close)

end
