(* ===== verification/Signin.thy ===== *)
theory Signin
  imports People Shifts
begin

text \<open>
  Signing in: \<open>apps/api/src/modules/auth\<close>. The budget of attempts per employee number (\<open>Attempts\<close>, in memory), and
  the refresh tokens: a sign-in opens a family, a refresh claims its token and mints the next, a token used twice
  closes its family, a family never outlives its first token by more than the configured days.

  The random texts, their digests, the password check and its hash are arguments. The map of attempts is an
  association list in insertion order, which is the order keys are evicted in.
\<close>

section \<open>The budget of attempts\<close>

record attempts =
  at_map :: "(string \<times> instant list) list"
  at_starts :: nat

definition SWEEP_EVERY :: nat where "SWEEP_EVERY = 1000"
definition WINDOW_MS :: int where "WINDOW_MS = 60000"
definition ATTEMPTS_CAP :: nat where "ATTEMPTS_CAP = 10000"

definition recent :: "instant \<Rightarrow> instant list \<Rightarrow> instant list" where
  "recent now ts = filter (\<lambda>t. now - t < WINDOW_MS) ts"

definition stamps :: "(string \<times> instant list) list \<Rightarrow> string \<Rightarrow> instant list" where
  "stamps m k = (case map_of m k of Some ts \<Rightarrow> ts | None \<Rightarrow> [])"

definition isLocked :: "nat \<Rightarrow> attempts \<Rightarrow> instant \<Rightarrow> string \<Rightarrow> bool" where
  "isLocked limit a now k \<longleftrightarrow> limit \<le> length (recent now (stamps (at_map a) k))"

definition sweep :: "instant \<Rightarrow> (string \<times> instant list) list \<Rightarrow> (string \<times> instant list) list" where
  "sweep now m = filter (\<lambda>ka. \<not> list_all (\<lambda>t. WINDOW_MS \<le> now - t) (snd ka)) m"

definition delete_key :: "string \<Rightarrow> (string \<times> 'a) list \<Rightarrow> (string \<times> 'a) list" where
  "delete_key k m = filter (\<lambda>ka. fst ka \<noteq> k) m"

text \<open>\<open>begin\<close>: the oldest keys go while there is no room for one more.\<close>

definition begin_attempt :: "attempts \<Rightarrow> instant \<Rightarrow> string \<Rightarrow> attempts" where
  "begin_attempt a now k =
     (let n = at_starts a + 1;
          m = (if n mod SWEEP_EVERY = 0 then sweep now (at_map a) else at_map a);
          ts = recent now (stamps m k) @ [now];
          rest = delete_key k m
      in \<lparr>at_map = drop (Suc (length rest) - ATTEMPTS_CAP) rest @ [(k, ts)], at_starts = n\<rparr>)"

definition release_attempt :: "attempts \<Rightarrow> string \<Rightarrow> instant \<Rightarrow> attempts" where
  "release_attempt a k at' =
     (case map_of (at_map a) k of None \<Rightarrow> a
      | Some ts \<Rightarrow> (let ts' = remove1 at' ts in
          a\<lparr>at_map := (if ts' = [] then delete_key k (at_map a)
             else map (\<lambda>ka. if fst ka = k then (k, ts') else ka) (at_map a))\<rparr>))"

section \<open>Sessions\<close>

record authConfig =
  cf_ttlDays :: nat
  cf_perMinute :: nat

definition ttl :: "authConfig \<Rightarrow> int" where "ttl cfg = int (cf_ttlDays cfg) * 86400000"

record session =
  ss_user :: string
  ss_desk :: role
  ss_loc :: key
  ss_mcp :: bool
  ss_admin :: bool
  ss_expires :: instant

definition BAD_LOGIN :: error where
  "BAD_LOGIN = UnauthenticatedError ''That employee id and password do not match.''"

definition endedSession :: error where
  "endedSession = UnauthenticatedError ''Your session has ended - sign in again.''"
definition expiredSession :: error where
  "expiredSession = UnauthenticatedError ''Your session has expired - sign in again.''"
definition reusedSession :: error where
  "reusedSession = UnauthenticatedError ''Your session was used from somewhere else and has been closed - sign in again.''"

definition familyStartedAt :: "hospital \<Rightarrow> string \<Rightarrow> instant option" where
  "familyStartedAt s f = (case filter (\<lambda>t. tn_family t = f) (hp_tokens s) of [] \<Rightarrow> None
     | t # ts \<Rightarrow> Some (foldl min (tn_created t) (map tn_created ts)))"

definition refreshByHash :: "hospital \<Rightarrow> string \<Rightarrow> token option" where
  "refreshByHash s h = find (\<lambda>t. tn_hash t = h) (hp_tokens s)"

definition revokeFamily :: "string \<Rightarrow> instant \<Rightarrow> hospital \<Rightarrow> hospital" where
  "revokeFamily f now s = s\<lparr>hp_tokens := map (\<lambda>t. if tn_family t = f \<and> tn_revoked t = None
     then t\<lparr>tn_revoked := Some now\<rparr> else t) (hp_tokens s)\<rparr>"

text \<open>\<open>markUsed\<close> claims the row only while \<open>used_at\<close> is null.\<close>

definition markUsed :: "token \<Rightarrow> instant \<Rightarrow> hospital \<Rightarrow> hospital" where
  "markUsed t now s = s\<lparr>hp_tokens := map (\<lambda>x. if tn_hash x = tn_hash t \<and> tn_used x = None
     then x\<lparr>tn_used := Some now\<rparr> else x) (hp_tokens s)\<rparr>"

definition insertRefresh :: "token \<Rightarrow> hospital \<Rightarrow> error + hospital" where
  "insertRefresh t s = (if refreshByHash s (tn_hash t) \<noteq> None
     then Inl (Internal ''duplicate key value violates unique constraint'') else Inr (s\<lparr>hp_tokens := hp_tokens s @ [t]\<rparr>))"

definition issue ::
    "authConfig \<Rightarrow> string \<Rightarrow> account \<Rightarrow> string \<Rightarrow> string \<Rightarrow> instant option \<Rightarrow> key option \<Rightarrow> instant \<Rightarrow> hospital
     \<Rightarrow> error + session \<times> hospital" where
  "issue cfg i u family hash startedAt loc now s =
     (let here = (case loc of Some l \<Rightarrow> l | None \<Rightarrow> us_loc u);
          start = (case startedAt of Some t \<Rightarrow> t
             | None \<Rightarrow> (case familyStartedAt s family of Some t \<Rightarrow> t | None \<Rightarrow> now));
          expires = min (now + ttl cfg) (start + ttl cfg)
      in bindE (insertRefresh \<lparr>tn_user = i, tn_family = family, tn_hash = hash, tn_expires = expires, tn_used = None,
           tn_revoked = None, tn_loc = Some here, tn_created = now\<rparr> s) (\<lambda>s1.
         Inr (\<lparr>ss_user = i, ss_desk = us_desk u, ss_loc = here, ss_mcp = us_mustChange u, ss_admin = us_admin u,
           ss_expires = expires\<rparr>, s1)))"

definition admitTo :: "hospital \<Rightarrow> account \<Rightarrow> key \<Rightarrow> error option" where
  "admitTo s u loc = (case lockLocation (hp_db s) loc of Inl e \<Rightarrow> Some e
     | Inr l \<Rightarrow> first_some [assertRule (List.member (us_posts u) loc) (''You are not posted to '' @ loc_n l @ ''.''),
         assertOpenThen l ''nothing may be sold there''])"

section \<open>The service\<close>

record draws =
  dw_family :: string
  dw_hash :: string

definition userByEmp :: "hospital \<Rightarrow> string \<Rightarrow> (string \<times> account) option" where
  "userByEmp s emp = find (\<lambda>u. us_emp (snd u) = emp) (hp_accounts s)"

definition login_tx ::
    "authConfig \<Rightarrow> string \<times> account \<Rightarrow> key option \<Rightarrow> draws \<Rightarrow> instant \<Rightarrow> hospital \<Rightarrow> error + session \<times> hospital" where
  "login_tx cfg u loc w now s =
     unless (Option.bind loc (admitTo s (snd u)))
     (bindE (issue cfg (fst u) (snd u) (dw_family w) (dw_hash w) None loc now s) (\<lambda>(x, s1).
      if us_desk (snd u) = Counter \<and> \<not> us_admin (snd u)
      then bindE (startShift (fst u) (ss_loc x) now s1) (\<lambda>s2. Inr (x, s2))
      else Inr (x, s1)))"

text \<open>The gate in front of it: the attempt is spent before the password is read, and given back when it was right.\<close>

definition login ::
    "authConfig \<Rightarrow> (string \<Rightarrow> string \<Rightarrow> bool) \<Rightarrow> string \<Rightarrow> string \<Rightarrow> key option \<Rightarrow> draws \<Rightarrow> instant \<Rightarrow> attempts \<times> hospital
     \<Rightarrow> (error + session) \<times> attempts \<times> hospital" where
  "login cfg verify emp password loc w now as' =
     (let (a, s) = as' in
      if isLocked (cf_perMinute cfg) a now emp
      then (Inl (RateLimitedError ''Too many attempts for that employee id - wait a minute and try again.''), a, s)
      else
        (let a1 = begin_attempt a now emp;
             u = Option.bind (userByEmp s emp) (\<lambda>u. if us_system (snd u) then None else Some u)
         in case u of None \<Rightarrow> (Inl BAD_LOGIN, a1, s)
          | Some u \<Rightarrow> if \<not> verify (us_hash (snd u)) password \<or> \<not> us_active (snd u) then (Inl BAD_LOGIN, a1, s)
              else (case login_tx cfg u loc w now s of
                  Inl e \<Rightarrow> (Inl e, release_attempt a1 emp now, s)
                | Inr (x, s') \<Rightarrow> (Inr x, release_attempt a1 emp now, s'))))"

text \<open>A refusal inside the transaction is a value, so that the closing of a family is committed with it.\<close>

definition refresh_tx :: "authConfig \<Rightarrow> string \<Rightarrow> string \<Rightarrow> instant \<Rightarrow> hospital \<Rightarrow> error + (error + session) \<times> hospital" where
  "refresh_tx cfg presented hash now s =
     (case refreshByHash s presented of None \<Rightarrow> Inr (Inl endedSession, s)
      | Some t \<Rightarrow>
          if tn_revoked t \<noteq> None then Inr (Inl endedSession, s)
          else if tn_expires t < now then Inr (Inl expiredSession, s)
          else (case account_of s (tn_user t) of None \<Rightarrow> Inr (Inl endedSession, s)
            | Some u \<Rightarrow>
                if \<not> us_active u then Inr (Inl endedSession, s)
                else if tn_used t \<noteq> None then Inr (Inl reusedSession, revokeFamily (tn_family t) now s)
                else
                  (let s1 = markUsed t now s; start = familyStartedAt s1 (tn_family t) in
                   if (case start of Some st \<Rightarrow> st + ttl cfg \<le> now | None \<Rightarrow> False) then Inr (Inl expiredSession, s1)
                   else bindE (issue cfg (tn_user t) u (tn_family t) hash start
                     (Some (case tn_loc t of Some l \<Rightarrow> l | None \<Rightarrow> us_loc u)) now s1) (\<lambda>(x, s2). Inr (Inr x, s2)))))"

definition refresh ::
    "authConfig \<Rightarrow> string option \<Rightarrow> string \<Rightarrow> instant \<Rightarrow> hospital \<Rightarrow> (error + session) \<times> hospital" where
  "refresh cfg presented hash now s =
     (case presented of None \<Rightarrow> (Inl endedSession, s)
      | Some p \<Rightarrow> (case refresh_tx cfg p hash now s of Inl e \<Rightarrow> (Inl e, s) | Inr (out, s') \<Rightarrow> (out, s')))"

definition logout :: "string option \<Rightarrow> instant \<Rightarrow> hospital \<Rightarrow> string option \<times> hospital" where
  "logout presented now s =
     (case Option.bind presented (refreshByHash s) of None \<Rightarrow> (None, s)
      | Some t \<Rightarrow> (if list_ex (\<lambda>x. tn_family x = tn_family t \<and> tn_revoked x = None) (hp_tokens s) then Some (tn_user t) else None,
          revokeFamily (tn_family t) now s))"

definition changePassword_tx ::
    "authConfig \<Rightarrow> string \<Rightarrow> string \<Rightarrow> draws \<Rightarrow> instant \<Rightarrow> hospital \<Rightarrow> error + session \<times> hospital" where
  "changePassword_tx cfg i hash w now s =
     (let s1 = revokeAll i now (update_account i (\<lambda>u. u\<lparr>us_hash := hash, us_mustChange := False\<rparr>) s) in
      found (account_of s1 i) (UnauthenticatedError ''That account no longer exists.'') (\<lambda>u.
      issue cfg i u (dw_family w) (dw_hash w) None None now s1))"

definition changePassword ::
    "authConfig \<Rightarrow> (string \<Rightarrow> string \<Rightarrow> bool) \<Rightarrow> (string \<Rightarrow> string) \<Rightarrow> string \<Rightarrow> string \<Rightarrow> string \<Rightarrow> draws \<Rightarrow> instant \<Rightarrow> hospital
     \<Rightarrow> (error + session) \<times> hospital" where
  "changePassword cfg verify hashOf i current next' w now s =
     (case account_of s i of None \<Rightarrow> (Inl (UnauthenticatedError ''Your current password is not right.''), s)
      | Some u \<Rightarrow>
          if \<not> verify (us_hash u) current \<or> \<not> us_active u
          then (Inl (UnauthenticatedError ''Your current password is not right.''), s)
          else if next' = current then (Inl (RuleError ''Choose a different password from your current one.''), s)
          else (case changePassword_tx cfg i (hashOf next') w now s of Inl e \<Rightarrow> (Inl e, s) | Inr (x, s') \<Rightarrow> (Inr x, s')))"

text \<open>The nightly sweep: rows that authorise nothing any more, whatever batch each went in.\<close>

definition purge :: "instant \<Rightarrow> hospital \<Rightarrow> hospital" where
  "purge now s = s\<lparr>hp_tokens := filter (\<lambda>t. \<not> (tn_expires t < now \<or>
     (case tn_revoked t of Some r \<Rightarrow> r < now - 7 * 86400000 | None \<Rightarrow> False))) (hp_tokens s)\<rparr>"

section \<open>No more wrong guesses than the budget\<close>

datatype tryEvent = Try string | Give string instant

definition log_of :: "(string \<times> instant) list \<Rightarrow> string \<Rightarrow> instant list" where
  "log_of l k = map snd (filter (\<lambda>x. fst x = k) l)"

text \<open>The map beside the full record of what was spent and not given back.\<close>

fun try_step :: "nat \<Rightarrow> instant \<times> tryEvent \<Rightarrow> attempts \<times> (string \<times> instant) list \<Rightarrow> attempts \<times> (string \<times> instant) list" where
  "try_step limit (now, Try k) (a, l) = (if isLocked limit a now k then (a, l) else (begin_attempt a now k, (k, now) # l))"
| "try_step limit (now, Give k t) (a, l) = (release_attempt a k t, remove1 (k, t) l)"

fun event_key :: "tryEvent \<Rightarrow> string" where
  "event_key (Try k) = k" | "event_key (Give k t) = k"

definition try_ok :: "nat \<Rightarrow> string set \<Rightarrow> instant \<Rightarrow> attempts \<times> (string \<times> instant) list \<Rightarrow> bool" where
  "try_ok limit K now al \<longleftrightarrow> distinct (map fst (at_map (fst al))) \<and> fst ` set (at_map (fst al)) \<subseteq> K \<and>
     (\<forall>k. mset (recent now (stamps (at_map (fst al)) k)) = mset (recent now (log_of (snd al) k)) \<and>
        length (recent now (log_of (snd al) k)) \<le> limit)"

lemma recent_later: "now \<le> now' \<Longrightarrow> recent now' ts = recent now' (recent now ts)"
  by (auto simp: recent_def intro!: filter_cong)

lemma mset_recent: "mset (recent now ts) = filter_mset (\<lambda>t. now - t < WINDOW_MS) (mset ts)"
  by (simp add: recent_def)

lemma try_ok_later:
  assumes "try_ok limit K now al" "now \<le> now'"
  shows "try_ok limit K now' al"
proof -
  have later: "recent now' ts = recent now' (recent now ts)" for ts by (rule recent_later [OF assms(2)])
  have "mset (recent now' (recent now (stamps (at_map (fst al)) k))) = mset (recent now' (recent now (log_of (snd al) k)))" for k
    using assms(1) by (simp only: mset_recent [of now'] try_ok_def)
  then have "mset (recent now' (stamps (at_map (fst al)) k)) = mset (recent now' (log_of (snd al) k))" for k
    using later by metis
  moreover have "length (recent now' (recent now (log_of (snd al) k))) \<le> limit" for k
    using assms(1) length_filter_le [of "\<lambda>t. now' - t < WINDOW_MS" "recent now (log_of (snd al) k)"] order_trans
    unfolding try_ok_def recent_def [of now'] by blast
  then have "length (recent now' (log_of (snd al) k)) \<le> limit" for k using later by metis
  ultimately show ?thesis using assms(1) by (simp add: try_ok_def)
qed

lemma stamps_delete [simp]: "stamps (delete_key k m) j = (if j = k then [] else stamps m j)"
  by (induction m) (auto simp: stamps_def delete_key_def)

lemma keys_delete: "fst ` set (delete_key k m) = fst ` set m - {k}"
  by (auto simp: delete_key_def)

lemma distinct_delete: "distinct (map fst m) \<Longrightarrow> distinct (map fst (delete_key k m))"
  by (induction m) (auto simp: delete_key_def)

lemma stamps_snoc: "k \<notin> fst ` set m \<Longrightarrow> stamps (m @ [(k, ts)]) j = (if j = k then ts else stamps m j)"
  by (induction m) (auto simp: stamps_def)

lemma sweep_keys: "fst ` set (sweep now m) \<subseteq> fst ` set m" "distinct (map fst m) \<Longrightarrow> distinct (map fst (sweep now m))"
  by (auto simp: sweep_def distinct_map_filter)

lemma map_of_filter_distinct: "distinct (map fst m) \<Longrightarrow>
   map_of (filter P m) k = (case map_of m k of Some v \<Rightarrow> if P (k, v) then Some v else None | None \<Rightarrow> None)"
proof (induction m)
  case (Cons x m)
  obtain a b where x: "x = (a, b)" by (cases x)
  have "map_of m a = None" using Cons.prems by (simp add: x map_of_eq_None_iff)
  with Cons.IH Cons.prems show ?case by (cases "k = a") (auto simp: x)
qed simp

lemma old_recent: "list_all (\<lambda>t. WINDOW_MS \<le> now - t) ts \<Longrightarrow> recent now ts = []"
  by (auto simp: recent_def list_all_iff filter_empty_conv)

lemma recent_sweep: "distinct (map fst m) \<Longrightarrow> recent now (stamps (sweep now m) k) = recent now (stamps m k)"
  by (auto simp: stamps_def sweep_def map_of_filter_distinct old_recent recent_def [of now "[]"] split: option.splits)

lemma recent_idem [simp]: "recent now (recent now ts) = recent now ts"
  by (simp add: recent_def)

lemma recent_snoc: "recent now (ts @ [now]) = recent now ts @ [now]" "recent now (now # ts) = now # recent now ts"
  by (simp_all add: recent_def WINDOW_MS_def)

lemma log_of_Cons: "log_of ((k, t) # l) j = (if j = k then t # log_of l j else log_of l j)"
  by (simp add: log_of_def)

lemma log_of_remove: "mset (log_of (remove1 (k, t) l) j) = (if j = k then mset (log_of l j) - {#t#} else mset (log_of l j))"
  by (induction l) (auto simp: log_of_def split: if_splits, metis diff_union_swap)

lemma try_ok_Try:
  assumes ok: "try_ok limit K now (a, l)" and free: "\<not> isLocked limit a now k"
    and k: "k \<in> K" and K: "finite K" "card K \<le> ATTEMPTS_CAP"
  shows "try_ok limit K now (begin_attempt a now k, (k, now) # l)"
proof -
  define m where "m = (if (at_starts a + 1) mod SWEEP_EVERY = 0 then sweep now (at_map a) else at_map a)"
  have d: "distinct (map fst m)" "fst ` set m \<subseteq> K" using ok sweep_keys [where now = now and m = "at_map a"] by (auto simp: m_def try_ok_def)
  have r: "recent now (stamps m j) = recent now (stamps (at_map a) j)" for j
    using ok by (simp add: m_def try_ok_def recent_sweep)
  let ?rest = "delete_key k m"
  have "length ?rest = card (fst ` set ?rest)" using distinct_card [OF distinct_delete [OF d(1), of k]] by simp
  also have "\<dots> \<le> card (K - {k})" using d(2) K(1) by (intro card_mono) (auto simp: keys_delete)
  also have "\<dots> < card K" by (rule card_Diff1_less [OF K(1) k])
  finally have "Suc (length ?rest) - ATTEMPTS_CAP = 0" using K(2) by simp
  moreover have "at_map (begin_attempt a now k) =
      drop (Suc (length ?rest) - ATTEMPTS_CAP) ?rest @ [(k, recent now (stamps m k) @ [now])]"
    by (simp only: begin_attempt_def Let_def m_def attempts.simps)
  ultimately have b: "at_map (begin_attempt a now k) = ?rest @ [(k, recent now (stamps m k) @ [now])]" by simp
  have kr: "k \<notin> fst ` set ?rest" by (simp add: keys_delete)
  have "length (recent now (log_of l k)) = length (recent now (stamps (at_map a) k))"
    using ok by (metis fst_conv snd_conv size_mset try_ok_def)
  then have "length (recent now (log_of l k)) < limit" using free by (simp add: isLocked_def)
  moreover have "mset (recent now (stamps (at_map a) j)) = mset (recent now (log_of l j))"
    "length (recent now (log_of l j)) \<le> limit" for j using ok by (auto simp: try_ok_def)
  ultimately show ?thesis using d k kr distinct_delete [OF d(1), of k]
    by (auto simp: try_ok_def b stamps_snoc [OF kr] r recent_snoc log_of_Cons keys_delete image_Un)
qed

lemma stamps_put: "stamps (map (\<lambda>ka. if fst ka = k then (k, ts) else ka) m) j =
   (if j = k then (if k \<in> fst ` set m then ts else []) else stamps m j)"
  by (induction m) (auto simp: stamps_def, force+)

lemma keys_put: "map fst (map (\<lambda>ka. if fst ka = k then (k, ts) else ka) m) = map fst m"
  by (induction m) auto

lemma stamps_release: "stamps (at_map (release_attempt a k t)) j = (if j = k then remove1 t (stamps (at_map a) j) else stamps (at_map a) j)"
proof (cases "map_of (at_map a) k")
  case None
  then show ?thesis by (simp add: release_attempt_def stamps_def)
next
  case (Some ts)
  then have "k \<in> fst ` set (at_map a)" by (force dest: map_of_SomeD)
  moreover have "stamps (at_map a) k = ts" using Some by (simp add: stamps_def)
  ultimately show ?thesis using Some by (simp add: release_attempt_def Let_def stamps_put)
qed

lemma keys_release: "map fst (at_map (release_attempt a k t)) = map fst (at_map a) \<or>
   at_map (release_attempt a k t) = delete_key k (at_map a)"
proof (cases "map_of (at_map a) k")
  case (Some ts)
  then show ?thesis
    using keys_put [of k "remove1 t ts" "at_map a"] by (cases "remove1 t ts = []") (simp_all add: release_attempt_def Let_def)
qed (simp add: release_attempt_def)

lemma try_ok_Give:
  assumes ok: "try_ok limit K now (a, l)"
  shows "try_ok limit K now (release_attempt a k t, remove1 (k, t) l)"
proof -
  have keys: "fst ` set (at_map (release_attempt a k t)) \<subseteq> fst ` set (at_map a) \<and> distinct (map fst (at_map (release_attempt a k t)))"
    using keys_release [of a k t]
  proof
    assume e: "map fst (at_map (release_attempt a k t)) = map fst (at_map a)"
    have "fst ` set (at_map (release_attempt a k t)) = fst ` set (at_map a)" using arg_cong [OF e, of set] by simp
    with ok e show ?thesis by (simp add: try_ok_def)
  next
    assume "at_map (release_attempt a k t) = delete_key k (at_map a)"
    with ok show ?thesis by (auto simp: keys_delete distinct_delete try_ok_def)
  qed
  have "fst ` set (at_map (release_attempt a k t)) \<subseteq> K"
    by (rule order_trans [OF conjunct1 [OF keys]]) (use ok in \<open>simp add: try_ok_def\<close>)
  moreover have eq: "mset (recent now (stamps (at_map (release_attempt a k t)) j)) = mset (recent now (log_of (remove1 (k, t) l) j))" for j
    using ok by (simp add: stamps_release mset_recent log_of_remove try_ok_def)
  moreover have "length (recent now (log_of (remove1 (k, t) l) j)) \<le> limit" for j
  proof -
    have "mset (recent now (log_of (remove1 (k, t) l) j)) \<subseteq># mset (recent now (log_of l j))"
      by (simp add: mset_recent log_of_remove multiset_filter_mono)
    then have "length (recent now (log_of (remove1 (k, t) l) j)) \<le> length (recent now (log_of l j))"
      using size_mset_mono by fastforce
    moreover have "length (recent now (log_of l j)) \<le> limit" using ok by (simp add: try_ok_def)
    ultimately show ?thesis by (rule order_trans)
  qed
  ultimately show ?thesis using keys by (simp add: try_ok_def)
qed

text \<open>A run of the limiter: the clock never goes back.\<close>

inductive tries :: "nat \<Rightarrow> instant \<Rightarrow> attempts \<times> (string \<times> instant) list \<Rightarrow> string set \<Rightarrow> bool" for limit where
  start: "tries limit now (\<lparr>at_map = [], at_starts = 0\<rparr>, []) {}"
| step: "tries limit now al K \<Longrightarrow> now \<le> now' \<Longrightarrow> tries limit now' (try_step limit (now', e) al) (insert (event_key e) K)"

lemma tries_ok:
  assumes "tries limit now al K" "K \<subseteq> K'" "finite K'" "card K' \<le> ATTEMPTS_CAP"
  shows "try_ok limit K' now al"
  using assms
proof induction
  case (start now)
  show ?case by (simp add: try_ok_def stamps_def log_of_def recent_def)
next
  case (step now al K now' e)
  obtain a l where al: "al = (a, l)" by (cases al)
  from step have ok: "try_ok limit K' now' (a, l)" using try_ok_later [of limit K' now al now'] by (simp add: al)
  show ?case
  proof (cases e)
    case (Try k)
    with step.prems ok show ?thesis using try_ok_Try [OF ok] by (simp add: al)
  next
    case (Give k t)
    with try_ok_Give [OF ok] show ?thesis by (simp add: al)
  qed
qed

section \<open>Sign-ins within the budget\<close>

text \<open>Any sign-ins at all, the hospital changing as it likes between them; \<open>l\<close> is who was refused as a bad login,
  and when.\<close>

inductive logins :: "authConfig \<Rightarrow> (string \<Rightarrow> string \<Rightarrow> bool) \<Rightarrow> instant \<Rightarrow> attempts \<Rightarrow> (string \<times> instant) list \<Rightarrow> string set \<Rightarrow> bool"
  for cfg verify where
  start: "logins cfg verify now \<lparr>at_map = [], at_starts = 0\<rparr> [] {}"
| step: "logins cfg verify now a l K \<Longrightarrow> now \<le> now' \<Longrightarrow>
    login cfg verify emp password loc w now' (a, s) = (out, a', s') \<Longrightarrow>
    logins cfg verify now' a' (if out = Inl BAD_LOGIN then (emp, now') # l else l) (insert emp K)"

lemma startShift_not_bad: "startShift uid loc t s \<noteq> Inl BAD_LOGIN"
  by (auto simp: startShift_def Let_def officeId_def try_db_def allocateId_def allocateNumber_def insertShift_def insert_row_def
      BAD_LOGIN_def bindE_def split: sum.splits option.splits if_splits)

lemma login_tx_not_bad: "login_tx cfg u loc w now s \<noteq> Inl BAD_LOGIN"
proof -
  have "issue cfg i v f h st l t s1 \<noteq> Inl BAD_LOGIN" for i v f h st l t s1
    by (auto simp: issue_def Let_def insertRefresh_def BAD_LOGIN_def bindE_def)
  moreover have "Option.bind loc (admitTo s v) \<noteq> Some BAD_LOGIN" for v
    by (auto simp: admitTo_def lockLocation_def BAD_LOGIN_def assertRule_def assertOpenThen_def bind_eq_Some_conv
        split: sum.splits option.splits if_splits)
  ultimately show ?thesis
    using startShift_not_bad by (auto simp: login_tx_def unless_def bindE_def split: sum.splits option.splits if_splits)
qed

lemma login_tries:
  assumes "tries (cf_perMinute cfg) now (a, l) K" "now \<le> now'"
    "login cfg verify emp password loc w now' (a, s) = (out, a', s')"
  shows "tries (cf_perMinute cfg) now' (a', if out = Inl BAD_LOGIN then (emp, now') # l else l) (insert emp K)"
proof -
  have one: "tries (cf_perMinute cfg) now' (try_step (cf_perMinute cfg) (now', Try emp) (a, l)) (insert emp K)"
    using tries.step [OF assms(1,2), of "Try emp"] by simp
  show ?thesis
  proof (cases "isLocked (cf_perMinute cfg) a now' emp")
    case True
    with one assms(3) show ?thesis by (auto simp: login_def BAD_LOGIN_def)
  next
    case False
    have two: "tries (cf_perMinute cfg) now' (release_attempt (begin_attempt a now' emp) emp now', l) (insert emp K)"
      using tries.step [OF one order_refl, of "Give emp now'"] False by simp
    show ?thesis
      using one two False assms(3) login_tx_not_bad
      by (auto simp: login_def Let_def split: option.splits if_splits sum.splits)
  qed
qed

lemma logins_tries: "logins cfg verify now a l K \<Longrightarrow> tries (cf_perMinute cfg) now (a, l) K \<and> finite K"
proof (induction rule: logins.induct)
  case (step now a l K now' emp password loc w s out a' s')
  with login_tries [OF _ step.hyps(2,3)] show ?case by simp
qed (simp add: tries.start)

end
