(* ===== verification/Front.thy ===== *)
theory Front
  imports Hospital
begin

text \<open>
  The support desk and product requests: \<open>apps/api/src/modules/support\<close> (\<open>service.ts\<close> for the person who raised a
  ticket, \<open>desk.ts\<close> for the desk that answers all of them) and \<open>modules/productreqs\<close>. A ticket's history is its
  conversation, which only grows; its status moves along the table of \<open>Transitions\<close>.

  Lemmas: each write touches one ticket, adds at most one message at the end of it, and moves its status by an edge
  or not at all.
\<close>

section \<open>The support desk\<close>

fun sup_word :: "ticketStatus \<Rightarrow> string" where
  "sup_word Sup_Open = ''Open''"
| "sup_word Sup_WithSupport = ''With support''"
| "sup_word Sup_WaitingOnYou = ''Waiting on you''"
| "sup_word Sup_Resolved = ''Resolved''"
| "sup_word Sup_Closed = ''Closed''"

definition support_of :: "hospital \<Rightarrow> string \<Rightarrow> supportRow option" where
  "support_of s i = map_of (hp_support s) i"

definition on_support :: "string \<Rightarrow> (supportRow \<Rightarrow> supportRow) \<Rightarrow> hospital \<Rightarrow> hospital" where
  "on_support i f s = s\<lparr>hp_support := update_row (hp_support s) i f\<rparr>"

definition noTicketHere :: "string \<Rightarrow> error" where
  "noTicketHere i = NotFoundError (''There is no support ticket '' @ i @ ''.'')"

text \<open>\<open>mine\<close>: a ticket somebody else raised is not there.\<close>

definition mine :: "hospital \<Rightarrow> string \<Rightarrow> string \<Rightarrow> error + supportRow" where
  "mine s i sub = found (support_of s i) (noTicketHere i)
     (\<lambda>r. if sp_by r \<noteq> sub then Inl (noTicketHere i) else Inr r)"

definition message_for :: "string \<Rightarrow> sender \<Rightarrow> string \<Rightarrow> string \<Rightarrow> instant \<Rightarrow> supportRow \<Rightarrow> message" where
  "message_for i who' name body at' r = \<lparr>mg_id = i @ ''/m'' @ nat_str (length (sp_messages r) + 1), mg_from = who',
     mg_who = name, mg_at = at', mg_body = body\<rparr>"

definition appendMessage :: "string \<Rightarrow> sender \<Rightarrow> string \<Rightarrow> string \<Rightarrow> instant \<Rightarrow> hospital \<Rightarrow> hospital" where
  "appendMessage i who' name body at' =
     on_support i (\<lambda>r. r\<lparr>sp_messages := sp_messages r @ [message_for i who' name body at' r]\<rparr>)"

definition setSupportStatus :: "string \<Rightarrow> ticketStatus \<Rightarrow> hospital \<Rightarrow> hospital" where
  "setSupportStatus i st = on_support i (\<lambda>r. r\<lparr>sp_status := st\<rparr>)"

record raiseBody =
  ra_topic :: topic
  ra_subject :: string
  ra_body :: string
  ra_priority :: priority
  ra_screen :: string

definition raiseSupport_tx :: "claims \<Rightarrow> raiseBody \<Rightarrow> instant \<Rightarrow> hospital \<Rightarrow> error + hospital" where
  "raiseSupport_tx c b at' s =
     (let subject = trim (ra_subject b); detail = trim (ra_body b) in
      unless (assertRule (0 < length subject) ''Give the ticket a subject so support knows what it is about'')
      (bindE (officeId K_support at' s) (\<lambda>(i, s1).
       bindE (insert_row (hp_support s1) i \<lparr>sp_topic = ra_topic b, sp_subject = subject, sp_priority = ra_priority b,
         sp_status = Sup_Open, sp_by = cl_sub c, sp_role = cl_role c, sp_loc = cl_loc c, sp_at = at',
         sp_screen = trim (ra_screen b), sp_rating = None, sp_messages = []\<rparr>) (\<lambda>t.
       let s2 = s1\<lparr>hp_support := t\<rparr> in
       Inr (announce [Sl_tickets] (if detail \<noteq> []
         then appendMessage i FromUser (userName (hp_db s) (cl_sub c)) detail at' s2 else s2))))))"

definition replySupport_tx :: "claims \<Rightarrow> string \<Rightarrow> string \<Rightarrow> instant \<Rightarrow> hospital \<Rightarrow> error + hospital" where
  "replySupport_tx c i body at' s =
     bindE (mine s i (cl_sub c)) (\<lambda>r. let text' = trim body; next' = statusAfterReply (sp_status r) in
     unless (assertRule (0 < length text') ''Write a reply first'')
     (unless (assertRule (mayReply (sp_status r)) (i @ '' is closed - raise a new ticket if it has come back''))
     (let s1 = appendMessage i FromUser (userName (hp_db s) (cl_sub c)) text' at' s in
      unless (if next' \<noteq> sp_status r then assertTransition SUPPORT_TRANSITIONS sup_word (sp_status r) next' i else None)
      (Inr (announce [Sl_tickets] (if next' \<noteq> sp_status r then setSupportStatus i next' s1 else s1))))))"

definition setSupport_tx :: "claims \<Rightarrow> string \<Rightarrow> ticketStatus \<Rightarrow> hospital \<Rightarrow> error + hospital" where
  "setSupport_tx c i st s =
     bindE (mine s i (cl_sub c)) (\<lambda>r.
     unless (assertRule (mayUserSet st) (''Only support moves a ticket to '' @ toLower (sup_word st)
       @ '' - you can mark it resolved or close it''))
     (unless (assertTransition SUPPORT_TRANSITIONS sup_word (sp_status r) st i)
     (Inr (announce [Sl_tickets] (setSupportStatus i st s)))))"

text \<open>The wire holds a rating to 1--5 before the service sees it.\<close>

definition rate_tx :: "claims \<Rightarrow> string \<Rightarrow> nat \<Rightarrow> hospital \<Rightarrow> error + hospital" where
  "rate_tx c i stars s =
     bindE (mine s i (cl_sub c)) (\<lambda>r.
     unless (assertRule (mayRate (sp_status r)) (i @ '' is not finished yet - rate it once support has resolved it''))
     (if stars < 1 \<or> 5 < stars then Inl (Internal ''support_tickets_rating_ck'')
      else Inr (announce [Sl_tickets] (on_support i (\<lambda>r. r\<lparr>sp_rating := Some stars\<rparr>) s))))"

definition deskReply_tx :: "claims \<Rightarrow> string \<Rightarrow> string \<Rightarrow> ticketStatus option \<Rightarrow> instant \<Rightarrow> hospital \<Rightarrow> error + hospital" where
  "deskReply_tx c i body sent at' s =
     found (support_of s i) (noTicketHere i) (\<lambda>r.
     let text' = trim body; next' = deskStatusAfterReply (sp_status r) sent in
     unless (assertRule (0 < length text') ''Write a reply first'')
     (unless (assertRule (mayReply (sp_status r)) (i @ '' is closed - it takes no more replies''))
     (unless (if next' \<noteq> sp_status r then assertTransition SUPPORT_TRANSITIONS sup_word (sp_status r) next' i else None)
     (let s1 = appendMessage i FromSupport (userName (hp_db s) (cl_sub c)) text' at' s in
      Inr (announce [Sl_tickets] (if next' \<noteq> sp_status r then setSupportStatus i next' s1 else s1))))))"

definition deskStatus_tx :: "string \<Rightarrow> ticketStatus \<Rightarrow> hospital \<Rightarrow> error + hospital" where
  "deskStatus_tx i st s =
     found (support_of s i) (noTicketHere i) (\<lambda>r.
     unless (assertRule (mayDeskSet st) ''A ticket cannot go back to open - it is open only until support first answers it'')
     (unless (assertTransition SUPPORT_TRANSITIONS sup_word (sp_status r) st i)
     (Inr (announce [Sl_tickets] (setSupportStatus i st s)))))"

definition listSupport :: "hospital \<Rightarrow> claims \<Rightarrow> (string \<times> supportRow) list" where
  "listSupport s c = stable_sort (\<lambda>a b. if sp_at (snd a) = sp_at (snd b) then fst b \<le> fst a else sp_at (snd b) < sp_at (snd a))
     (filter (\<lambda>r. sp_by (snd r) = cl_sub c) (hp_support s))"

section \<open>Product requests (\<open>modules/productreqs\<close>)\<close>

definition askProduct_tx :: "actor \<Rightarrow> string \<Rightarrow> string \<Rightarrow> key \<Rightarrow> instant \<Rightarrow> hospital \<Rightarrow> error + hospital" where
  "askProduct_tx a name why loc at' s =
     unless (assertRule (0 < length (trim name)) ''Name the product you want added'')
     (bindE (lockLocation (hp_db s) loc) (\<lambda>l.
      unless (if ac_wide a then assertRule (loc_type l = Outlet_Type) (loc_n l @ '' is not an outlet'') else None)
      (unless (assertOpen l)
      (bindE (officeId K_product_req at' s) (\<lambda>(i, s1).
       bindE (insert_row (hp_wishes s1) i \<lparr>wi_name = trim name, wi_why = trim why, wi_loc = loc, wi_by = ac_sub a,
         wi_at = at', wi_status = Npr_Requested, wi_note = None, wi_item = None\<rparr>) (\<lambda>t.
       Inr (announce [Sl_productReqs] (s1\<lparr>hp_wishes := t\<rparr>))))))))"

datatype answer = Created_as "key option" | Turned_down

text \<open>A falsy item key is refused; the item may be a retired one. \<open>setAnswer\<close> leaves the key alone on a decline.\<close>

definition answerProduct_tx :: "string \<Rightarrow> answer \<Rightarrow> string \<Rightarrow> hospital \<Rightarrow> error + hospital" where
  "answerProduct_tx i ans note s =
     found (map_of (hp_wishes s) i) (NotFoundError (''There is no product request '' @ i @ ''.'')) (\<lambda>p.
     unless (assertRule (wi_status p = Npr_Requested) (i @ '' has already been answered''))
     (unless (case ans of Turned_down \<Rightarrow> None
        | Created_as k \<Rightarrow> (case truthy k of None \<Rightarrow> Some (RuleError ''Pick the catalogue item this request became'')
            | Some it \<Rightarrow> if db_items (hp_db s) it = None then Some (NotFoundError (''There is no item '' @ it @ ''.'')) else None))
     (Inr (announce [Sl_productReqs] (s\<lparr>hp_wishes := update_row (hp_wishes s) i (\<lambda>p. case ans of
        Turned_down \<Rightarrow> p\<lparr>wi_status := Npr_Declined, wi_note := Some (trim note)\<rparr>
      | Created_as k \<Rightarrow> p\<lparr>wi_status := Npr_Created, wi_note := Some (trim note), wi_item := k\<rparr>)\<rparr>)))))"

section \<open>What a write does to a ticket\<close>

text \<open>One step of a ticket's life: at most one message more, one edge of the table or none; a closed ticket takes
  neither.\<close>

definition talks :: "supportRow \<Rightarrow> supportRow \<Rightarrow> bool" where
  "talks r r' \<longleftrightarrow> (\<exists>ms. length ms \<le> 1 \<and> sp_messages r' = sp_messages r @ ms) \<and>
     (sp_status r' = sp_status r \<or> canTransition SUPPORT_TRANSITIONS (sp_status r) (sp_status r')) \<and>
     sp_by r' = sp_by r \<and> sp_subject r' = sp_subject r \<and>
     (sp_status r = Sup_Closed \<longrightarrow> sp_messages r' = sp_messages r)"

definition talked :: "hospital \<Rightarrow> hospital \<Rightarrow> bool" where
  "talked s s' \<longleftrightarrow> (\<forall>i r. support_of s i = Some r \<longrightarrow> (\<exists>r'. support_of s' i = Some r' \<and> talks r r'))"

lemma talks_refl [simp]: "talks r r"
  by (simp add: talks_def)

lemma talked_same: "hp_support s' = hp_support s \<Longrightarrow> talked s s'"
  by (simp add: talked_def support_of_def)

lemma support_of_on [simp]: "support_of (on_support i f s) j = (if j = i then map_option f (support_of s j) else support_of s j)"
  by (simp add: support_of_def on_support_def)

lemma support_of_announce [simp]: "support_of (announce ch s) i = support_of s i"
  by (simp add: support_of_def)

lemma talked_on: "(\<And>r. support_of s i = Some r \<Longrightarrow> talks r (f r)) \<Longrightarrow> talked s (announce ch (on_support i f s))"
  by (auto simp: talked_def)

lemma talked_on2: "(\<And>r. support_of s i = Some r \<Longrightarrow> talks r (g (f r))) \<Longrightarrow>
   talked s (announce ch (on_support i g (on_support i f s)))"
  by (auto simp: talked_def option.map_comp)

lemma mine_Inr: "mine s i sub = Inr r \<longleftrightarrow> support_of s i = Some r \<and> sp_by r = sub"
  by (auto simp: mine_def)

lemma raise_keeps:
  assumes "raiseSupport_tx c b t s = Inr s'" "support_of s j = Some x"
  shows "support_of s' j = Some x"
proof -
  define r where "r = \<lparr>sp_topic = ra_topic b, sp_subject = trim (ra_subject b), sp_priority = ra_priority b,
         sp_status = Sup_Open, sp_by = cl_sub c, sp_role = cl_role c, sp_loc = cl_loc c, sp_at = t,
         sp_screen = trim (ra_screen b), sp_rating = None, sp_messages = []\<rparr>"
  obtain i s1 where id: "officeId K_support t s = Inr (i, s1)" and new: "map_of (hp_support s1) i = None"
    and s': "s' = announce [Sl_tickets] (if trim (ra_body b) \<noteq> [] then appendMessage i FromUser
      (userName (hp_db s) (cl_sub c)) (trim (ra_body b)) t (s1\<lparr>hp_support := hp_support s1 @ [(i, r)]\<rparr>)
      else s1\<lparr>hp_support := hp_support s1 @ [(i, r)]\<rparr>)"
    using assms(1) unfolding raiseSupport_tx_def Let_def r_def [symmetric] by auto
  have "map_of (hp_support s1) j = Some x" using assms(2) by (simp add: support_of_def officeId_sel(5) [OF id])
  moreover from this new have "j \<noteq> i" by auto
  ultimately show ?thesis using s' by (auto simp: appendMessage_def support_of_def [of "s1\<lparr>hp_support := y\<rparr>" for y] map_add_Some_iff split: if_splits)
qed

lemma raise_talked: "raiseSupport_tx c b t s = Inr s' \<Longrightarrow> talked s s'"
  by (auto simp: talked_def dest: raise_keeps)

lemma reply_talked: "replySupport_tx c i body t s = Inr s' \<Longrightarrow> talked s s'"
  by (auto simp: replySupport_tx_def Let_def mine_Inr appendMessage_def setSupportStatus_def talks_def mayReply_def
      statusAfterReply_def split: if_splits intro!: talked_on talked_on2)

lemma setStatus_talked: "setSupport_tx c i st s = Inr s' \<Longrightarrow> talked s s'"
  by (auto simp: setSupport_tx_def mine_Inr setSupportStatus_def talks_def intro!: talked_on)

lemma rate_talked: "rate_tx c i n s = Inr s' \<Longrightarrow> talked s s'"
  by (auto simp: rate_tx_def mine_Inr talks_def split: if_splits intro!: talked_on)

lemma deskReply_talked: "deskReply_tx c i body st t s = Inr s' \<Longrightarrow> talked s s'"
  by (auto simp: deskReply_tx_def Let_def appendMessage_def setSupportStatus_def talks_def mayReply_def split: if_splits
      intro!: talked_on talked_on2)

lemma deskStatus_talked: "deskStatus_tx i st s = Inr s' \<Longrightarrow> talked s s'"
  by (auto simp: deskStatus_tx_def setSupportStatus_def talks_def intro!: talked_on)

end
