(* ===== verification/Premises.thy ===== *)
theory Premises
  imports People Register
begin

text \<open>
  Outlets and the payer register, as the super admin keeps them: the second half of
  \<open>apps/api/src/modules/admin/service.ts\<close> with \<open>closeBlockers\<close> of its \<open>repo.ts\<close>, and the switches of
  \<open>modules/availability\<close>. An outlet is closed, never deleted, and not while anything still stands on it.

  A balance that is not zero is under a cell some move names (the ledger's invariant), so what stands at a
  location is counted over the items its moves name; \<open>stock_blockers\<close> says the count misses nothing.
\<close>

section \<open>Outlets\<close>

definition upper_char :: "char \<Rightarrow> char" where
  "upper_char c = (if (97::nat) \<le> of_char c \<and> of_char c \<le> (122::nat) then char_of (of_char c - (32::nat)) else c)"

definition toUpper :: "string \<Rightarrow> string" where "toUpper = map upper_char"

definition requireOutlet :: "hospital \<Rightarrow> key \<Rightarrow> error + location" where
  "requireOutlet s k = (case map_of (db_locations (hp_db s)) k of
      None \<Rightarrow> Inl (NotFoundError (''There is no outlet '' @ k @ ''.''))
    | Some l \<Rightarrow> if loc_type l \<noteq> Outlet_Type then Inl (NotFoundError (''There is no outlet '' @ k @ ''.'')) else Inr l)"

text \<open>\<open>locations_name_uq\<close> and \<open>locations_code_uq\<close>, as \<open>refuseClash\<close> words them.\<close>

definition outlet_clash :: "hospital \<Rightarrow> string \<Rightarrow> string \<Rightarrow> key option \<Rightarrow> error option" where
  "outlet_clash s name code self =
     (if list_ex (\<lambda>kl. toLower (loc_n (snd kl)) = toLower name \<and> Some (fst kl) \<noteq> self) (db_locations (hp_db s))
      then Some (ConflictError (''Refused - a location named '' @ name @ '' already exists''))
      else if list_ex (\<lambda>kp. toUpper (pl_code (snd kp)) = toUpper code \<and> Some (fst kp) \<noteq> self) (hp_places s)
      then Some (ConflictError (''Refused - code '' @ code @ '' is already in use'')) else None)"

record outletBody =
  ou_name :: string
  ou_code :: string
  ou_floor :: string
  ou_cc :: string

definition new_location :: "string \<Rightarrow> location" where
  "new_location name = \<lparr>loc_n = name, loc_type = Outlet_Type, loc_list = None, loc_active = True, loc_par = 18/100\<rparr>"

definition on_locations ::
    "((key \<times> location) list \<Rightarrow> (key \<times> location) list) \<Rightarrow> hospital \<Rightarrow> hospital" where
  "on_locations f s = on_house (on_db (\<lambda>d. d\<lparr>db_locations := f (db_locations d)\<rparr>)) s"

definition openOutlet_tx :: "claims \<Rightarrow> outletBody \<Rightarrow> hospital \<Rightarrow> error + hospital" where
  "openOutlet_tx c b s =
     found (outletKeyFor (ou_name b) (map fst (db_locations (hp_db s)))) (Internal ''no key is free'') (\<lambda>k.
     unless (outlet_clash s (ou_name b) (ou_code b) None)
     (bindE (insert_row (db_locations (hp_db s)) k (new_location (ou_name b))) (\<lambda>ls.
      Inr (announce [Sl_outlets, Sl_locations] (logAction (cl_sub c) ''outlet_create'' None (ou_name b)
        (on_locations (\<lambda>_. ls) (s\<lparr>hp_places := hp_places s @
          [(k, \<lparr>pl_code = ou_code b, pl_floor = ou_floor b, pl_cc = ou_cc b\<rparr>)]\<rparr>)))))))"

record outletPatch =
  op_name :: "string option"
  op_code :: "string option"
  op_floor :: "string option"
  op_cc :: "string option"

definition or_else :: "'a option \<Rightarrow> 'a \<Rightarrow> 'a" where
  "or_else x y = (case x of Some v \<Rightarrow> v | None \<Rightarrow> y)"

definition updateOutlet_tx :: "claims \<Rightarrow> key \<Rightarrow> outletPatch \<Rightarrow> hospital \<Rightarrow> error + hospital" where
  "updateOutlet_tx c k b s =
     bindE (requireOutlet s k) (\<lambda>row.
     found (map_of (hp_places s) k) (Internal ''a location without its card'') (\<lambda>p.
     let name = or_else (op_name b) (loc_n row); code = or_else (op_code b) (pl_code p);
         floor' = or_else (op_floor b) (pl_floor p); cc = or_else (op_cc b) (pl_cc p)
     in if name = loc_n row \<and> code = pl_code p \<and> floor' = pl_floor p \<and> cc = pl_cc p
        then Inl (RuleError (''Nothing to save - '' @ loc_n row @ '' already reads that way''))
        else unless (outlet_clash s name code (Some k))
          (Inr (announce [Sl_outlets, Sl_locations] (logAction (cl_sub c) ''outlet_update'' None name
            (on_locations (\<lambda>ls. update_row ls k (\<lambda>l. l\<lparr>loc_n := name\<rparr>))
              (s\<lparr>hp_places := update_row (hp_places s) k (\<lambda>_. \<lparr>pl_code = code, pl_floor = floor', pl_cc = cc\<rparr>)\<rparr>)))))))"

definition stocked :: "db \<Rightarrow> key \<Rightarrow> key list" where
  "stocked d k = filter (\<lambda>it. case db_balances d (k, it) of Some v \<Rightarrow> v \<noteq> 0 | None \<Rightarrow> False)
     (uniq (map mv_it (filter (\<lambda>m. mv_loc m = k) (db_moves d))))"

definition staffAt :: "hospital \<Rightarrow> key \<Rightarrow> string list" where
  "staffAt s k = sort (map (us_emp \<circ> snd) (filter (\<lambda>u. us_loc (snd u) = k \<and> us_active (snd u) \<and> \<not> us_admin (snd u))
     (hp_accounts s)))"

definition count' :: "('a \<Rightarrow> bool) \<Rightarrow> (string \<times> 'a) list \<Rightarrow> nat" where
  "count' P xs = length (filter (P \<circ> snd) xs)"

definition closeBlockers :: "hospital \<Rightarrow> key \<Rightarrow> outletBlockers" where
  "closeBlockers s k = (let h = hp_house s; d = ho_db h in
     \<lparr>ob_stock = length (stocked d k),
      ob_tickets = count' (\<lambda>t. (tk_from t = k \<or> tk_to t = k) \<and> holds_ticket (tk_status t)) (db_tickets d),
      ob_requests = count' (\<lambda>r. rq_from r = k \<and> holds_request (rq_status r)) (db_requests d),
      ob_kitchenOrders = count' (\<lambda>p. pd_from p = k \<and> holds_prodOrder (pd_status p)) (db_pords d),
      ob_shopAsks = count' (\<lambda>a. (sa_from a = k \<or> sa_to a = k) \<and> holds_shopAsk (sa_status a)) (db_asks d),
      ob_productRequests = count' (\<lambda>w. wi_loc w = k \<and> holds_productReq (wi_status w)) (hp_wishes s),
      ob_qrOrders = count' (\<lambda>q. qd_loc q = k \<and> holds_qrOrder (qd_status q)) (ho_qrOrders h),
      ob_staff = staffAt s k,
      ob_openRegister = (takeOpenSession h k \<noteq> None)\<rparr>)"

definition switch_outlet :: "key \<Rightarrow> bool \<Rightarrow> hospital \<Rightarrow> hospital" where
  "switch_outlet k on = on_locations (\<lambda>ls. update_row ls k (\<lambda>l. l\<lparr>loc_active := on\<rparr>))"

definition closeOutlet_tx :: "claims \<Rightarrow> key \<Rightarrow> hospital \<Rightarrow> error + hospital" where
  "closeOutlet_tx c k s =
     bindE (requireOutlet s k) (\<lambda>row.
     if \<not> loc_active row then Inl (RuleError (loc_n row @ '' is already closed''))
     else case closeRefusal (loc_n row) (closeBlockers s k) of
         Some why \<Rightarrow> Inl (RuleError why)
       | None \<Rightarrow> Inr (announce [Sl_outlets, Sl_locations] (logAction (cl_sub c) ''outlet_close'' None (loc_n row)
           (switch_outlet k False s))))"

definition reopenOutlet_tx :: "claims \<Rightarrow> key \<Rightarrow> hospital \<Rightarrow> error + hospital" where
  "reopenOutlet_tx c k s =
     bindE (requireOutlet s k) (\<lambda>row.
     if loc_active row then Inl (RuleError (loc_n row @ '' is already open''))
     else Inr (announce [Sl_outlets, Sl_locations] (logAction (cl_sub c) ''outlet_reopen'' None (loc_n row)
       (switch_outlet k True s))))"

section \<open>The payer register\<close>

definition createPayer_tx :: "claims \<Rightarrow> payerKind \<Rightarrow> string \<Rightarrow> string \<Rightarrow> hospital \<Rightarrow> error + hospital" where
  "createPayer_tx c kind i name s =
     (case ho_payers (hp_house s) (kind, i) of
        Some p \<Rightarrow> Inl (ConflictError (i @ '' is already on the register - '' @ py_name p))
      | None \<Rightarrow> Inr (announce [Sl_payers, Sl_roster] (logAction (cl_sub c) ''payer_create'' None name
          (on_house (\<lambda>h. h\<lparr>ho_payers := (ho_payers h)((kind, i) \<mapsto> \<lparr>py_name = name, py_active = True\<rparr>)\<rparr>) s))))"

definition updatePayer_tx ::
    "claims \<Rightarrow> payerKind \<Rightarrow> string \<Rightarrow> string option \<Rightarrow> bool option \<Rightarrow> hospital \<Rightarrow> error + hospital" where
  "updatePayer_tx c kind i name' active' s =
     found (ho_payers (hp_house s) (kind, i))
       (NotFoundError (''There is no '' @ PARTY_LABEL (PartyOf kind) @ '' '' @ i @ '' on the register.'')) (\<lambda>row.
     let name = or_else name' (py_name row); active = or_else active' (py_active row) in
     if name = py_name row \<and> active = py_active row
     then Inl (RuleError (''Nothing to save - '' @ py_name row @ '' already reads that way''))
     else Inr (announce [Sl_payers, Sl_roster] (logAction (cl_sub c)
       (if active = py_active row then ''payer_update'' else if active then ''payer_reactivate'' else ''payer_deactivate'') None name
       (on_house (\<lambda>h. h\<lparr>ho_payers := (ho_payers h)((kind, i) \<mapsto> \<lparr>py_name = name, py_active = active\<rparr>)\<rparr>) s))))"

section \<open>Availability (\<open>modules/availability\<close>)\<close>

definition REASON :: string where "REASON = ''switched off manually''"

definition toggle_listed :: "db \<Rightarrow> key \<Rightarrow> location \<Rightarrow> key \<Rightarrow> item \<Rightarrow> bool" where
  "toggle_listed d k l it i = (if loc_type l = Kitchen_Type then isKitchenMade (Some i) else List.member (db_menu d k) it)"

definition toggle_tx :: "actor \<Rightarrow> key \<Rightarrow> key \<Rightarrow> hospital \<Rightarrow> error + hospital" where
  "toggle_tx a k it s =
     (let d = hp_db s in
      bindE (lockLocation d k) (\<lambda>l.
      found (loadItems d it) (NotFoundError (''There is no item '' @ it @ ''.'')) (\<lambda>i.
      unless (if ac_wide a then assertRule (loc_type l = Outlet_Type) (loc_n l @ '' is not an outlet'') else None)
      (unless (if loc_type l = Outlet_Type then assertOpen l else None)
      (unless (assertRule (toggle_listed d k l it i)
         (item_n i @ (if loc_type l = Kitchen_Type then '' is not made at '' else '' is not listed at '') @ loc_n l))
      (Inr (announce [Sl_ovr] (on_house (on_db (\<lambda>d. d\<lparr>db_overrides := (db_overrides d)((k, it) :=
        (if db_overrides d (k, it) \<noteq> None then None else Some REASON))\<rparr>)) s))))))))"

end
