(* ===== verification/Masters.thy ===== *)
theory Masters
  imports Premises Accounts Buying
begin

text \<open>
  Vendors and rate contracts: \<open>apps/api/src/modules/vendors\<close> and \<open>modules/contracts\<close>. Neither is ever deleted: a
  vendor is deactivated, a contract is closed. The unique indexes on a vendor's name and on the live contract of a
  vendor and an item decide, and the service words what they refuse.

  Lemma: however contracts are made, changed, closed and reopened, a vendor has at most one live contract for an item.
\<close>

section \<open>Vendors\<close>

definition in_range :: "nat \<Rightarrow> nat \<Rightarrow> char \<Rightarrow> bool" where
  "in_range a b c \<longleftrightarrow> a \<le> of_char c \<and> of_char c \<le> b"

definition upper_letter :: "char \<Rightarrow> bool" where "upper_letter c \<longleftrightarrow> in_range 65 90 c"

text \<open>\<open>GSTIN_RE\<close>: the class of each of the fifteen characters.\<close>

definition GSTIN_CLASSES :: "(char \<Rightarrow> bool) list" where
  "GSTIN_CLASSES = replicate 2 is_digit @ replicate 5 upper_letter @ replicate 4 is_digit @
     [upper_letter, \<lambda>c. in_range 49 57 c \<or> upper_letter c, \<lambda>c. c = CHR ''Z'', \<lambda>c. is_digit c \<or> upper_letter c]"

definition isGstin :: "string \<Rightarrow> bool" where
  "isGstin g \<longleftrightarrow> length g = length GSTIN_CLASSES \<and> list_all (\<lambda>(p, c). p c) (zip GSTIN_CLASSES g)"

definition normaliseGstin :: "string \<Rightarrow> string" where "normaliseGstin g = toUpper (trim g)"

definition assertGstin :: "string \<Rightarrow> error option" where
  "assertGstin g = assertRule (g = [] \<or> isGstin g) ''That is not a GSTIN - 15 characters, like 33AAACA1234F1Z5''"

record vendorBody =
  vb_n :: string
  vb_gstin :: string
  vb_contact :: string
  vb_ph :: string
  vb_terms :: string
  vb_lead :: number
  vb_groups :: "string list"

text \<open>\<open>vendors_name_ci_uq\<close>.\<close>

definition vendor_clash :: "hospital \<Rightarrow> string \<Rightarrow> string option \<Rightarrow> bool" where
  "vendor_clash s name self = list_ex (\<lambda>i. Some i \<noteq> self \<and>
     (case ho_vendors (hp_house s) i of Some v \<Rightarrow> toLower (vn_name v) = toLower name | None \<Rightarrow> False)) (map fst (hp_vendors s))"

definition write_vendor :: "string \<Rightarrow> vendorRow \<Rightarrow> hospital \<Rightarrow> hospital" where
  "write_vendor i v = on_house (\<lambda>h. h\<lparr>ho_vendors := (ho_vendors h)(i \<mapsto> v)\<rparr>)"

text \<open>\<open>insertIfNew\<close> answers no row when any unique index stops it.\<close>

definition createVendor_tx :: "vendorBody \<Rightarrow> instant \<Rightarrow> hospital \<Rightarrow> error + hospital" where
  "createVendor_tx b at' s =
     (let name = trim (vb_n b); gstin = normaliseGstin (vb_gstin b) in
      unless (assertRule (0 < length name) ''Give the vendor a name before saving'')
      (unless (assertGstin gstin)
      (bindE (officeId K_vendor at' s) (\<lambda>(i, s1).
       unless (assertRule (\<not> vendor_clash s1 name None \<and> ho_vendors (hp_house s1) i = None) (name @ '' is already on the vendor list''))
       (Inr (announce [Sl_vendors] (write_vendor i \<lparr>vn_name = name, vn_lead = vb_lead b, vn_active = True\<rparr>
         (s1\<lparr>hp_vendors := hp_vendors s1 @ [(i, \<lparr>vs_gstin = gstin, vs_contact = trim (vb_contact b), vs_phone = trim (vb_ph b),
           vs_terms = trim (vb_terms b), vs_groups = vb_groups b\<rparr>)]\<rparr>))))))))"

record vendorPatch =
  vp_n :: "string option"
  vp_gstin :: "string option"
  vp_contact :: "string option"
  vp_ph :: "string option"
  vp_terms :: "string option"
  vp_lead :: "number option"
  vp_groups :: "string list option"
  vp_active :: "bool option"

definition patch_sheet :: "vendorPatch \<Rightarrow> vendorSheet \<Rightarrow> vendorSheet" where
  "patch_sheet b v = \<lparr>vs_gstin = or_else (map_option normaliseGstin (vp_gstin b)) (vs_gstin v),
     vs_contact = or_else (map_option trim (vp_contact b)) (vs_contact v),
     vs_phone = or_else (map_option trim (vp_ph b)) (vs_phone v),
     vs_terms = or_else (map_option trim (vp_terms b)) (vs_terms v),
     vs_groups = or_else (vp_groups b) (vs_groups v)\<rparr>"

definition patched_vendor :: "vendorPatch \<Rightarrow> vendorRow \<Rightarrow> vendorRow" where
  "patched_vendor b v = \<lparr>vn_name = or_else (map_option trim (vp_n b)) (vn_name v),
     vn_lead = or_else (vp_lead b) (vn_lead v), vn_active = or_else (vp_active b) (vn_active v)\<rparr>"

definition empty_patch :: "vendorPatch \<Rightarrow> bool" where
  "empty_patch b \<longleftrightarrow> vp_n b = None \<and> vp_gstin b = None \<and> vp_contact b = None \<and> vp_ph b = None \<and> vp_terms b = None \<and>
     vp_lead b = None \<and> vp_groups b = None \<and> vp_active b = None"

definition patchVendor_tx :: "string \<Rightarrow> vendorPatch \<Rightarrow> hospital \<Rightarrow> error + hospital" where
  "patchVendor_tx i b s =
     found (ho_vendors (hp_house s) i) (NotFoundError (''There is no vendor '' @ i @ ''.'')) (\<lambda>v.
     let v' = patched_vendor b v in
     unless (assertRule (\<not> empty_patch b) (''Nothing to change on '' @ i))
     (unless (case vp_n b of Some n \<Rightarrow> assertRule (0 < length (trim n)) ''Give the vendor a name before saving'' | None \<Rightarrow> None)
     (unless (case vp_gstin b of Some g \<Rightarrow> assertGstin (normaliseGstin g) | None \<Rightarrow> None)
     (unless (assertRule (\<not> vendor_clash s (vn_name v') (Some i)) (trim (or_else (vp_n b) (vn_name v)) @ '' is already on the vendor list''))
     (Inr (announce [Sl_vendors] (write_vendor i v' (s\<lparr>hp_vendors := update_row (hp_vendors s) i (patch_sheet b)\<rparr>))))))))"

section \<open>Rate contracts\<close>

definition liveClashMessage :: "string \<Rightarrow> string \<Rightarrow> string" where
  "liveClashMessage item vendor = item @ '' already has a live contract with '' @ vendor"

definition vendor_name :: "hospital \<Rightarrow> string \<Rightarrow> string" where
  "vendor_name s i = (case ho_vendors (hp_house s) i of Some v \<Rightarrow> vn_name v | None \<Rightarrow> i)"

text \<open>\<open>rate_contracts_live_uq\<close>: another live row for the pair; \<open>liveFor\<close> asks the same.\<close>

definition live_pair :: "house \<Rightarrow> string \<Rightarrow> key \<Rightarrow> string option \<Rightarrow> bool" where
  "live_pair h vendor it self = list_ex (\<lambda>(i, r). ct_vendor r = vendor \<and> ct_it r = it \<and> ct_active r \<and> Some i \<noteq> self) (ho_contracts h)"

record contractBody =
  cb_vendor :: string
  cb_it :: key
  cb_rate :: number
  cb_from :: string
  cb_to :: string
  cb_moq :: number

definition createContract_tx :: "contractBody \<Rightarrow> instant \<Rightarrow> hospital \<Rightarrow> error + hospital" where
  "createContract_tx b at' s =
     found (ho_vendors (hp_house s) (cb_vendor b)) (NotFoundError (''There is no vendor '' @ cb_vendor b @ ''.'')) (\<lambda>v.
     found (loadItems (hp_db s) (cb_it b)) (NotFoundError (''There is no item '' @ cb_it b @ ''.'')) (\<lambda>item.
     unless (assertRule (cb_from b \<le> cb_to b) ''A contract cannot end before it starts'')
     (unless (assertRule (0 < cb_rate b) ''A contract rate must be more than zero'')
     (bindE (officeId K_contract at' s) (\<lambda>(i, s1).
      unless (assertRule (\<not> live_pair (hp_house s1) (cb_vendor b) (cb_it b) None \<and> map_of (ho_contracts (hp_house s1)) i = None)
        (liveClashMessage (item_n item) (vn_name v)))
      (Inr (announce [Sl_contracts] (on_house (\<lambda>h. h\<lparr>ho_contracts := ho_contracts h @ [(i, \<lparr>ct_vendor = cb_vendor b,
         ct_it = cb_it b, ct_rate = pg_round2 (cb_rate b), ct_from = cb_from b, ct_to = cb_to b, ct_active = True\<rparr>)]\<rparr>)
         (s1\<lparr>hp_moq := (hp_moq s1)(i \<mapsto> cb_moq b)\<rparr>)))))))))"

record contractPatch =
  cp_rate :: "number option"
  cp_from :: "string option"
  cp_to :: "string option"
  cp_moq :: "number option"
  cp_active :: "bool option"

definition patch_contract :: "contractPatch \<Rightarrow> contractRow \<Rightarrow> contractRow" where
  "patch_contract b r = r\<lparr>ct_rate := or_else (map_option pg_round2 (cp_rate b)) (ct_rate r), ct_from := or_else (cp_from b) (ct_from r),
     ct_to := or_else (cp_to b) (ct_to r), ct_active := or_else (cp_active b) (ct_active r)\<rparr>"

definition patchContract_tx :: "claims \<Rightarrow> string \<Rightarrow> contractPatch \<Rightarrow> hospital \<Rightarrow> error + hospital" where
  "patchContract_tx c i b s =
     (let h = hp_house s in
      found (map_of (ho_contracts h) i) (NotFoundError (''There is no rate contract '' @ i @ ''.'')) (\<lambda>r.
      let reactivating = (or_else (cp_active b) (ct_active r) \<and> \<not> ct_active r);
          clash = liveClashMessage (item_name (hp_db s) (ct_it r)) (vendor_name s (ct_vendor r));
          repriced = (case cp_rate b of Some x \<Rightarrow> js_paise x \<noteq> js_paise (ct_rate r) | None \<Rightarrow> False)
      in unless (assertRule (cp_rate b \<noteq> None \<or> cp_from b \<noteq> None \<or> cp_to b \<noteq> None \<or> cp_moq b \<noteq> None \<or> cp_active b \<noteq> None)
           (''Nothing to change on '' @ i))
         (unless (assertRule (or_else (cp_from b) (ct_from r) \<le> or_else (cp_to b) (ct_to r)) ''A contract cannot end before it starts'')
         (unless (case cp_rate b of Some x \<Rightarrow> assertRule (0 < x) ''A contract rate must be more than zero'' | None \<Rightarrow> None)
         (unless (if reactivating then assertRule (\<not> live_pair h (ct_vendor r) (ct_it r) (Some i)) clash else None)
         (if ct_active (patch_contract b r) \<and> live_pair h (ct_vendor r) (ct_it r) (Some i) then Inl (RuleError clash)
          else
           (let h1 = h\<lparr>ho_contracts := update_row (ho_contracts h) i (patch_contract b)\<rparr>;
                h2 = (if repriced then logRateChange i (ct_rate r) (pg_round2 (the (cp_rate b))) None (cl_sub c) h1 else h1)
            in Inr (announce [Sl_contracts] (s\<lparr>hp_house := h2,
                 hp_moq := (case cp_moq b of Some q \<Rightarrow> (hp_moq s)(i \<mapsto> q) | None \<Rightarrow> hp_moq s)\<rparr>)))))))))"

definition removeContract_tx :: "string \<Rightarrow> hospital \<Rightarrow> error + hospital" where
  "removeContract_tx i s =
     found (map_of (ho_contracts (hp_house s)) i) (NotFoundError (''There is no rate contract '' @ i @ ''.'')) (\<lambda>r.
     Inr (announce [Sl_contracts] (on_house (\<lambda>h. h\<lparr>ho_contracts := update_row (ho_contracts h) i (\<lambda>r. r\<lparr>ct_active := False\<rparr>)\<rparr>) s)))"

section \<open>One live contract\<close>

definition one_live :: "(string \<times> contractRow) list \<Rightarrow> bool" where
  "one_live cs \<longleftrightarrow> distinct (map fst cs) \<and> (\<forall>i r j q. (i, r) \<in> set cs \<longrightarrow> (j, q) \<in> set cs \<longrightarrow> ct_active r \<longrightarrow> ct_active q \<longrightarrow>
     ct_vendor r = ct_vendor q \<longrightarrow> ct_it r = ct_it q \<longrightarrow> i = j)"

lemma in_update_row: "(j, q) \<in> set (update_row cs i f) \<longleftrightarrow> (\<exists>r. (j, r) \<in> set cs \<and> q = (if j = i then f r else r))"
  by (induction cs) (auto simp: update_row_def split: if_splits)

lemma live_pair_iff: "live_pair h v it self \<longleftrightarrow>
   (\<exists>j q. (j, q) \<in> set (ho_contracts h) \<and> ct_vendor q = v \<and> ct_it q = it \<and> ct_active q \<and> Some j \<noteq> self)"
  by (fastforce simp: live_pair_def list_ex_iff)

text \<open>A row that keeps its vendor and item may change as it likes, as long as it is not made live beside another.\<close>

lemma one_live_update:
  assumes "one_live (ho_contracts h)" "map_of (ho_contracts h) i = Some r"
    and "ct_vendor (f r) = ct_vendor r" "ct_it (f r) = ct_it r"
    and "ct_active (f r) \<Longrightarrow> \<not> live_pair h (ct_vendor r) (ct_it r) (Some i)"
  shows "one_live (update_row (ho_contracts h) i f)"
proof -
  have only: "q = r" if "(i, q) \<in> set (ho_contracts h)" for q
    using that assms(1,2) by (simp add: one_live_def)
  show ?thesis unfolding one_live_def
  proof (intro conjI allI impI)
    show "distinct (map fst (update_row (ho_contracts h) i f))" using assms(1) by (simp add: one_live_def)
  next
    fix a x b y
    assume xy: "(a, x) \<in> set (update_row (ho_contracts h) i f)" "(b, y) \<in> set (update_row (ho_contracts h) i f)"
      and live: "ct_active x" "ct_active y" and same: "ct_vendor x = ct_vendor y" "ct_it x = ct_it y"
    obtain x0 y0 where x0: "(a, x0) \<in> set (ho_contracts h)" "x = (if a = i then f x0 else x0)"
      and y0: "(b, y0) \<in> set (ho_contracts h)" "y = (if b = i then f y0 else y0)"
      using xy by (auto simp: in_update_row)
    show "a = b"
    proof (cases "a = i")
      case True
      then have x: "x = f r" using x0 only by simp
      show ?thesis
      proof (rule ccontr)
        assume ne: "a \<noteq> b"
        with True y0 live same x assms(3,4) have "live_pair h (ct_vendor r) (ct_it r) (Some i)"
          unfolding live_pair_iff by (intro exI [of _ b] exI [of _ y0]) simp
        with assms(5) x live(1) show False by simp
      qed
    next
      case False
      then have x: "x = x0" using x0 by simp
      show ?thesis
      proof (cases "b = i")
        case True
        then have y: "y = f r" using y0 only by simp
        from False x x0 live same y assms(3,4) have "live_pair h (ct_vendor r) (ct_it r) (Some i)"
          unfolding live_pair_iff by (intro exI [of _ a] exI [of _ x0]) simp
        with assms(5) y live(2) show ?thesis by simp
      next
        case False
        with x x0 y0 live same assms(1) show ?thesis unfolding one_live_def by metis
      qed
    qed
  qed
qed

lemma createContract_live:
  assumes "createContract_tx b t s = Inr s'" "one_live (ho_contracts (hp_house s))"
  shows "one_live (ho_contracts (hp_house s'))"
proof -
  obtain i s1 where id: "officeId K_contract t s = Inr (i, s1)"
    and free: "\<not> live_pair (hp_house s1) (cb_vendor b) (cb_it b) None" "map_of (ho_contracts (hp_house s1)) i = None"
    and made: "ho_contracts (hp_house s') = ho_contracts (hp_house s1) @ [(i, \<lparr>ct_vendor = cb_vendor b,
         ct_it = cb_it b, ct_rate = pg_round2 (cb_rate b), ct_from = cb_from b, ct_to = cb_to b, ct_active = True\<rparr>)]"
    using assms(1) by (auto simp: createContract_tx_def on_house_def)
  define r where "r = \<lparr>ct_vendor = cb_vendor b, ct_it = cb_it b, ct_rate = pg_round2 (cb_rate b), ct_from = cb_from b,
     ct_to = cb_to b, ct_active = True\<rparr>"
  have r: "ct_vendor r = cb_vendor b" "ct_it r = cb_it b"
    and s': "ho_contracts (hp_house s') = ho_contracts (hp_house s1) @ [(i, r)]" using made by (simp_all add: r_def)
  from assms(2) have "one_live (ho_contracts (hp_house s1))" by (simp add: officeId_sel(15) [OF id])
  moreover have "i \<notin> fst ` set (ho_contracts (hp_house s1))" using free(2) by (simp add: map_of_eq_None_iff)
  ultimately show ?thesis
    using free(1) r unfolding s' one_live_def live_pair_iff by auto
qed

lemma logRateChange_contracts [simp]: "ho_contracts (logRateChange ct old new po by' h) = ho_contracts h"
  by (simp add: logRateChange_def)

lemma patchContract_live:
  assumes "patchContract_tx c i b s = Inr s'" "one_live (ho_contracts (hp_house s))"
  shows "one_live (ho_contracts (hp_house s'))"
proof -
  obtain r where r: "map_of (ho_contracts (hp_house s)) i = Some r"
    and no: "\<not> (ct_active (patch_contract b r) \<and> live_pair (hp_house s) (ct_vendor r) (ct_it r) (Some i))"
    and s': "ho_contracts (hp_house s') = update_row (ho_contracts (hp_house s)) i (patch_contract b)"
    using assms(1) by (auto simp: patchContract_tx_def Let_def split: if_splits)
  show ?thesis unfolding s'
    by (rule one_live_update [OF assms(2) r]) (use no in \<open>auto simp: patch_contract_def\<close>)
qed

lemma removeContract_live:
  assumes "removeContract_tx i s = Inr s'" "one_live (ho_contracts (hp_house s))"
  shows "one_live (ho_contracts (hp_house s'))"
proof -
  obtain r where r: "map_of (ho_contracts (hp_house s)) i = Some r"
    and s': "ho_contracts (hp_house s') = update_row (ho_contracts (hp_house s)) i (\<lambda>r. r\<lparr>ct_active := False\<rparr>)"
    using assms(1) by (auto simp: removeContract_tx_def on_house_def)
  show ?thesis unfolding s' by (rule one_live_update [OF assms(2) r]) auto
qed

end
