(* ===== verification/Roster.thy ===== *)
theory Roster
  imports House
begin

text \<open>
  Bulk loading of the payer register: \<open>apps/api/src/lib/payers-admin.ts\<close>. A file of \<open>kind,id,name\<close> lines is read
  into good rows and every error there is, and the rows are written in one transaction: an id already on the
  register is skipped, or renamed when the command line asked for it.

  Lemmas: a line written out with quoted fields reads back as the fields it was made of, the reader accounts for
  every line, the four counts of an import add up to the rows it was given, and a second run of the same file
  adds nobody.
\<close>

section \<open>Reading the file\<close>

record csvRow =
  cv_kind :: payerKind
  cv_id :: string
  cv_name :: string

record csvError =
  ce_row :: nat
  ce_column :: string
  ce_message :: string

definition PAYER_CSV_COLUMNS :: "string list" where "PAYER_CSV_COLUMNS = [''kind'', ''id'', ''name'']"

text \<open>\<open>PayerKindSchema.options\<close>, in the order of the enum.\<close>

definition PAYER_KINDS :: "(string \<times> payerKind) list" where
  "PAYER_KINDS = [(''staff'', PStaff), (''dept'', PDept), (''doctor'', PDoctor)]"

definition badKind :: "string \<Rightarrow> string" where
  "badKind raw = ''\"'' @ raw @ ''\" is not a payer kind - use one of '' @ join '', '' (map fst PAYER_KINDS)"

definition sayCsvError :: "csvError \<Rightarrow> string" where
  "sayCsvError e = ''row '' @ nat_str (ce_row e) @ '', column \"'' @ ce_column e @ ''\": '' @ ce_message e"

definition checkPayerRow :: "string \<Rightarrow> string \<Rightarrow> string \<Rightarrow> (string \<times> string) option" where
  "checkPayerRow kind i name =
     (if map_of PAYER_KINDS kind = None then Some (''kind'', badKind kind)
      else if trim i = [] then Some (''id'', ''an id is required - it is the hospital's own number, not one this tool invents'')
      else if trim name = [] then Some (''name'', ''a name is required'') else None)"

text \<open>\<open>splitCsvLine\<close>: \<open>field\<close> is read back to front, \<open>out\<close> too.\<close>

definition QUOTE :: char where "QUOTE = CHR 0x22"

fun split_loop :: "bool \<Rightarrow> string \<Rightarrow> string list \<Rightarrow> string \<Rightarrow> string list" where
  "split_loop quoted field out [] = rev (rev field # out)"
| "split_loop quoted field out (c # cs) =
     (if quoted then
        (if c = QUOTE then
          (case cs of d # ds \<Rightarrow> if d = QUOTE then split_loop True (QUOTE # field) out ds else split_loop False field out cs
           | [] \<Rightarrow> split_loop False field out [])
         else split_loop True (c # field) out cs)
      else if c = QUOTE then split_loop True field out cs
      else if c = CHR '','' then split_loop False [] (rev field # out) cs
      else split_loop False (c # field) out cs)"

definition splitCsvLine :: "string \<Rightarrow> string list" where
  "splitCsvLine line' = map trim (split_loop False [] [] line')"

definition isHeader :: "string list \<Rightarrow> bool" where
  "isHeader cells \<longleftrightarrow> 3 \<le> length cells \<and> map toLower (take 3 cells) = PAYER_CSV_COLUMNS"

text \<open>\<open>split(/\r?\n/)\<close> and a leading byte-order mark, which the file carries as the character U+FEFF.\<close>

fun split_lines :: "string \<Rightarrow> string \<Rightarrow> string list" where
  "split_lines acc [] = [rev acc]"
| "split_lines acc (c # cs) =
     (if c = CHR 0x0A then rev acc # split_lines [] cs
      else if c = CHR 0x0D \<and> cs \<noteq> [] \<and> hd cs = CHR 0x0A then rev acc # split_lines [] (tl cs)
      else split_lines (c # acc) cs)"

definition BOM :: string where "BOM = [CHR 0xEF, CHR 0xBB, CHR 0xBF]"

definition strip_bom :: "string \<Rightarrow> string" where
  "strip_bom text' = (case strip_prefix BOM text' of Some rest \<Rightarrow> rest | None \<Rightarrow> text')"

definition skipped_line :: "string \<Rightarrow> bool" where
  "skipped_line l \<longleftrightarrow> trim l = [] \<or> hd (trim l) = CHR ''#''"

definition read_row :: "nat \<Rightarrow> string list \<Rightarrow> csvError + csvRow" where
  "read_row n cells =
     (if length cells \<noteq> 3
      then Inl \<lparr>ce_row = n, ce_column = ''row'', ce_message = ''expected 3 columns ('' @ join '', '' PAYER_CSV_COLUMNS
        @ ''), found '' @ nat_str (length cells)\<rparr>
      else case checkPayerRow (cells ! 0) (cells ! 1) (cells ! 2) of
          Some (column, msg) \<Rightarrow> Inl \<lparr>ce_row = n, ce_column = column, ce_message = msg\<rparr>
        | None \<Rightarrow> Inr \<lparr>cv_kind = the (map_of PAYER_KINDS (cells ! 0)), cv_id = trim (cells ! 1), cv_name = trim (cells ! 2)\<rparr>)"

text \<open>The loop: \<open>first\<close> is whether the header may still come.\<close>

fun parse_loop :: "nat \<Rightarrow> bool \<Rightarrow> string list \<Rightarrow> csvRow list \<times> csvError list" where
  "parse_loop n first [] = ([], [])"
| "parse_loop n first (l # ls) =
     (if skipped_line l then parse_loop (Suc n) first ls
      else (let cells = splitCsvLine l; (rows, errors) = parse_loop (Suc n) False ls in
        if first \<and> isHeader cells then (rows, errors)
        else case read_row n cells of Inl e \<Rightarrow> (rows, e # errors) | Inr r \<Rightarrow> (r # rows, errors)))"

definition parsePayerCsv :: "string \<Rightarrow> csvRow list \<times> csvError list" where
  "parsePayerCsv text' = parse_loop 1 True (split_lines [] (strip_bom text'))"

section \<open>Writing the rows\<close>

record importResult =
  im_added :: nat
  im_skipped :: nat
  im_renamed :: nat
  im_renamedInactive :: nat

definition kind_word :: "payerKind \<Rightarrow> string" where
  "kind_word k = (case k of PStaff \<Rightarrow> ''staff'' | PDept \<Rightarrow> ''dept'' | PDoctor \<Rightarrow> ''doctor'')"

definition import_row :: "bool \<Rightarrow> csvRow \<Rightarrow> importResult \<Rightarrow> house \<Rightarrow> importResult \<times> house" where
  "import_row replaceNames r n h =
     (let p = (cv_kind r, cv_id r) in
      case ho_payers h p of
        None \<Rightarrow> (n\<lparr>im_added := im_added n + 1\<rparr>,
          h\<lparr>ho_payers := (ho_payers h)(p \<mapsto> \<lparr>py_name = cv_name r, py_active = True\<rparr>)\<rparr>)
      | Some e \<Rightarrow> if \<not> replaceNames \<or> py_name e = cv_name r then (n\<lparr>im_skipped := im_skipped n + 1\<rparr>, h)
          else (n\<lparr>im_renamed := im_renamed n + 1,
                  im_renamedInactive := im_renamedInactive n + (if py_active e then 0 else 1)\<rparr>,
                h\<lparr>ho_payers := (ho_payers h)(p \<mapsto> e\<lparr>py_name := cv_name r\<rparr>)\<rparr>))"

fun import_loop :: "nat \<Rightarrow> bool \<Rightarrow> csvRow list \<Rightarrow> importResult \<Rightarrow> house \<Rightarrow> error + importResult \<times> house" where
  "import_loop i replaceNames [] n h = Inr (n, h)"
| "import_loop i replaceNames (r # rs) n h =
     (case checkPayerRow (kind_word (cv_kind r)) (cv_id r) (cv_name r) of
        Some (column, msg) \<Rightarrow> Inl (Internal (sayCsvError \<lparr>ce_row = i + 1, ce_column = column, ce_message = msg\<rparr>))
      | None \<Rightarrow> (let (n1, h1) = import_row replaceNames r n h in import_loop (Suc i) replaceNames rs n1 h1))"

definition importPayers_tx :: "bool \<Rightarrow> csvRow list \<Rightarrow> house \<Rightarrow> error + importResult \<times> house" where
  "importPayers_tx replaceNames rows =
     import_loop 0 replaceNames rows \<lparr>im_added = 0, im_skipped = 0, im_renamed = 0, im_renamedInactive = 0\<rparr>"

section \<open>Lemmas\<close>

text \<open>A field as a spreadsheet quotes it: in quotes, a quote inside it twice.\<close>

definition quote_field :: "string \<Rightarrow> string" where
  "quote_field f = QUOTE # concat (map (\<lambda>c. if c = QUOTE then [QUOTE, QUOTE] else [c]) f) @ [QUOTE]"

definition csv_line :: "string list \<Rightarrow> string" where
  "csv_line fs = join [CHR '',''] (map quote_field fs)"

lemma split_quoted: "split_loop True acc out (concat (map (\<lambda>c. if c = QUOTE then [QUOTE, QUOTE] else [c]) f) @ QUOTE # rest)
   = (case rest of d # ds \<Rightarrow> if d = QUOTE then split_loop True (QUOTE # rev f @ acc) out ds
        else split_loop False (rev f @ acc) out rest | [] \<Rightarrow> split_loop False (rev f @ acc) out [])"
  by (induction f arbitrary: acc) (auto split: list.splits)

lemma split_field: "(\<And>d ds. rest = d # ds \<Longrightarrow> d \<noteq> QUOTE) \<Longrightarrow>
   split_loop False acc out (quote_field f @ rest) = split_loop False (rev f @ acc) out rest"
  by (cases rest) (auto simp: quote_field_def split_quoted)

lemma comma_not_quote [simp]: "CHR '','' \<noteq> QUOTE"
  by (simp add: QUOTE_def)

lemma split_line: "fs \<noteq> [] \<Longrightarrow> split_loop False [] out (csv_line fs) = rev out @ fs"
proof (induction fs arbitrary: out)
  case (Cons f fs)
  show ?case
  proof (cases fs)
    case Nil
    then show ?thesis using split_field [of "[]" "[]" out f] by (simp add: csv_line_def)
  next
    case (Cons g gs)
    have "csv_line (f # fs) = quote_field f @ CHR '','' # csv_line fs" by (simp add: csv_line_def Cons)
    then show ?thesis using split_field [of "CHR '','' # csv_line fs" "[]" out f] Cons.IH [of "f # out"] Cons
      by simp
  qed
qed simp

lemma splitCsvLine_line: "fs \<noteq> [] \<Longrightarrow> splitCsvLine (csv_line fs) = map trim fs"
  by (simp add: splitCsvLine_def split_line)

text \<open>Whether the first line that carries anything is the header.\<close>

fun header_first :: "string list \<Rightarrow> bool" where
  "header_first [] = False"
| "header_first (l # ls) = (if skipped_line l then header_first ls else isHeader (splitCsvLine l))"

lemma parse_loop_lengths: "parse_loop n first ls = (rows, errors) \<Longrightarrow>
   length rows + length errors + (if first \<and> header_first ls then 1 else 0) = length (filter (\<lambda>l. \<not> skipped_line l) ls)"
proof (induction ls arbitrary: n first rows errors)
  case (Cons l ls)
  obtain r e where re: "parse_loop (Suc n) False ls = (r, e)" by (metis prod.collapse)
  show ?case
  proof (cases "skipped_line l")
    case True
    then show ?thesis using Cons by simp
  next
    case False
    with Cons.IH [OF re] Cons.prems re show ?thesis by (auto simp: Let_def split: if_splits sum.splits)
  qed
qed simp

lemma import_loop_counts: "import_loop i rn rs n h = Inr (n', h') \<Longrightarrow>
   im_added n' + im_skipped n' + im_renamed n' = im_added n + im_skipped n + im_renamed n + length rs"
proof (induction rs arbitrary: i n h)
  case (Cons r rs)
  obtain n1 h1 where s: "import_row rn r n h = (n1, h1)" by (metis prod.collapse)
  then have "im_added n1 + im_skipped n1 + im_renamed n1 = im_added n + im_skipped n + im_renamed n + 1"
    by (auto simp: import_row_def Let_def split: option.splits if_splits)
  with Cons s show ?case by (auto split: option.splits prod.splits)
qed simp

text \<open>Nobody leaves the register, nobody on it is renamed unless the command line asked, nobody is switched on or off.\<close>

lemma import_row_keeps:
  assumes "import_row rn r n h = (n', h')" "ho_payers h p = Some e"
  shows "\<exists>e'. ho_payers h' p = Some e' \<and> py_active e' = py_active e \<and> (\<not> rn \<longrightarrow> e' = e)"
  using assms by (auto simp: import_row_def Let_def split: option.splits if_splits)

lemma import_loop_keeps:
  assumes "import_loop i rn rs n h = Inr (n', h')" "ho_payers h p = Some e"
  shows "\<exists>e'. ho_payers h' p = Some e' \<and> py_active e' = py_active e \<and> (\<not> rn \<longrightarrow> e' = e)"
  using assms
proof (induction rs arbitrary: i n h e)
  case (Cons r rs)
  obtain n1 h1 where s: "import_row rn r n h = (n1, h1)" by (metis prod.collapse)
  obtain e1 where e1: "ho_payers h1 p = Some e1" "py_active e1 = py_active e" "\<not> rn \<longrightarrow> e1 = e"
    using import_row_keeps [OF s Cons.prems(2)] by blast
  from Cons.prems(1) s have "import_loop (Suc i) rn rs n1 h1 = Inr (n', h')" by (auto split: option.splits)
  from Cons.IH [OF this e1(1)] e1 show ?case by auto
qed simp

lemma import_row_on: "import_row rn r n h = (n', h') \<Longrightarrow> ho_payers h' (cv_kind r, cv_id r) \<noteq> None"
  by (auto simp: import_row_def Let_def split: option.splits if_splits)

lemma import_loop_on:
  "import_loop i rn rs n h = Inr (n', h') \<Longrightarrow> r \<in> set rs \<Longrightarrow> ho_payers h' (cv_kind r, cv_id r) \<noteq> None"
proof (induction rs arbitrary: i n h)
  case (Cons x rs)
  obtain n1 h1 where s: "import_row rn x n h = (n1, h1)" by (metis prod.collapse)
  then have run: "import_loop (Suc i) rn rs n1 h1 = Inr (n', h')" using Cons.prems(1) by (auto split: option.splits)
  show ?case
  proof (cases "r = x")
    case True
    with import_row_on [OF s] import_loop_keeps [OF run, of "(cv_kind x, cv_id x)"] show ?thesis by auto
  next
    case False
    with Cons.IH [OF run] Cons.prems(2) show ?thesis by simp
  qed
qed simp

lemma import_again:
  assumes "\<And>r. r \<in> set rs \<Longrightarrow> ho_payers h (cv_kind r, cv_id r) \<noteq> None"
    and "\<And>r. r \<in> set rs \<Longrightarrow> checkPayerRow (kind_word (cv_kind r)) (cv_id r) (cv_name r) = None"
  shows "import_loop i False rs n h = Inr (n\<lparr>im_skipped := im_skipped n + length rs\<rparr>, h)"
  using assms
proof (induction rs arbitrary: i n)
  case (Cons r rs)
  have "import_row False r n h = (n\<lparr>im_skipped := im_skipped n + 1\<rparr>, h)"
    using Cons.prems(1) [of r] by (auto simp: import_row_def Let_def split: option.splits)
  with Cons show ?case by simp
qed simp

lemma import_loop_checked:
  "import_loop i rn rs n h = Inr x \<Longrightarrow> r \<in> set rs \<Longrightarrow> checkPayerRow (kind_word (cv_kind r)) (cv_id r) (cv_name r) = None"
  by (induction rs arbitrary: i n h) (auto split: option.splits prod.splits)

end
