(* ===== verification/Office.thy ===== *)
theory Office
  imports Signin Front Masters Roster Hall
begin

text \<open>
  The offices as one machine: every write of the desks that keep the master (roles, accounts, outlets, payers,
  availability, vendors, contracts, the support desk, product requests, shifts) and the sign-in, over one
  \<open>hospital\<close>. The stock and trading services run beside them: between two calls any operation of the house
  (\<open>hexec\<close>) may be served.

  A run is a sequence of calls, refused ones included, on a clock that never goes back. The family of a new session
  is a random UUID: a run never draws one that is in the table.
\<close>

section \<open>The calls\<close>

datatype dop =
    D_createRole claims string role permissions
  | D_updateRole claims string "string option" "role option" "permissions option"
  | D_deactivateRole claims string
  | D_reactivateRole claims string
  | D_removeRole claims string
  | D_createAccount claims string newUser string string
  | D_resetAccount claims string string string
  | D_deactivate claims string
  | D_reactivate claims string
  | D_updateRoleLoc claims string string key
  | D_setPostings claims string "key list"
  | D_removeAccount "string \<Rightarrow> bool" claims string
  | D_openOutlet claims outletBody
  | D_updateOutlet claims key outletPatch
  | D_closeOutlet claims key
  | D_reopenOutlet claims key
  | D_createPayer claims payerKind string string
  | D_updatePayer claims payerKind string "string option" "bool option"
  | D_toggle actor key key
  | D_closeShift claims
  | D_raise claims raiseBody
  | D_reply claims string string
  | D_setStatus claims string ticketStatus
  | D_rate claims string nat
  | D_deskReply claims string string "ticketStatus option"
  | D_deskStatus string ticketStatus
  | D_askProduct actor string string key
  | D_answerProduct string answer string
  | D_createVendor vendorBody
  | D_patchVendor string vendorPatch
  | D_createContract contractBody
  | D_patchContract claims string contractPatch
  | D_removeContract string

fun desk_tx :: "dop \<Rightarrow> instant \<Rightarrow> hospital \<Rightarrow> error + hospital" where
  "desk_tx (D_createRole c n d p) t = createRole_tx c n d p t"
| "desk_tx (D_updateRole c i n d p) t = updateRole_tx c i n d p"
| "desk_tx (D_deactivateRole c i) t = deactivateRole_tx c i"
| "desk_tx (D_reactivateRole c i) t = reactivateRole_tx c i"
| "desk_tx (D_removeRole c i) t = removeRole_tx c i"
| "desk_tx (D_createAccount c r b pw hs) t = createAccount_tx c r b pw hs"
| "desk_tx (D_resetAccount c i pw hs) t = resetAccount_tx c i pw hs t"
| "desk_tx (D_deactivate c i) t = deactivateAccount_tx c i t"
| "desk_tx (D_reactivate c i) t = reactivateAccount_tx c i"
| "desk_tx (D_updateRoleLoc c i r l) t = updateRoleLoc_tx c i r l t"
| "desk_tx (D_setPostings c i ls) t = setPostings_tx c i ls t"
| "desk_tx (D_removeAccount e c i) t = removeAccount_tx e c i"
| "desk_tx (D_openOutlet c b) t = openOutlet_tx c b"
| "desk_tx (D_updateOutlet c k b) t = updateOutlet_tx c k b"
| "desk_tx (D_closeOutlet c k) t = closeOutlet_tx c k"
| "desk_tx (D_reopenOutlet c k) t = reopenOutlet_tx c k"
| "desk_tx (D_createPayer c k i n) t = createPayer_tx c k i n"
| "desk_tx (D_updatePayer c k i n a) t = updatePayer_tx c k i n a"
| "desk_tx (D_toggle a k it) t = toggle_tx a k it"
| "desk_tx (D_closeShift c) t = closeShift_tx c t"
| "desk_tx (D_raise c b) t = raiseSupport_tx c b t"
| "desk_tx (D_reply c i b) t = replySupport_tx c i b t"
| "desk_tx (D_setStatus c i st) t = setSupport_tx c i st"
| "desk_tx (D_rate c i n) t = rate_tx c i n"
| "desk_tx (D_deskReply c i b st) t = deskReply_tx c i b st t"
| "desk_tx (D_deskStatus i st) t = deskStatus_tx i st"
| "desk_tx (D_askProduct a n w l) t = askProduct_tx a n w l t"
| "desk_tx (D_answerProduct i a n) t = answerProduct_tx i a n"
| "desk_tx (D_createVendor b) t = createVendor_tx b t"
| "desk_tx (D_patchVendor i b) t = patchVendor_tx i b"
| "desk_tx (D_createContract b) t = createContract_tx b t"
| "desk_tx (D_patchContract c i b) t = patchContract_tx c i b"
| "desk_tx (D_removeContract i) t = removeContract_tx i"

datatype oop =
    O_desk dop
  | O_login string string "key option" draws
  | O_refresh "string option" string
  | O_logout "string option"
  | O_password string string string draws
  | O_purge

record door =
  dr_cfg :: authConfig
  dr_verify :: "string \<Rightarrow> string \<Rightarrow> bool"
  dr_hash :: "string \<Rightarrow> string"

fun oexec :: "door \<Rightarrow> oop \<Rightarrow> instant \<Rightarrow> attempts \<times> hospital \<Rightarrow> attempts \<times> hospital" where
  "oexec w (O_desk op) t (a, s) = (a, snd (commit (desk_tx op t) s))"
| "oexec w (O_login emp pw loc x) t (a, s) = snd (login (dr_cfg w) (dr_verify w) emp pw loc x t (a, s))"
| "oexec w (O_refresh p hs) t (a, s) = (a, snd (refresh (dr_cfg w) p hs t s))"
| "oexec w (O_logout p) t (a, s) = (a, snd (logout p t s))"
| "oexec w (O_password i cur nxt x) t (a, s) = (a, snd (changePassword (dr_cfg w) (dr_verify w) (dr_hash w) i cur nxt x t s))"
| "oexec w O_purge t (a, s) = (a, purge t s)"

text \<open>What a draw is, and a run.\<close>

fun new_draw :: "oop \<Rightarrow> hospital \<Rightarrow> bool" where
  "new_draw (O_login emp pw loc x) s \<longleftrightarrow> dw_family x \<notin> tn_family ` set (hp_tokens s)"
| "new_draw (O_password i cur nxt x) s \<longleftrightarrow> dw_family x \<notin> tn_family ` set (hp_tokens s)"
| "new_draw _ s \<longleftrightarrow> True"

inductive office :: "door \<Rightarrow> attempts \<times> hospital \<Rightarrow> instant \<Rightarrow> attempts \<times> hospital \<Rightarrow> instant \<Rightarrow> bool" for w s0 t0 where
  opens: "office w s0 t0 s0 t0"
| call: "office w s0 t0 s t \<Longrightarrow> t \<le> t' \<Longrightarrow> new_draw op (snd s) \<Longrightarrow> office w s0 t0 (oexec w op t' s) t'"
| beside: "office w s0 t0 (a, s) t \<Longrightarrow> office w s0 t0 (a, s\<lparr>hp_house := snd (hexec coll op (hp_house s))\<rparr>) t"

end
