(* ===== verification/Seats.thy ===== *)
theory Seats
  imports Office
begin

text \<open>
  Who sits where. \<open>seated\<close> is what the offices owe an account: the role it holds exists, is its own desk and
  carries its label, and while it is active and ordinary the role is active and its desk works at its home
  location, which is among its postings. Every write of the offices keeps it, whoever it concerns: a role is not
  switched off over its holders nor moved to another desk, an outlet does not close over its staff, an account
  does not come back to a place that has closed.
\<close>

section \<open>The invariant\<close>

definition ordinary :: "account \<Rightarrow> bool" where
  "ordinary u \<longleftrightarrow> \<not> us_admin u \<and> \<not> us_system u"

definition role_fits :: "(string \<rightharpoonup> roleRow) \<Rightarrow> account \<Rightarrow> bool" where
  "role_fits R u \<longleftrightarrow> (\<forall>i. us_role u = Some i \<longrightarrow>
     (\<exists>r. R i = Some r \<and> ro_desk r = us_desk u \<and> ro_name r = us_label u \<and> ro_ever r)) \<and>
     (ordinary u \<longrightarrow> us_role u \<noteq> None)"

definition at_work :: "(string \<rightharpoonup> roleRow) \<Rightarrow> (key \<rightharpoonup> location) \<Rightarrow> account \<Rightarrow> bool" where
  "at_work R L u \<longleftrightarrow> us_active u \<and> ordinary u \<longrightarrow>
     (\<exists>i r. us_role u = Some i \<and> R i = Some r \<and> ro_active r) \<and> worksAt (us_desk u) (us_loc u) (L (us_loc u))"

definition seated :: "(string \<rightharpoonup> roleRow) \<Rightarrow> (key \<rightharpoonup> location) \<Rightarrow> account \<Rightarrow> bool" where
  "seated R L u \<longleftrightarrow> role_fits R u \<and> at_work R L u \<and> us_loc u \<in> set (us_posts u)"

definition all_seated :: "hospital \<Rightarrow> bool" where
  "all_seated s \<longleftrightarrow> distinct (map fst (hp_accounts s)) \<and>
     (\<forall>i u. (i, u) \<in> set (hp_accounts s) \<longrightarrow> seated (map_of (hp_roles s)) (map_of (db_locations (hp_db s))) u)"

lemma all_seatedI:
  assumes "distinct (map fst (hp_accounts s))"
    and "\<And>i u. (i, u) \<in> set (hp_accounts s) \<Longrightarrow> seated (map_of (hp_roles s)) (map_of (db_locations (hp_db s))) u"
  shows "all_seated s"
  using assms by (simp add: all_seated_def)

lemma seatedD:
  "all_seated s \<Longrightarrow> (i, u) \<in> set (hp_accounts s) \<Longrightarrow> seated (map_of (hp_roles s)) (map_of (db_locations (hp_db s))) u"
  by (simp add: all_seated_def)

text \<open>A change that touches none of the three tables.\<close>

lemma all_seated_frame:
  "hp_accounts s' = hp_accounts s \<Longrightarrow> hp_roles s' = hp_roles s \<Longrightarrow> db_locations (hp_db s') = db_locations (hp_db s) \<Longrightarrow>
   all_seated s \<Longrightarrow> all_seated s'"
  by (simp add: all_seated_def)

lemma in_accounts_update: "(j, u) \<in> set (hp_accounts (update_account i f s)) \<longleftrightarrow>
   (\<exists>v. (j, v) \<in> set (hp_accounts s) \<and> u = (if j = i then f v else v))"
  by (simp add: update_account_def in_update_row)

text \<open>Roles only gain what holders ask of them.\<close>

definition role_le :: "(string \<rightharpoonup> roleRow) \<Rightarrow> (string \<rightharpoonup> roleRow) \<Rightarrow> bool" where
  "role_le R R' \<longleftrightarrow> (\<forall>i r. R i = Some r \<longrightarrow> (\<exists>r'. R' i = Some r' \<and> ro_desk r' = ro_desk r \<and> ro_name r' = ro_name r \<and>
     (ro_active r \<longrightarrow> ro_active r') \<and> (ro_ever r \<longrightarrow> ro_ever r')))"

lemma seated_roles: "seated R L u \<Longrightarrow> role_le R R' \<Longrightarrow> seated R' L u"
proof -
  assume s: "seated R L u" and le: "role_le R R'"
  have "role_fits R' u"
    unfolding role_fits_def
  proof (intro conjI allI impI)
    fix i assume "us_role u = Some i"
    with s obtain r where r: "R i = Some r" "ro_desk r = us_desk u" "ro_name r = us_label u" "ro_ever r"
      by (auto simp: seated_def role_fits_def)
    with le obtain r' where "R' i = Some r'" "ro_desk r' = ro_desk r" "ro_name r' = ro_name r" "ro_ever r'"
      unfolding role_le_def by blast
    with r show "\<exists>r. R' i = Some r \<and> ro_desk r = us_desk u \<and> ro_name r = us_label u \<and> ro_ever r" by auto
  next
    assume "ordinary u"
    with s show "us_role u \<noteq> None" by (simp add: seated_def role_fits_def)
  qed
  moreover have "at_work R' L u"
    unfolding at_work_def
  proof (intro impI)
    assume "us_active u \<and> ordinary u"
    with s obtain i r where r: "us_role u = Some i" "R i = Some r" "ro_active r" and w: "worksAt (us_desk u) (us_loc u) (L (us_loc u))"
      by (auto simp: seated_def at_work_def)
    with le obtain r' where "R' i = Some r'" "ro_active r'" unfolding role_le_def by blast
    with r w show "(\<exists>i r. us_role u = Some i \<and> R' i = Some r \<and> ro_active r) \<and> worksAt (us_desk u) (us_loc u) (L (us_loc u))"
      by auto
  qed
  ultimately show ?thesis using s by (simp add: seated_def)
qed

lemma role_le_refl [simp]: "role_le R R"
  by (simp add: role_le_def)

lemma role_le_mark: "role_le (map_of (hp_roles s)) (map_of (hp_roles (markAssigned i s)))"
  by (auto simp: role_le_def markAssigned_def update_role_def)

lemma markAssigned_sel [simp]: "hp_accounts (markAssigned i s) = hp_accounts s" "hp_db (markAssigned i s) = hp_db s"
  "hp_house (markAssigned i s) = hp_house s" "hp_tokens (markAssigned i s) = hp_tokens s" "hp_shifts (markAssigned i s) = hp_shifts s"
  by (simp_all add: markAssigned_def update_role_def hp_db_def)

lemma revokeAll_sel [simp]: "hp_accounts (revokeAll i t s) = hp_accounts s" "hp_roles (revokeAll i t s) = hp_roles s"
  "hp_db (revokeAll i t s) = hp_db s" "hp_house (revokeAll i t s) = hp_house s" "hp_shifts (revokeAll i t s) = hp_shifts s"
  by (simp_all add: revokeAll_def hp_db_def)

lemma update_account_sel [simp]: "hp_roles (update_account i f s) = hp_roles s" "hp_db (update_account i f s) = hp_db s"
  "hp_house (update_account i f s) = hp_house s" "hp_tokens (update_account i f s) = hp_tokens s"
  "hp_shifts (update_account i f s) = hp_shifts s"
  by (simp_all add: update_account_def hp_db_def)

lemma logAction_sel [simp]: "hp_accounts (logAction a b c d s) = hp_accounts s" "hp_roles (logAction a b c d s) = hp_roles s"
  "hp_db (logAction a b c d s) = hp_db s" "hp_house (logAction a b c d s) = hp_house s"
  "hp_tokens (logAction a b c d s) = hp_tokens s" "hp_shifts (logAction a b c d s) = hp_shifts s"
  "hp_support (logAction a b c d s) = hp_support s" "hp_places (logAction a b c d s) = hp_places s"
  by (simp_all add: logAction_def hp_db_def)

lemma all_seated_trails [simp]: "all_seated (revokeAll i t s) = all_seated s" "all_seated (logAction a b c d s) = all_seated s"
  "all_seated (announce ch s) = all_seated s"
  by (simp_all add: all_seated_def)

lemma all_seated_mark [intro]: "all_seated s \<Longrightarrow> all_seated (markAssigned i s)"
  using seated_roles [OF _ role_le_mark] by (auto simp: all_seated_def)

text \<open>One account changes, and stays seated.\<close>

lemma all_seated_update:
  assumes "all_seated s" "\<And>u. (i, u) \<in> set (hp_accounts s) \<Longrightarrow> seated (map_of (hp_roles s)) (map_of (db_locations (hp_db s))) u
      \<Longrightarrow> seated (map_of (hp_roles s)) (map_of (db_locations (hp_db s))) (f u)"
  shows "all_seated (update_account i f s)"
proof (rule all_seatedI)
  show "distinct (map fst (hp_accounts (update_account i f s)))" using assms(1) by (simp add: all_seated_def update_account_def)
  fix j u assume "(j, u) \<in> set (hp_accounts (update_account i f s))"
  then obtain v where "(j, v) \<in> set (hp_accounts s)" "u = (if j = i then f v else v)" by (auto simp: in_accounts_update)
  with seatedD [OF assms(1)] assms(2) show "seated (map_of (hp_roles (update_account i f s)))
      (map_of (db_locations (hp_db (update_account i f s)))) u" by (cases "j = i") auto
qed

lemma find_in: "find P xs = Some x \<Longrightarrow> x \<in> set xs \<and> P x"
  by (induction xs) (auto split: if_splits)

lemma byEmp_in: "byEmp s emp = Inr (i, u) \<Longrightarrow> (i, u) \<in> set (hp_accounts s) \<and> \<not> us_system u \<and> us_emp u = emp"
  by (auto simp: byEmp_def dest: find_in)

lemma same_account: "all_seated s \<Longrightarrow> (i, u) \<in> set (hp_accounts s) \<Longrightarrow> (i, v) \<in> set (hp_accounts s) \<Longrightarrow> u = v"
  by (simp add: all_seated_def) (metis Some_eq_map_of_iff option.inject)

lemma checkPairing_None: "checkPairing s desk name loc = None \<longleftrightarrow> worksAt desk loc (map_of (db_locations (hp_db s)) loc)"
  by (auto simp: checkPairing_def lockLocation_def worksAt_def split: option.splits)

lemma takeRole_Inr: "takeRole s (PickId i) = Inr r \<Longrightarrow> fst r = i \<and> map_of (hp_roles s) i = Some (snd r) \<and> ro_active (snd r)"
  by (auto simp: takeRole_def role_of_def split: if_splits)

section \<open>Accounts\<close>

lemma seated_give:
  assumes "map_of (hp_roles s) i = Some r" "ro_active r" "ro_ever r" "worksAt (ro_desk r) loc (L loc)" "loc \<in> set (us_posts u)"
  shows "seated (map_of (hp_roles s)) L (give_role (i, r) loc u)"
  using assms by (simp add: seated_def role_fits_def at_work_def give_role_def)

lemma user_number_user [simp]: "user_number (''u'' @ nat_str n) = n"
proof -
  have "list_all is_digit (nat_str n)" "nat_str n \<noteq> []" by (simp_all add: list_all_iff nat_str_digits)
  then show ?thesis by (simp add: user_number_def digits_after_def)
qed

lemma createUser_seated:
  assumes "createUserTx (PickId ri) b pw hs s = Inr ((i, emp), s')" "all_seated s"
  shows "all_seated s'"
proof -
  obtain n s0 where al: "allocateUserNumber s = (n, s0)" by (metis prod.collapse)
  obtain r s1 where r: "takeRole s (PickId ri) = Inr r" and p: "checkPairing s (ro_desk (snd r)) (ro_name (snd r)) (nu_loc b) = None"
    and ins: "insertAccount i (nu_name b) (account_for b emp r n hs) s0 = Inr s1"
    and s': "s' = markAssigned (fst r) s1"
    using assms(1) by (auto simp: createUserTx_def al Let_def split: if_splits)
  let ?u = "account_for b emp r n hs"
  have fields: "hp_accounts s1 = hp_accounts s @ [(i, ?u)]" "map_of (hp_accounts s) i = None" "hp_roles s1 = hp_roles s"
    "db_locations (hp_db s1) = db_locations (hp_db s)"
    using ins al by (auto simp: insertAccount_def allocateUserNumber_def Let_def on_house_def hp_db_def)
  note t = takeRole_Inr [OF r]
  have R: "map_of (hp_roles s') (fst r) = Some ((snd r)\<lparr>ro_ever := True\<rparr>)"
    by (simp add: s' fields markAssigned_def update_role_def t)
  have loc: "db_locations (hp_db s') = db_locations (hp_db s)" by (simp add: s' fields)
  show ?thesis
  proof (rule all_seatedI)
    show "distinct (map fst (hp_accounts s'))" using assms(2) fields
      by (simp add: s' all_seated_def map_of_eq_None_iff)
    fix j u assume "(j, u) \<in> set (hp_accounts s')"
    then consider (old) "(j, u) \<in> set (hp_accounts s)" | (new) "u = ?u" using fields by (auto simp: s')
    then show "seated (map_of (hp_roles s')) (map_of (db_locations (hp_db s'))) u"
    proof cases
      case old
      then have "seated (map_of (hp_roles s1)) (map_of (db_locations (hp_db s))) u"
        using seatedD [OF assms(2) old] by (simp add: fields)
      from seated_roles [OF this role_le_mark [of s1 "fst r"]] show ?thesis by (simp add: s' fields)
    next
      case new
      with R t p show ?thesis
        by (auto simp: seated_def role_fits_def at_work_def account_for_def ordinary_def checkPairing_None loc)
    qed
  qed
qed

lemma seated_reset: "seated R L u \<Longrightarrow> seated R L (u\<lparr>us_hash := h, us_mustChange := b\<rparr>)"
  by (auto simp: seated_def role_fits_def at_work_def ordinary_def)

lemma seated_off: "seated R L u \<Longrightarrow> seated R L (u\<lparr>us_active := False\<rparr>)"
  by (auto simp: seated_def role_fits_def at_work_def ordinary_def)

lemma resetPassword_seated: "resetPasswordTx emp pw hs t s = Inr s' \<Longrightarrow> all_seated s \<Longrightarrow> all_seated s'"
  by (auto simp: resetPasswordTx_def intro!: all_seated_update seated_reset)

lemma deactivateUser_seated: "deactivateUserTx emp t s = Inr s' \<Longrightarrow> all_seated s \<Longrightarrow> all_seated s'"
  by (auto simp: deactivateUserTx_def intro!: all_seated_update seated_off)

lemma reactivateUser_seated:
  assumes "reactivateUserTx emp s = Inr s'" "all_seated s"
  shows "all_seated s'"
proof -
  obtain i u where u: "byEmp s emp = Inr (i, u)" and s': "s' = update_account i (\<lambda>u. u\<lparr>us_active := True\<rparr>) s"
    and ok: "us_admin u \<or> ((\<forall>r. Option.bind (us_role u) (role_of s) = Some r \<longrightarrow> ro_active r) \<and>
        worksAt (us_desk u) (us_loc u) (map_of (db_locations (hp_db s)) (us_loc u)))"
    using assms(1) by (auto simp: reactivateUserTx_def Let_def checkPairing_None split: if_splits option.splits)
  note i = byEmp_in [OF u]
  show ?thesis unfolding s'
  proof (rule all_seated_update [OF assms(2)])
    fix v assume v: "(i, v) \<in> set (hp_accounts s)" "seated (map_of (hp_roles s)) (map_of (db_locations (hp_db s))) v"
    have "v = u" using same_account [OF assms(2) v(1)] i by blast
    with v(2) ok show "seated (map_of (hp_roles s)) (map_of (db_locations (hp_db s))) (v\<lparr>us_active := True\<rparr>)"
      by (auto simp: seated_def role_fits_def at_work_def ordinary_def role_of_def)
  qed
qed

lemma markAssigned_ever: "map_of (hp_roles s) i = Some r \<Longrightarrow> map_of (hp_roles (markAssigned i s)) i = Some (r\<lparr>ro_ever := True\<rparr>)"
  by (simp add: markAssigned_def update_role_def)

text \<open>Moving somebody: the role is marked, the account is given it, and its postings follow when the place does.\<close>

lemma mark_commutes: "update_account i f (markAssigned j s) = markAssigned j (update_account i f s)"
  by (simp add: update_account_def markAssigned_def update_role_def)

lemma all_seated_moved:
  assumes "all_seated s"
    and "\<And>u. (i, u) \<in> set (hp_accounts s) \<Longrightarrow>
      seated (map_of (hp_roles (markAssigned j s))) (map_of (db_locations (hp_db s))) (f u)"
  shows "all_seated (markAssigned j (update_account i f s))"
  unfolding mark_commutes [symmetric]
proof (rule all_seated_update)
  show "all_seated (markAssigned j s)" using assms(1) by (rule all_seated_mark)
qed (use assms(2) in simp)

lemma update_account_twice: "update_account i g (markAssigned j (update_account i f s)) = markAssigned j (update_account i (g \<circ> f) s)"
  by (simp add: update_account_def markAssigned_def update_role_def update_row_def case_prod_beta o_def if_distrib cong: if_cong)

lemma updateUserRoleLoc_seated:
  assumes "updateUserRoleLocTx emp (PickId ri) loc t s = Inr s'" "all_seated s"
  shows "all_seated s'"
proof -
  obtain r i u where r: "takeRole s (PickId ri) = Inr r" and p: "checkPairing s (ro_desk (snd r)) (ro_name (snd r)) loc = None"
    and u: "byEmp s emp = Inr (i, u)"
    and s': "s' = (let s1 = markAssigned (fst r) (update_account i (give_role r loc) s) in
       if ro_desk (snd r) = us_desk u \<and> loc = us_loc u then s1
       else revokeAll i t (update_account i (\<lambda>u. u\<lparr>us_posts := [loc]\<rparr>) s1))"
    using assms(1) by (auto simp: updateUserRoleLocTx_def Let_def)
  note k = takeRole_Inr [OF r] and i = byEmp_in [OF u]
  have work: "worksAt (ro_desk (snd r)) loc (map_of (db_locations (hp_db s)) loc)" using p by (simp add: checkPairing_None)
  have given: "seated (map_of (hp_roles (markAssigned (fst r) s))) (map_of (db_locations (hp_db s))) (give_role r loc v)"
    if "loc \<in> set (us_posts v)" for v
    using that k work markAssigned_ever [of s "fst r" "snd r"]
    by (auto simp: seated_def role_fits_def at_work_def give_role_def)
  show ?thesis
  proof (cases "ro_desk (snd r) = us_desk u \<and> loc = us_loc u")
    case True
    have "all_seated (markAssigned (fst r) (update_account i (give_role r loc) s))"
    proof (rule all_seated_moved [OF assms(2)])
      fix v assume v: "(i, v) \<in> set (hp_accounts s)"
      then have "v = u" using same_account [OF assms(2) v] i by blast
      with True seatedD [OF assms(2) v] have "loc \<in> set (us_posts v)" by (simp add: seated_def)
      then show "seated (map_of (hp_roles (markAssigned (fst r) s))) (map_of (db_locations (hp_db s))) (give_role r loc v)" by (rule given)
    qed
    then show ?thesis unfolding s' Let_def if_P [OF True] by simp
  next
    case False
    have "all_seated (markAssigned (fst r) (update_account i ((\<lambda>u. u\<lparr>us_posts := [loc]\<rparr>) \<circ> give_role r loc) s))"
    proof (rule all_seated_moved [OF assms(2)])
      fix v assume "(i, v) \<in> set (hp_accounts s)"
      have "give_role r loc (v\<lparr>us_posts := [loc]\<rparr>) = (give_role r loc v)\<lparr>us_posts := [loc]\<rparr>" by (simp add: give_role_def)
      with given [of "v\<lparr>us_posts := [loc]\<rparr>"]
      show "seated (map_of (hp_roles (markAssigned (fst r) s))) (map_of (db_locations (hp_db s)))
        (((\<lambda>u. u\<lparr>us_posts := [loc]\<rparr>) \<circ> give_role r loc) v)" by simp
    qed
    then show ?thesis unfolding s' Let_def if_not_P [OF False] update_account_twice by simp
  qed
qed

lemma setPostings_seated:
  assumes "setUserPostingsTx emp locs t s = Inr s'" "all_seated s"
  shows "all_seated s'"
proof -
  obtain i u where u: "byEmp s emp = Inr (i, u)" and home: "us_loc u \<in> set (sort (uniq locs))"
    and s': "s' = revokeAll i t (update_account i (\<lambda>u. u\<lparr>us_posts := sort (uniq locs)\<rparr>) s)"
    using assms(1) by (auto simp: setUserPostingsTx_def Let_def split: if_splits)
  have "all_seated (update_account i (\<lambda>u. u\<lparr>us_posts := sort (uniq locs)\<rparr>) s)"
  proof (rule all_seated_update [OF assms(2)])
    fix v assume v: "(i, v) \<in> set (hp_accounts s)" "seated (map_of (hp_roles s)) (map_of (db_locations (hp_db s))) v"
    have "v = u" using same_account [OF assms(2) v(1)] byEmp_in [OF u] by blast
    with v(2) home show "seated (map_of (hp_roles s)) (map_of (db_locations (hp_db s))) (v\<lparr>us_posts := sort (uniq locs)\<rparr>)"
      by (auto simp: seated_def role_fits_def at_work_def ordinary_def)
  qed
  then show ?thesis by (simp add: s')
qed

lemma deleteUser_seated:
  assumes "deleteUserTx e i u s = Inr s'" "all_seated s"
  shows "all_seated s'"
  using assms by (auto simp: deleteUserTx_def all_seated_def on_house_def hp_db_def on_db_def distinct_map_filter split: if_splits)

section \<open>The account page\<close>

lemmas account_pages = createAccount_tx_def resetAccount_tx_def deactivateAccount_tx_def reactivateAccount_tx_def
  updateRoleLoc_tx_def setPostings_tx_def removeAccount_tx_def

lemma account_pages_seated:
  "createAccount_tx c r b pw hs s = Inr s' \<Longrightarrow> all_seated s \<Longrightarrow> all_seated s'"
  "resetAccount_tx c i pw hs t s = Inr s' \<Longrightarrow> all_seated s \<Longrightarrow> all_seated s'"
  "deactivateAccount_tx c i t s = Inr s' \<Longrightarrow> all_seated s \<Longrightarrow> all_seated s'"
  "reactivateAccount_tx c i s = Inr s' \<Longrightarrow> all_seated s \<Longrightarrow> all_seated s'"
  "updateRoleLoc_tx c i r l t s = Inr s' \<Longrightarrow> all_seated s \<Longrightarrow> all_seated s'"
  "setPostings_tx c i ls t s = Inr s' \<Longrightarrow> all_seated s \<Longrightarrow> all_seated s'"
  "removeAccount_tx e c i s = Inr s' \<Longrightarrow> all_seated s \<Longrightarrow> all_seated s'"
proof -
  show "createAccount_tx c r b pw hs s = Inr s' \<Longrightarrow> all_seated s \<Longrightarrow> all_seated s'"
    by (auto simp: createAccount_tx_def dest!: createUser_seated)
  show "resetAccount_tx c i pw hs t s = Inr s' \<Longrightarrow> all_seated s \<Longrightarrow> all_seated s'"
    by (auto simp: resetAccount_tx_def dest!: resetPassword_seated)
  show "deactivateAccount_tx c i t s = Inr s' \<Longrightarrow> all_seated s \<Longrightarrow> all_seated s'"
    by (auto simp: deactivateAccount_tx_def dest!: deactivateUser_seated)
  show "reactivateAccount_tx c i s = Inr s' \<Longrightarrow> all_seated s \<Longrightarrow> all_seated s'"
    by (auto simp: reactivateAccount_tx_def dest!: reactivateUser_seated)
  show "updateRoleLoc_tx c i r l t s = Inr s' \<Longrightarrow> all_seated s \<Longrightarrow> all_seated s'"
    by (auto simp: updateRoleLoc_tx_def dest!: updateUserRoleLoc_seated)
  show "setPostings_tx c i ls t s = Inr s' \<Longrightarrow> all_seated s \<Longrightarrow> all_seated s'"
    by (auto simp: setPostings_tx_def dest!: setPostings_seated)
  show "removeAccount_tx e c i s = Inr s' \<Longrightarrow> all_seated s \<Longrightarrow> all_seated s'"
    by (auto simp: removeAccount_tx_def dest!: deleteUser_seated)
qed

section \<open>Roles\<close>

lemma map_of_filter_key: "map_of (filter (\<lambda>r. fst r \<noteq> i) xs) j = (if j = i then None else map_of xs j)"
  by (induction xs) auto

text \<open>Whoever holds a role has been given it, so it has holders only where it says it ever had one.\<close>

lemma all_seated_roles:
  assumes "all_seated s" "hp_accounts s' = hp_accounts s" "db_locations (hp_db s') = db_locations (hp_db s)"
    and "role_le (map_of (hp_roles s)) (map_of (hp_roles s'))"
  shows "all_seated s'"
  using assms seated_roles by (fastforce simp: all_seated_def)

lemma role_le_insert:
  assumes "insertRole i r s = Inr s'"
  shows "role_le (map_of (hp_roles s)) (map_of (hp_roles s'))"
proof -
  have "map_of (hp_roles s) i = None" "hp_roles s' = hp_roles s @ [(i, r)]"
    using assms by (auto simp: insertRole_def split: if_splits)
  then show ?thesis by (auto simp: role_le_def map_add_Some_iff)
qed

lemma createRole_seated:
  assumes "createRole_tx c n d p t s = Inr s'" "all_seated s"
  shows "all_seated s'"
proof -
  obtain i s1 r s2 where id: "officeId K_role t s = Inr (i, s1)" and ins: "insertRole i r s1 = Inr s2"
    and s': "s' = announce [Sl_roles] (logAction (cl_sub c) ''role_create'' None n s2)"
    using assms(1) by (auto simp: createRole_tx_def)
  have "hp_accounts s2 = hp_accounts s1" "hp_db s2 = hp_db s1"
    using ins by (auto simp: insertRole_def hp_db_def split: if_splits)
  with officeId_sel [OF id] role_le_insert [OF ins]
  have "all_seated s2" by (intro all_seated_roles [OF assms(2)]) simp_all
  then show ?thesis by (simp add: s')
qed

lemma role_le_update:
  assumes "\<And>r. map_of R i = Some r \<Longrightarrow> ro_desk (f r) = ro_desk r \<and> ro_name (f r) = ro_name r \<and>
     (ro_active r \<longrightarrow> ro_active (f r)) \<and> (ro_ever r \<longrightarrow> ro_ever (f r))"
  shows "role_le (map_of R) (map_of (update_row R i f))"
  using assms by (auto simp: role_le_def)

lemma writeRole_sel [simp]: "hp_accounts (writeRole i f s) = hp_accounts s" "hp_db (writeRole i f s) = hp_db s"
  "hp_house (writeRole i f s) = hp_house s" "hp_tokens (writeRole i f s) = hp_tokens s" "hp_shifts (writeRole i f s) = hp_shifts s"
  "hp_roles (writeRole i f s) = update_row (hp_roles s) i (\<lambda>r. (f r)\<lparr>ro_version := ro_version r + 1\<rparr>)"
  by (simp_all add: writeRole_def update_role_def hp_db_def)

lemma reactivateRole_seated:
  assumes "reactivateRole_tx c i s = Inr s'" "all_seated s"
  shows "all_seated s'"
proof -
  have "all_seated (writeRole i (\<lambda>r. r\<lparr>ro_active := True\<rparr>) s)"
    by (rule all_seated_roles [OF assms(2)]) (simp_all del: map_of_update_row add: role_le_update)
  with assms(1) show ?thesis by (auto simp: reactivateRole_tx_def split: if_splits)
qed

text \<open>A role nobody at work holds may be switched off.\<close>

lemma role_holders_Nil: "role_holders s i = [] \<Longrightarrow> (k, u) \<in> set (hp_accounts s) \<Longrightarrow> \<not> holding i u"
proof -
  assume h: "role_holders s i = []" and u: "(k, u) \<in> set (hp_accounts s)"
  have "length (role_holders s i) = length (filter (\<lambda>(k, u). holding i u) (hp_accounts s))" by (simp add: role_holders_def)
  with h have "filter (\<lambda>(k, u). holding i u) (hp_accounts s) = []" by simp
  with u show ?thesis by (auto simp: filter_empty_conv)
qed

lemma seated_same_role:
  assumes "seated R L u" "\<And>j. us_role u = Some j \<Longrightarrow> R' j = R j"
  shows "seated R' L u"
  using assms by (cases "us_role u") (simp_all add: seated_def role_fits_def at_work_def)

lemma seated_role_off:
  assumes "seated R L u" "\<not> holding i u"
    and f: "\<And>r. ro_desk (f r) = ro_desk r \<and> ro_name (f r) = ro_name r \<and> ro_ever (f r) = ro_ever r"
  shows "seated (R(i := map_option (\<lambda>r. (f r)\<lparr>ro_active := False, ro_version := v r\<rparr>) (R i))) L u"
proof (cases "us_role u = Some i")
  case True
  with assms obtain r where "R i = Some r" "ro_desk r = us_desk u" "ro_name r = us_label u" "ro_ever r"
    by (auto simp: seated_def role_fits_def)
  moreover have "\<not> (us_active u \<and> ordinary u)" using True assms(2) by (auto simp: holding_def ordinary_def)
  ultimately show ?thesis using True assms(1) f by (simp add: seated_def role_fits_def at_work_def)
qed (auto intro: seated_same_role [OF assms(1)])

lemma deactivateRole_seated:
  assumes "deactivateRole_tx c i s = Inr s'" "all_seated s"
  shows "all_seated s'"
proof -
  have none: "role_holders s i = []"
    and s': "s' = announce [Sl_roles] (logAction (cl_sub c) ''role_deactivate'' None (ro_name (the (role_of s i)))
       (writeRole i (\<lambda>r. r\<lparr>ro_active := False\<rparr>) s))"
    using assms(1) by (auto simp: deactivateRole_tx_def Let_def split: if_splits)
  let ?s = "writeRole i (\<lambda>r. r\<lparr>ro_active := False\<rparr>) s"
  have roles: "map_of (hp_roles ?s) = (map_of (hp_roles s))(i := map_option
      (\<lambda>r. r\<lparr>ro_active := False, ro_version := ro_version r + 1\<rparr>) (map_of (hp_roles s) i))"
    by (rule ext) simp
  have same: "hp_accounts ?s = hp_accounts s" "hp_db ?s = hp_db s" by simp_all
  have "all_seated ?s"
  proof (rule all_seatedI)
    show "distinct (map fst (hp_accounts ?s))" using assms(2) same by (simp add: all_seated_def)
    fix k u assume u: "(k, u) \<in> set (hp_accounts ?s)"
    then have u: "(k, u) \<in> set (hp_accounts s)" by (simp add: same)
    have "\<not> holding i u" using role_holders_Nil [OF none u] .
    with seatedD [OF assms(2) u] show "seated (map_of (hp_roles ?s)) (map_of (db_locations (hp_db ?s))) u"
      unfolding roles same by (rule seated_role_off) simp
  qed
  then show ?thesis by (simp add: s')
qed

lemma removeRole_seated:
  assumes "removeRole_tx c i s = Inr s'" "all_seated s"
  shows "all_seated s'"
proof -
  define s1 where "s1 = s\<lparr>hp_roles := filter (\<lambda>r. fst r \<noteq> i) (hp_roles s)\<rparr>"
  have free: "\<not> role_referenced s i"
    and s': "s' = announce [Sl_roles] (logAction (cl_sub c) ''role_delete'' None (ro_name (the (role_of s i))) s1)"
    using assms(1) by (auto simp: removeRole_tx_def s1_def split: if_splits)
  have roles: "map_of (hp_roles s1) j = (if j = i then None else map_of (hp_roles s) j)" for j
    unfolding s1_def by (simp add: map_of_filter_key)
  have same: "hp_accounts s1 = hp_accounts s" "hp_db s1 = hp_db s" by (simp_all add: s1_def hp_db_def)
  have "all_seated s1"
  proof (rule all_seatedI)
    show "distinct (map fst (hp_accounts s1))" using assms(2) same by (simp add: all_seated_def)
    fix k u assume "(k, u) \<in> set (hp_accounts s1)"
    then have u: "(k, u) \<in> set (hp_accounts s)" by (simp add: same)
    then have ne: "us_role u \<noteq> Some i" using free by (auto simp: role_referenced_def list_ex_iff)
    show "seated (map_of (hp_roles s1)) (map_of (db_locations (hp_db s1))) u"
      unfolding same by (rule seated_same_role [OF seatedD [OF assms(2) u]]) (use ne in \<open>auto simp: roles\<close>)
  qed
  then show ?thesis by (simp add: s')
qed

text \<open>A rename carries to every account on the role; the desk moves only while nobody ever held it.\<close>

lemma updateRole_seated:
  assumes "updateRole_tx c i n d p s = Inr s'" "all_seated s"
  shows "all_seated s'"
proof -
  obtain row where row: "map_of (hp_roles s) i = Some row" using assms(1) by (auto simp: updateRole_tx_def role_of_def)
  define name where "name = (case n of Some x \<Rightarrow> x | None \<Rightarrow> ro_name row)"
  define desk where "desk = (case d of Some x \<Rightarrow> x | None \<Rightarrow> ro_desk row)"
  define perms where "perms = (case p of Some x \<Rightarrow> x | None \<Rightarrow> ro_perms row)"
  define s1 where "s1 = writeRole i (\<lambda>r. r\<lparr>ro_name := name, ro_desk := desk, ro_perms := perms\<rparr>) s"
  define s2 where "s2 = (if name \<noteq> ro_name row then relabel i name s1 else s1)"
  have desk: "desk \<noteq> ro_desk row \<longrightarrow> \<not> role_referenced s i"
    and s': "s' = announce [Sl_roles] (logAction (cl_sub c) ''role_update'' None name s2)"
    using assms(1) row unfolding updateRole_tx_def role_of_def Let_def
    by (auto simp: name_def [symmetric] desk_def [symmetric] perms_def [symmetric] s1_def [symmetric] s2_def
        split: if_splits) (simp_all add: s1_def)
  have R: "map_of (hp_roles s2) j = (if j = i then Some (row\<lparr>ro_name := name, ro_desk := desk, ro_perms := perms,
      ro_version := ro_version row + 1\<rparr>) else map_of (hp_roles s) j)" for j
    using row by (simp add: s2_def s1_def relabel_def)
  have L: "hp_db s2 = hp_db s" by (simp add: s2_def s1_def relabel_def hp_db_def)
  have A: "hp_accounts s2 = map (\<lambda>(k, u). (k, if us_role u = Some i \<and> name \<noteq> ro_name row then u\<lparr>us_label := name\<rparr> else u)) (hp_accounts s)"
    by (auto simp: s2_def s1_def relabel_def intro: map_idI [symmetric])
  have "all_seated s2"
  proof (rule all_seatedI)
    have "map fst (hp_accounts s2) = map fst (hp_accounts s)" by (simp add: A case_prod_beta o_def)
    then show "distinct (map fst (hp_accounts s2))" using assms(2) by (simp add: all_seated_def)
    fix k u assume "(k, u) \<in> set (hp_accounts s2)"
    then obtain v where v: "(k, v) \<in> set (hp_accounts s)"
      and u: "u = (if us_role v = Some i \<and> name \<noteq> ro_name row then v\<lparr>us_label := name\<rparr> else v)"
      by (auto simp: A)
    note sv = seatedD [OF assms(2) v]
    show "seated (map_of (hp_roles s2)) (map_of (db_locations (hp_db s2))) u"
    proof (cases "us_role v = Some i")
      case True
      with v have "role_referenced s i" unfolding role_referenced_def list_ex_iff by (intro bexI [of _ "(k, v)"]) simp_all
      with desk have "desk = ro_desk row" by blast
      with True u sv row show ?thesis
        by (cases "name = ro_name row") (simp_all add: seated_def role_fits_def at_work_def ordinary_def R L)
    next
      case False
      with u have uv: "u = v" by simp
      show ?thesis unfolding L uv by (rule seated_same_role [OF sv]) (use False in \<open>auto simp: R\<close>)
    qed
  qed
  then show ?thesis by (simp add: s')
qed

section \<open>Outlets\<close>

lemma on_locations_sel [simp]: "hp_accounts (on_locations f s) = hp_accounts s" "hp_roles (on_locations f s) = hp_roles s"
  "db_locations (hp_db (on_locations f s)) = f (db_locations (hp_db s))"
  by (simp_all add: on_locations_def on_house_def on_db_def hp_db_def)

lemma all_seated_places:
  assumes "all_seated s" "hp_accounts s' = hp_accounts s" "hp_roles s' = hp_roles s"
    and "\<And>k u. (k, u) \<in> set (hp_accounts s) \<Longrightarrow> us_active u \<Longrightarrow> ordinary u \<Longrightarrow>
      worksAt (us_desk u) (us_loc u) (map_of (db_locations (hp_db s)) (us_loc u)) \<Longrightarrow>
      worksAt (us_desk u) (us_loc u) (map_of (db_locations (hp_db s')) (us_loc u))"
  shows "all_seated s'"
proof (rule all_seatedI)
  show "distinct (map fst (hp_accounts s'))" using assms(1,2) by (simp add: all_seated_def)
  fix k u assume "(k, u) \<in> set (hp_accounts s')"
  then have u: "(k, u) \<in> set (hp_accounts s)" by (simp add: assms(2))
  from seatedD [OF assms(1) this] assms(4) [OF u] show "seated (map_of (hp_roles s')) (map_of (db_locations (hp_db s'))) u"
    unfolding seated_def at_work_def assms(3) by blast
qed

lemma worksAt_row: "worksAt desk k (Some l) \<Longrightarrow> loc_type l' = loc_type l \<Longrightarrow> (loc_active l \<Longrightarrow> loc_active l') \<Longrightarrow> worksAt desk k (Some l')"
  by (auto simp: worksAt_def split: if_splits)

lemma openOutlet_seated:
  assumes "openOutlet_tx c b s = Inr s'" "all_seated s"
  shows "all_seated s'"
proof -
  obtain k l where new: "map_of (db_locations (hp_db s)) k = None"
    and s': "hp_accounts s' = hp_accounts s" "hp_roles s' = hp_roles s" "db_locations (hp_db s') = db_locations (hp_db s) @ [(k, l)]"
    using assms(1) by (auto simp: openOutlet_tx_def)
  show ?thesis
  proof (rule all_seated_places [OF assms(2) s'(1,2)])
    fix j u assume w: "worksAt (us_desk u) (us_loc u) (map_of (db_locations (hp_db s)) (us_loc u))"
    then obtain x where "map_of (db_locations (hp_db s)) (us_loc u) = Some x" by (auto simp: worksAt_def split: option.splits)
    with w show "worksAt (us_desk u) (us_loc u) (map_of (db_locations (hp_db s')) (us_loc u))"
      by (simp add: s'(3) map_add_Some_iff map_add_def)
  qed
qed

lemma all_seated_rows:
  assumes "all_seated s" "hp_accounts s' = hp_accounts s" "hp_roles s' = hp_roles s"
    "db_locations (hp_db s') = update_row (db_locations (hp_db s)) k f"
    "\<And>l. loc_type (f l) = loc_type l \<and> (loc_active l \<longrightarrow> loc_active (f l))"
  shows "all_seated s'"
proof (rule all_seated_places [OF assms(1-3)])
  fix j u assume w: "worksAt (us_desk u) (us_loc u) (map_of (db_locations (hp_db s)) (us_loc u))"
  then obtain x where x: "map_of (db_locations (hp_db s)) (us_loc u) = Some x" by (auto simp: worksAt_def split: option.splits)
  show "worksAt (us_desk u) (us_loc u) (map_of (db_locations (hp_db s')) (us_loc u))"
    using w x assms(5) [of x] by (cases "us_loc u = k") (auto simp: assms(4) elim: worksAt_row)
qed

lemma hp_db_places [simp]: "hp_db (s\<lparr>hp_places := p\<rparr>) = hp_db s"
  by (simp add: hp_db_def)

lemma updateOutlet_seated:
  assumes "updateOutlet_tx c k b s = Inr s'" "all_seated s"
  shows "all_seated s'"
proof -
  obtain n where "hp_accounts s' = hp_accounts s" "hp_roles s' = hp_roles s"
    "db_locations (hp_db s') = update_row (db_locations (hp_db s)) k (\<lambda>l. l\<lparr>loc_n := n\<rparr>)"
    using assms(1) by (auto simp: updateOutlet_tx_def Let_def split: if_splits)
  then show ?thesis by (rule all_seated_rows [OF assms(2)]) simp
qed

lemma reopenOutlet_seated:
  assumes "reopenOutlet_tx c k s = Inr s'" "all_seated s"
  shows "all_seated s'"
proof -
  have "hp_accounts s' = hp_accounts s" "hp_roles s' = hp_roles s"
    "db_locations (hp_db s') = update_row (db_locations (hp_db s)) k (\<lambda>l. l\<lparr>loc_active := True\<rparr>)"
    using assms(1) by (auto simp: reopenOutlet_tx_def switch_outlet_def split: if_splits)
  then show ?thesis by (rule all_seated_rows [OF assms(2)]) simp
qed

text \<open>An outlet closes when nobody at work calls it home.\<close>

lemma closed_clear:
  assumes "closeRefusal n (closeBlockers s k) = None"
  shows "staffAt s k = []"
  using assms by (auto simp: closeRefusal_def close_parts_def closeBlockers_def Let_def split: if_splits)

lemma staffAt_Nil: "staffAt s k = [] \<Longrightarrow> (j, u) \<in> set (hp_accounts s) \<Longrightarrow> us_loc u = k \<Longrightarrow> us_active u \<Longrightarrow> us_admin u"
proof -
  assume h: "staffAt s k = []" and u: "(j, u) \<in> set (hp_accounts s)" "us_loc u = k" "us_active u"
  have "length (staffAt s k) = length (filter (\<lambda>u. us_loc (snd u) = k \<and> us_active (snd u) \<and> \<not> us_admin (snd u)) (hp_accounts s))"
    unfolding staffAt_def by simp
  with h have "filter (\<lambda>u. us_loc (snd u) = k \<and> us_active (snd u) \<and> \<not> us_admin (snd u)) (hp_accounts s) = []" by simp
  with u show "us_admin u" by (auto simp: filter_empty_conv)
qed

lemma closeOutlet_seated:
  assumes "closeOutlet_tx c k s = Inr s'" "all_seated s"
  shows "all_seated s'"
proof -
  obtain row where row: "requireOutlet s k = Inr row" using assms(1) by (auto simp: closeOutlet_tx_def)
  have none: "closeRefusal (loc_n row) (closeBlockers s k) = None"
    and s': "s' = announce [Sl_outlets, Sl_locations] (logAction (cl_sub c) ''outlet_close'' None (loc_n row) (switch_outlet k False s))"
    using assms(1) row by (auto simp: closeOutlet_tx_def split: if_splits option.splits)
  show ?thesis
  proof (rule all_seated_places [OF assms(2)])
    show "hp_accounts s' = hp_accounts s" "hp_roles s' = hp_roles s" by (simp_all add: s' switch_outlet_def)
    fix j u assume u: "(j, u) \<in> set (hp_accounts s)" "us_active u" "ordinary u"
      and w: "worksAt (us_desk u) (us_loc u) (map_of (db_locations (hp_db s)) (us_loc u))"
    have "us_loc u \<noteq> k" using staffAt_Nil [OF closed_clear [OF none] u(1)] u by (auto simp: ordinary_def)
    with w show "worksAt (us_desk u) (us_loc u) (map_of (db_locations (hp_db s')) (us_loc u))"
      by (simp add: s' switch_outlet_def)
  qed
qed

section \<open>The desks that leave them alone\<close>

definition same_seats :: "hospital \<Rightarrow> hospital \<Rightarrow> bool" where
  "same_seats s s' \<longleftrightarrow> hp_accounts s' = hp_accounts s \<and> hp_roles s' = hp_roles s \<and> db_locations (hp_db s') = db_locations (hp_db s)"

lemma same_seats_seated: "same_seats s s' \<Longrightarrow> all_seated s \<Longrightarrow> all_seated s'"
  by (simp add: same_seats_def all_seated_def)

lemma same_seats_steps [simp]: "same_seats s s" "same_seats s (announce ch s') = same_seats s s'"
  "same_seats s (logAction a b c d s') = same_seats s s'" "same_seats s (on_support i f s') = same_seats s s'"
  "same_seats s (appendMessage i w n b t s') = same_seats s s'" "same_seats s (setSupportStatus i st s') = same_seats s s'"
  "same_seats s (s'\<lparr>hp_support := x\<rparr>) = same_seats s s'" "same_seats s (s'\<lparr>hp_wishes := y\<rparr>) = same_seats s s'"
  "same_seats s (s'\<lparr>hp_vendors := z\<rparr>) = same_seats s s'" "same_seats s (s'\<lparr>hp_shifts := w'\<rparr>) = same_seats s s'"
  "same_seats s (s'\<lparr>hp_tokens := v\<rparr>) = same_seats s s'" "same_seats s (s'\<lparr>hp_moq := u\<rparr>) = same_seats s s'"
  by (simp_all add: same_seats_def on_support_def appendMessage_def setSupportStatus_def hp_db_def)

lemma same_seats_house: "db_locations (ho_db h) = db_locations (hp_db s) \<Longrightarrow> same_seats s s' \<Longrightarrow> same_seats s (s'\<lparr>hp_house := h\<rparr>)"
  "db_locations (ho_db (f (hp_house s'))) = db_locations (hp_db s') \<Longrightarrow> same_seats s s' \<Longrightarrow> same_seats s (on_house f s')"
  by (auto simp: same_seats_def on_house_def hp_db_def)

lemma officeId_seats: "officeId kd t s = Inr (i, s') \<Longrightarrow> same_seats s s'"
  by (simp add: same_seats_def officeId_sel)

lemma payers_seats:
  "createPayer_tx c kd i n s = Inr s' \<Longrightarrow> same_seats s s'"
  "updatePayer_tx c kd i n' act s = Inr s' \<Longrightarrow> same_seats s s'"
  by (auto simp: createPayer_tx_def updatePayer_tx_def Let_def hp_db_def split: option.splits if_splits intro!: same_seats_house)

lemma toggle_seats: "toggle_tx a k it s = Inr s' \<Longrightarrow> same_seats s s'"
  by (auto simp: toggle_tx_def Let_def on_db_def hp_db_def intro!: same_seats_house)

lemma raise_seats: "raiseSupport_tx c rb t s = Inr s' \<Longrightarrow> same_seats s s'"
  by (auto simp: raiseSupport_tx_def Let_def dest: officeId_seats)

lemma support_seats:
  "replySupport_tx c i body t s = Inr s' \<Longrightarrow> same_seats s s'"
  "setSupport_tx c i st s = Inr s' \<Longrightarrow> same_seats s s'"
  "rate_tx c i n s = Inr s' \<Longrightarrow> same_seats s s'"
  "deskReply_tx c i body st' t s = Inr s' \<Longrightarrow> same_seats s s'"
  "deskStatus_tx i st s = Inr s' \<Longrightarrow> same_seats s s'"
  by (auto simp: replySupport_tx_def setSupport_tx_def rate_tx_def deskReply_tx_def deskStatus_tx_def Let_def split: if_splits)

lemma wish_seats:
  "askProduct_tx a n w l t s = Inr s' \<Longrightarrow> same_seats s s'"
  "answerProduct_tx i ans n s = Inr s' \<Longrightarrow> same_seats s s'"
  by (auto simp: askProduct_tx_def answerProduct_tx_def dest: officeId_seats)

lemma vendor_seats:
  "createVendor_tx vb t s = Inr s' \<Longrightarrow> same_seats s s'"
  "patchVendor_tx i vp s = Inr s' \<Longrightarrow> same_seats s s'"
  by (auto simp: createVendor_tx_def patchVendor_tx_def Let_def write_vendor_def hp_db_def intro!: same_seats_house) (erule officeId_seats)+

lemma contract_seats:
  "createContract_tx cb t s = Inr s' \<Longrightarrow> same_seats s s'"
  "removeContract_tx i s = Inr s' \<Longrightarrow> same_seats s s'"
  by (auto simp: createContract_tx_def removeContract_tx_def Let_def hp_db_def intro!: same_seats_house) (erule officeId_seats)+

lemma patchContract_seats: "patchContract_tx c i cp s = Inr s' \<Longrightarrow> same_seats s s'"
  by (auto simp: patchContract_tx_def Let_def hp_db_def logRateChange_def split: if_splits intro!: same_seats_house)

lemma shift_seats:
  "closeShift_tx c t s = Inr s' \<Longrightarrow> same_seats s s'" "startShift u l t s = Inr s' \<Longrightarrow> same_seats s s'"
  by (simp_all add: same_seats_def hp_db_def closeShift_frame startShift_frame [unfolded hp_db_def])

section \<open>Every desk, the sign-in, a run\<close>

lemma desk_seated: "desk_tx op t s = Inr s' \<Longrightarrow> all_seated s \<Longrightarrow> all_seated s'"
proof (cases op)
qed (auto intro: createRole_seated updateRole_seated deactivateRole_seated reactivateRole_seated removeRole_seated
    account_pages_seated openOutlet_seated updateOutlet_seated closeOutlet_seated reopenOutlet_seated
    dest!: payers_seats toggle_seats raise_seats support_seats wish_seats vendor_seats contract_seats patchContract_seats
      shift_seats dest: same_seats_seated)

lemma issue_seats: "issue cfg i u f h st l now s = Inr (x, s') \<Longrightarrow> same_seats s s'"
  by (auto simp: issue_def Let_def insertRefresh_def split: if_splits)

lemma revoke_seats [simp]: "same_seats s (revokeFamily f now s') = same_seats s s'" "same_seats s (markUsed t now s') = same_seats s s'"
  "same_seats s (purge now s') = same_seats s s'"
  by (simp_all add: revokeFamily_def markUsed_def purge_def)

lemma same_seats_trans: "same_seats s s1 \<Longrightarrow> same_seats s1 s2 \<Longrightarrow> same_seats s s2"
  by (simp add: same_seats_def)

lemma login_seats: "login cfg verify emp pw loc w now (a, s) = (out, a', s') \<Longrightarrow> same_seats s s'"
  by (auto simp: login_def login_tx_def Let_def split: if_splits option.splits sum.splits dest!: issue_seats shift_seats(2)
      intro: same_seats_trans)

lemma refresh_seats: "same_seats s (snd (refresh cfg p hs now s))"
  by (auto simp: refresh_def refresh_tx_def Let_def split: option.splits sum.splits if_splits dest!: issue_seats
      elim!: same_seats_trans [rotated])

lemma logout_seats: "same_seats s (snd (logout p now s))"
  by (auto simp: logout_def split: option.splits)

lemma changePassword_seated: "all_seated s \<Longrightarrow> all_seated (snd (changePassword cfg verify hs i cur nxt w now s))"
  by (auto simp: changePassword_def changePassword_tx_def Let_def split: option.splits sum.splits if_splits
      dest!: issue_seats intro!: all_seated_update seated_reset elim!: same_seats_seated)

lemma oexec_seated: "all_seated (snd s) \<Longrightarrow> all_seated (snd (oexec w op t s))"
proof (cases s)
  fix a h assume s: "s = (a, h)" and h: "all_seated (snd s)"
  show ?thesis
  proof (cases op)
    case (O_desk d)
    with s h show ?thesis by (auto intro: keeps_commit desk_seated)
  next
    case (O_login emp pw loc x)
    with s h show ?thesis
      by (cases "login (dr_cfg w) (dr_verify w) emp pw loc x t (a, h)") (auto dest: login_seats same_seats_seated)
  qed (use s h in \<open>auto intro: same_seats_seated [OF refresh_seats] same_seats_seated [OF logout_seats] changePassword_seated
      same_seats_seated [of h "purge t h"]\<close>)
qed

lemma beside_seated: "all_seated s \<Longrightarrow> all_seated (s\<lparr>hp_house := snd (hexec coll op (hp_house s))\<rparr>)"
  by (simp add: all_seated_def hp_db_def hexec_locations)

lemma office_seated: "office w s0 t0 s t \<Longrightarrow> all_seated (snd s0) \<Longrightarrow> all_seated (snd s)"
  by (induction rule: office.induct) (auto intro: oexec_seated dest: beside_seated)

end
