(* ===== verification/Footprint.thy ===== *)
theory Footprint
  imports Seats
begin

text \<open>
  Which tables a desk writes. The sessions, the shifts, the support tickets and the rate contracts are each kept by
  one desk or two; the lemmas say that the rest leave them as they were, so that an invariant of one table is a
  matter of the few writes that touch it.
\<close>

definition sheets :: "hospital \<Rightarrow> token list \<times> (string \<times> shiftRow) list \<times> (string \<times> supportRow) list \<times> (string \<times> contractRow) list" where
  "sheets s = (hp_tokens s, hp_shifts s, hp_support s, ho_contracts (hp_house s))"

lemma sheets_eq: "sheets s' = sheets s \<longleftrightarrow> hp_tokens s' = hp_tokens s \<and> hp_shifts s' = hp_shifts s \<and>
  hp_support s' = hp_support s \<and> ho_contracts (hp_house s') = ho_contracts (hp_house s)"
  by (simp add: sheets_def)

lemma on_db_contracts [simp]: "ho_contracts (on_db f h) = ho_contracts h"
  by (simp add: on_db_def)

lemma sheets_steps [simp]: "sheets (announce ch s) = sheets s" "sheets (logAction a b c d s) = sheets s"
  "sheets (writeRole i f s) = sheets s" "sheets (relabel i n s) = sheets s" "sheets (markAssigned i s) = sheets s"
  "sheets (update_account i g s) = sheets s" "sheets (on_locations h s) = sheets s"
  "sheets (s\<lparr>hp_places := p\<rparr>) = sheets s" "sheets (s\<lparr>hp_roles := r\<rparr>) = sheets s" "sheets (s\<lparr>hp_accounts := ac\<rparr>) = sheets s"
  "sheets (s\<lparr>hp_userSeq := n'\<rparr>) = sheets s" "sheets (s\<lparr>hp_wishes := w\<rparr>) = sheets s" "sheets (s\<lparr>hp_vendors := v\<rparr>) = sheets s"
  "sheets (s\<lparr>hp_moq := q\<rparr>) = sheets s"
  by (simp_all add: sheets_def writeRole_def update_role_def relabel_def on_locations_def on_house_def markAssigned_def
      update_account_def logAction_def)

lemma sheets_house: "ho_contracts (f (hp_house s)) = ho_contracts (hp_house s) \<Longrightarrow> sheets (on_house f s) = sheets s"
  by (simp add: sheets_def on_house_def)

lemma sheets_officeId: "officeId kd t s = Inr (i, s') \<Longrightarrow> sheets s' = sheets s"
  by (simp add: sheets_eq officeId_sel)

lemma sheets_insertRole: "insertRole i r s = Inr s' \<Longrightarrow> sheets s' = sheets s"
  by (auto simp: insertRole_def split: if_splits)

lemma sheets_insertAccount: "insertAccount i n u s = Inr s' \<Longrightarrow> sheets s' = sheets s"
  by (auto simp: insertAccount_def sheets_house)

lemma sheets_allocate: "allocateUserNumber s = (n, s') \<Longrightarrow> sheets s' = sheets s"
  by (auto simp: allocateUserNumber_def Let_def)

lemma role_sheets:
  "createRole_tx c n d p t s = Inr s' \<Longrightarrow> sheets s' = sheets s"
  "updateRole_tx c i n' d' p' s = Inr s' \<Longrightarrow> sheets s' = sheets s"
  "deactivateRole_tx c i s = Inr s' \<Longrightarrow> sheets s' = sheets s"
  "reactivateRole_tx c i s = Inr s' \<Longrightarrow> sheets s' = sheets s"
  "removeRole_tx c i s = Inr s' \<Longrightarrow> sheets s' = sheets s"
proof -
  show "createRole_tx c n d p t s = Inr s' \<Longrightarrow> sheets s' = sheets s"
    by (auto simp: createRole_tx_def dest!: sheets_officeId sheets_insertRole)
qed (auto simp: updateRole_tx_def deactivateRole_tx_def reactivateRole_tx_def removeRole_tx_def Let_def split: if_splits)

lemma createUser_sheets: "createUserTx pick b pw hs s = Inr (x, s') \<Longrightarrow> sheets s' = sheets s"
proof -
  assume c: "createUserTx pick b pw hs s = Inr (x, s')"
  obtain n s0 where al: "allocateUserNumber s = (n, s0)" by (metis prod.collapse)
  from c obtain r i nm u s1 where "insertAccount i nm u s0 = Inr s1" "s' = markAssigned r s1"
    by (auto simp: createUserTx_def al Let_def split: if_splits)
  then show "sheets s' = sheets s" using sheets_insertAccount sheets_allocate [OF al] by simp
qed

lemma account_sheets:
  "createAccount_tx c r b pw hs s = Inr s' \<Longrightarrow> sheets s' = sheets s"
  "reactivateAccount_tx c i s = Inr s' \<Longrightarrow> sheets s' = sheets s"
  by (auto simp: createAccount_tx_def reactivateAccount_tx_def reactivateUserTx_def Let_def dest!: createUser_sheets)

lemma place_sheets:
  "openOutlet_tx c b s = Inr s' \<Longrightarrow> sheets s' = sheets s"
  "updateOutlet_tx c k ob s = Inr s' \<Longrightarrow> sheets s' = sheets s"
  "closeOutlet_tx c k s = Inr s' \<Longrightarrow> sheets s' = sheets s"
  "reopenOutlet_tx c k s = Inr s' \<Longrightarrow> sheets s' = sheets s"
  by (auto simp: openOutlet_tx_def updateOutlet_tx_def closeOutlet_tx_def reopenOutlet_tx_def switch_outlet_def Let_def
      split: if_splits option.splits)

lemma master_sheets:
  "createPayer_tx c kd i n s = Inr s' \<Longrightarrow> sheets s' = sheets s"
  "updatePayer_tx c kd i n' act s = Inr s' \<Longrightarrow> sheets s' = sheets s"
  "toggle_tx a k it s = Inr s' \<Longrightarrow> sheets s' = sheets s"
  by (auto simp: createPayer_tx_def updatePayer_tx_def toggle_tx_def Let_def sheets_house split: option.splits if_splits)

lemma wish_sheets:
  "askProduct_tx a n w l t s = Inr s' \<Longrightarrow> sheets s' = sheets s"
  "answerProduct_tx i ans n s = Inr s' \<Longrightarrow> sheets s' = sheets s"
  by (auto simp: askProduct_tx_def answerProduct_tx_def dest!: sheets_officeId)

lemma vendor_sheets:
  "createVendor_tx vb t s = Inr s' \<Longrightarrow> sheets s' = sheets s"
  "patchVendor_tx i vp s = Inr s' \<Longrightarrow> sheets s' = sheets s"
  by (auto simp: createVendor_tx_def patchVendor_tx_def Let_def write_vendor_def sheets_house dest!: sheets_officeId)

lemmas quiet_sheets = role_sheets account_sheets place_sheets master_sheets wish_sheets vendor_sheets

end
