(* ===== verification/Sessions.thy ===== *)
theory Sessions
  imports Footprint
begin

text \<open>
  What a session is worth. A live token stands where its account, still active, is posted; a family has one token
  that may still be used, belongs to one account, is closed as a whole, and ends the configured days after its
  sign-in however often it is refreshed. Every write of the offices keeps this: whatever takes a posting away closes
  the account's sessions in the same transaction.
\<close>

section \<open>Families\<close>

definition akin :: "token \<Rightarrow> token \<Rightarrow> bool" where
  "akin t t' \<longleftrightarrow> tn_user t = tn_user t' \<and> tn_expires t = tn_expires t' \<and> tn_revoked t = tn_revoked t'"

definition unused :: "string \<Rightarrow> token \<Rightarrow> bool" where
  "unused f t \<longleftrightarrow> tn_family t = f \<and> tn_used t = None"

text \<open>The end of a family: the configured days after the earliest of its tokens.\<close>

definition ends_at :: "authConfig \<Rightarrow> token list \<Rightarrow> token \<Rightarrow> bool" where
  "ends_at cfg ts t \<longleftrightarrow> (\<exists>t' \<in> set ts. tn_family t' = tn_family t \<and> tn_expires t = tn_created t' + ttl cfg) \<and>
     (\<forall>t' \<in> set ts. tn_family t' = tn_family t \<longrightarrow> tn_expires t \<le> tn_created t' + ttl cfg)"

definition families_ok :: "authConfig \<Rightarrow> instant \<Rightarrow> token list \<Rightarrow> bool" where
  "families_ok cfg now ts \<longleftrightarrow> distinct (map tn_hash ts) \<and>
     (\<forall>t \<in> set ts. tn_created t \<le> now \<and> ends_at cfg ts t \<and> (\<forall>t' \<in> set ts. tn_family t' = tn_family t \<longrightarrow> akin t t')) \<and>
     (\<forall>f. length (filter (unused f) ts) \<le> 1)"

lemma families_later: "families_ok cfg now ts \<Longrightarrow> now \<le> now' \<Longrightarrow> families_ok cfg now' ts"
  by (force simp: families_ok_def)

text \<open>Closing or using tokens, family by family.\<close>

lemma families_map:
  assumes ok: "families_ok cfg now ts"
    and keep: "\<And>t. tn_hash (g t) = tn_hash t \<and> tn_family (g t) = tn_family t \<and> tn_user (g t) = tn_user t \<and>
      tn_expires (g t) = tn_expires t \<and> tn_created (g t) = tn_created t"
    and used: "\<And>t. tn_used (g t) = None \<Longrightarrow> tn_used t = None"
    and rev: "\<And>t t'. t \<in> set ts \<Longrightarrow> t' \<in> set ts \<Longrightarrow> tn_family t' = tn_family t \<Longrightarrow> akin t t' \<Longrightarrow> tn_revoked (g t) = tn_revoked (g t')"
  shows "families_ok cfg now (map g ts)"
proof -
  have k: "tn_hash (g t) = tn_hash t" "tn_family (g t) = tn_family t" "tn_user (g t) = tn_user t"
    "tn_expires (g t) = tn_expires t" "tn_created (g t) = tn_created t" for t using keep by blast+
  have "length (filter (unused f) (map g ts)) \<le> length (filter (unused f) ts)" for f
    by (rule length_filter_map) (use used in \<open>auto simp: unused_def k\<close>)
  then have "\<forall>f. length (filter (unused f) (map g ts)) \<le> 1" using ok order_trans unfolding families_ok_def by blast
  moreover have "map tn_hash (map g ts) = map tn_hash ts" by (simp add: k)
  then have "distinct (map tn_hash (map g ts))" using ok by (simp only: families_ok_def)
  moreover have "akin (g t) (g t')" if "t \<in> set ts" "t' \<in> set ts" "tn_family t' = tn_family t" for t t'
  proof -
    have "akin t t'" using ok that by (simp add: families_ok_def)
    with rev [OF that this] show ?thesis by (simp add: akin_def k)
  qed
  ultimately show ?thesis using ok by (simp add: families_ok_def ends_at_def k)
qed

text \<open>Dropping whole families.\<close>

lemma families_filter:
  assumes ok: "families_ok cfg now ts"
    and whole: "\<And>t t'. akin t t' \<Longrightarrow> P t = P t'"
  shows "families_ok cfg now (filter P ts)"
proof -
  have "length (filter (unused f) (filter P ts)) \<le> 1" for f
    using ok length_filter_filter [of "unused f" P ts] order_trans unfolding families_ok_def by blast
  moreover have "distinct (map tn_hash (filter P ts))" using ok by (simp add: families_ok_def distinct_map_filter)
  moreover have "ends_at cfg (filter P ts) t" if t: "t \<in> set ts" "P t" for t
  proof -
    from ok t(1) obtain t' where t': "t' \<in> set ts" "tn_family t' = tn_family t" "tn_expires t = tn_created t' + ttl cfg" "akin t t'"
      by (auto simp: families_ok_def ends_at_def)
    with whole t(2) have "P t'" by blast
    with t' ok t(1) show ?thesis by (auto simp: families_ok_def ends_at_def)
  qed
  ultimately show ?thesis using ok by (simp add: families_ok_def)
qed

lemma ends_at_snoc:
  "ends_at cfg ts y \<Longrightarrow> (tn_family t = tn_family y \<Longrightarrow> tn_expires y \<le> tn_created t + ttl cfg) \<Longrightarrow> ends_at cfg (ts @ [t]) y"
  by (auto simp: ends_at_def)

lemma families_snoc:
  assumes ok: "families_ok cfg now ts" and hash: "tn_hash t \<notin> tn_hash ` set ts" and t: "tn_created t = now"
    and old: "\<And>y. y \<in> set ts \<Longrightarrow> tn_family t = tn_family y \<Longrightarrow> tn_expires y \<le> now + ttl cfg"
    and new: "ends_at cfg (ts @ [t]) t"
    and kin: "\<And>y. y \<in> set ts \<Longrightarrow> tn_family y = tn_family t \<Longrightarrow> akin y t"
    and one: "filter (unused (tn_family t)) ts = []"
  shows "families_ok cfg now (ts @ [t])"
  unfolding families_ok_def
proof (intro conjI ballI allI impI)
  show "distinct (map tn_hash (ts @ [t]))" using ok hash by (simp add: families_ok_def)
next
  fix f show "length (filter (unused f) (ts @ [t])) \<le> 1"
    using ok one by (cases "f = tn_family t") (simp_all add: families_ok_def unused_def)
next
  fix y assume y: "y \<in> set (ts @ [t])"
  show "tn_created y \<le> now" using y ok t by (auto simp: families_ok_def)
  show "ends_at cfg (ts @ [t]) y"
  proof (cases "y \<in> set ts")
    case True
    then have "ends_at cfg ts y" using ok by (simp add: families_ok_def)
    with old [OF True] t show ?thesis by (auto intro: ends_at_snoc)
  qed (use y new in simp)
  fix z assume z: "z \<in> set (ts @ [t])" and f: "tn_family z = tn_family y"
  have sym: "akin a b \<Longrightarrow> akin b a" for a b by (simp add: akin_def)
  consider "y \<in> set ts" "z \<in> set ts" | "y \<in> set ts" "z = t" | "y = t" "z \<in> set ts" | "y = t" "z = t" using y z by auto
  then show "akin y z"
  proof cases
    case 1
    with ok f show ?thesis by (simp add: families_ok_def)
  next
    case 2
    with kin f show ?thesis by simp
  next
    case 3
    with kin [of z] f sym show ?thesis by simp
  next
    case 4
    then show ?thesis by (simp add: akin_def)
  qed
qed

text \<open>A first token, and the next of a family whose tokens are all used.\<close>

lemma families_open:
  assumes ok: "families_ok cfg now ts" and t: "tn_created t = now" "tn_expires t = now + ttl cfg"
    and new: "tn_family t \<notin> tn_family ` set ts" "tn_hash t \<notin> tn_hash ` set ts"
  shows "families_ok cfg now (ts @ [t])"
proof -
  have apart: "tn_family x \<noteq> tn_family t" if "x \<in> set ts" for x
    using imageI [OF that, of tn_family] new(1) by auto
  show ?thesis
  proof (rule families_snoc [OF ok new(2) t(1)])
    show "ends_at cfg (ts @ [t]) t" using t apart by (auto simp: ends_at_def)
    show "filter (unused (tn_family t)) ts = []" using apart by (auto simp: filter_empty_conv unused_def)
  qed (use apart in force)+
qed

lemma families_next:
  assumes ok: "families_ok cfg now ts" and x: "x \<in> set ts" "tn_family x = tn_family t" "akin x t"
    and t: "tn_created t = now" and new: "tn_hash t \<notin> tn_hash ` set ts"
    and idle: "filter (unused (tn_family t)) ts = []"
  shows "families_ok cfg now (ts @ [t])"
proof -
  have kin: "akin y t" if "y \<in> set ts" "tn_family y = tn_family t" for y
  proof -
    have "akin x y" using ok x(1,2) that by (simp add: families_ok_def)
    with x(3) show ?thesis by (simp add: akin_def)
  qed
  have x_end: "ends_at cfg ts x" and x_now: "tn_created y \<le> now" if "y \<in> set ts" for y using ok x(1) that by (auto simp: families_ok_def)
  have now: "tn_expires t \<le> now + ttl cfg"
    using x x_end x_now x(1) by (fastforce simp: ends_at_def akin_def)
  have same: "tn_expires x = tn_expires t" using x(3) by (simp add: akin_def)
  show ?thesis
  proof (rule families_snoc [OF ok new t _ _ kin idle])
    fix y assume "y \<in> set ts" "tn_family t = tn_family y"
    then have "tn_expires y = tn_expires t" using kin by (simp add: akin_def)
    with now show "tn_expires y \<le> now + ttl cfg" by simp
  next
    show "ends_at cfg (ts @ [t]) t" using x_end [OF x(1)] x(2) same now t by (auto simp: ends_at_def)
  qed
qed

section \<open>Where a live token stands\<close>

definition on_post :: "(string \<rightharpoonup> account) \<Rightarrow> string \<Rightarrow> key \<Rightarrow> bool" where
  "on_post A i l \<longleftrightarrow> (\<exists>u. A i = Some u \<and> us_active u \<and> l \<in> set (us_posts u))"

definition stands :: "(string \<rightharpoonup> account) \<Rightarrow> token \<Rightarrow> bool" where
  "stands A t \<longleftrightarrow> (tn_revoked t = None \<longrightarrow> (\<exists>l. tn_loc t = Some l \<and> on_post A (tn_user t) l))"

definition sessions_ok :: "authConfig \<Rightarrow> instant \<Rightarrow> hospital \<Rightarrow> bool" where
  "sessions_ok cfg now s \<longleftrightarrow> families_ok cfg now (hp_tokens s) \<and> (\<forall>t \<in> set (hp_tokens s). stands (map_of (hp_accounts s)) t)"

lemma sessions_later: "sessions_ok cfg now s \<Longrightarrow> now \<le> now' \<Longrightarrow> sessions_ok cfg now' s"
  by (auto simp: sessions_ok_def intro: families_later)

lemma sessions_keep:
  assumes "sessions_ok cfg now s" "hp_tokens s' = hp_tokens s"
    and "\<And>i l. on_post (map_of (hp_accounts s)) i l \<Longrightarrow> on_post (map_of (hp_accounts s')) i l"
  shows "sessions_ok cfg now s'"
  using assms unfolding sessions_ok_def stands_def by auto

lemma families_revokeAll: "families_ok cfg now ts \<Longrightarrow> families_ok cfg now
   (map (\<lambda>t. if tn_user t = i \<and> tn_revoked t = None then t\<lparr>tn_revoked := Some z\<rparr> else t) ts)"
  by (rule families_map) (auto simp: akin_def split: if_splits)

text \<open>An account's postings may go, its sessions with them.\<close>

lemma sessions_closed:
  assumes "sessions_ok cfg now s" "hp_tokens s' = hp_tokens (revokeAll i z s)"
    and "\<And>j l. j \<noteq> i \<Longrightarrow> on_post (map_of (hp_accounts s)) j l \<Longrightarrow> on_post (map_of (hp_accounts s')) j l"
  shows "sessions_ok cfg now s'"
  unfolding sessions_ok_def
proof (intro conjI ballI)
  show "families_ok cfg now (hp_tokens s')" using assms(1,2) by (simp add: sessions_ok_def revokeAll_def families_revokeAll)
  fix t assume "t \<in> set (hp_tokens s')"
  then obtain x where x: "x \<in> set (hp_tokens s)"
    and t: "t = (if tn_user x = i \<and> tn_revoked x = None then x\<lparr>tn_revoked := Some z\<rparr> else x)"
    by (auto simp: assms(2) revokeAll_def)
  show "stands (map_of (hp_accounts s')) t"
  proof (cases "tn_user x = i")
    case True
    with t show ?thesis by (auto simp: stands_def)
  next
    case False
    with t have "t = x" by simp
    with assms(1) x False assms(3) show ?thesis by (auto simp: sessions_ok_def stands_def)
  qed
qed

lemma on_post_update: "j \<noteq> i \<Longrightarrow> on_post (map_of (hp_accounts (update_account i f s))) j l = on_post (map_of (hp_accounts s)) j l"
  by (simp add: on_post_def update_account_def)

lemma on_post_same: "(\<And>u. us_active (f u) = us_active u \<and> us_posts (f u) = us_posts u) \<Longrightarrow>
  on_post (map_of (hp_accounts (update_account i f s))) j l = on_post (map_of (hp_accounts s)) j l"
  by (auto simp: on_post_def update_account_def)

section \<open>The desks\<close>

lemma resetPassword_sessions: "resetPasswordTx emp pw hs z s = Inr s' \<Longrightarrow> sessions_ok cfg now s \<Longrightarrow> sessions_ok cfg now s'"
  by (auto simp: resetPasswordTx_def elim!: sessions_closed) (auto simp: revokeAll_def on_post_update)

lemma deactivateUser_sessions: "deactivateUserTx emp z s = Inr s' \<Longrightarrow> sessions_ok cfg now s \<Longrightarrow> sessions_ok cfg now s'"
  by (auto simp: deactivateUserTx_def elim!: sessions_closed) (auto simp: revokeAll_def on_post_update)

lemma setPostings_sessions: "setUserPostingsTx emp ls z s = Inr s' \<Longrightarrow> sessions_ok cfg now s \<Longrightarrow> sessions_ok cfg now s'"
  by (auto simp: setUserPostingsTx_def Let_def elim!: sessions_closed split: if_splits) (auto simp: revokeAll_def on_post_update)

lemma updateUserRoleLoc_sessions:
  assumes "updateUserRoleLocTx emp pick loc z s = Inr s'" "sessions_ok cfg now s"
  shows "sessions_ok cfg now s'"
proof -
  obtain r i u where "takeRole s pick = Inr r" "byEmp s emp = Inr (i, u)" and s': "s' = (let s1 = markAssigned (fst r) (update_account i (give_role r loc) s) in
       if ro_desk (snd r) = us_desk u \<and> loc = us_loc u then s1
       else revokeAll i z (update_account i (\<lambda>u. u\<lparr>us_posts := [loc]\<rparr>) s1))"
    using assms(1) by (auto simp: updateUserRoleLocTx_def Let_def)
  show ?thesis
  proof (cases "ro_desk (snd r) = us_desk u \<and> loc = us_loc u")
    case True
    show ?thesis unfolding s' Let_def if_P [OF True]
      by (rule sessions_keep [OF assms(2)]) (simp_all add: on_post_same give_role_def)
  next
    case False
    show ?thesis unfolding s' Let_def if_not_P [OF False] update_account_twice
      by (rule sessions_closed [OF assms(2), of _ i z]) (simp_all add: revokeAll_def on_post_update markAssigned_def update_role_def update_account_def on_post_def)
  qed
qed

lemma deleteUser_sessions:
  assumes "deleteUserTx e i u s = Inr s'" "sessions_ok cfg now s"
  shows "sessions_ok cfg now s'"
proof -
  have s': "hp_tokens s' = filter (\<lambda>t. tn_user t \<noteq> i) (hp_tokens s)" "hp_accounts s' = filter (\<lambda>a. fst a \<noteq> i) (hp_accounts s)"
    using assms(1) by (auto simp: deleteUserTx_def on_house_def split: if_splits)
  have "families_ok cfg now (hp_tokens s')" unfolding s'
    by (rule families_filter) (use assms(2) in \<open>auto simp: sessions_ok_def akin_def\<close>)
  moreover have "stands (map_of (hp_accounts s')) t" if "t \<in> set (hp_tokens s')" for t
    using that assms(2) by (auto simp: s' sessions_ok_def stands_def on_post_def map_of_filter_key)
  ultimately show ?thesis by (simp add: sessions_ok_def)
qed

lemma sessions_trails [simp]: "sessions_ok cfg now (announce ch s) = sessions_ok cfg now s"
  "sessions_ok cfg now (logAction a b c d s) = sessions_ok cfg now s"
  by (simp_all add: sessions_ok_def)

lemma people_sessions:
  "resetAccount_tx c i pw hs t s = Inr s' \<Longrightarrow> sessions_ok cfg now s \<Longrightarrow> sessions_ok cfg now s'"
  "deactivateAccount_tx c i t s = Inr s' \<Longrightarrow> sessions_ok cfg now s \<Longrightarrow> sessions_ok cfg now s'"
  "updateRoleLoc_tx c i r l t s = Inr s' \<Longrightarrow> sessions_ok cfg now s \<Longrightarrow> sessions_ok cfg now s'"
  "setPostings_tx c i ls t s = Inr s' \<Longrightarrow> sessions_ok cfg now s \<Longrightarrow> sessions_ok cfg now s'"
  "removeAccount_tx e c i s = Inr s' \<Longrightarrow> sessions_ok cfg now s \<Longrightarrow> sessions_ok cfg now s'"
proof -
  show "resetAccount_tx c i pw hs t s = Inr s' \<Longrightarrow> sessions_ok cfg now s \<Longrightarrow> sessions_ok cfg now s'"
    by (auto simp: resetAccount_tx_def dest!: resetPassword_sessions)
  show "deactivateAccount_tx c i t s = Inr s' \<Longrightarrow> sessions_ok cfg now s \<Longrightarrow> sessions_ok cfg now s'"
    by (auto simp: deactivateAccount_tx_def dest!: deactivateUser_sessions)
  show "updateRoleLoc_tx c i r l t s = Inr s' \<Longrightarrow> sessions_ok cfg now s \<Longrightarrow> sessions_ok cfg now s'"
    by (auto simp: updateRoleLoc_tx_def dest!: updateUserRoleLoc_sessions)
  show "setPostings_tx c i ls t s = Inr s' \<Longrightarrow> sessions_ok cfg now s \<Longrightarrow> sessions_ok cfg now s'"
    by (auto simp: setPostings_tx_def dest!: setPostings_sessions)
  show "removeAccount_tx e c i s = Inr s' \<Longrightarrow> sessions_ok cfg now s \<Longrightarrow> sessions_ok cfg now s'"
    by (auto simp: removeAccount_tx_def dest!: deleteUser_sessions)
qed

text \<open>The rest leave the tokens, and take no posting.\<close>

definition posts_kept :: "hospital \<Rightarrow> hospital \<Rightarrow> bool" where
  "posts_kept s s' \<longleftrightarrow> (\<forall>i l. on_post (map_of (hp_accounts s)) i l \<longrightarrow> on_post (map_of (hp_accounts s')) i l)"

lemma posts_kept_same: "hp_accounts s' = hp_accounts s \<Longrightarrow> posts_kept s s'"
  by (simp add: posts_kept_def)

lemma posts_kept_trails [simp]: "posts_kept s (announce ch s') = posts_kept s s'" "posts_kept s (logAction a b c d s') = posts_kept s s'"
  "posts_kept s s" "posts_kept s (writeRole i f s') = posts_kept s s'" "posts_kept s (markAssigned i s') = posts_kept s s'"
  by (simp_all add: posts_kept_def)

lemma role_posts:
  "createRole_tx c n d p t s = Inr s' \<Longrightarrow> posts_kept s s'"
  "deactivateRole_tx c i s = Inr s' \<Longrightarrow> posts_kept s s'"
  "reactivateRole_tx c i s = Inr s' \<Longrightarrow> posts_kept s s'"
  "removeRole_tx c i s = Inr s' \<Longrightarrow> posts_kept s s'"
proof -
  show "createRole_tx c n d p t s = Inr s' \<Longrightarrow> posts_kept s s'"
    by (auto simp: createRole_tx_def insertRole_def split: if_splits intro!: posts_kept_same dest!: officeId_sel(2))
qed (auto simp: deactivateRole_tx_def reactivateRole_tx_def removeRole_tx_def Let_def split: if_splits intro!: posts_kept_same)

lemma posts_kept_relabel: "posts_kept s (relabel i n s)"
proof -
  have "map_of (hp_accounts (relabel i n s)) k =
      map_option (\<lambda>u. if us_role u = Some i then u\<lparr>us_label := n\<rparr> else u) (map_of (hp_accounts s) k)" for k
    by (simp add: relabel_def map_of_map)
  then have "on_post (map_of (hp_accounts (relabel i n s))) j l = on_post (map_of (hp_accounts s)) j l" for j l
    by (cases "map_of (hp_accounts s) j") (auto simp: on_post_def)
  then show ?thesis by (simp add: posts_kept_def)
qed

lemma posts_kept_write: "posts_kept (writeRole i f s) s' = posts_kept s s'"
  by (simp add: posts_kept_def)

lemma updateRole_posts: "updateRole_tx c i n d p s = Inr s' \<Longrightarrow> posts_kept s s'"
  using posts_kept_relabel [of "writeRole i f s" i for f]
  by (auto simp: updateRole_tx_def Let_def posts_kept_write split: if_splits)

lemma createUser_posts:
  assumes "createUserTx pick b pw hs s = Inr (x, s')"
  shows "posts_kept s s'"
proof -
  obtain n s0 where al: "allocateUserNumber s = (n, s0)" by (metis prod.collapse)
  have s0: "hp_accounts s0 = hp_accounts s" using al by (auto simp: allocateUserNumber_def Let_def)
  from assms obtain r i nm u s1 where "insertAccount i nm u s0 = Inr s1" "s' = markAssigned r s1"
    by (auto simp: createUserTx_def al Let_def split: if_splits)
  then have "hp_accounts s' = hp_accounts s @ [(i, u)]" by (auto simp: insertAccount_def on_house_def s0)
  then show ?thesis by (auto simp: posts_kept_def on_post_def map_add_Some_iff)
qed

lemma reactivateUser_posts: "reactivateUserTx emp s = Inr s' \<Longrightarrow> posts_kept s s'"
  by (auto simp: reactivateUserTx_def Let_def posts_kept_def on_post_def update_account_def)

lemma account_posts:
  "createAccount_tx c r b pw hs s = Inr s' \<Longrightarrow> posts_kept s s'"
  "reactivateAccount_tx c i s = Inr s' \<Longrightarrow> posts_kept s s'"
  by (auto simp: createAccount_tx_def reactivateAccount_tx_def dest!: createUser_posts reactivateUser_posts)

lemma place_posts:
  "openOutlet_tx c b s = Inr s' \<Longrightarrow> posts_kept s s'"
  "updateOutlet_tx c k ob s = Inr s' \<Longrightarrow> posts_kept s s'"
  "closeOutlet_tx c k s = Inr s' \<Longrightarrow> posts_kept s s'"
  "reopenOutlet_tx c k s = Inr s' \<Longrightarrow> posts_kept s s'"
  by (auto simp: openOutlet_tx_def updateOutlet_tx_def closeOutlet_tx_def reopenOutlet_tx_def switch_outlet_def Let_def
      split: if_splits option.splits intro!: posts_kept_same)

lemma seats_posts: "same_seats s s' \<Longrightarrow> posts_kept s s'"
  by (simp add: same_seats_def posts_kept_same)

lemma tokens_steps [simp]: "hp_tokens (on_support i f s) = hp_tokens s" "hp_tokens (appendMessage i w n b z s) = hp_tokens s"
  "hp_tokens (setSupportStatus i st s) = hp_tokens s"
  by (simp_all add: on_support_def appendMessage_def setSupportStatus_def)

lemma support_tokens:
  "raiseSupport_tx c rb t s = Inr s' \<Longrightarrow> hp_tokens s' = hp_tokens s"
  "replySupport_tx c i body t s = Inr s' \<Longrightarrow> hp_tokens s' = hp_tokens s"
  "setSupport_tx c i st s = Inr s' \<Longrightarrow> hp_tokens s' = hp_tokens s"
  "rate_tx c i n s = Inr s' \<Longrightarrow> hp_tokens s' = hp_tokens s"
  "deskReply_tx c i body st' t s = Inr s' \<Longrightarrow> hp_tokens s' = hp_tokens s"
  "deskStatus_tx i st s = Inr s' \<Longrightarrow> hp_tokens s' = hp_tokens s"
proof -
  show "raiseSupport_tx c rb t s = Inr s' \<Longrightarrow> hp_tokens s' = hp_tokens s"
    by (auto simp: raiseSupport_tx_def Let_def dest: officeId_sel(3))
qed (auto simp: replySupport_tx_def setSupport_tx_def rate_tx_def deskReply_tx_def deskStatus_tx_def Let_def split: if_splits)

lemma contract_tokens:
  "createContract_tx cb t s = Inr s' \<Longrightarrow> hp_tokens s' = hp_tokens s"
  "patchContract_tx c i cp s = Inr s' \<Longrightarrow> hp_tokens s' = hp_tokens s"
  "removeContract_tx i s = Inr s' \<Longrightarrow> hp_tokens s' = hp_tokens s"
proof -
  show "createContract_tx cb t s = Inr s' \<Longrightarrow> hp_tokens s' = hp_tokens s"
    by (auto simp: createContract_tx_def on_house_def dest!: officeId_sel(3))
qed (auto simp: patchContract_tx_def removeContract_tx_def on_house_def Let_def split: if_splits)

lemma desk_sessions:
  assumes "desk_tx op t s = Inr s'" "sessions_ok cfg now s"
  shows "sessions_ok cfg now s'"
proof -
  have keep: "sheets s' = sheets s \<Longrightarrow> posts_kept s s' \<Longrightarrow> sessions_ok cfg now s'"
    "hp_tokens s' = hp_tokens s \<Longrightarrow> same_seats s s' \<Longrightarrow> sessions_ok cfg now s'"
    using assms(2) seats_posts by (auto simp: sheets_eq posts_kept_def elim: sessions_keep)
  show ?thesis
    by (cases op) (use assms in \<open>auto intro: people_sessions keep(1) role_sheets role_posts updateRole_posts account_sheets
      account_posts place_sheets place_posts keep(2) support_tokens support_seats raise_seats contract_tokens contract_seats
      patchContract_seats closeShift_frame(4) shift_seats(1)
      keep(1) [OF master_sheets(1) seats_posts [OF payers_seats(1)]] keep(1) [OF master_sheets(2) seats_posts [OF payers_seats(2)]]
      keep(1) [OF master_sheets(3) seats_posts [OF toggle_seats]]
      keep(1) [OF wish_sheets(1) seats_posts [OF wish_seats(1)]] keep(1) [OF wish_sheets(2) seats_posts [OF wish_seats(2)]]
      keep(1) [OF vendor_sheets(1) seats_posts [OF vendor_seats(1)]] keep(1) [OF vendor_sheets(2) seats_posts [OF vendor_seats(2)]]\<close>)
qed

section \<open>The sign-in\<close>

lemma find_hash: "find (\<lambda>t. tn_hash t = h) ts = None \<longleftrightarrow> h \<notin> tn_hash ` set ts"
  by (induction ts) auto

lemma insertRefresh_Inr: "insertRefresh t s = Inr s' \<longleftrightarrow>
   tn_hash t \<notin> tn_hash ` set (hp_tokens s) \<and> s' = s\<lparr>hp_tokens := hp_tokens s @ [t]\<rparr>"
  by (auto simp: insertRefresh_def refreshByHash_def find_hash)

lemma refreshByHash_in: "refreshByHash s h = Some t \<Longrightarrow> t \<in> set (hp_tokens s) \<and> tn_hash t = h"
  using find_in unfolding refreshByHash_def by fastforce

text \<open>A sign-in mints the first token of a family, on an account that is active and posted there.\<close>

lemma issue_first:
  assumes "issue cfg i u f h None loc now s = Inr (x, s')" "sessions_ok cfg now s" "f \<notin> tn_family ` set (hp_tokens s)"
    and "map_of (hp_accounts s) i = Some u" "us_active u" "ss_loc x \<in> set (us_posts u)"
  shows "sessions_ok cfg now s'"
proof -
  define here where "here = (case loc of Some l \<Rightarrow> l | None \<Rightarrow> us_loc u)"
  have "filter (\<lambda>t. tn_family t = f) (hp_tokens s) = []" using assms(3) by (auto simp: filter_empty_conv image_iff)
  then have none: "familyStartedAt s f = None" by (simp add: familyStartedAt_def)
  define t where "t = \<lparr>tn_user = i, tn_family = f, tn_hash = h, tn_expires = now + ttl cfg, tn_used = None,
           tn_revoked = None, tn_loc = Some here, tn_created = now\<rparr>"
  have s': "tn_hash t \<notin> tn_hash ` set (hp_tokens s)" "s' = s\<lparr>hp_tokens := hp_tokens s @ [t]\<rparr>" and x: "ss_loc x = here"
    using assms(1) unfolding issue_def Let_def here_def [symmetric] none by (auto simp: insertRefresh_Inr t_def)
  have "families_ok cfg now (hp_tokens s')" unfolding s'(2)
    using assms(2,3) s'(1) by (auto simp: sessions_ok_def t_def intro!: families_open)
  moreover have "stands (map_of (hp_accounts s')) t" using assms(4,5,6) x by (simp add: s'(2) stands_def on_post_def t_def)
  ultimately show ?thesis using assms(2) by (simp add: sessions_ok_def s'(2))
qed

lemma userByEmp_in: "userByEmp s emp = Some u \<Longrightarrow> u \<in> set (hp_accounts s)"
  using find_in by (fastforce simp: userByEmp_def)

lemma admitTo_None: "admitTo s u loc = None \<Longrightarrow> loc \<in> set (us_posts u)"
  by (auto simp: admitTo_def split: sum.splits)

lemma issue_loc: "issue cfg i u f h st loc now s = Inr (x, s') \<Longrightarrow> ss_loc x = (case loc of Some l \<Rightarrow> l | None \<Rightarrow> us_loc u)"
  by (auto simp: issue_def Let_def)

lemma login_tx_sessions:
  assumes "login_tx cfg u loc w now s = Inr (x, s')" "sessions_ok cfg now s" "all_seated s"
    and "u \<in> set (hp_accounts s)" "us_active (snd u)" "dw_family w \<notin> tn_family ` set (hp_tokens s)"
  shows "sessions_ok cfg now s'"
proof -
  obtain s1 where made: "issue cfg (fst u) (snd u) (dw_family w) (dw_hash w) None loc now s = Inr (x, s1)"
    and adm: "Option.bind loc (admitTo s (snd u)) = None"
    and s': "s' = s1 \<or> startShift (fst u) (ss_loc x) now s1 = Inr s'"
    using assms(1) by (auto simp: login_tx_def split: if_splits)
  have here: "ss_loc x \<in> set (us_posts (snd u))"
    using issue_loc [OF made] adm admitTo_None seatedD [OF assms(3), of "fst u" "snd u"] assms(4)
    by (cases loc) (auto simp: seated_def)
  have "map_of (hp_accounts s) (fst u) = Some (snd u)" using assms(3,4) by (simp add: all_seated_def)
  from issue_first [OF made assms(2,6) this assms(5) here] have s1: "sessions_ok cfg now s1" .
  from s' show ?thesis
  proof
    assume "startShift (fst u) (ss_loc x) now s1 = Inr s'"
    from startShift_frame(2,3) [OF this] s1 show ?thesis by (simp add: sessions_ok_def)
  qed (use s1 in simp)
qed

lemma login_sessions:
  assumes "login cfg verify emp pw loc w now (a, s) = (out, a', s')" "sessions_ok cfg now s" "all_seated s"
    and "dw_family w \<notin> tn_family ` set (hp_tokens s)"
  shows "sessions_ok cfg now s'"
proof -
  consider "s' = s" | x u where "login_tx cfg u loc w now s = Inr (x, s')" "userByEmp s emp = Some u" "us_active (snd u)"
    using assms(1) by (auto simp: login_def Let_def bind_eq_Some_conv split: if_splits option.splits sum.splits)
  then show ?thesis
  proof cases
    case (2 x u)
    with login_tx_sessions [OF 2(1) assms(2,3) userByEmp_in [OF 2(2)] 2(3) assms(4)] show ?thesis by simp
  qed (use assms(2) in simp)
qed

text \<open>A refresh uses up its token and mints the next, ending when the family ends.\<close>

lemma foldl_min: "foldl min a xs = Min (set (a # xs))" for a :: int
proof (induction xs arbitrary: a)
  case (Cons x xs)
  then show ?case by (cases "xs = []") (simp_all add: min.assoc)
qed simp

lemma familyStartedAt_Some:
  assumes "familyStartedAt s f = Some m"
  shows "\<exists>t \<in> set (hp_tokens s). tn_family t = f \<and> tn_created t = m"
    and "t \<in> set (hp_tokens s) \<Longrightarrow> tn_family t = f \<Longrightarrow> m \<le> tn_created t"
proof -
  let ?ts = "filter (\<lambda>t. tn_family t = f) (hp_tokens s)"
  obtain y ys where ts: "?ts = y # ys" and m: "m = Min (set (map tn_created ?ts))"
    using assms by (auto simp: familyStartedAt_def foldl_min split: list.splits)
  have "m \<in> set (map tn_created ?ts)" unfolding m by (rule Min_in) (simp_all add: ts)
  then show "\<exists>t \<in> set (hp_tokens s). tn_family t = f \<and> tn_created t = m" by auto
  show "m \<le> tn_created t" if "t \<in> set (hp_tokens s)" "tn_family t = f"
    unfolding m by (rule Min_le) (use that in auto)
qed

lemma family_end:
  assumes "families_ok cfg now (hp_tokens s)" "t \<in> set (hp_tokens s)"
  shows "\<exists>m. familyStartedAt s (tn_family t) = Some m \<and> m \<le> now \<and> tn_expires t = m + ttl cfg"
proof -
  have "filter (\<lambda>x. tn_family x = tn_family t) (hp_tokens s) \<noteq> []" using assms(2) by (auto simp: filter_empty_conv)
  then obtain m where m: "familyStartedAt s (tn_family t) = Some m" by (cases "filter (\<lambda>x. tn_family x = tn_family t) (hp_tokens s)") (simp_all add: familyStartedAt_def)
  from familyStartedAt_Some(1) [OF m] obtain y where y: "y \<in> set (hp_tokens s)" "tn_family y = tn_family t" "tn_created y = m" by blast
  have "ends_at cfg (hp_tokens s) t" using assms by (simp add: families_ok_def)
  then obtain z where z: "z \<in> set (hp_tokens s)" "tn_family z = tn_family t" "tn_expires t = tn_created z + ttl cfg"
    and le: "tn_expires t \<le> m + ttl cfg" using y by (auto simp: ends_at_def)
  have "m \<le> tn_created z" using familyStartedAt_Some(2) [OF m z(1,2)] .
  with z(3) le have "tn_expires t = m + ttl cfg" by simp
  moreover have "m \<le> now" using assms(1) y by (auto simp: families_ok_def)
  ultimately show ?thesis using m by blast
qed

lemma families_used: "families_ok cfg now (hp_tokens s) \<Longrightarrow> families_ok cfg now (hp_tokens (markUsed t z s))"
  unfolding markUsed_def by (simp, rule families_map) (auto simp: akin_def split: if_splits)

lemma sole_unused:
  assumes "families_ok cfg now (hp_tokens s)" "t \<in> set (hp_tokens s)" "tn_used t = None"
  shows "filter (unused (tn_family t)) (hp_tokens (markUsed t z s)) = []"
proof -
  have "length (filter (unused (tn_family t)) (hp_tokens s)) \<le> 1" using assms(1) by (simp add: families_ok_def)
  moreover have "t \<in> set (filter (unused (tn_family t)) (hp_tokens s))" using assms(2,3) by (simp add: unused_def)
  ultimately have only: "filter (unused (tn_family t)) (hp_tokens s) = [t]"
    by (cases "filter (unused (tn_family t)) (hp_tokens s)") auto
  have "y = t" if "y \<in> set (hp_tokens s)" "tn_family y = tn_family t" "tn_used y = None" for y
  proof -
    have "y \<in> set (filter (unused (tn_family t)) (hp_tokens s))" using that by (simp add: unused_def)
    then show ?thesis unfolding only by simp
  qed
  then show ?thesis by (auto simp: filter_empty_conv markUsed_def unused_def split: if_splits)
qed

lemma refresh_tx_sessions:
  assumes "refresh_tx cfg p h now s = Inr (out, s')" "sessions_ok cfg now s"
  shows "sessions_ok cfg now s'"
proof -
  have ok: "families_ok cfg now (hp_tokens s)" using assms(2) by (simp add: sessions_ok_def)
  consider "s' = s" | f where "s' = revokeFamily f now s" | t where "s' = markUsed t now s"
    | t u x where "refreshByHash s p = Some t" "tn_revoked t = None" "tn_used t = None" "account_of s (tn_user t) = Some u" "us_active u"
        "issue cfg (tn_user t) u (tn_family t) h (familyStartedAt (markUsed t now s) (tn_family t))
           (Some (case tn_loc t of Some l \<Rightarrow> l | None \<Rightarrow> us_loc u)) now (markUsed t now s) = Inr (x, s')"
    using assms(1) by (auto simp: refresh_tx_def Let_def split: option.splits if_splits)
  then show ?thesis
  proof cases
    case (2 f)
    have "families_ok cfg now (hp_tokens s')" unfolding 2 revokeFamily_def
      by (simp, rule families_map [OF ok]) (auto simp: akin_def split: if_splits)
    moreover have "stands (map_of (hp_accounts s')) y" if "y \<in> set (hp_tokens s')" for y
      using that assms(2) by (auto simp: 2 revokeFamily_def sessions_ok_def stands_def split: if_splits)
    ultimately show ?thesis by (simp add: sessions_ok_def)
  next
    case (3 t)
    then show ?thesis using families_used [OF ok] assms(2)
      by (auto simp: sessions_ok_def stands_def) (auto simp: markUsed_def split: if_splits)
  next
    case (4 t u x)
    let ?s = "markUsed t now s"
    have t: "t \<in> set (hp_tokens s)" using refreshByHash_in [OF 4(1)] by simp
    obtain l where l: "tn_loc t = Some l" "l \<in> set (us_posts u)"
      using assms(2) t 4(2,4) by (auto simp: sessions_ok_def stands_def on_post_def account_of_def)
    let ?t = "t\<lparr>tn_used := Some now\<rparr>"
    have t': "?t \<in> set (hp_tokens ?s)" using t 4(3) by (force simp: markUsed_def)
    from family_end [OF families_used [OF ok] t'] obtain m where
      m: "familyStartedAt ?s (tn_family t) = Some m" "m \<le> now" "tn_expires t = m + ttl cfg" by auto
    define n where "n = \<lparr>tn_user = tn_user t, tn_family = tn_family t, tn_hash = h, tn_expires = tn_expires t, tn_used = None,
           tn_revoked = None, tn_loc = Some l, tn_created = now\<rparr>"
    have n: "tn_hash n \<notin> tn_hash ` set (hp_tokens ?s)" "s' = ?s\<lparr>hp_tokens := hp_tokens ?s @ [n]\<rparr>"
      using 4(6) m l by (auto simp: issue_def Let_def insertRefresh_Inr n_def min_def)
    have "families_ok cfg now (hp_tokens ?s @ [n])"
      using families_used [OF ok] t' n(1) sole_unused [OF ok t 4(3)] 4(2)
      by (intro families_next [of cfg now "hp_tokens ?s" ?t n]) (simp_all add: n_def akin_def)
    moreover have "stands (map_of (hp_accounts s')) n"
      using 4(4,5) l by (simp add: n(2) stands_def on_post_def n_def account_of_def markUsed_def)
    moreover have "stands (map_of (hp_accounts s')) y" if "y \<in> set (hp_tokens ?s)" for y
      using that assms(2) by (auto simp: n(2) markUsed_def sessions_ok_def stands_def split: if_splits)
    ultimately show ?thesis by (simp add: sessions_ok_def n(2))
  qed (use assms(2) in simp)
qed

lemma refresh_sessions: "sessions_ok cfg now s \<Longrightarrow> sessions_ok cfg now (snd (refresh cfg p h now s))"
  by (auto simp: refresh_def split: option.splits sum.splits intro: refresh_tx_sessions)

lemma revokeFamily_sessions:
  assumes "sessions_ok cfg now s"
  shows "sessions_ok cfg now (revokeFamily f z s)"
proof -
  have "families_ok cfg now (hp_tokens s)" using assms by (simp add: sessions_ok_def)
  then have "families_ok cfg now (hp_tokens (revokeFamily f z s))"
    unfolding revokeFamily_def by (simp, intro families_map) (auto simp: akin_def split: if_splits)
  moreover have "stands (map_of (hp_accounts (revokeFamily f z s))) y" if "y \<in> set (hp_tokens (revokeFamily f z s))" for y
    using that assms by (auto simp: revokeFamily_def sessions_ok_def stands_def split: if_splits)
  ultimately show ?thesis by (simp add: sessions_ok_def)
qed

lemma logout_sessions: "sessions_ok cfg now s \<Longrightarrow> sessions_ok cfg now (snd (logout p z s))"
  by (auto simp: logout_def split: option.splits intro: revokeFamily_sessions)

lemma changePassword_sessions:
  assumes "sessions_ok cfg now s" "all_seated s" "dw_family w \<notin> tn_family ` set (hp_tokens s)"
  shows "sessions_ok cfg now (snd (changePassword cfg verify hs i cur nxt w now s))"
proof (cases "snd (changePassword cfg verify hs i cur nxt w now s) = s")
  case False
  define g where "g = (\<lambda>u :: account. u\<lparr>us_hash := hs nxt, us_mustChange := False\<rparr>)"
  define s1 where "s1 = revokeAll i now (update_account i g s)"
  obtain u where u0: "account_of s i = Some u" using False by (cases "account_of s i") (auto simp: changePassword_def)
  have go: "verify (us_hash u) cur" "us_active u" "nxt \<noteq> cur" using False u0 by (auto simp: changePassword_def split: if_splits)
  then have res: "snd (changePassword cfg verify hs i cur nxt w now s) =
      (case changePassword_tx cfg i (hs nxt) w now s of Inl e \<Rightarrow> s | Inr (x, s') \<Rightarrow> s')"
    using u0 by (simp add: changePassword_def split: sum.split)
  then obtain x s' where tx: "changePassword_tx cfg i (hs nxt) w now s = Inr (x, s')"
    using False by (cases "changePassword_tx cfg i (hs nxt) w now s") auto
  have out: "snd (changePassword cfg verify hs i cur nxt w now s) = s'" unfolding res tx by simp
  have acc: "account_of s1 i = Some (g u)" using u0 by (simp add: s1_def account_of_def update_account_def)
  have made: "issue cfg i (g u) (dw_family w) (dw_hash w) None None now s1 = Inr (x, s')"
    using tx acc unfolding changePassword_tx_def Let_def s1_def [symmetric, unfolded g_def] by simp
  note u = u0 go(2)
  have s1: "sessions_ok cfg now s1"
    by (rule sessions_closed [OF assms(1), of _ i now]) (simp_all add: s1_def revokeAll_def on_post_update)
  have fresh: "dw_family w \<notin> tn_family ` set (hp_tokens s1)"
    using assms(3) by (auto simp: s1_def revokeAll_def update_account_def)
  have acc: "map_of (hp_accounts s1) i = Some (g u)" using acc by (simp add: account_of_def)
  have "(i, u) \<in> set (hp_accounts s)" using u by (simp add: account_of_def map_of_SomeD)
  then have "us_loc u \<in> set (us_posts u)" using seatedD [OF assms(2)] by (simp add: seated_def)
  then have "ss_loc x \<in> set (us_posts (g u))" using issue_loc [OF made] by (simp add: g_def)
  from issue_first [OF made s1 fresh acc _ this] u show ?thesis unfolding out by (simp add: g_def)
qed (use assms in simp)

lemma purge_sessions:
  assumes "sessions_ok cfg now s"
  shows "sessions_ok cfg now (purge z s)"
proof -
  have "families_ok cfg now (hp_tokens (purge z s))" unfolding purge_def
    by (simp, rule families_filter) (use assms in \<open>auto simp: sessions_ok_def akin_def\<close>)
  with assms show ?thesis by (auto simp: sessions_ok_def purge_def)
qed

section \<open>A run\<close>

lemma oexec_sessions:
  assumes "sessions_ok (dr_cfg w) t (snd s)" "all_seated (snd s)" "new_draw op (snd s)"
  shows "sessions_ok (dr_cfg w) t (snd (oexec w op t s))"
proof (cases s)
  fix a h assume s: "s = (a, h)"
  show ?thesis
  proof (cases op)
    case (O_desk d)
    have "sessions_ok (dr_cfg w) t (snd (commit (desk_tx d t) h))"
      by (rule keeps_commit) (use s assms(1) in \<open>auto intro: desk_sessions\<close>)
    with O_desk s show ?thesis by simp
  next
    case (O_login emp pw loc x)
    with s assms show ?thesis
      by (cases "login (dr_cfg w) (dr_verify w) emp pw loc x t (a, h)") (auto dest: login_sessions)
  next
    case (O_password i cur nxt x)
    with s assms show ?thesis by (simp add: changePassword_sessions)
  qed (use s assms in \<open>simp_all add: refresh_sessions logout_sessions purge_sessions\<close>)
qed

lemma office_sessions:
  "office w s0 t0 s t \<Longrightarrow> all_seated (snd s0) \<Longrightarrow> sessions_ok (dr_cfg w) t0 (snd s0) \<Longrightarrow> sessions_ok (dr_cfg w) t (snd s)"
proof (induction rule: office.induct)
  case (call s t t' op)
  have "sessions_ok (dr_cfg w) t' (snd s)" using call by (blast intro: sessions_later)
  moreover have "all_seated (snd s)" using call.hyps(1) call.prems(1) by (rule office_seated)
  ultimately show ?case using call.hyps(3) by (rule oexec_sessions)
next
  case (beside a s t coll op)
  then show ?case by (simp add: sessions_ok_def)
qed simp

end
