(* ===== verification/Offices.thy ===== *)
theory Offices
  imports Sessions Shop
begin

text \<open>
  The properties of the offices: what an account, its role and its place owe each other, and what a session is
  worth, after any run of the desks' writes and of the sign-in; and a small hospital to see them at work.
\<close>

section \<open>Everyone has a seat\<close>

text \<open>C25. Nobody is left without a seat. Whatever the offices do to roles, accounts, postings and outlets, in any
  order and refused or not, with the stock and trading services at work beside them: an account's home is among its
  postings; the role it holds is there, is of its own desk and carries its label, and an account that is neither the
  super admin nor the server's own holds one; and while such an account is active, its role is active, its desk works
  at its home, and what \<open>loadAccess\<close> reads for its next request is that role's permissions, in force. (The server's
  own account, which \<open>lib/system-users.ts\<close> keeps without role or posting, is not in the table; and the command line's
  \<open>setAdmin\<close> is not among these writes, and can break it: \<open>unflagged_admin_unseated\<close>.)\<close>

theorem everyone_seated:
  assumes "office w s0 t0 (a, s) t" and "all_seated (snd s0)" and "(i, u) \<in> set (hp_accounts s)"
  shows "us_loc u \<in> set (us_posts u) \<and>
    (\<forall>k. us_role u = Some k \<longrightarrow> (\<exists>r. role_of s k = Some r \<and> ro_desk r = us_desk u \<and> ro_name r = us_label u)) \<and>
    (\<not> us_admin u \<and> \<not> us_system u \<longrightarrow> us_role u \<noteq> None \<and>
      (us_active u \<longrightarrow> worksAt (us_desk u) (us_loc u) (map_of (db_locations (ho_db (hp_house s))) (us_loc u)) \<and>
        (\<exists>k r. us_role u = Some k \<and> role_of s k = Some r \<and> ro_active r \<and>
           loadAccess s i = Some \<lparr>ra_desk = us_desk u, ra_perms = ro_perms r, ra_active = True\<rparr>)))"
proof -
  have ok: "all_seated s" using office_seated [OF assms(1,2)] by simp
  then have i: "account_of s i = Some u" using assms(3) by (simp add: all_seated_def account_of_def)
  have fits: "role_fits (map_of (hp_roles s)) u" and at_work: "at_work (map_of (hp_roles s)) (map_of (db_locations (hp_db s))) u"
    and home: "us_loc u \<in> set (us_posts u)"
    using seatedD [OF ok assms(3)] by (simp_all add: seated_def)
  show ?thesis
  proof (intro conjI allI impI)
    show "us_loc u \<in> set (us_posts u)" by (rule home)
    show "\<exists>r. role_of s k = Some r \<and> ro_desk r = us_desk u \<and> ro_name r = us_label u" if "us_role u = Some k" for k
      using fits that by (auto simp: role_fits_def role_of_def)
    assume o': "\<not> us_admin u \<and> \<not> us_system u"
    then show "us_role u \<noteq> None" using fits by (simp add: role_fits_def ordinary_def)
    assume "us_active u"
    with o' at_work obtain k r where k: "us_role u = Some k" "map_of (hp_roles s) k = Some r" "ro_active r"
      and work: "worksAt (us_desk u) (us_loc u) (map_of (db_locations (hp_db s)) (us_loc u))"
      by (auto simp: at_work_def ordinary_def)
    show "worksAt (us_desk u) (us_loc u) (map_of (db_locations (ho_db (hp_house s))) (us_loc u))"
      using work by (simp add: hp_db_def)
    have "ro_desk r = us_desk u" using fits k by (auto simp: role_fits_def)
    then show "\<exists>k r. us_role u = Some k \<and> role_of s k = Some r \<and> ro_active r \<and>
        loadAccess s i = Some \<lparr>ra_desk = us_desk u, ra_perms = ro_perms r, ra_active = True\<rparr>"
      using k i \<open>us_active u\<close> by (auto simp: role_of_def loadAccess_def)
  qed
qed

section \<open>What a session is worth\<close>




section \<open>A small hospital\<close>

text \<open>One role, one account that holds it, and the shop's two places.\<close>

definition keeper :: roleRow where
  "keeper = \<lparr>ro_name = ''Storekeeper'', ro_desk = StoreDesk, ro_perms = snd (DESK_DEFAULTS StoreDesk), ro_active = True,
     ro_ever = True, ro_version = 0\<rparr>"

definition asha :: account where
  "asha = \<lparr>us_emp = ''E001'', us_email = ''asha@example.org'', us_desk = StoreDesk, us_role = Some ''r1'', us_label = ''Storekeeper'',
     us_loc = ''store'', us_colour = [], us_phone = [], us_hash = ''secret'', us_mustChange = False, us_active = True,
     us_admin = False, us_system = False, us_posts = [''store'']\<rparr>"

definition small :: hospital where
  "small = \<lparr>hp_house = shop, hp_roles = [(''r1'', keeper)], hp_accounts = [(''u1'', asha)], hp_userSeq = Some 2, hp_tokens = [],
     hp_log = [], hp_places = [], hp_shifts = [], hp_support = [], hp_wishes = [], hp_vendors = [], hp_moq = (\<lambda>_. None),
     hp_notices = []\<rparr>"

definition front_door :: door where
  "front_door = \<lparr>dr_cfg = \<lparr>cf_ttlDays = 30, cf_perMinute = 5\<rparr>, dr_verify = (=), dr_hash = (\<lambda>p. p)\<rparr>"

definition no_tries :: attempts where "no_tries = \<lparr>at_map = [], at_starts = 0\<rparr>"

lemma small_seated: "all_seated small"
  by (simp add: all_seated_def small_def seated_def role_fits_def at_work_def ordinary_def keeper_def asha_def worksAt_def hp_db_def
      shop_def shop_db_def atOutlet_def STORE_def)

text \<open>The role is renamed, and the account's label with it.\<close>

definition renames :: oop where
  "renames = O_desk (D_updateRole (clerk ''store'') ''r1'' (Some ''Head storekeeper'') None None)"

definition renamed :: hospital where "renamed = snd (oexec front_door renames 5 (no_tries, small))"

lemma renamed_accounts: "hp_accounts renamed = [(''u1'', asha\<lparr>us_label := ''Head storekeeper''\<rparr>)]"
  by code_simp

theorem everyone_seated_witness:
  "\<exists>r. role_of renamed ''r1'' = Some r \<and> ro_name r = ''Head storekeeper'' \<and> loadAccess renamed ''u1'' \<noteq> None"
proof -
  have "office front_door (no_tries, small) 0 (oexec front_door renames 5 (no_tries, small)) 5"
    by (rule office.call [OF office.opens]) (simp_all add: renames_def)
  then have o': "office front_door (no_tries, small) 0 (no_tries, renamed) 5"
    by (simp add: renamed_def renames_def)
  show ?thesis using everyone_seated [OF o', of "''u1''" "asha\<lparr>us_label := ''Head storekeeper''\<rparr>"] small_seated
    by (auto simp: renamed_accounts asha_def)
qed






section \<open>The one door past the rules\<close>

text \<open>A super admin is nobody's staff, so the outlet they call home can close over them; the command line's
  \<open>setAdmin\<close> then gives the account back its role without asking whether its desk works there.\<close>

definition empty_cafe :: hospital where
  "empty_cafe = small\<lparr>hp_house := shop\<lparr>ho_db := shop_db\<lparr>db_balances := (\<lambda>_. None), db_moves := []\<rparr>\<rparr>,
     hp_roles := [(''r1'', keeper\<lparr>ro_desk := Counter\<rparr>)],
     hp_accounts := [(''u1'', asha\<lparr>us_desk := Counter, us_role := None, us_loc := ''cafe'', us_posts := [''cafe''], us_admin := True\<rparr>)]\<rparr>"

definition cafe_closed :: hospital where
  "cafe_closed = snd (commit (closeOutlet_tx (clerk ''store'') ''cafe'') empty_cafe)"

lemma unflagged_admin_unseated:
  "all_seated empty_cafe \<and> all_seated cafe_closed \<and> (\<exists>s. setAdmin_tx ''E001'' False cafe_closed = Inr s \<and> \<not> all_seated s)"
proof -
  have 1: "all_seated empty_cafe"
    by (simp add: all_seated_def empty_cafe_def small_def seated_def role_fits_def at_work_def ordinary_def keeper_def asha_def)
  have c: "map_of (db_locations (ho_db (hp_house cafe_closed))) ''cafe'' = Some ((demo_loc ''Cafe'' Outlet_Type)\<lparr>loc_list := Some ''L1'', loc_active := False\<rparr>)"
    by code_simp
  have a: "hp_accounts cafe_closed = hp_accounts empty_cafe" "hp_roles cafe_closed = hp_roles empty_cafe"
    unfolding cafe_closed_def commit_def closeOutlet_tx_def switch_outlet_def on_locations_def
    by (auto simp: on_house_def split: sum.split if_splits option.splits)
  have 2: "all_seated cafe_closed"
    unfolding cafe_closed_def by (rule keeps_commit [where P = all_seated]) (use 1 desk_seated [of "D_closeOutlet (clerk ''store'') ''cafe''"] in auto)
  have r: "takeRole cafe_closed (PickDesk Counter) = Inr (''r1'', keeper\<lparr>ro_desk := Counter\<rparr>)"
    by (simp add: takeRole_def lowest_active_def a empty_cafe_def stable_sort_def) (simp_all add: keeper_def)
  obtain s where s: "setAdmin_tx ''E001'' False cafe_closed = Inr s"
    and u: "hp_accounts s = [(''u1'', asha\<lparr>us_desk := Counter, us_role := Some ''r1'', us_loc := ''cafe'', us_posts := [''cafe'']\<rparr>)]"
    and h: "hp_house s = hp_house cafe_closed"
    by (simp add: setAdmin_tx_def byEmp_def a empty_cafe_def asha_def r markAssigned_def update_account_def update_role_def update_row_def keeper_def)
  have "\<not> all_seated s" using c
    by (simp add: all_seated_def u h hp_db_def seated_def at_work_def ordinary_def asha_def worksAt_def atOutlet_def)
  with 1 2 s show ?thesis by blast
qed

end

