(* ===== verification/Spec2Isabelle.thy ===== *)
theory Spec2Isabelle
  imports Movement Rules Desks Ward Offices
begin

text \<open>
  A verification library for RCH, the stock, kitchen, till and buying system of a hospital canteen: the shared
  rules of \<open>packages/domain\<close> and \<open>packages/contract\<close>, and the services of \<open>apps/api\<close> that move stock and money.
  A definition is the code it is named after; a transaction of a service is a function
  \<open>db \<Rightarrow> error + db\<close> (or \<open>house \<Rightarrow> error + house\<close>) with every check of the code as a branch, and the service
  runs it all or nothing.

  \<^bold>\<open>The parts of the program, and how they meet.\<close> A central store and a kitchen supply outlets. An outlet asks
  (\<open>modules/requests\<close>), the store approves and issues a pick ticket (\<open>lib/tickets.ts\<close>, \<open>modules/tickets\<close>) that
  holds stock where it stands (\<open>lib/reservations.ts\<close>), a six-digit code hands it over, the receipt lands it.
  The kitchen makes what is ordered (\<open>modules/production\<close>), outlets ask each other (\<open>modules/shopasks\<close>), and
  every quantity that moves is a row of one ledger beside one balance per shelf (\<open>lib/ledger.ts\<close>). Outlets sell
  (\<open>lib/sale.ts\<close>, \<open>modules/pos\<close>) for cash, on account (\<open>modules/receivables\<close>) or to a phone that scanned a code
  and paid a gateway (\<open>modules/qr\<close>, \<open>lib/refunds.ts\<close>); a business day is closed by a Z (\<open>modules/register\<close>).
  Shelves are put right (\<open>lib/adjustments.ts\<close>, \<open>modules/wastage\<close>) and filled from vendors
  (\<open>modules/requisitions\<close>, \<open>modules/purchaseorders\<close>, \<open>modules/grn\<close>). Around all this stand the offices: who may work
  where and do what (\<open>modules/roles\<close>, \<open>modules/admin\<close>, \<open>lib/users-admin.ts\<close>), how they sign in (\<open>modules/auth\<close>), their
  shifts, the support desk, and the registers of outlets, payers, vendors and contracts.

  \<^bold>\<open>The theories.\<close>
  \<^item> \<open>Prelude\<close> (exact numbers, rounding, stable sort, rows under a key; the locale \<open>grid_rounding\<close>), \<open>Text\<close>
    (strings and printed figures, \<open>domain/format.ts\<close>), \<open>Contract\<close> (the wire's words and documents).
  \<^item> The rules of \<open>packages/domain\<close>: \<open>Transitions\<close> (status tables; the locales \<open>status_table\<close> and \<open>lifecycle\<close>),
    \<open>Stock\<close>, \<open>Billing\<close>, \<open>Planning\<close>, \<open>Dates\<close>, \<open>Permissions\<close> (with \<open>plugins/rbac.ts\<close>), \<open>Documents\<close>; what they promise is
    in \<open>Rules\<close> and \<open>Desks\<close>.
  \<^item> The stock services: \<open>Errors\<close>, \<open>Db\<close> (the tables of \<open>db/schema\<close> that move stock, as one record),
    \<open>Ledger\<close>, \<open>Tickets\<close>, \<open>Requests\<close>, \<open>Production\<close>, \<open>ShopAsks\<close>; \<open>Holds\<close> and \<open>Lifecycle\<close> say what each operation
    keeps; \<open>System\<close> runs them as one machine (\<open>exec\<close>, \<open>runs\<close>, the locale \<open>guarded_machine\<close>).
  \<^item> The trading services: \<open>House\<close> (the rest of the tables, around those of \<open>Db\<close>), \<open>Accounts\<close>, \<open>Register\<close>, \<open>Till\<close>,
    \<open>Corrections\<close>, \<open>Buying\<close>, \<open>Orders\<close>, \<open>Refunds\<close>, \<open>Qr\<close>, and \<open>Wire\<close> (what a body must satisfy first); \<open>Selling\<close>,
    \<open>Sales\<close>, \<open>Shelves\<close> and \<open>Phone\<close> say what each writes; \<open>Hall\<close> runs all of them, the stock machine included, as one
    machine (\<open>hop\<close>, \<open>serve\<close>, \<open>hexec\<close>).
  \<^item> Abstract specifications and refinements: \<open>Custody\<close> (two figures a shelf, six deeds; the locale
    \<open>shelf_machine\<close>), \<open>Purse\<close> and \<open>Wallet\<close> (where a QR customer's money is, eight steps; the locale \<open>purse_machine\<close>),
    \<open>Payback\<close> (the life of a refund).
  \<^item> \<open>Gateway\<close> (the calls that wait for the payment gateway: checkout, verify, webhook, the worker's passes),
    \<open>Courier\<close> (they are runs of the house; a refund is asked for once) and \<open>Vouched\<close> (with forged deliveries among the
    real ones, what the books say came in is what the gateway holds as captured).
  \<^item> The offices: \<open>Hospital\<close> (their tables, around the house), \<open>People\<close>, \<open>Premises\<close>, \<open>Roster\<close>, \<open>Shifts\<close>, \<open>Signin\<close>, \<open>Front\<close>,
    \<open>Masters\<close>; \<open>Office\<close> runs them as one machine beside the house (\<open>dop\<close>, \<open>oop\<close>, \<open>oexec\<close>, \<open>office\<close>); \<open>Seats\<close>, \<open>Footprint\<close> and
    \<open>Sessions\<close> say what each write keeps, \<open>Offices\<close> holds the properties.
  \<^item> The properties that span components: \<open>Movement\<close> (stock, requests, tickets), \<open>Dues\<close> and \<open>Trading\<close> (sales,
    accounts, the Z), \<open>Ordering\<close> (placing an order, late news, figures). \<open>Demo\<close>, \<open>Shop\<close> and \<open>Ward\<close> are small
    hospitals on which every property with a hypothesis is applied.
  \<^bold>\<open>State.\<close> A table is an association list under its key, in the order of insertion where a query may see it, or a
  map where it may not; a \<open>check\<close> or unique index the code relies on is a refusal (\<open>Internal\<close>, a 500). Row locks
  order transactions and are not modelled further: a run is any sequence of transactions. Instants are
  milliseconds; numbers are exact rationals on the decimal grids the columns have, so the error of a double below
  the grid is left out. What the code draws or reads from outside is an argument: the clock, the six digits,
  tokens, digests, session ids, the host's collation \<open>coll\<close>, which rows \<open>skip locked\<close> passed over, and every
  answer of the gateway.

  \<^bold>\<open>What the lemmas show.\<close> In every state the services can reach from a house on its opening day: nothing promised
  is missing from its shelf, the books balance, a ticket holds its own lines exactly while it is issued and can
  be collected, figures stay on their grids; requests, tickets and refunds
  walk their tables; a sale takes what is free and its void gives it back whatever came between; an account
  stays under its ceiling; a Z stands; a QR payment is in one place, settled once and refunded once, and never more than the
  gateway holds. An active member of staff has an active role that fits their desk and a place it works at; a live
  session is for somebody posted where it stands. About the shared rules: approvals, claims, bills, allocation,
  apportionment, phone numbers, opening hours, document numbers, outlet keys and permission grants.

  \<^bold>\<open>Bounds and fuel.\<close> Recursion is structural throughout, except that \<open>outletKeyFor\<close> tries suffixes with a fuel of one
  more than the keys taken, which is enough because the suffixes differ (\<open>try_suffix_some\<close>, property
  \<open>outlet_key\<close>).

  \<^bold>\<open>Not modelled.\<close> Readers and the wire shape of answers; the audit trail, server-sent events and idempotency
  records (what is announced is kept, as \<open>emitChanged\<close>); deadlock retries and the locks themselves; access
  tokens and the caches in memory; catalogue, price list, profile and image upkeep; HTTP, Razorpay and signatures behind
  the gateway's interface; \<open>apps/audit\<close>, the seed and the command line; the screens of \<open>UI\<close>, whose shared rules are
  those of \<open>packages/domain\<close>.
\<close>

end
